(* ===== verification/Prelude.thy ===== *)
theory Prelude imports Complex_Main "HOL-Library.AList" begin

text \<open>
  Shared vocabulary of the development.  The modelled programs are Python: dynamically typed
  JSON-like values, dictionaries, strings tested against small regular expressions, exceptions.
  This theory holds those notions once:
  \<^item> \<open>json\<close>: the values \<open>json.loads\<close> can return; numbers keep Python's distinction of
    \<open>int\<close>, \<open>float\<close> (exact rationals, the infinities and NaN) and \<open>bool\<close>;
  \<^item> \<open>exn\<close> and \<open>res\<close>: exceptions as values of a sum type;
  \<^item> character classes and \<open>fullmatch\<close> of the bounded classes the sources use;
  \<^item> the list, option and association-list lemmas the components share.
\<close>

section \<open>Exceptions and results\<close>

datatype exn =
    ValueError string
  | RuntimeError string
  | TypeError string
  | KeyError string
  | IndexError string
  | AttributeError string
  | TimeoutError string
  | OSError string
  | ImportError string
  | HTTPException int string
  | HTTPError int
  | CacheProbeMiss
  | CancelledError
  | StopIteration

text \<open>\<open>type(error).__name__\<close>\<close>

fun exn_name :: "exn \<Rightarrow> string" where
  "exn_name (ValueError _) = ''ValueError''"
| "exn_name (RuntimeError _) = ''RuntimeError''"
| "exn_name (TypeError _) = ''TypeError''"
| "exn_name (KeyError _) = ''KeyError''"
| "exn_name (IndexError _) = ''IndexError''"
| "exn_name (ImportError _) = ''ImportError''"
| "exn_name (AttributeError _) = ''AttributeError''"
| "exn_name (TimeoutError _) = ''TimeoutError''"
| "exn_name (OSError _) = ''OSError''"
| "exn_name (HTTPException _ _) = ''HTTPException''"
| "exn_name (HTTPError _) = ''HTTPError''"
| "exn_name CacheProbeMiss = ''CacheProbeMiss''"
| "exn_name CancelledError = ''CancelledError''"
| "exn_name StopIteration = ''StopIteration''"

type_synonym 'a res = "exn + 'a"

definition is_ok :: "'a res \<Rightarrow> bool" where
  "is_ok r = (case r of Inl _ \<Rightarrow> False | Inr _ \<Rightarrow> True)"

definition res_bind :: "'a res \<Rightarrow> ('a \<Rightarrow> 'b res) \<Rightarrow> 'b res" where
  "res_bind r f = (case r of Inl e \<Rightarrow> Inl e | Inr x \<Rightarrow> f x)"

text \<open>Running a fallible step over a list stops at the first exception.\<close>

fun res_fold :: "('a \<Rightarrow> 's \<Rightarrow> 's res) \<Rightarrow> 'a list \<Rightarrow> 's \<Rightarrow> 's res" where
  "res_fold f [] s = Inr s"
| "res_fold f (x # xs) s = (case f x s of Inl e \<Rightarrow> Inl e | Inr t \<Rightarrow> res_fold f xs t)"

fun res_map :: "('a \<Rightarrow> 'b res) \<Rightarrow> 'a list \<Rightarrow> 'b list res" where
  "res_map f [] = Inr []"
| "res_map f (x # xs) =
     (case f x of Inl e \<Rightarrow> Inl e
      | Inr y \<Rightarrow> (case res_map f xs of Inl e \<Rightarrow> Inl e | Inr ys \<Rightarrow> Inr (y # ys)))"

lemma is_ok_simps [simp]: "is_ok (Inl e) = False" "is_ok (Inr x) = True"
  by (simp_all add: is_ok_def)

lemma res_bind_simps [simp]: "res_bind (Inl e) f = Inl e" "res_bind (Inr x) f = f x"
  by (simp_all add: res_bind_def)

text \<open>A guard that raises: \<open>if not b: raise e\<close>.\<close>

definition require :: "bool \<Rightarrow> exn \<Rightarrow> unit res" where
  "require b e = (if b then Inr () else Inl e)"

lemma require_Inr [simp]: "require b e = Inr u \<longleftrightarrow> b"
  by (simp add: require_def)

lemma res_bind_Inr_iff: "res_bind r f = Inr y \<longleftrightarrow> (\<exists>x. r = Inr x \<and> f x = Inr y)"
  by (cases r) auto

lemma require_bind_Inr [simp]: "res_bind (require b e) f = Inr y \<longleftrightarrow> b \<and> f () = Inr y"
  by (simp add: require_def)

lemma require_bind_True [simp]: "b \<Longrightarrow> res_bind (require b e) f = f ()"
  by (simp add: require_def)

lemma res_bind_InrD: "res_bind r f = Inr y \<Longrightarrow> \<exists>x. r = Inr x \<and> f x = Inr y"
  by (cases r) auto

lemma res_fold_append:
  "res_fold f (xs @ ys) s = (case res_fold f xs s of Inl e \<Rightarrow> Inl e | Inr t \<Rightarrow> res_fold f ys t)"
  by (induction xs arbitrary: s) (auto split: sum.splits)

lemma res_fold_invariant:
  assumes "res_fold f xs s = Inr t" and "P s"
    and "\<And>x u v. x \<in> set xs \<Longrightarrow> P u \<Longrightarrow> f x u = Inr v \<Longrightarrow> P v"
  shows "P t"
  using assms
proof (induction xs arbitrary: s)
  case Nil
  then show ?case by simp
next
  case (Cons x xs)
  from Cons.prems(1) obtain u where u: "f x s = Inr u" "res_fold f xs u = Inr t"
    by (auto split: sum.splits)
  have "P u" by (rule Cons.prems(3) [OF _ Cons.prems(2) u(1)]) simp
  with u(2) show ?case
    by (rule Cons.IH) (auto intro: Cons.prems(3))
qed

lemma res_map_Inr:
  "res_map f xs = Inr ys \<Longrightarrow> length ys = length xs \<and> (\<forall>i < length xs. f (xs ! i) = Inr (ys ! i))"
  by (induction xs arbitrary: ys) (auto split: sum.splits simp: nth_Cons split: nat.splits)

lemma res_map_list_all:
  assumes "res_map f xs = Inr ys" "\<And>x y. x \<in> set xs \<Longrightarrow> f x = Inr y \<Longrightarrow> P y"
  shows "list_all P ys"
  using assms
proof (induction xs arbitrary: ys)
  case (Cons a xs)
  then obtain y ys' where "ys = y # ys'" "f a = Inr y" "res_map f xs = Inr ys'" by (auto split: sum.splits)
  then show ?case using Cons.IH [of ys'] Cons.prems(2) by (auto intro: Cons.prems(2))
qed simp

lemma res_map_mem: "res_map f xs = Inr ys \<Longrightarrow> y \<in> set ys \<Longrightarrow> \<exists>x \<in> set xs. f x = Inr y"
  by (induction xs arbitrary: ys) (auto split: sum.splits)

lemma res_map_all: "res_map f xs = Inr ys \<Longrightarrow> x \<in> set xs \<Longrightarrow> \<exists>y. f x = Inr y"
  by (induction xs arbitrary: ys) (auto split: sum.splits)

text \<open>Effects: a step over a world, which may raise.  An exception keeps the effects done so far.\<close>

type_synonym ('w, 'a) io = "'w \<Rightarrow> 'a res \<times> 'w"

definition io_return :: "'a \<Rightarrow> ('w, 'a) io" where "io_return x w = (Inr x, w)"

definition io_raise :: "exn \<Rightarrow> ('w, 'a) io" where "io_raise e w = (Inl e, w)"

definition io_lift :: "'a res \<Rightarrow> ('w, 'a) io" where "io_lift r w = (r, w)"

definition io_bind :: "('w, 'a) io \<Rightarrow> ('a \<Rightarrow> ('w, 'b) io) \<Rightarrow> ('w, 'b) io" where
  "io_bind m f w = (case m w of (Inl e, w') \<Rightarrow> (Inl e, w') | (Inr x, w') \<Rightarrow> f x w')"

lemma io_simps [simp]:
  "io_return x w = (Inr x, w)" "io_raise e w = (Inl e, w)" "io_lift r w = (r, w)"
  by (simp_all add: io_return_def io_raise_def io_lift_def)

lemma io_bind_simps [simp]:
  "m w = (Inl e, w') \<Longrightarrow> io_bind m f w = (Inl e, w')"
  "m w = (Inr x, w') \<Longrightarrow> io_bind m f w = f x w'"
  by (simp_all add: io_bind_def)

lemma io_bind_lift [simp]:
  "io_bind (io_lift r) f w = (case r of Inl e \<Rightarrow> (Inl e, w) | Inr x \<Rightarrow> f x w)"
  by (simp add: io_bind_def split: sum.split)

lemma io_bindE:
  assumes "io_bind m f w = (r, w')"
  obtains e where "m w = (Inl e, w')" "r = Inl e"
  | x w1 where "m w = (Inr x, w1)" "f x w1 = (r, w')"
  using assms by (auto simp: io_bind_def split: prod.splits sum.splits)

lemma io_bind_InrD: "io_bind m f w = (Inr y, w') \<Longrightarrow> \<exists>x w1. m w = (Inr x, w1) \<and> f x w1 = (Inr y, w')"
  by (erule io_bindE) auto

text \<open>\<open>io_keeps R m\<close>: whatever \<open>m\<close> returns or raises, the world before and after are related.\<close>

definition io_keeps :: "('w \<Rightarrow> 'w \<Rightarrow> bool) \<Rightarrow> ('w, 'a) io \<Rightarrow> bool" where
  "io_keeps R m = (\<forall>w. R w (snd (m w)))"

lemma io_keepsD: "io_keeps R m \<Longrightarrow> m w = (r, w') \<Longrightarrow> R w w'"
  by (metis io_keeps_def snd_conv)

lemma io_keeps_bind:
  assumes "io_keeps R m" "\<And>x. io_keeps S (f x)"
    and "\<And>a b c. R a b \<Longrightarrow> S b c \<Longrightarrow> S a c" "\<And>a b. R a b \<Longrightarrow> S a b"
  shows "io_keeps S (io_bind m f)"
  unfolding io_keeps_def
proof
  fix w
  obtain r w1 where m: "m w = (r, w1)" by (cases "m w")
  then have "R w w1" using assms(1) by (auto dest: io_keepsD)
  moreover have "S w1 (snd (f x w1))" for x using assms(2) by (simp add: io_keeps_def)
  ultimately show "S w (snd (io_bind m f w))"
    using m assms(3,4) by (cases r) auto
qed

lemma io_keeps_pure:
  "(\<And>w. R w w) \<Longrightarrow> io_keeps R (io_return x)" "(\<And>w. R w w) \<Longrightarrow> io_keeps R (io_raise e)"
  "(\<And>w. R w w) \<Longrightarrow> io_keeps R (io_lift r)"
  by (simp_all add: io_keeps_def)

text \<open>Weakest preconditions of an effect: what holds after a value and after an exception.\<close>

definition io_wp :: "('w, 'a) io \<Rightarrow> ('a \<Rightarrow> 'w \<Rightarrow> bool) \<Rightarrow> ('w \<Rightarrow> bool) \<Rightarrow> 'w \<Rightarrow> bool" where
  "io_wp m Q E w = (case m w of (Inr x, w') \<Rightarrow> Q x w' | (Inl e, w') \<Rightarrow> E w')"

named_theorems wp_rules

lemma io_wp_basic [wp_rules]:
  "io_wp (io_return x) Q E w = Q x w" "io_wp (io_raise e) Q E w = E w"
  "io_wp (io_lift r) Q E w = (case r of Inl e \<Rightarrow> E w | Inr x \<Rightarrow> Q x w)"
  "io_wp (\<lambda>w. (r, w)) Q E w = (case r of Inl e \<Rightarrow> E w | Inr x \<Rightarrow> Q x w)"
  by (simp_all add: io_wp_def split: sum.split)

lemma io_wp_bind [wp_rules]: "io_wp (io_bind m f) Q E w = io_wp m (\<lambda>x. io_wp (f x) Q E) E w"
  by (simp add: io_wp_def io_bind_def split: prod.split sum.split)

lemma io_wp_if [wp_rules]:
  "io_wp (if b then m else m') Q E w = (if b then io_wp m Q E w else io_wp m' Q E w)"
  by simp

lemma io_wp_mono:
  "io_wp m Q E w \<Longrightarrow> (\<And>x w. Q x w \<Longrightarrow> Q' x w) \<Longrightarrow> (\<And>w. E w \<Longrightarrow> E' w) \<Longrightarrow> io_wp m Q' E' w"
  by (auto simp: io_wp_def split: prod.splits sum.splits)

lemma io_wp_snd: "io_wp m (\<lambda>_. P) P w \<Longrightarrow> P (snd (m w))"
  by (auto simp: io_wp_def split: prod.splits sum.splits)

lemma io_wpD: "io_wp m Q E w \<Longrightarrow> m w = (Inr x, w') \<Longrightarrow> Q x w'" "io_wp m Q E w \<Longrightarrow> m w = (Inl e, w') \<Longrightarrow> E w'"
  by (simp_all add: io_wp_def)

section \<open>Step relations\<close>

text \<open>The contract between a step relation and a property of its states: every step keeps it.  The
  components interpret it on their step relations and invariants.\<close>

locale step_invariant =
  fixes step :: "'s \<Rightarrow> 's \<Rightarrow> bool" and inv :: "'s \<Rightarrow> bool"
  assumes keeps: "step s t \<Longrightarrow> inv s \<Longrightarrow> inv t"
begin

lemma reachable: "step\<^sup>*\<^sup>* s t \<Longrightarrow> inv s \<Longrightarrow> inv t"
  by (induction rule: rtranclp_induct) (auto intro: keeps)

end

section \<open>JSON values\<close>

datatype json =
    JNull
  | JBool bool
  | JInt int
  | JFlt rat
  | JInf bool
  | JNaN
  | JStr string
  | JList "json list"
  | JObj "(string \<times> json) list"

fun is_obj :: "json \<Rightarrow> bool" where
  "is_obj (JObj _) = True"
| "is_obj _ = False"

fun is_str :: "json \<Rightarrow> bool" where
  "is_str (JStr _) = True"
| "is_str _ = False"

fun is_list :: "json \<Rightarrow> bool" where
  "is_list (JList _) = True"
| "is_list _ = False"

text \<open>Python's \<open>type(x) is int\<close>: a \<open>bool\<close> is not accepted.\<close>

fun is_int :: "json \<Rightarrow> bool" where
  "is_int (JInt _) = True"
| "is_int _ = False"

text \<open>Truth value of a Python object; a NaN and the infinities are true.\<close>

fun truthy :: "json \<Rightarrow> bool" where
  "truthy JNull = False"
| "truthy (JBool b) = b"
| "truthy (JInt i) = (i \<noteq> 0)"
| "truthy (JFlt r) = (r \<noteq> 0)"
| "truthy (JInf _) = True"
| "truthy JNaN = True"
| "truthy (JStr s) = (s \<noteq> [])"
| "truthy (JList xs) = (xs \<noteq> [])"
| "truthy (JObj kvs) = (kvs \<noteq> [])"

text \<open>\<open>d.get(k)\<close> on a dictionary: \<open>None\<close> for a missing key.  The other types have no such
  method; every use is behind an \<open>isinstance\<close> test.\<close>

fun jget :: "json \<Rightarrow> string \<Rightarrow> json" where
  "jget (JObj kvs) k = (case map_of kvs k of None \<Rightarrow> JNull | Some v \<Rightarrow> v)"
| "jget _ k = JNull"

fun jhas :: "json \<Rightarrow> string \<Rightarrow> bool" where
  "jhas (JObj kvs) k = (map_of kvs k \<noteq> None)"
| "jhas _ k = False"

fun jkeys :: "json \<Rightarrow> string list" where
  "jkeys (JObj kvs) = map fst kvs"
| "jkeys _ = []"

text \<open>\<open>d[k] = v\<close> and \<open>d.pop(k, None)\<close>; insertion order is kept, as in Python.\<close>

fun jset :: "string \<Rightarrow> json \<Rightarrow> json \<Rightarrow> json" where
  "jset k v (JObj kvs) = JObj (AList.update k v kvs)"
| "jset k v j = j"

fun jpop :: "string \<Rightarrow> json \<Rightarrow> json" where
  "jpop k (JObj kvs) = JObj (AList.delete k kvs)"
| "jpop k j = j"

text \<open>Every object of the text names each key once: what the \<open>object_pairs_hook\<close> of the protected
  readers demands.\<close>

fun unique_keys :: "json \<Rightarrow> bool" where
  "unique_keys (JObj kvs) = (distinct (map fst kvs) \<and> (\<forall>(k, v) \<in> set kvs. unique_keys v))"
| "unique_keys (JList xs) = (\<forall>x \<in> set xs. unique_keys x)"
| "unique_keys v = True"

text \<open>\<open>isinstance(d, dict) and set(d) == keys\<close>.\<close>

definition exact_keys :: "string list \<Rightarrow> json \<Rightarrow> bool" where
  "exact_keys ks d = (is_obj d \<and> set (jkeys d) = set ks)"

text \<open>Numeric value: Python compares \<open>bool\<close>, \<open>int\<close> and \<open>float\<close> by value.\<close>

fun jnum :: "json \<Rightarrow> rat option" where
  "jnum (JBool b) = Some (if b then 1 else 0)"
| "jnum (JInt i) = Some (of_int i)"
| "jnum (JFlt r) = Some r"
| "jnum _ = None"

text \<open>\<open>isinstance(x, (int, float)) and not isinstance(x, bool) and math.isfinite(x)\<close>.\<close>

fun finite_number :: "json \<Rightarrow> rat option" where
  "finite_number (JInt i) = Some (of_int i)"
| "finite_number (JFlt r) = Some r"
| "finite_number _ = None"

text \<open>Python's \<open>x < i\<close> against an integer; \<open>JInf True\<close> is plus infinity.  Text, lists,
  dictionaries and \<open>None\<close> do not compare with numbers.\<close>

fun py_less_int :: "json \<Rightarrow> int \<Rightarrow> bool res" where
  "py_less_int (JInf pos) i = Inr (\<not> pos)"
| "py_less_int JNaN i = Inr False"
| "py_less_int x i = (case jnum x of Some r \<Rightarrow> Inr (r < of_int i) | None \<Rightarrow> Inl (TypeError ''<''))"

text \<open>Python's \<open>==\<close>: numbers by value, dictionaries without regard to order.\<close>

function (sequential) py_eq :: "json \<Rightarrow> json \<Rightarrow> bool" where
  "py_eq JNull JNull = True"
| "py_eq (JStr s) (JStr t) = (s = t)"
| "py_eq (JInf a) (JInf b) = (a = b)"
| "py_eq (JList xs) (JList ys) =
     (length xs = length ys \<and> (\<forall>(x, y) \<in> set (zip xs ys). py_eq x y))"
| "py_eq (JObj xs) (JObj ys) =
     (length xs = length ys \<and>
      (\<forall>(k, v) \<in> set xs. case map_of ys k of None \<Rightarrow> False | Some w \<Rightarrow> py_eq v w))"
| "py_eq a b =
     (case (jnum a, jnum b) of (Some x, Some y) \<Rightarrow> x = y | _ \<Rightarrow> False)"
  by pat_completeness auto
termination
  by (relation "measure (size \<circ> fst)")
     (auto simp: less_Suc_eq_le dest!: set_zip_leftD
           intro: size_list_estimation' order_trans[OF _ size_list_estimation'])


lemma py_eq_JStr [simp]: "py_eq (JStr s) x \<longleftrightarrow> x = JStr s" "py_eq x (JStr s) \<longleftrightarrow> x = JStr s"
  by (cases x; auto)+

lemma py_eq_JNull [simp]: "py_eq JNull x \<longleftrightarrow> x = JNull" "py_eq x JNull \<longleftrightarrow> x = JNull"
  by (cases x; auto)+

lemma jget_jset [simp]:
  "is_obj d \<Longrightarrow> jget (jset k v d) k' = (if k' = k then v else jget d k')"
  by (cases d) (auto simp: update_conv')

lemma jhas_jset [simp]: "is_obj d \<Longrightarrow> jhas (jset k v d) k' \<longleftrightarrow> k' = k \<or> jhas d k'"
  by (cases d) (auto simp: update_conv')

lemma jget_jpop [simp]: "jget (jpop k d) k' = (if k' = k then JNull else jget d k')"
  by (cases d) (auto simp: delete_conv')

lemma jhas_jpop [simp]: "jhas (jpop k d) k' \<longleftrightarrow> k' \<noteq> k \<and> jhas d k'"
  by (cases d) (auto simp: delete_conv')

lemma is_obj_jset [simp]: "is_obj (jset k v d) = is_obj d"
  by (cases d) auto

lemma is_obj_jpop [simp]: "is_obj (jpop k d) = is_obj d"
  by (cases d) auto

lemma jset_other: "k \<noteq> k' \<Longrightarrow> jget (jset k v d) k' = jget d k'"
  by (cases d) (auto simp: update_conv')

lemma jget_not_JNull_jhas: "jget d k \<noteq> JNull \<Longrightarrow> jhas d k"
  by (cases d) (auto split: option.splits)

text \<open>\<open>d[k]\<close> and \<open>d.get(k)\<close> with the exceptions they raise on a missing key or another type.\<close>

definition py_idx :: "json \<Rightarrow> string \<Rightarrow> json res" where
  "py_idx d k = (if is_obj d then (if jhas d k then Inr (jget d k) else Inl (KeyError k))
                 else Inl (TypeError k))"

definition py_get :: "json \<Rightarrow> string \<Rightarrow> json res" where
  "py_get d k = (if is_obj d then Inr (jget d k) else Inl (AttributeError k))"

definition py_get_or :: "json \<Rightarrow> string \<Rightarrow> json \<Rightarrow> json res" where
  "py_get_or d k z = (if is_obj d then Inr (if jhas d k then jget d k else z) else Inl (AttributeError k))"

lemma py_idx_Inr: "py_idx d k = Inr v \<longleftrightarrow> is_obj d \<and> jhas d k \<and> v = jget d k"
  by (auto simp: py_idx_def)

lemma py_get_Inr: "py_get d k = Inr v \<longleftrightarrow> is_obj d \<and> v = jget d k"
  by (auto simp: py_get_def)

lemmas py_access = py_idx_Inr py_get_Inr

fun obj_items :: "json \<Rightarrow> (string \<times> json) list" where
  "obj_items (JObj kvs) = kvs"
| "obj_items _ = []"

text \<open>A finite number that is not negative: the test the capacity modules repeat.\<close>

definition measurement :: "json \<Rightarrow> rat option" where
  "measurement v = (case finite_number v of Some r \<Rightarrow> if r < 0 then None else Some r | None \<Rightarrow> None)"

lemma measurement_nonneg: "measurement v = Some r \<Longrightarrow> 0 \<le> r"
  by (auto simp: measurement_def split: option.splits if_splits)

section \<open>Strings\<close>

text \<open>Strings are lists of \<open>char\<close>; the sources test them against bounded ASCII classes only.\<close>

definition digit_chars :: string where "digit_chars = ''0123456789''"
definition lower_chars :: string where "lower_chars = ''abcdefghijklmnopqrstuvwxyz''"
definition upper_chars :: string where "upper_chars = ''ABCDEFGHIJKLMNOPQRSTUVWXYZ''"
definition hex_chars :: string where "hex_chars = ''0123456789abcdef''"
definition alnum_chars :: string where "alnum_chars = digit_chars @ lower_chars @ upper_chars"

lemmas char_class_defs = digit_chars_def lower_chars_def upper_chars_def hex_chars_def alnum_chars_def

text \<open>\<open>re.fullmatch(r"[cs]{lo,hi}", s)\<close>.\<close>

definition fullmatch_class :: "string \<Rightarrow> nat \<Rightarrow> nat \<Rightarrow> string \<Rightarrow> bool" where
  "fullmatch_class cs lo hi s = (lo \<le> length s \<and> length s \<le> hi \<and> list_all (\<lambda>c. c \<in> set cs) s)"

definition hex_id :: "nat \<Rightarrow> string \<Rightarrow> bool" where
  "hex_id n s = fullmatch_class hex_chars n n s"

lemma hex_id_length: "hex_id n s \<Longrightarrow> length s = n"
  by (simp add: hex_id_def fullmatch_class_def)

lemma fullmatch_class_take:
  "fullmatch_class cs lo hi s \<Longrightarrow> fullmatch_class cs 0 hi (take n s)"
  by (auto simp: fullmatch_class_def list_all_iff dest: in_set_takeD)

definition startswith :: "string \<Rightarrow> string \<Rightarrow> bool" where
  "startswith p s = (take (length p) s = p)"

definition endswith :: "string \<Rightarrow> string \<Rightarrow> bool" where
  "endswith p s = (length p \<le> length s \<and> drop (length s - length p) s = p)"

definition removeprefix :: "string \<Rightarrow> string \<Rightarrow> string" where
  "removeprefix p s = (if startswith p s then drop (length p) s else s)"

definition removesuffix :: "string \<Rightarrow> string \<Rightarrow> string" where
  "removesuffix p s = (if endswith p s then take (length s - length p) s else s)"

lemma startswith_append [simp]: "startswith p (p @ s)"
  by (simp add: startswith_def)

lemma endswith_append [simp]: "endswith p (s @ p)"
  by (simp add: endswith_def)

lemma removeprefix_append [simp]: "removeprefix p (p @ s) = s"
  by (simp add: removeprefix_def)

text \<open>\<open>s.strip()\<close> for the ASCII white space of \<open>str.strip\<close> and \<open>bytes.strip\<close>.\<close>

definition is_space :: "char \<Rightarrow> bool" where
  "is_space c = (c \<in> {CHR '' '', CHR 0x09, CHR 0x0A, CHR 0x0B, CHR 0x0C, CHR 0x0D})"

definition strip :: "string \<Rightarrow> string" where
  "strip s = rev (dropWhile is_space (rev (dropWhile is_space s)))"

text \<open>\<open>s.lower()\<close> for ASCII text.\<close>

definition lower_char :: "char \<Rightarrow> char" where
  "lower_char c = (let n = (of_char c :: nat) in if 65 \<le> n \<and> n \<le> 90 then char_of (n + 32) else c)"

definition lower :: "string \<Rightarrow> string" where "lower s = map lower_char s"

text \<open>\<open>s.split(c)\<close> and \<open>s.split(c)[0]\<close> for a single character.\<close>

fun split_char :: "char \<Rightarrow> string \<Rightarrow> string list" where
  "split_char c [] = [[]]"
| "split_char c (x # xs) =
     (if x = c then [] # split_char c xs
      else (case split_char c xs of [] \<Rightarrow> [[x]] | w # ws \<Rightarrow> (x # w) # ws))"

definition before_char :: "char \<Rightarrow> string \<Rightarrow> string" where
  "before_char c s = takeWhile (\<lambda>x. x \<noteq> c) s"

lemma split_char_nonempty [simp]: "split_char c s \<noteq> []"
  by (induction s) (auto split: list.splits)

lemma hd_split_char: "hd (split_char c s) = before_char c s"
  by (induction s) (auto simp: before_char_def split: list.splits)

text \<open>Decimal digits: \<open>str.isdecimal\<close> (ASCII) and \<open>int(s)\<close> on such a string.\<close>

definition digit_val :: "char \<Rightarrow> int" where
  "digit_val c = int (length (takeWhile (\<lambda>d. d \<noteq> c) digit_chars))"

definition isdecimal :: "string \<Rightarrow> bool" where
  "isdecimal s = (s \<noteq> [] \<and> list_all (\<lambda>c. c \<in> set digit_chars) s)"

definition int_of_digits :: "string \<Rightarrow> int" where
  "int_of_digits s = foldl (\<lambda>n c. 10 * n + digit_val c) 0 s"

text \<open>\<open>str(n)\<close> of a natural number.\<close>

definition digit_char :: "nat \<Rightarrow> char" where
  "digit_char n = digit_chars ! (n mod 10)"

fun decimal :: "nat \<Rightarrow> string" where
  "decimal n = (if n < 10 then [digit_char n] else decimal (n div 10) @ [digit_char n])"

declare decimal.simps [simp del]

section \<open>Lists\<close>

lemma update_set: "(k', v') \<in> set (AList.update k v al) \<Longrightarrow> (k' = k \<and> v' = v) \<or> (k', v') \<in> set al"
  by (induction al) (auto split: if_splits)

lemma distinct_filter_fst: "distinct (map fst xs) \<Longrightarrow> distinct (map fst (filter P xs))"
  by (induction xs) auto

lemma sum_list_of_bool_filter:
  "(\<Sum>x\<leftarrow>xs. if P x then 1 else 0 :: nat) = length (filter P xs)"
  by (induction xs) auto

lemma Min_list_le: "xs \<noteq> [] \<Longrightarrow> x \<in> set xs \<Longrightarrow> Min (set xs) \<le> (x :: 'a :: linorder)"
  by simp

end
