(* ===== verification/Context_Policy.thy ===== *)
theory Context_Policy imports Prelude begin

text \<open>
  The token-budget policy of the model route: \<open>scripts/long_context_callbacks.py\<close>
  (constants, \<open>configured_warm_step\<close>, \<open>count_request\<close>, the budget part of
  \<open>async_pre_call_hook\<close>), \<open>scripts/context_envelope.py\<close>, the budget part of
  \<open>completion\<close> in \<open>scripts/context_forwarder.py\<close> and \<open>scripts/gateway_output_guard.py\<close>.
  The tokenizer service is a parameter \<open>tok\<close>: it answers a payload with a decoded body,
  an HTTP status error or another failure.  A request body is given as the value
  \<open>json.loads\<close> returns for it, \<open>None\<close> where that call raises.
\<close>

section \<open>Constants\<close>

definition CONTEXT :: int where "CONTEXT = 1048576"
definition OUTPUT :: int where "OUTPUT = 8192"
definition RESERVE :: int where "RESERVE = 256"
definition LONG_THRESHOLD :: int where "LONG_THRESHOLD = 32768"
definition MODELS :: "string list" where "MODELS = [''deepseek-v4.1-flash'', ''deepseek-flash'']"

lemmas policy_constants = CONTEXT_def OUTPUT_def RESERVE_def LONG_THRESHOLD_def

definition configured_warm_step :: "string \<Rightarrow> int res" where
  "configured_warm_step value =
     (if \<not> isdecimal value
         \<or> \<not> (512 \<le> int_of_digits value \<and> int_of_digits value \<le> 8192)
         \<or> int_of_digits value mod 512 \<noteq> 0
      then Inl (ValueError ''DSH_LONG_WARM_STEP_TOKENS must be a multiple of 512 between 512 and 8192'')
      else Inr (int_of_digits value))"

section \<open>Counting tokens at the backend\<close>

datatype tok_reply = TokBody json | TokHTTPError int "json option" | TokFailure exn

record tokenized =
  tok_count :: int
  tok_max_len :: int
  tok_ids :: "int list"

definition count_allowed :: "string list" where
  "count_allowed = [''messages'', ''tools'', ''tool_choice'', ''reasoning_effort'',
                    ''continue_final_message'', ''chat_template_kwargs'']"

definition count_payload :: "bool \<Rightarrow> json \<Rightarrow> json" where
  "count_payload final_envelope data =
     (let payload = (if final_envelope then data
                     else JObj (map (\<lambda>k. (k, jget data k)) (filter (jhas data) count_allowed)));
          payload = (if final_envelope
                     then jpop ''stream_options'' (jset ''stream'' (JBool False) payload)
                     else payload)
      in jset ''model'' (JStr ''deepseek-v4.1-flash'') payload)"

fun int_value :: "json \<Rightarrow> int" where
  "int_value (JInt i) = i"
| "int_value _ = 0"

fun list_value :: "json \<Rightarrow> json list" where
  "list_value (JList xs) = xs"
| "list_value _ = []"

definition check_count_result :: "json \<Rightarrow> tokenized res" where
  "check_count_result result =
     (if \<not> is_obj result then Inl (AttributeError ''get'')
      else
        let cnt = jget result ''count''; backend_len = jget result ''max_model_len'' in
        if \<not> is_int cnt \<or> int_value cnt < 0 \<or> \<not> is_int backend_len
           \<or> \<not> (0 < int_value backend_len \<and> int_value backend_len \<le> CONTEXT)
        then Inl (ValueError ''Unexpected backend tokenizer result'')
        else
          let ids = jget result ''tokens'' in
          if \<not> is_list ids \<or> int (length (list_value ids)) \<noteq> int_value cnt
             \<or> \<not> list_all is_int (list_value ids)
          then Inl (ValueError ''Exact tokenizer IDs unavailable'')
          else Inr \<lparr>tok_count = int_value cnt, tok_max_len = int_value backend_len,
                    tok_ids = map int_value (list_value ids)\<rparr>)"

text \<open>The validation details logged for a rejected request: locations and types only.\<close>

definition rejected_details :: "json option \<Rightarrow> json list" where
  "rejected_details body =
     (case body of
        None \<Rightarrow> []
      | Some b \<Rightarrow>
          if is_obj b \<and> is_list (jget b ''detail'')
          then map (\<lambda>d. JObj [(''location'', jget d ''loc''), (''type'', jget d ''type'')])
                   (filter is_obj (list_value (jget b ''detail'')))
          else [])"

definition count_request ::
  "(json \<Rightarrow> tok_reply) \<Rightarrow> json \<Rightarrow> bool \<Rightarrow> json list \<times> tokenized res" where
  "count_request tok data final_envelope =
     (case tok (count_payload final_envelope data) of
        TokHTTPError status body \<Rightarrow>
          ([JObj [(''event'', JStr ''dsh_tokenizer_rejected''), (''status'', JInt status),
                  (''validation'', JList (rejected_details body))]],
           Inl (HTTPError status))
      | TokFailure e \<Rightarrow> ([], Inl e)
      | TokBody result \<Rightarrow> ([], check_count_result result))"

lemma check_count_result_InrD:
  assumes "check_count_result result = Inr t"
  shows "0 \<le> tok_count t" and "0 < tok_max_len t" and "tok_max_len t \<le> CONTEXT"
    and "int (length (tok_ids t)) = tok_count t"
  using assms by (auto simp: check_count_result_def Let_def split: if_splits)

lemma count_request_InrD:
  assumes "count_request tok data fe = (logs, Inr t)"
  shows "0 \<le> tok_count t" and "0 < tok_max_len t" and "tok_max_len t \<le> CONTEXT"
    and "int (length (tok_ids t)) = tok_count t"
  using assms check_count_result_InrD
  by (auto simp: count_request_def split: tok_reply.splits)

section \<open>Making prompt-affecting defaults explicit\<close>

definition normalize_tool :: "json \<Rightarrow> json" where
  "normalize_tool tool =
     (if is_obj tool \<and> jget tool ''type'' = JStr ''function''
         \<and> is_obj (jget tool ''function'') \<and> jget (jget tool ''function'') ''strict'' = JNull
      then jset ''function'' (jset ''strict'' (JBool False) (jget tool ''function'')) tool
      else tool)"

text \<open>
  \<open>data.setdefault\<close>, then the loop over \<open>data.get('tools') or []\<close>.  Iterating a string or
  a dictionary yields strings, which the loop skips; a number or \<open>True\<close> is not iterable.
\<close>

definition normalize_conditioning :: "json \<Rightarrow> json res" where
  "normalize_conditioning data =
     (let data = (if jhas data ''continue_final_message'' then data
                  else jset ''continue_final_message'' (JBool False) data);
          tools = jget data ''tools''
      in if \<not> truthy tools then Inr data
         else case tools of
                JList ts \<Rightarrow> Inr (jset ''tools'' (JList (map normalize_tool ts)) data)
              | JStr _ \<Rightarrow> Inr data
              | JObj _ \<Rightarrow> Inr data
              | _ \<Rightarrow> Inl (TypeError ''object is not iterable''))"

section \<open>Final-wire admission of a completion request\<close>

definition MAX_REQUEST_BODY :: nat where "MAX_REQUEST_BODY = 64 * 1024 * 1024"

text \<open>The body is collected part by part; the first part past the bound refuses the request.\<close>

fun read_request_body :: "nat \<Rightarrow> nat list \<Rightarrow> nat res" where
  "read_request_body n [] = Inr n"
| "read_request_body n (part # parts) =
     (if n + part > MAX_REQUEST_BODY
      then Inl (HTTPException 413 ''Request body exceeds the supported envelope.'')
      else read_request_body (n + part) parts)"

definition private_fields :: "string list" where
  "private_fields = [''session_id'', ''session_params'', ''cache_salt'']"

definition accept_envelope :: "json option \<Rightarrow> json res" where
  "accept_envelope body =
     (case body of
        None \<Rightarrow> Inl (HTTPException 400 ''Invalid JSON.'')
      | Some data \<Rightarrow>
          if \<not> is_obj data \<or> \<not> is_list (jget data ''messages'')
          then Inl (HTTPException 400 ''Chat messages required.'')
          else if jget data ''model'' \<notin> set (map JStr MODELS)
          then Inl (HTTPException 400 ''Model is outside this context policy.'')
          else normalize_conditioning (fold jpop private_fields data))"

definition output_limits :: "json \<Rightarrow> json list" where
  "output_limits data =
     map (jget data) (filter (jhas data) [''max_tokens'', ''max_completion_tokens''])"

definition valid_limit :: "json \<Rightarrow> bool" where
  "valid_limit n = (is_int n \<and> 1 \<le> int_value n)"

definition non_text_message :: "json \<Rightarrow> bool" where
  "non_text_message m =
     (is_list (jget m ''content'') \<and>
      list_ex (\<lambda>part. is_obj part \<and> jget part ''type'' \<noteq> JStr ''text'') (list_value (jget m ''content'')))"

definition non_text :: "json \<Rightarrow> bool" where
  "non_text data = list_ex non_text_message (filter is_obj (list_value (jget data ''messages'')))"

definition debug_fields :: "string list" where
  "debug_fields = [''return_token_ids'', ''return_prompt_token_ids'', ''return_meta_info'',
                   ''return_hidden_states'']"

text \<open>\<open>min([OUTPUT, available]+limits)\<close>.\<close>

definition granted_output :: "tokenized \<Rightarrow> json \<Rightarrow> int" where
  "granted_output t data =
     Min (set ([OUTPUT, min CONTEXT (tok_max_len t) - RESERVE - tok_count t]
               @ map int_value (output_limits data)))"

record admitted =
  adm_data :: json
  adm_long :: bool
  adm_stream :: bool

definition final_budget :: "tokenized \<Rightarrow> json \<Rightarrow> admitted res" where
  "final_budget t data =
     (let budget = min CONTEXT (tok_max_len t);
          available = budget - RESERVE - tok_count t;
          limits = output_limits data in
      if available < 1
      then Inl (HTTPException 400 ''Input exceeds the context budget; compact or reduce it.'')
      else if list_ex (\<lambda>n. \<not> valid_limit n) limits
      then Inl (HTTPException 400 ''Invalid output budget.'')
      else
        let m = granted_output t data;
            data = jset ''max_tokens'' (JInt m) (jpop ''max_completion_tokens'' data);
            long = (tok_count t + m > 32768);
            nt = non_text data in
        if tok_count t + m > 131072 \<and> nt
        then Inl (HTTPException 400 ''Above 128K, this warming route supports text and tools; reduce multimodal input.'')
        else
          let long = (if nt then False else long);
              incoming_stream = truthy (jget data ''stream'') in
          if long \<and> \<not> incoming_stream \<and> list_ex (\<lambda>k. truthy (jget data k)) debug_fields
          then Inl (HTTPException 400 ''Large nonstreaming requests do not support raw backend debug metadata.'')
          else Inr \<lparr>adm_data = data, adm_long = long, adm_stream = incoming_stream\<rparr>)"

text \<open>\<open>completion\<close> up to the point where the request identity is made.\<close>

definition completion_admission ::
  "(json \<Rightarrow> tok_reply) \<Rightarrow> nat list \<Rightarrow> json option \<Rightarrow> (tokenized \<times> admitted) res" where
  "completion_admission tok parts body =
     (case read_request_body 0 parts of Inl e \<Rightarrow> Inl e | Inr _ \<Rightarrow>
      case accept_envelope body of Inl e \<Rightarrow> Inl e | Inr data \<Rightarrow>
      case snd (count_request tok data True) of
        Inl _ \<Rightarrow> Inl (HTTPException 503 ''Final-wire token budgeting unavailable; not dispatched.'')
      | Inr t \<Rightarrow>
          (case final_budget t data of Inl e \<Rightarrow> Inl e | Inr a \<Rightarrow> Inr (t, a)))"

section \<open>The gateway hook's budget\<close>

text \<open>\<open>dict(x)\<close> for a decoded value: a dictionary is copied, a list (or string) must hold pairs.\<close>

fun dict_pair :: "json \<Rightarrow> (string \<times> json) option" where
  "dict_pair (JList [JStr k, v]) = Some (k, v)"
| "dict_pair (JStr [a, b]) = Some ([a], JStr [b])"
| "dict_pair _ = None"

fun py_dict :: "json \<Rightarrow> json res" where
  "py_dict (JObj kvs) = Inr (JObj kvs)"
| "py_dict (JList xs) =
     (if list_all (\<lambda>x. dict_pair x \<noteq> None) xs
      then Inr (JObj (fold (\<lambda>x al. case dict_pair x of None \<Rightarrow> al | Some (k, v) \<Rightarrow> AList.update k v al) xs []))
      else Inl (ValueError ''dictionary update sequence''))"
| "py_dict (JStr _) = Inl (ValueError ''dictionary update sequence'')"
| "py_dict _ = Inl (TypeError ''object is not iterable'')"

datatype hook_result =
    HookUnchanged json
  | HookLegacy json
  | HookShort json
  | HookLong json "int list"

fun model_name :: "json \<Rightarrow> string" where
  "model_name (JStr s) = removeprefix ''openai/'' s"
| "model_name _ = ''''"

text \<open>\<open>min(maximum, OUTPUT, available)\<close> with \<open>maximum = min(limits or [OUTPUT])\<close>.\<close>

definition hook_granted :: "tokenized \<Rightarrow> json \<Rightarrow> int" where
  "hook_granted t data =
     (let limits = output_limits data;
          maximum = Min (set (if limits = [] then [OUTPUT] else map int_value limits))
      in min (min maximum OUTPUT) (min CONTEXT (tok_max_len t) - RESERVE - tok_count t))"

definition hook_budget :: "tokenized \<Rightarrow> json \<Rightarrow> json res" where
  "hook_budget t data =
     (let available = min CONTEXT (tok_max_len t) - RESERVE - tok_count t;
          limits = output_limits data in
      if available < 1
      then Inl (HTTPException 400 ''Input exceeds 1M total budget; compact or reduce the input.'')
      else if list_ex (\<lambda>n. \<not> valid_limit n) limits
      then Inl (HTTPException 400 ''Output token limits must be positive integers.'')
      else Inr (jset ''max_tokens'' (JInt (hook_granted t data))
                  (jpop ''max_completion_tokens'' data)))"

text \<open>\<open>dict(data.get('metadata') or {})\<close>.\<close>

definition hook_metadata :: "json \<Rightarrow> json res" where
  "hook_metadata data =
     (if truthy (jget data ''metadata'') then py_dict (jget data ''metadata'') else Inr (JObj []))"

text \<open>
  \<open>async_pre_call_hook\<close> up to the admission wait: a foreign model goes to the retained
  production hook, a long request gets a server-made lease identity \<open>key\<close>, whatever lease
  identity the client sent is removed.
\<close>

definition pre_call_hook ::
  "(json \<Rightarrow> tok_reply) \<Rightarrow> string \<Rightarrow> json \<Rightarrow> hook_result res" where
  "pre_call_hook tok key data =
     (if \<not> is_obj data then Inr (HookUnchanged data)
      else if model_name (jget data ''model'') \<notin> set MODELS then Inr (HookLegacy data)
      else if \<not> is_list (jget data ''messages'') \<or> list_value (jget data ''messages'') = []
      then Inl (HTTPException 400 ''This route requires Chat Completions messages.'')
      else if jhas data ''input'' \<or> jhas data ''max_output_tokens''
      then Inl (HTTPException 400 ''Responses format is not supported on this route.'')
      else case snd (count_request tok data False) of
        Inl _ \<Rightarrow> Inl (HTTPException 503 ''Backend token budgeting unavailable; request not dispatched.'')
      | Inr t \<Rightarrow>
         (case hook_budget t data of Inl e \<Rightarrow> Inl e | Inr data \<Rightarrow>
          case hook_metadata data of
            Inl e \<Rightarrow> Inl e
          | Inr metadata \<Rightarrow>
              let metadata = jpop ''dsh_long_lease'' metadata in
              if tok_count t + int_value (jget data ''max_tokens'') > LONG_THRESHOLD
              then Inr (HookLong (jset ''metadata'' (jset ''dsh_long_lease'' (JStr key) metadata) data) (tok_ids t))
              else Inr (HookShort (jset ''metadata'' metadata data))))"

section \<open>The output guard in front of the aliases\<close>

definition physical_aliases :: "string list" where
  "physical_aliases =
     [''claude-3-5-sonnet-20241022'', ''claude-3-7-sonnet-20250219'', ''claude-opus-4-6'',
      ''claude-sonnet-4'', ''claude-sonnet-4-6'', ''claude-sonnet-5'', ''deepseek-chat'',
      ''deepseek-flash'', ''deepseek-reasoner'', ''deepseek-v4'', ''deepseek-v4-flash'',
      ''deepseek-v4.1'', ''deepseek-v4.1-flash'', ''default'', ''glm-5.3-flash'', ''glm-flash'',
      ''glm53flash'', ''qwen3.8-27b'', ''qwen3.8-flash-next'']"

definition provider_override :: "json \<Rightarrow> bool" where
  "provider_override data =
     list_ex (\<lambda>k. jget data k \<noteq> JNull) [''api_base'', ''base_url'', ''custom_llm_provider'']"

definition output_guard :: "json \<Rightarrow> json res" where
  "output_guard data =
     (if \<not> is_obj data then Inr data
      else if model_name (jget data ''model'') \<in> set physical_aliases \<and> provider_override data
      then Inl (HTTPException 400 ''Managed context route does not accept endpoint/provider overrides.'')
      else if model_name (jget data ''model'') \<notin> set MODELS
      then Inl (HTTPException 400 ''Unknown model; this deployment serves only configured local aliases.'')
      else if provider_override data
      then Inl (HTTPException 400 ''Managed context route does not accept endpoint/provider overrides.'')
      else if \<not> is_list (jget data ''messages'') \<or> list_value (jget data ''messages'') = []
      then Inl (HTTPException 400 ''This model route requires Chat Completions messages.'')
      else
        let limits = output_limits data in
        if list_ex (\<lambda>n. \<not> valid_limit n) limits
        then Inl (HTTPException 400 ''Output limits must be positive integers.'')
        else Inr (jset ''max_tokens'' (JInt (Min (set ([8192] @ map int_value limits))))
                    (jpop ''max_completion_tokens'' data)))"

section \<open>Lemmas\<close>

lemma is_obj_fold_jpop [simp]: "is_obj (fold jpop ks d) = is_obj d"
  by (induction ks arbitrary: d) auto

lemma normalize_conditioning_obj: "normalize_conditioning d = Inr d' \<Longrightarrow> is_obj d \<Longrightarrow> is_obj d'"
  by (auto simp: normalize_conditioning_def Let_def split: if_splits json.splits)

lemma accept_envelope_obj: "accept_envelope body = Inr d \<Longrightarrow> is_obj d"
  by (auto simp: accept_envelope_def normalize_conditioning_obj split: option.splits if_splits)

lemma valid_limits_positive:
  "\<not> list_ex (\<lambda>n. \<not> valid_limit n) ls \<Longrightarrow> \<forall>n \<in> set ls. 1 \<le> int_value n"
  by (auto simp: list_ex_iff valid_limit_def)

lemma Min_at_least_one:
  "finite A \<Longrightarrow> A \<noteq> {} \<Longrightarrow> \<forall>x \<in> A. (1::int) \<le> x \<Longrightarrow> 1 \<le> Min A"
  by simp

text \<open>The two budget computations agree: the minimum over the optional limits and the caps.\<close>

lemma hook_budget_minimum:
  fixes cap avail :: int
  shows "min (min (Min (set (if ls = [] then [cap] else ls))) cap) avail
         = Min (set ([cap, avail] @ ls))"
proof (cases "ls = []")
  case True
  then show ?thesis by simp
next
  case False
  then have "Min (set ([cap, avail] @ ls)) = min (min cap avail) (Min (set ls))"
    by (simp add: min.assoc)
  with False show ?thesis by (simp add: min.commute min.left_commute min.assoc)
qed

lemma final_budget_InrD:
  assumes "final_budget t data = Inr a"
  shows "adm_data a = jset ''max_tokens'' (JInt (granted_output t data)) (jpop ''max_completion_tokens'' data)"
    and "1 \<le> min CONTEXT (tok_max_len t) - RESERVE - tok_count t"
    and "\<forall>n \<in> set (output_limits data). valid_limit n"
    and "adm_long a \<Longrightarrow> tok_count t + granted_output t data > 32768 \<and> \<not> non_text (adm_data a)"
  using assms
  by (auto simp: final_budget_def Let_def list_ex_iff split: if_splits)

lemma granted_output_le:
  "granted_output t data \<le> OUTPUT"
  "granted_output t data \<le> min CONTEXT (tok_max_len t) - RESERVE - tok_count t"
  "n \<in> set (output_limits data) \<Longrightarrow> granted_output t data \<le> int_value n"
  unfolding granted_output_def by (rule Min_le; simp)+

lemma granted_output_positive:
  assumes "1 \<le> min CONTEXT (tok_max_len t) - RESERVE - tok_count t"
    and "\<forall>n \<in> set (output_limits data). valid_limit n"
  shows "1 \<le> granted_output t data"
  unfolding granted_output_def
  by (rule Min_at_least_one) (use assms in \<open>auto simp: OUTPUT_def valid_limit_def\<close>)

lemma hook_granted_eq: "hook_granted t data = granted_output t data"
  using hook_budget_minimum [of "map int_value (output_limits data)" OUTPUT
      "min CONTEXT (tok_max_len t) - RESERVE - tok_count t"]
  by (simp add: hook_granted_def granted_output_def Let_def)

lemma hook_budget_InrD:
  assumes "hook_budget t data = Inr d"
  shows "d = jset ''max_tokens'' (JInt (granted_output t data)) (jpop ''max_completion_tokens'' data)"
  using assms by (simp add: hook_budget_def Let_def hook_granted_eq split: if_splits)

lemma py_dict_obj: "py_dict x = Inr m \<Longrightarrow> is_obj m"
  by (cases x) (auto split: if_splits)

lemma hook_metadata_obj: "hook_metadata data = Inr m \<Longrightarrow> is_obj m"
  by (auto simp: hook_metadata_def py_dict_obj split: if_splits)

lemma normalize_conditioning_keys:
  assumes "normalize_conditioning d = Inr d'" and "is_obj d" and "jhas d' k"
  shows "jhas d k \<or> k = ''continue_final_message'' \<or> k = ''tools''"
  using assms
  by (auto simp: normalize_conditioning_def Let_def split: if_splits json.splits)

lemma jhas_fold_jpop: "jhas (fold jpop ks d) k \<longleftrightarrow> k \<notin> set ks \<and> jhas d k"
  by (induction ks arbitrary: d) auto

lemma accept_envelope_private:
  assumes "accept_envelope body = Inr d" and "k \<in> set private_fields"
  shows "\<not> jhas d k"
proof
  assume "jhas d k"
  from assms(1) obtain data where data: "is_obj data"
    and n: "normalize_conditioning (fold jpop private_fields data) = Inr d"
    by (auto simp: accept_envelope_def split: option.splits if_splits)
  have "k \<noteq> ''continue_final_message''" "k \<noteq> ''tools''"
    using assms(2) by (auto simp: private_fields_def)
  with normalize_conditioning_keys [OF n _ \<open>jhas d k\<close>] data assms(2) show False
    by (simp add: jhas_fold_jpop)
qed

section \<open>Properties\<close>

text \<open>C29: A request that passes final-wire admission is forwarded with an output budget of at least
  one token that fits: input, output and the reserve together stay within the backend's reported
  context and the advertised 1M context, the output is at most 8192 and at most every limit the
  client gave, the second limit field is gone, and no client-chosen session or cache identity is
  forwarded; only requests above 32K of input plus output, without non-text parts, are long.\<close>

theorem admitted_budget_fits:
  assumes "completion_admission tok parts body = Inr (t, a)"
  shows "\<exists>m. jget (adm_data a) ''max_tokens'' = JInt m \<and> 1 \<le> m \<and> m \<le> OUTPUT \<and>
    0 \<le> tok_count t \<and> tok_count t + m + RESERVE \<le> tok_max_len t \<and> tok_max_len t \<le> CONTEXT \<and>
    \<not> jhas (adm_data a) ''max_completion_tokens'' \<and>
    (\<forall>k. k \<in> set private_fields \<longrightarrow> \<not> jhas (adm_data a) k) \<and>
    (adm_long a \<longrightarrow> tok_count t + m > 32768 \<and> \<not> non_text (adm_data a)) \<and>
    (\<exists>data. accept_envelope body = Inr data \<and>
       (\<forall>n. n \<in> set (output_limits data) \<longrightarrow> m \<le> int_value n))"
proof -
  from assms obtain data logs where data: "accept_envelope body = Inr data"
    and cnt: "count_request tok data True = (logs, Inr t)" and fin: "final_budget t data = Inr a"
    by (auto simp: completion_admission_def split: sum.splits)
      (metis prod.collapse)
  note obj = accept_envelope_obj [OF data]
  note b = final_budget_InrD [OF fin]
  have max_tokens_free: "k \<in> set private_fields \<Longrightarrow> k \<noteq> ''max_tokens''" for k
    by (auto simp: private_fields_def)
  show ?thesis
    using b count_request_InrD [OF cnt] granted_output_le [where t = t and data = data] granted_output_positive [OF b(2,3)]
      accept_envelope_private [OF data] obj max_tokens_free
    by (intro exI [of _ "granted_output t data"]) (auto simp: data)
qed

definition sample_request :: json where
  "sample_request = JObj [(''model'', JStr ''deepseek-flash''), (''messages'', JList []),
     (''max_tokens'', JInt 100), (''session_id'', JStr ''mine'')]"

definition sample_tok :: "json \<Rightarrow> tok_reply" where
  "sample_tok _ = TokBody (JObj [(''count'', JInt 2), (''max_model_len'', JInt 1000),
                                 (''tokens'', JList [JInt 5, JInt 6])])"

lemma sample_admission:
  "\<exists>t a. completion_admission sample_tok [10] (Some sample_request) = Inr (t, a)"
  by (simp add: completion_admission_def accept_envelope_def sample_request_def MODELS_def
      private_fields_def normalize_conditioning_def count_request_def sample_tok_def
      check_count_result_def CONTEXT_def RESERVE_def OUTPUT_def final_budget_def output_limits_def
      valid_limit_def non_text_def granted_output_def MAX_REQUEST_BODY_def Let_def)

theorem admitted_budget_fits_witness:
  "\<exists>t a m. completion_admission sample_tok [10] (Some sample_request) = Inr (t, a) \<and>
     jget (adm_data a) ''max_tokens'' = JInt m \<and> 1 \<le> m \<and> m \<le> OUTPUT"
proof -
  obtain t a where a: "completion_admission sample_tok [10] (Some sample_request) = Inr (t, a)"
    using sample_admission by blast
  from admitted_budget_fits [OF a] a show ?thesis by blast
qed

text \<open>The gateway hook and the loopback forwarder compute the same budget: on one request and one
  token count, whenever the forwarder's budget accepts, the hook's accepts with exactly the same
  rewritten request, and whatever the hook refuses the forwarder refuses.\<close>

theorem budgets_agree:
  "(\<forall>a. final_budget t data = Inr a \<longrightarrow> hook_budget t data = Inr (adm_data a)) \<and>
   (\<forall>e. hook_budget t data = Inl e \<longrightarrow> (\<exists>e'. final_budget t data = Inl e'))"
proof -
  have agree: "hook_budget t data = Inr (adm_data a)" if fin: "final_budget t data = Inr a" for a
  proof -
    note b = final_budget_InrD [OF fin]
    have "\<exists>d. hook_budget t data = Inr d"
      using b(2,3) by (auto simp: hook_budget_def Let_def list_ex_iff)
    then obtain d where d: "hook_budget t data = Inr d" by blast
    from hook_budget_InrD [OF d] b(1) d show ?thesis by simp
  qed
  have "\<exists>e'. final_budget t data = Inl e'" if "hook_budget t data = Inl e" for e
  proof (cases "final_budget t data")
    case (Inl x)
    then show ?thesis by blast
  next
    case (Inr a)
    from agree [OF this] that show ?thesis by simp
  qed
  with agree show ?thesis by blast
qed

theorem budgets_agree_witness:
  "hook_budget \<lparr>tok_count = 2, tok_max_len = 1000, tok_ids = [5, 6]\<rparr> (JObj []) =
     Inr (JObj [(''max_tokens'', JInt 742)])"
proof -
  have "\<exists>a. final_budget \<lparr>tok_count = 2, tok_max_len = 1000, tok_ids = [5, 6]\<rparr> (JObj []) = Inr a \<and>
      adm_data a = JObj [(''max_tokens'', JInt 742)]"
    by (simp add: final_budget_def output_limits_def granted_output_def policy_constants
        non_text_def debug_fields_def Let_def)
  with budgets_agree show ?thesis by metis
qed

text \<open>A lease identity in the request metadata is always the server's own: after the hook a long
  request carries exactly the generated key, a short one carries none, whatever the client sent.\<close>

theorem lease_identity_is_server_made:
  assumes "pre_call_hook tok key data = Inr r"
  shows "(\<forall>d ids. r = HookLong d ids \<longrightarrow>
            jget (jget d ''metadata'') ''dsh_long_lease'' = JStr key) \<and>
    (\<forall>d. r = HookShort d \<longrightarrow> \<not> jhas (jget d ''metadata'') ''dsh_long_lease'')"
proof -
  have hobj: "is_obj d" if "hook_budget t data = Inr d" "is_obj data" for t d
    using that hook_budget_InrD [OF that(1)] by simp
  show ?thesis
  proof (cases r)
    case (HookLong d ids)
    with assms obtain t d0 m where "is_obj data" "hook_budget t data = Inr d0"
      "hook_metadata d0 = Inr m" "d = jset ''metadata'' (jset ''dsh_long_lease'' (JStr key) (jpop ''dsh_long_lease'' m)) d0"
      by (auto simp: pre_call_hook_def Let_def split: if_splits sum.splits)
    with hobj hook_metadata_obj [of d0 m] HookLong show ?thesis by simp
  next
    case (HookShort d)
    with assms obtain t d0 m where "is_obj data" "hook_budget t data = Inr d0"
      "d = jset ''metadata'' (jpop ''dsh_long_lease'' m) d0"
      by (auto simp: pre_call_hook_def Let_def split: if_splits sum.splits)
    with hobj HookShort show ?thesis by simp
  qed simp_all
qed

theorem lease_identity_is_server_made_witness:
  "\<exists>d. pre_call_hook sample_tok ''server''
     (JObj [(''model'', JStr ''openai/deepseek-flash''), (''messages'', JList [JNull]),
            (''metadata'', JObj [(''dsh_long_lease'', JStr ''forged'')])]) = Inr (HookShort d) \<and>
     \<not> jhas (jget d ''metadata'') ''dsh_long_lease''"
proof -
  let ?req = "JObj [(''model'', JStr ''openai/deepseek-flash''), (''messages'', JList [JNull]),
            (''metadata'', JObj [(''dsh_long_lease'', JStr ''forged'')])]"
  have "\<exists>d. pre_call_hook sample_tok ''server'' ?req = Inr (HookShort d)"
    by (simp add: pre_call_hook_def removeprefix_def startswith_def MODELS_def count_request_def
        sample_tok_def check_count_result_def hook_budget_def hook_granted_def hook_metadata_def
        output_limits_def policy_constants Let_def)
  then obtain d where d: "pre_call_hook sample_tok ''server'' ?req = Inr (HookShort d)" by blast
  with lease_identity_is_server_made [OF d] show ?thesis by blast
qed

end
