(* ===== verification/Request_Timing.thy ===== *)
theory Request_Timing imports Prelude begin

text \<open>
  \<open>RequestTiming\<close> of \<open>scripts/context_forwarder.py\<close>: content-free measurements of one
  streamed response.  The clock is a sequence of readings; the state counts how many were
  taken, so each call of \<open>_timing_clock\<close> reads its own value.  \<open>loads\<close> is the decoder
  \<open>json.loads\<close>, \<open>None\<close> where it raises.  \<open>Line_Drain\<close> is the contract between the
  byte stream and its line scanner.
\<close>

section \<open>Rounding and lines\<close>

definition round_half_even :: "rat \<Rightarrow> int" where
  "round_half_even x =
     (let f = \<lfloor>x\<rfloor>; d = x - of_int f in
      if d < 1 / 2 then f else if d > 1 / 2 then f + 1 else if even f then f else f + 1)"

definition round3 :: "rat \<Rightarrow> rat" where
  "round3 x = of_int (round_half_even (x * 1000)) / 1000"

definition newline :: char where "newline = CHR 0x0A"

text \<open>
  \<open>while b'\n' in pending: line, pending = pending.split(b'\n', 1)\<close>: the complete lines in
  order and what is left after the last line break.
\<close>

fun drain_lines :: "string \<Rightarrow> string list \<times> string" where
  "drain_lines [] = ([], [])"
| "drain_lines (c # cs) =
     (let (ls, rest) = drain_lines cs in
      if c = newline then ([] # ls, rest)
      else (case ls of [] \<Rightarrow> ([], c # rest) | l # ls' \<Rightarrow> ((c # l) # ls', rest)))"

definition lines_of :: "string \<Rightarrow> string list" where
  "lines_of s = fst (drain_lines s)"

definition rest_of :: "string \<Rightarrow> string" where
  "rest_of s = snd (drain_lines s)"

locale line_drain =
  fixes lns :: "string \<Rightarrow> string list" and rst :: "string \<Rightarrow> string"
  assumes lns_Nil: "lns [] = []" and rst_Nil: "rst [] = []"
    and lns_append: "lns (s @ t) = lns s @ lns (rst s @ t)"
    and rst_append: "rst (s @ t) = rst (rst s @ t)"
    and rst_length: "length (rst s) \<le> length s"
begin

text \<open>Draining chunk by chunk sees the lines of the whole stream, whatever the chunking.\<close>

lemma drain_chunks:
  "foldl (\<lambda>(ls, p) c. (ls @ lns (p @ c), rst (p @ c))) (acc, p) cs
   = (acc @ (if cs = [] then [] else lns (p @ concat cs)),
      if cs = [] then p else rst (p @ concat cs))"
proof (induction cs arbitrary: acc p)
  case Nil
  then show ?case by simp
next
  case (Cons c cs)
  then show ?case
    using lns_append [of "p @ c" "concat cs"] rst_append [of "p @ c" "concat cs"]
    by (cases "cs = []") simp_all
qed

end

lemma drain_lines_append:
  "drain_lines (s @ t) =
     (let (ls, r) = drain_lines s; (ls', r') = drain_lines (r @ t) in (ls @ ls', r'))"
proof (induction s)
  case Nil
  then show ?case by (simp add: case_prod_beta Let_def)
next
  case (Cons c s)
  obtain ls r where s: "drain_lines s = (ls, r)" by (cases "drain_lines s")
  obtain ls' r' where rt: "drain_lines (r @ t) = (ls', r')" by (cases "drain_lines (r @ t)")
  from Cons s rt have "drain_lines (s @ t) = (ls @ ls', r')" by simp
  with s rt show ?case
    by (cases ls; cases ls') (auto simp: Let_def)
qed

lemma length_rest_of: "length (rest_of s) \<le> length s"
  unfolding rest_of_def
  by (induction s) (auto simp: Let_def split: prod.splits list.splits)

lemma lines_of_append: "lines_of (s @ t) = lines_of s @ lines_of (rest_of s @ t)"
  using drain_lines_append [of s t]
  by (simp add: lines_of_def rest_of_def Let_def case_prod_beta)

lemma rest_of_append: "rest_of (s @ t) = rest_of (rest_of s @ t)"
  using drain_lines_append [of s t]
  by (simp add: lines_of_def rest_of_def Let_def case_prod_beta)

interpretation byte_lines: line_drain lines_of rest_of
proof unfold_locales
  show "lines_of [] = []" "rest_of [] = []" by (simp_all add: lines_of_def rest_of_def)
qed (rule lines_of_append rest_of_append length_rest_of)+

section \<open>The measurement record\<close>

record timing_record =
  firstUpstreamByteMs :: "rat option"
  upstreamChunks :: nat
  upstreamBytes :: nat
  maxUpstreamGapMs :: "rat option"
  upstreamGapsOver500ms :: nat
  timingParserOversize :: bool
  firstUpstreamDeltaMs :: "rat option"
  outputTokens :: "int option"

record request_timing =
  rt_reads :: nat
  rt_started :: rat
  rt_record :: timing_record
  rt_pending :: string
  rt_last_packet :: "rat option"
  rt_finished :: bool

definition empty_record :: timing_record where
  "empty_record = \<lparr>firstUpstreamByteMs = None, upstreamChunks = 0, upstreamBytes = 0,
     maxUpstreamGapMs = None, upstreamGapsOver500ms = 0, timingParserOversize = False,
     firstUpstreamDeltaMs = None, outputTokens = None\<rparr>"

definition new_timing :: "(nat \<Rightarrow> rat) \<Rightarrow> request_timing" where
  "new_timing clk = \<lparr>rt_reads = 1, rt_started = clk 0, rt_record = empty_record, rt_pending = [],
     rt_last_packet = None, rt_finished = False\<rparr>"

definition read_clock :: "(nat \<Rightarrow> rat) \<Rightarrow> request_timing \<Rightarrow> rat \<times> request_timing" where
  "read_clock clk s = (clk (rt_reads s), s\<lparr>rt_reads := Suc (rt_reads s)\<rparr>)"

definition elapsed :: "(nat \<Rightarrow> rat) \<Rightarrow> request_timing \<Rightarrow> rat \<times> request_timing" where
  "elapsed clk s = (let (t, s) = read_clock clk s in (round3 ((t - rt_started s) * 1000), s))"

definition MAX_PENDING :: nat where "MAX_PENDING = 128 * 1024"

definition setdefault :: "'a option \<Rightarrow> 'a \<Rightarrow> 'a option" where
  "setdefault m v = (case m of None \<Rightarrow> Some v | Some w \<Rightarrow> Some w)"

section \<open>Reading one line\<close>

definition data_line :: "string \<Rightarrow> bool" where
  "data_line line = (startswith ''data: '' line \<and> strip (drop 6 line) \<noteq> ''[DONE]'')"

definition delta_fields :: "string list" where
  "delta_fields = [''content'', ''reasoning_content'', ''tool_calls'']"

definition has_delta :: "json \<Rightarrow> bool" where
  "has_delta item =
     (is_list (jget item ''choices'') \<and>
      list_ex (\<lambda>c. is_obj c \<and> is_obj (jget c ''delta'')
                 \<and> list_ex (\<lambda>k. truthy (jget (jget c ''delta'') k)) delta_fields)
        (case jget item ''choices'' of JList cs \<Rightarrow> cs | _ \<Rightarrow> []))"

definition usage_tokens :: "json \<Rightarrow> int option" where
  "usage_tokens item =
     (case jget item ''usage'' of
        JObj u \<Rightarrow> (case jget (JObj u) ''completion_tokens'' of JInt n \<Rightarrow> Some n | _ \<Rightarrow> None)
      | _ \<Rightarrow> None)"

definition scan_line ::
  "(nat \<Rightarrow> rat) \<Rightarrow> (string \<Rightarrow> json option) \<Rightarrow> string \<Rightarrow> request_timing \<Rightarrow> request_timing" where
  "scan_line clk loads line s =
     (if \<not> data_line line then s
      else case loads (drop 6 line) of
        None \<Rightarrow> s
      | Some item \<Rightarrow>
          if \<not> is_obj item then s
          else
            let s = (if has_delta item
                     then let (ms, s) = elapsed clk s in
                          s\<lparr>rt_record := (rt_record s)
                              \<lparr>firstUpstreamDeltaMs := setdefault (firstUpstreamDeltaMs (rt_record s)) ms\<rparr>\<rparr>
                     else s)
            in (case usage_tokens item of
                  None \<Rightarrow> s
                | Some n \<Rightarrow> s\<lparr>rt_record := (rt_record s)\<lparr>outputTokens := Some n\<rparr>\<rparr>))"

section \<open>One packet\<close>

definition note_arrival :: "(nat \<Rightarrow> rat) \<Rightarrow> string \<Rightarrow> request_timing \<Rightarrow> request_timing" where
  "note_arrival clk chunk s =
     (let (now, s) = read_clock clk s;
          (ms, s) = elapsed clk s;
          r = rt_record s;
          r = r\<lparr>firstUpstreamByteMs := setdefault (firstUpstreamByteMs r) ms,
                upstreamChunks := upstreamChunks r + 1,
                upstreamBytes := upstreamBytes r + length chunk\<rparr>;
          r = (case rt_last_packet s of
                 None \<Rightarrow> r
               | Some prev \<Rightarrow>
                   let gap = (now - prev) * 1000;
                       prior = (case maxUpstreamGapMs r of None \<Rightarrow> 0 | Some g \<Rightarrow> g);
                       r = r\<lparr>maxUpstreamGapMs := Some (round3 (max gap prior))\<rparr>
                   in if gap > 500
                      then r\<lparr>upstreamGapsOver500ms := upstreamGapsOver500ms r + 1\<rparr> else r)
      in s\<lparr>rt_record := r, rt_last_packet := Some now\<rparr>)"

definition packet ::
  "(nat \<Rightarrow> rat) \<Rightarrow> (string \<Rightarrow> json option) \<Rightarrow> string \<Rightarrow> request_timing \<Rightarrow> request_timing" where
  "packet clk loads chunk s =
     (let s = note_arrival clk chunk s;
          pending = rt_pending s @ chunk in
      if length pending > MAX_PENDING
      then s\<lparr>rt_pending := [], rt_record := (rt_record s)\<lparr>timingParserOversize := True\<rparr>\<rparr>
      else fold (scan_line clk loads) (lines_of pending) (s\<lparr>rt_pending := rest_of pending\<rparr>))"

text \<open>\<open>finish\<close> emits one record at most; a failing log stream is ignored.\<close>

definition finish :: "(nat \<Rightarrow> rat) \<Rightarrow> request_timing \<Rightarrow> (timing_record \<times> rat) list \<times> request_timing" where
  "finish clk s =
     (if rt_finished s then ([], s)
      else let s = s\<lparr>rt_finished := True, rt_pending := []\<rparr>;
               (ms, s) = elapsed clk s
           in ([(rt_record s, ms)], s))"

section \<open>Lemmas\<close>

lemma elapsed_frame [simp]:
  "rt_record (snd (elapsed clk s)) = rt_record s"
  "rt_pending (snd (elapsed clk s)) = rt_pending s"
  "rt_finished (snd (elapsed clk s)) = rt_finished s"
  by (simp_all add: elapsed_def read_clock_def Let_def)

text \<open>The token count a sequence of lines reports: the last line that carries one wins.\<close>

definition line_tokens :: "(string \<Rightarrow> json option) \<Rightarrow> string \<Rightarrow> int option" where
  "line_tokens loads line =
     (if data_line line then
        (case loads (drop 6 line) of Some item \<Rightarrow> if is_obj item then usage_tokens item else None
         | None \<Rightarrow> None)
      else None)"

fun last_tokens :: "(string \<Rightarrow> json option) \<Rightarrow> int option \<Rightarrow> string list \<Rightarrow> int option" where
  "last_tokens loads acc [] = acc"
| "last_tokens loads acc (l # ls) =
     last_tokens loads (case line_tokens loads l of None \<Rightarrow> acc | Some n \<Rightarrow> Some n) ls"

lemma last_tokens_append:
  "last_tokens loads acc (xs @ ys) = last_tokens loads (last_tokens loads acc xs) ys"
  by (induction xs arbitrary: acc) auto

lemma scan_line_outputTokens:
  "outputTokens (rt_record (scan_line clk loads l s)) =
     (case line_tokens loads l of None \<Rightarrow> outputTokens (rt_record s) | Some n \<Rightarrow> Some n)"
  by (auto simp: scan_line_def line_tokens_def Let_def case_prod_beta split: option.splits)

lemma scan_line_frame [simp]:
  "rt_pending (scan_line clk loads l s) = rt_pending s"
  "upstreamBytes (rt_record (scan_line clk loads l s)) = upstreamBytes (rt_record s)"
  "upstreamChunks (rt_record (scan_line clk loads l s)) = upstreamChunks (rt_record s)"
  by (auto simp: scan_line_def Let_def case_prod_beta split: option.splits)

lemma fold_scan_line:
  "outputTokens (rt_record (fold (scan_line clk loads) ls s))
     = last_tokens loads (outputTokens (rt_record s)) ls"
  "rt_pending (fold (scan_line clk loads) ls s) = rt_pending s"
  "upstreamBytes (rt_record (fold (scan_line clk loads) ls s)) = upstreamBytes (rt_record s)"
  "upstreamChunks (rt_record (fold (scan_line clk loads) ls s)) = upstreamChunks (rt_record s)"
  by (induction ls arbitrary: s) (auto simp: scan_line_outputTokens split: option.splits)

lemma note_arrival_frame [simp]:
  "rt_pending (note_arrival clk chunk s) = rt_pending s"
  "outputTokens (rt_record (note_arrival clk chunk s)) = outputTokens (rt_record s)"
  "upstreamBytes (rt_record (note_arrival clk chunk s)) = upstreamBytes (rt_record s) + length chunk"
  "upstreamChunks (rt_record (note_arrival clk chunk s)) = upstreamChunks (rt_record s) + 1"
  by (auto simp: note_arrival_def read_clock_def elapsed_def Let_def split: option.splits)

lemma packet_pending_bound: "length (rt_pending (packet clk loads chunk s)) \<le> MAX_PENDING"
  using length_rest_of [of "rt_pending s @ chunk"]
  by (auto simp: packet_def Let_def fold_scan_line)

lemma packet_small:
  assumes "length (rt_pending s @ chunk) \<le> MAX_PENDING"
  shows "rt_pending (packet clk loads chunk s) = rest_of (rt_pending s @ chunk)"
    and "outputTokens (rt_record (packet clk loads chunk s))
         = last_tokens loads (outputTokens (rt_record s)) (lines_of (rt_pending s @ chunk))"
  using assms by (simp_all add: packet_def Let_def fold_scan_line)

lemma packet_counts:
  "upstreamBytes (rt_record (packet clk loads chunk s)) = upstreamBytes (rt_record s) + length chunk"
  "upstreamChunks (rt_record (packet clk loads chunk s)) = upstreamChunks (rt_record s) + 1"
  by (simp_all add: packet_def Let_def fold_scan_line)

text \<open>A whole stream, packet by packet.\<close>

lemma fold_packet_small:
  assumes "length (rt_pending s) + length (concat cs) \<le> MAX_PENDING" and "cs \<noteq> []"
  shows "rt_pending (fold (packet clk loads) cs s) = rest_of (rt_pending s @ concat cs) \<and>
    outputTokens (rt_record (fold (packet clk loads) cs s))
      = last_tokens loads (outputTokens (rt_record s)) (lines_of (rt_pending s @ concat cs))"
  using assms
proof (induction cs arbitrary: s)
  case Nil
  then show ?case by simp
next
  case (Cons c cs)
  let ?s = "packet clk loads c s"
  from Cons.prems have small: "length (rt_pending s @ c) \<le> MAX_PENDING" by simp
  note one = packet_small [OF small, of clk loads]
  show ?case
  proof (cases "cs = []")
    case True
    with one show ?thesis by simp
  next
    case False
    have "length (rt_pending ?s) + length (concat cs) \<le> MAX_PENDING"
      using Cons.prems one(1) length_rest_of [of "rt_pending s @ c"] by simp
    from Cons.IH [OF this False] one show ?thesis
      using byte_lines.lns_append [of "rt_pending s @ c" "concat cs"]
        byte_lines.rst_append [of "rt_pending s @ c" "concat cs"]
      by (simp add: last_tokens_append)
  qed
qed

lemma fold_packet_counts:
  "upstreamBytes (rt_record (fold (packet clk loads) cs s))
     = upstreamBytes (rt_record s) + length (concat cs)"
  "upstreamChunks (rt_record (fold (packet clk loads) cs s))
     = upstreamChunks (rt_record s) + length cs"
  by (induction cs arbitrary: s) (auto simp: packet_counts)

section \<open>Properties\<close>

text \<open>What the timing parser reports does not depend on how the network cut the stream into
  packets: two ways of cutting the same bytes (within the 128 KiB parser window) give the same
  token count, the same byte count and the same unfinished line, whatever the clocks read.\<close>

theorem timing_chunking_independent:
  assumes "concat cs = concat cs'" and "cs \<noteq> []" and "cs' \<noteq> []"
    and "length (concat cs) \<le> MAX_PENDING"
  shows "outputTokens (rt_record (fold (packet clk loads) cs (new_timing clk)))
       = outputTokens (rt_record (fold (packet clk' loads) cs' (new_timing clk'))) \<and>
    upstreamBytes (rt_record (fold (packet clk loads) cs (new_timing clk)))
       = upstreamBytes (rt_record (fold (packet clk' loads) cs' (new_timing clk'))) \<and>
    rt_pending (fold (packet clk loads) cs (new_timing clk))
       = rt_pending (fold (packet clk' loads) cs' (new_timing clk'))"
  using assms fold_packet_small [of "new_timing clk" cs clk loads]
    fold_packet_small [of "new_timing clk'" cs' clk' loads]
  by (simp add: fold_packet_counts new_timing_def empty_record_def)

theorem timing_chunking_independent_witness:
  "outputTokens (rt_record (fold (packet (\<lambda>n. 0) (\<lambda>_. Some (JObj [(''usage'', JObj [(''completion_tokens'', JInt 7)])])))
      [''data: '', ''x'' @ [newline]] (new_timing (\<lambda>n. 0)))) =
   outputTokens (rt_record (fold (packet (\<lambda>n. 0) (\<lambda>_. Some (JObj [(''usage'', JObj [(''completion_tokens'', JInt 7)])])))
      [''data: x'' @ [newline]] (new_timing (\<lambda>n. 0))))"
  using timing_chunking_independent [of "[''data: '', ''x'' @ [newline]]" "[''data: x'' @ [newline]]"
      "\<lambda>n. 0" "\<lambda>_. Some (JObj [(''usage'', JObj [(''completion_tokens'', JInt 7)])])" "\<lambda>n. 0"]
  by (simp add: MAX_PENDING_def)

end
