(* ===== verification/Long_Admission.thy ===== *)
theory Long_Admission imports Prelude "HOL-Library.Sublist" begin

text \<open>
  Admission of long requests: \<open>LongContextGuard.acquire\<close> and \<open>release\<close> of
  \<open>scripts/long_context_callbacks.py\<close>.  A call of \<open>acquire\<close> runs without interruption
  up to \<open>await asyncio.sleep(.1)\<close>; there other coroutines run.  The model keeps the local
  variables of every suspended call in \<open>polling\<close> and has one operation per uninterrupted
  stretch.  The advisory lock \<open>/tmp/dsh-long-admission/active.lock\<close> belongs to an open file
  description and may also be held by another process (\<open>Foreign\<close>).
\<close>

section \<open>The file lock\<close>

datatype owner = Own nat | Foreign

record guard =
  leases :: "string \<rightharpoonup> nat"
  waiters :: "string list"
  polling :: "string \<rightharpoonup> nat \<times> rat"
  lock_owner :: "owner option"
  open_fds :: "nat set"
  next_fd :: nat

definition initial_guard :: guard where
  "initial_guard = \<lparr>leases = Map.empty, waiters = [], polling = Map.empty, lock_owner = None,
     open_fds = {}, next_fd = 0\<rparr>"

definition open_lock :: "guard \<Rightarrow> nat \<times> guard" where
  "open_lock g = (next_fd g, g\<lparr>next_fd := Suc (next_fd g), open_fds := insert (next_fd g) (open_fds g)\<rparr>)"

text \<open>\<open>flock(fd, LOCK_EX | LOCK_NB)\<close>: \<open>None\<close> is \<open>BlockingIOError\<close>.\<close>

definition try_flock :: "nat \<Rightarrow> guard \<Rightarrow> guard option" where
  "try_flock fd g =
     (if lock_owner g = None \<or> lock_owner g = Some (Own fd)
      then Some (g\<lparr>lock_owner := Some (Own fd)\<rparr>) else None)"

definition unflock :: "nat \<Rightarrow> guard \<Rightarrow> guard" where
  "unflock fd g =
     (if lock_owner g = Some (Own fd) then g\<lparr>lock_owner := None\<rparr> else g)"

text \<open>Closing the description drops the lock it holds.\<close>

definition close_fd :: "nat \<Rightarrow> guard \<Rightarrow> guard" where
  "close_fd fd g = (unflock fd g)\<lparr>open_fds := open_fds g - {fd}\<rparr>"

locale exclusive_lock =
  fixes owner :: "'s \<Rightarrow> 'h option" and take_lock :: "'h \<Rightarrow> 's \<Rightarrow> 's option"
    and drop_lock :: "'h \<Rightarrow> 's \<Rightarrow> 's"
  assumes take_owner: "take_lock h s = Some t \<Longrightarrow> owner t = Some h"
    and take_free: "owner s = None \<Longrightarrow> take_lock h s \<noteq> None"
    and take_only_free: "take_lock h s = Some t \<Longrightarrow> owner s = None \<or> owner s = Some h"
    and drop_owner: "owner s = Some h \<Longrightarrow> owner (drop_lock h s) = None"
    and drop_other: "owner s \<noteq> Some h \<Longrightarrow> owner (drop_lock h s) = owner s"
begin

lemma held_excludes: "take_lock h s = Some t \<Longrightarrow> h' \<noteq> h \<Longrightarrow> take_lock h' t = None"
  using take_owner [of h s t] take_only_free [of h' t] by (cases "take_lock h' t") auto

lemma only_owner_frees: "owner s = Some h \<Longrightarrow> h' \<noteq> h \<Longrightarrow> owner (drop_lock h' s) = Some h"
  using drop_other [of s h'] by simp

lemma drop_then_take: "owner s = Some h \<Longrightarrow> take_lock h' (drop_lock h s) \<noteq> None"
  using drop_owner take_free by blast

end

interpretation flock: exclusive_lock
  "\<lambda>g. lock_owner g" "\<lambda>h g. case h of Own fd \<Rightarrow> try_flock fd g
     | Foreign \<Rightarrow> (if lock_owner g = None \<or> lock_owner g = Some Foreign
                   then Some (g\<lparr>lock_owner := Some Foreign\<rparr>) else None)"
  "\<lambda>h g. case h of Own fd \<Rightarrow> close_fd fd g
     | Foreign \<Rightarrow> (if lock_owner g = Some Foreign then g\<lparr>lock_owner := None\<rparr> else g)"
  by unfold_locales
     (auto simp: try_flock_def close_fd_def unflock_def split: owner.splits if_splits)

section \<open>Acquire\<close>

datatype acquire_outcome = Acquired bool | Refused string | Suspended | NoCall

definition queue_full :: string where
  "queue_full = ''Long-context waiting queue full; retry later.''"

definition capacity_busy :: string where
  "capacity_busy = ''Long-context capacity busy; retry later.''"

text \<open>The \<open>finally\<close> block of a queued call.\<close>

definition leave_queue :: "string \<Rightarrow> guard \<Rightarrow> guard" where
  "leave_queue key g = g\<lparr>waiters := remove1 key (waiters g), polling := (polling g)(key := None)\<rparr>"

text \<open>One turn of the waiting loop, up to the next sleep.\<close>

definition poll :: "string \<Rightarrow> rat \<Rightarrow> guard \<Rightarrow> acquire_outcome \<times> guard" where
  "poll key now g =
     (case polling g key of
        None \<Rightarrow> (NoCall, g)
      | Some (fd, deadline) \<Rightarrow>
          (case (if hd (waiters g) = key then try_flock fd g else None) of
             Some g' \<Rightarrow> (Acquired True, leave_queue key (g'\<lparr>leases := (leases g')(key \<mapsto> fd)\<rparr>))
           | None \<Rightarrow>
               if deadline \<le> now
               then (Refused capacity_busy, close_fd fd (leave_queue key g))
               else (Suspended, g)))"

definition acquire_begin ::
  "nat \<Rightarrow> string \<Rightarrow> rat \<Rightarrow> rat \<Rightarrow> rat \<Rightarrow> guard \<Rightarrow> acquire_outcome \<times> guard" where
  "acquire_begin max_waiters key wait_seconds now now' g =
     (let (fd, g) = open_lock g in
      case (if waiters g = [] then try_flock fd g else None) of
        Some g' \<Rightarrow> (Acquired False, g'\<lparr>leases := (leases g')(key \<mapsto> fd)\<rparr>)
      | None \<Rightarrow>
          if length (waiters g) \<ge> max_waiters
          then (Refused queue_full, close_fd fd g)
          else poll key now'
                 (g\<lparr>waiters := waiters g @ [key],
                    polling := (polling g)(key \<mapsto> (fd, now + wait_seconds))\<rparr>))"

text \<open>Cancellation while asleep raises through the \<open>finally\<close> block.\<close>

definition acquire_cancel :: "string \<Rightarrow> guard \<Rightarrow> guard" where
  "acquire_cancel key g =
     (case polling g key of None \<Rightarrow> g | Some (fd, _) \<Rightarrow> close_fd fd (leave_queue key g))"

section \<open>Release\<close>

definition release_key :: "string \<Rightarrow> guard \<Rightarrow> guard" where
  "release_key key g =
     (case leases g key of None \<Rightarrow> g
      | Some fd \<Rightarrow> close_fd fd (unflock fd (g\<lparr>leases := (leases g)(key := None)\<rparr>)))"

text \<open>
  \<open>release\<close> reads the lease identity out of the request: no dictionary or no identity is a
  no-op; metadata that is no dictionary has no \<open>get\<close>; a list or dictionary is no dictionary key.
\<close>

definition release :: "json \<Rightarrow> guard \<Rightarrow> guard res" where
  "release data g =
     (if \<not> is_obj data then Inr g
      else
        let metadata = (if truthy (jget data ''metadata'') then jget data ''metadata'' else JObj []) in
        if \<not> is_obj metadata then Inl (AttributeError ''get'')
        else case jget metadata ''dsh_long_lease'' of
               JStr key \<Rightarrow> Inr (release_key key g)
             | JList _ \<Rightarrow> Inl (TypeError ''unhashable'')
             | JObj _ \<Rightarrow> Inl (TypeError ''unhashable'')
             | _ \<Rightarrow> Inr g)"

section \<open>Interleaved runs\<close>

text \<open>
  Lease identities are fresh random strings.  Any suspended call may be resumed or cancelled
  at any time, any lease released, and another process may take or drop a free lock.
\<close>

inductive guard_step :: "nat \<Rightarrow> guard \<Rightarrow> guard \<Rightarrow> bool" for max_waiters :: nat where
  arrive: "leases g key = None \<Longrightarrow> polling g key = None \<Longrightarrow>
     guard_step max_waiters g (snd (acquire_begin max_waiters key wait now now' g))"
| resume: "guard_step max_waiters g (snd (poll key now g))"
| cancel: "guard_step max_waiters g (acquire_cancel key g)"
| release: "guard_step max_waiters g (release_key key g)"
| foreign_take: "lock_owner g = None \<Longrightarrow> guard_step max_waiters g (g\<lparr>lock_owner := Some Foreign\<rparr>)"
| foreign_drop: "lock_owner g = Some Foreign \<Longrightarrow> guard_step max_waiters g (g\<lparr>lock_owner := None\<rparr>)"

inductive guard_reachable :: "nat \<Rightarrow> guard \<Rightarrow> bool" for max_waiters :: nat where
  start: "guard_reachable max_waiters initial_guard"
| step: "guard_reachable max_waiters g \<Longrightarrow> guard_step max_waiters g g' \<Longrightarrow> guard_reachable max_waiters g'"

section \<open>The invariant\<close>

text \<open>
  The lock is ours exactly while a lease holds its descriptor; waiting calls and the waiting
  list agree; open descriptors are those of leases and waiting calls, each owned once.
\<close>

definition lease_inv :: "guard \<Rightarrow> bool" where
  "lease_inv g \<longleftrightarrow>
     (\<forall>fd. lock_owner g = Some (Own fd) \<longleftrightarrow> (\<exists>k. leases g k = Some fd)) \<and>
     (\<forall>k k' fd. leases g k = Some fd \<longrightarrow> leases g k' = Some fd \<longrightarrow> k = k')"

definition queue_inv :: "nat \<Rightarrow> guard \<Rightarrow> bool" where
  "queue_inv max_waiters g \<longleftrightarrow>
     distinct (waiters g) \<and> set (waiters g) = dom (polling g) \<and> length (waiters g) \<le> max_waiters \<and>
     (\<forall>k. leases g k \<noteq> None \<longrightarrow> polling g k = None)"

definition fd_inv :: "guard \<Rightarrow> bool" where
  "fd_inv g \<longleftrightarrow>
     (\<forall>fd. fd \<in> open_fds g \<longleftrightarrow> (\<exists>k. leases g k = Some fd) \<or> (\<exists>k d. polling g k = Some (fd, d))) \<and>
     (\<forall>fd \<in> open_fds g. fd < next_fd g) \<and>
     (\<forall>k k' fd d. polling g k = Some (fd, d) \<longrightarrow> leases g k' \<noteq> Some fd) \<and>
     (\<forall>k k' fd d d'. polling g k = Some (fd, d) \<longrightarrow> polling g k' = Some (fd, d') \<longrightarrow> k = k')"

definition guard_inv :: "nat \<Rightarrow> guard \<Rightarrow> bool" where
  "guard_inv max_waiters g \<longleftrightarrow> lease_inv g \<and> queue_inv max_waiters g \<and> fd_inv g"

lemmas guard_inv_defs = guard_inv_def lease_inv_def queue_inv_def fd_inv_def

lemma guard_inv_initial: "guard_inv m initial_guard"
  by (simp add: guard_inv_defs initial_guard_def)

lemma guard_inv_waitersD: "guard_inv m g \<Longrightarrow> k \<in> set (waiters g) \<longleftrightarrow> polling g k \<noteq> None"
  by (auto simp: guard_inv_defs)

lemma guard_inv_next_fd:
  assumes "guard_inv m g"
  shows "leases g k \<noteq> Some (next_fd g)" and "polling g k \<noteq> Some (next_fd g, d)"
    and "lock_owner g \<noteq> Some (Own (next_fd g))" and "next_fd g \<notin> open_fds g"
proof -
  from assms have fresh: "next_fd g \<notin> open_fds g"
    and open_iff: "\<And>fd. fd \<in> open_fds g \<longleftrightarrow>
          (\<exists>k. leases g k = Some fd) \<or> (\<exists>k d. polling g k = Some (fd, d))"
    and lock: "\<And>fd. lock_owner g = Some (Own fd) \<longleftrightarrow> (\<exists>k. leases g k = Some fd)"
    unfolding guard_inv_def lease_inv_def fd_inv_def by blast+
  show "next_fd g \<notin> open_fds g" by (rule fresh)
  show "leases g k \<noteq> Some (next_fd g)" "polling g k \<noteq> Some (next_fd g, d)"
    using fresh open_iff [of "next_fd g"] by blast+
  show "lock_owner g \<noteq> Some (Own (next_fd g))"
    using fresh open_iff [of "next_fd g"] lock [of "next_fd g"] by blast
qed

lemma guard_polling_no_lease:
  "guard_inv m g \<Longrightarrow> polling g k = Some (fd, d) \<Longrightarrow> leases g k' \<noteq> Some fd"
  unfolding guard_inv_def fd_inv_def by blast

lemma guard_lock_iff_lease:
  "guard_inv m g \<Longrightarrow> lock_owner g = Some (Own fd) \<longleftrightarrow> (\<exists>k. leases g k = Some fd)"
  unfolding guard_inv_def lease_inv_def by blast

lemma guard_lease_unique:
  assumes "guard_inv m g" and "leases g k = Some fd" and "leases g k' = Some fd'"
  shows "k = k' \<and> fd = fd'"
proof -
  from assms have "lock_owner g = Some (Own fd)" "lock_owner g = Some (Own fd')"
    using guard_lock_iff_lease by blast+
  then have "fd = fd'" by simp
  with assms show ?thesis unfolding guard_inv_def lease_inv_def by blast
qed

lemma inv_bump:
  "guard_inv m g \<Longrightarrow> guard_inv m (g\<lparr>next_fd := Suc (next_fd g)\<rparr>)"
  unfolding guard_inv_defs by (simp add: less_Suc_eq)

lemma inv_direct_grant:
  assumes inv: "guard_inv m g" and free: "lock_owner g = None"
    and new: "leases g key = None" "polling g key = None"
  shows "guard_inv m (g\<lparr>next_fd := Suc (next_fd g), open_fds := insert (next_fd g) (open_fds g),
                       lock_owner := Some (Own (next_fd g)), leases := (leases g)(key \<mapsto> next_fd g)\<rparr>)"
proof -
  have none: "leases g k \<noteq> Some f" for k f
    using guard_lock_iff_lease [OF inv, of f] free by auto
  note fresh = guard_inv_next_fd [OF inv]
  show ?thesis
    unfolding guard_inv_def
  proof (intro conjI)
    let ?g = "g\<lparr>next_fd := Suc (next_fd g), open_fds := insert (next_fd g) (open_fds g),
                lock_owner := Some (Own (next_fd g)), leases := (leases g)(key \<mapsto> next_fd g)\<rparr>"
    show "lease_inv ?g" using none by (auto simp: lease_inv_def)
    show "queue_inv m ?g" using inv new by (simp add: guard_inv_def queue_inv_def)
    show "fd_inv ?g"
      using inv none fresh unfolding guard_inv_def fd_inv_def
      by (auto simp: less_Suc_eq)
  qed
qed

lemma inv_enqueue:
  assumes inv: "guard_inv m g" and new: "leases g key = None" "polling g key = None"
    and room: "length (waiters g) < m"
  shows "guard_inv m (g\<lparr>next_fd := Suc (next_fd g), open_fds := insert (next_fd g) (open_fds g),
                       waiters := waiters g @ [key], polling := (polling g)(key \<mapsto> (next_fd g, d))\<rparr>)"
proof -
  note fresh = guard_inv_next_fd [OF inv]
  show ?thesis
    unfolding guard_inv_def
  proof (intro conjI)
    let ?g = "g\<lparr>next_fd := Suc (next_fd g), open_fds := insert (next_fd g) (open_fds g),
                waiters := waiters g @ [key], polling := (polling g)(key \<mapsto> (next_fd g, d))\<rparr>"
    show "lease_inv ?g" using inv by (simp add: guard_inv_def lease_inv_def)
    show "queue_inv m ?g" using inv new room by (auto simp: guard_inv_def queue_inv_def)
    show "fd_inv ?g"
      using inv new fresh unfolding guard_inv_def fd_inv_def
      by (auto simp: less_Suc_eq) (metis option.distinct(1))
  qed
qed

lemma inv_grant_waiter:
  assumes inv: "guard_inv m g" and p: "polling g key = Some (fd, d)" and free: "lock_owner g = None"
  shows "guard_inv m (leave_queue key (g\<lparr>lock_owner := Some (Own fd), leases := (leases g)(key \<mapsto> fd)\<rparr>))"
proof -
  have none: "leases g k \<noteq> Some f" for k f
    using guard_lock_iff_lease [OF inv, of f] free by auto
  show ?thesis
    unfolding guard_inv_def
  proof (intro conjI)
    let ?g = "leave_queue key (g\<lparr>lock_owner := Some (Own fd), leases := (leases g)(key \<mapsto> fd)\<rparr>)"
    show "lease_inv ?g" using none by (auto simp: lease_inv_def leave_queue_def)
    show "queue_inv m ?g"
      using inv by (auto simp: guard_inv_def queue_inv_def leave_queue_def length_remove1)
    show "fd_inv ?g"
      using inv p none unfolding guard_inv_def fd_inv_def leave_queue_def
      by simp (metis option.inject prod.inject)
  qed
qed

lemma inv_drop_waiter:
  assumes inv: "guard_inv m g" and p: "polling g key = Some (fd, d)"
  shows "guard_inv m (close_fd fd (leave_queue key g))"
proof -
  have nol: "leases g k \<noteq> Some fd" for k by (rule guard_polling_no_lease [OF inv p])
  then have own: "lock_owner g \<noteq> Some (Own fd)" using guard_lock_iff_lease [OF inv] by blast
  show ?thesis
    unfolding guard_inv_def
  proof (intro conjI)
    let ?g = "close_fd fd (leave_queue key g)"
    show "lease_inv ?g"
      using inv own by (simp add: guard_inv_def lease_inv_def leave_queue_def close_fd_def unflock_def)
    show "queue_inv m ?g"
      using inv own by (auto simp: guard_inv_def queue_inv_def leave_queue_def close_fd_def
          unflock_def length_remove1)
    show "fd_inv ?g"
      using inv p own nol unfolding guard_inv_def fd_inv_def leave_queue_def close_fd_def unflock_def
      by simp (metis option.inject prod.inject)
  qed
qed

lemma inv_release:
  assumes inv: "guard_inv m g"
  shows "guard_inv m (release_key key g)"
proof (cases "leases g key")
  case None
  with inv show ?thesis by (simp add: release_key_def)
next
  case (Some fd)
  from Some have own: "lock_owner g = Some (Own fd)" using guard_lock_iff_lease [OF inv] by blast
  have uniq: "leases g k = Some f \<Longrightarrow> k = key \<and> f = fd" for k f
    using guard_lease_unique [OF inv _ Some] by simp
  have nop: "polling g k \<noteq> Some (fd, d)" for k d
    using guard_polling_no_lease [OF inv, of k fd d key] Some by auto
  have "(leases g)(key := None) = Map.empty"
  proof
    fix k
    show "((leases g)(key := None)) k = None" using uniq [of k] by (cases "leases g k") auto
  qed
  then have eq: "release_key key g =
      g\<lparr>leases := Map.empty, lock_owner := None, open_fds := open_fds g - {fd}\<rparr>"
    using Some own by (simp add: release_key_def close_fd_def unflock_def)
  have open_iff: "f \<in> open_fds g \<longleftrightarrow> f = fd \<or> (\<exists>k d. polling g k = Some (f, d))" for f
    using inv Some uniq [of _ f] unfolding guard_inv_def fd_inv_def by blast
  show ?thesis
    unfolding eq guard_inv_def
  proof (intro conjI)
    let ?g = "g\<lparr>leases := Map.empty, lock_owner := None, open_fds := open_fds g - {fd}\<rparr>"
    show "lease_inv ?g" by (simp add: lease_inv_def)
    show "queue_inv m ?g" using inv by (simp add: guard_inv_def queue_inv_def)
    have "f < next_fd g" if "f \<in> open_fds g" for f
      using inv that unfolding guard_inv_def fd_inv_def by blast
    moreover have "k = k'" if "polling g k = Some (f, d)" "polling g k' = Some (f, d')" for k k' f d d'
      using inv that unfolding guard_inv_def fd_inv_def by blast
    moreover have "f \<in> open_fds g - {fd} \<longleftrightarrow> (\<exists>k d. polling g k = Some (f, d))" for f
      using open_iff [of f] nop by blast
    ultimately show "fd_inv ?g" unfolding fd_inv_def by (simp del: split_paired_Ex) blast
  qed
qed


section \<open>Every operation keeps the invariant\<close>

lemma try_flock_inv_owner:
  assumes "guard_inv m g" and "polling g key = Some (fd, d)" and "try_flock fd g = Some g'"
  shows "lock_owner g = None \<and> g' = g\<lparr>lock_owner := Some (Own fd)\<rparr>"
  using assms guard_lock_iff_lease [OF assms(1), of fd] guard_polling_no_lease [OF assms(1,2)]
  by (auto simp: try_flock_def split: if_splits)

lemma inv_poll: "guard_inv m g \<Longrightarrow> guard_inv m (snd (poll key now g))"
proof (cases "polling g key")
  case None
  then show "guard_inv m g \<Longrightarrow> ?thesis" by (simp add: poll_def)
next
  case (Some p)
  obtain fd d where p: "p = (fd, d)" by (cases p)
  assume inv: "guard_inv m g"
  show ?thesis
  proof (cases "if hd (waiters g) = key then try_flock fd g else None")
    case None
    with Some p inv show ?thesis by (auto simp: poll_def inv_drop_waiter)
  next
    case (Some g')
    then have "try_flock fd g = Some g'" by (simp split: if_splits)
    with \<open>polling g key = Some p\<close> p inv
    have free: "lock_owner g = None" and g': "g' = g\<lparr>lock_owner := Some (Own fd)\<rparr>"
      using try_flock_inv_owner by blast+
    have "guard_inv m (leave_queue key (g\<lparr>lock_owner := Some (Own fd), leases := (leases g)(key \<mapsto> fd)\<rparr>))"
      using \<open>polling g key = Some p\<close> p inv_grant_waiter [OF inv _ free] by simp
    with Some \<open>polling g key = Some p\<close> p g' show ?thesis by (simp add: poll_def)
  qed
qed

lemma close_unopened:
  assumes "guard_inv m g"
  shows "close_fd (next_fd g)
          (g\<lparr>next_fd := Suc (next_fd g), open_fds := insert (next_fd g) (open_fds g)\<rparr>)
         = g\<lparr>next_fd := Suc (next_fd g)\<rparr>"
  using guard_inv_next_fd [OF assms] by (simp add: close_fd_def unflock_def)

lemma inv_acquire_begin:
  assumes inv: "guard_inv m g" and new: "leases g key = None" "polling g key = None"
  shows "guard_inv m (snd (acquire_begin m key wait now now' g))"
proof -
  let ?fd = "next_fd g"
  let ?o = "g\<lparr>next_fd := Suc ?fd, open_fds := insert ?fd (open_fds g)\<rparr>"
  consider (direct) "waiters g = []" "lock_owner g = None"
    | (full) "\<not> (waiters g = [] \<and> lock_owner g = None)" "m \<le> length (waiters g)"
    | (queue) "\<not> (waiters g = [] \<and> lock_owner g = None)" "length (waiters g) < m"
    by linarith
  then show ?thesis
  proof cases
    case direct
    then show ?thesis
      using inv_direct_grant [OF inv direct(2) new]
      by (simp add: acquire_begin_def open_lock_def try_flock_def Let_def)
  next
    case full
    have nolock: "(if waiters ?o = [] then try_flock ?fd ?o else None) = None"
      using full guard_inv_next_fd(3) [OF inv] by (auto simp: try_flock_def)
    show ?thesis
      using full nolock close_unopened [OF inv] inv_bump [OF inv]
      by (simp add: acquire_begin_def open_lock_def Let_def)
  next
    case queue
    have nolock: "(if waiters ?o = [] then try_flock ?fd ?o else None) = None"
      using queue guard_inv_next_fd(3) [OF inv] by (auto simp: try_flock_def)
    show ?thesis
      using queue nolock inv_poll [OF inv_enqueue [OF inv new queue(2), of "now + wait"]]
      by (simp add: acquire_begin_def open_lock_def Let_def)
  qed
qed

lemma inv_acquire_cancel: "guard_inv m g \<Longrightarrow> guard_inv m (acquire_cancel key g)"
  by (auto simp: acquire_cancel_def inv_drop_waiter split: option.splits)

lemma inv_foreign:
  "guard_inv m g \<Longrightarrow> lock_owner g = None \<Longrightarrow> guard_inv m (g\<lparr>lock_owner := Some Foreign\<rparr>)"
  "guard_inv m g \<Longrightarrow> lock_owner g = Some Foreign \<Longrightarrow> guard_inv m (g\<lparr>lock_owner := None\<rparr>)"
  unfolding guard_inv_def lease_inv_def queue_inv_def fd_inv_def by simp_all

lemma guard_step_inv: "guard_step m g g' \<Longrightarrow> guard_inv m g \<Longrightarrow> guard_inv m g'"
  by (induction rule: guard_step.induct)
     (auto intro: inv_acquire_begin inv_poll inv_acquire_cancel inv_release inv_foreign)

lemma guard_reachable_inv: "guard_reachable m g \<Longrightarrow> guard_inv m g"
  by (induction rule: guard_reachable.induct) (auto intro: guard_inv_initial guard_step_inv)

section \<open>Order of admission\<close>

text \<open>What an operation does to the queue: it may remove entries and append one at the end.\<close>

definition queue_extends :: "string list \<Rightarrow> string list \<Rightarrow> bool" where
  "queue_extends ws ws' \<longleftrightarrow> (\<exists>kept new. ws' = kept @ new \<and> subseq kept ws \<and> length new \<le> 1)"

lemma queue_extends_refl: "queue_extends ws ws"
  unfolding queue_extends_def by (rule exI [of _ ws], rule exI [of _ "[]"]) simp

lemma subseq_remove1: "subseq (remove1 x xs) xs"
  by (induction xs) auto

lemma queue_extends_remove1: "queue_extends ws (remove1 k ws)"
  unfolding queue_extends_def
  by (rule exI [of _ "remove1 k ws"], rule exI [of _ "[]"]) (simp add: subseq_remove1)

lemma queue_extends_snoc: "queue_extends ws (ws @ [k])"
  unfolding queue_extends_def by (rule exI [of _ ws], rule exI [of _ "[k]"]) simp

lemma queue_extends_snoc_remove1: "queue_extends ws (remove1 k (ws @ [k]))"
proof (cases "k \<in> set ws")
  case True
  then show ?thesis
    unfolding queue_extends_def
    by (intro exI [of _ "remove1 k ws"] exI [of _ "[k]"]) (simp add: remove1_append subseq_remove1)
next
  case False
  then show ?thesis by (simp add: remove1_append queue_extends_refl)
qed

lemma close_fd_frame [simp]:
  "waiters (close_fd fd g) = waiters g" "leases (close_fd fd g) = leases g"
  "polling (close_fd fd g) = polling g"
  by (simp_all add: close_fd_def unflock_def)

lemma try_flock_frame:
  "try_flock fd g = Some g' \<Longrightarrow> waiters g' = waiters g \<and> leases g' = leases g \<and> polling g' = polling g"
  by (auto simp: try_flock_def split: if_splits)

lemma poll_waiters: "waiters (snd (poll key now g)) \<in> {waiters g, remove1 key (waiters g)}"
  by (auto simp: poll_def leave_queue_def dest: try_flock_frame split: option.splits if_splits)

lemma poll_leases:
  "leases (snd (poll key now g)) = leases g \<or>
   (hd (waiters g) = key \<and> (\<exists>fd. leases (snd (poll key now g)) = (leases g)(key \<mapsto> fd)))"
proof (cases "polling g key")
  case None
  then show ?thesis by (simp add: poll_def)
next
  case (Some p)
  obtain fd d where p: "p = (fd, d)" by (cases p)
  show ?thesis
  proof (cases "if hd (waiters g) = key then try_flock fd g else None")
    case None
    with Some p show ?thesis by (simp add: poll_def leave_queue_def)
  next
    case (Some g')
    then have "hd (waiters g) = key" and "leases g' = leases g"
      by (auto dest: try_flock_frame split: if_splits)
    with Some \<open>polling g key = Some p\<close> p show ?thesis
      by (auto simp: poll_def leave_queue_def)
  qed
qed

lemma acquire_begin_waiters:
  "queue_extends (waiters g) (waiters (snd (acquire_begin m key wait now now' g)))"
proof -
  let ?q = "g\<lparr>next_fd := Suc (next_fd g), open_fds := insert (next_fd g) (open_fds g),
              waiters := waiters g @ [key],
              polling := (polling g)(key \<mapsto> (next_fd g, now + wait))\<rparr>"
  have "waiters (snd (acquire_begin m key wait now now' g)) = waiters g \<or>
        waiters (snd (acquire_begin m key wait now now' g)) = waiters (snd (poll key now' ?q))"
    by (auto simp: acquire_begin_def open_lock_def Let_def dest: try_flock_frame
        split: option.splits if_splits)
  then show ?thesis
    using poll_waiters [of key now' ?q]
    by (auto simp: queue_extends_refl queue_extends_snoc queue_extends_snoc_remove1)
qed

lemma acquire_begin_leases:
  assumes "guard_inv m g" and "polling g key = None"
    and "leases (snd (acquire_begin m key wait now now' g)) k \<noteq> leases g k"
  shows "k = key \<and> waiters g = []"
proof -
  let ?q = "g\<lparr>next_fd := Suc (next_fd g), open_fds := insert (next_fd g) (open_fds g),
              waiters := waiters g @ [key],
              polling := (polling g)(key \<mapsto> (next_fd g, now + wait))\<rparr>"
  have "waiters g = [] \<and> leases (snd (acquire_begin m key wait now now' g)) = (leases g)(key \<mapsto> next_fd g)
      \<or> leases (snd (acquire_begin m key wait now now' g)) = leases g
      \<or> leases (snd (acquire_begin m key wait now now' g)) = leases (snd (poll key now' ?q))"
    by (auto simp: acquire_begin_def open_lock_def Let_def dest: try_flock_frame
        split: option.splits if_splits)
  moreover have "hd (waiters ?q) = key \<Longrightarrow> waiters g = []"
    using guard_inv_waitersD [OF assms(1), of key] assms(2)
    by (cases "waiters g") auto
  ultimately show ?thesis
    using assms(3) poll_leases [of key now' ?q] by (auto split: if_splits)
qed

lemma release_key_frame:
  "waiters (release_key key g) = waiters g"
  "leases (release_key key g) k = (if k = key then None else leases g k)"
  "polling (release_key key g) = polling g"
  by (auto simp: release_key_def unflock_def split: option.splits)

lemma acquire_cancel_frame:
  "waiters (acquire_cancel key g) \<in> {waiters g, remove1 key (waiters g)}"
  "leases (acquire_cancel key g) = leases g"
  by (auto simp: acquire_cancel_def leave_queue_def split: option.splits)

lemma guard_step_queue: "guard_step m g g' \<Longrightarrow> queue_extends (waiters g) (waiters g')"
proof (induction rule: guard_step.induct)
  case (resume g key now)
  show ?case
    using poll_waiters [of key now g] by (auto simp: queue_extends_refl queue_extends_remove1)
next
  case (cancel g key)
  show ?case
    using acquire_cancel_frame(1) [of key g] by (auto simp: queue_extends_refl queue_extends_remove1)
qed (simp_all add: acquire_begin_waiters release_key_frame queue_extends_refl)

lemma guard_step_grant:
  assumes "guard_step m g g'" and "guard_inv m g" and "leases g k = None" and "leases g' k = Some fd"
  shows "waiters g = [] \<or> hd (waiters g) = k"
  using assms
proof (induction rule: guard_step.induct)
  case (arrive g key wait now now')
  then show ?case using acquire_begin_leases [of m g key wait now now' k] by auto
next
  case (resume g key now)
  then show ?case using poll_leases [of key now g] by (auto split: if_splits)
qed (auto simp: release_key_frame acquire_cancel_frame split: if_splits)


section \<open>Properties\<close>

text \<open>C27: In every reachable state of the admission guard at most one long request holds a lease,
  it holds it exactly while this process owns the file lock, the waiting queue never exceeds its
  bound, and every open lock descriptor belongs to a lease or to a waiting call (no leak).\<close>

theorem long_admission_exclusive:
  assumes "guard_reachable m g"
  shows "(\<forall>k k' fd fd'. leases g k = Some fd \<longrightarrow> leases g k' = Some fd' \<longrightarrow> k = k' \<and> fd = fd') \<and>
    (\<forall>fd. lock_owner g = Some (Own fd) \<longleftrightarrow> (\<exists>k. leases g k = Some fd)) \<and>
    length (waiters g) \<le> m \<and> distinct (waiters g) \<and>
    (\<forall>fd. fd \<in> open_fds g \<longleftrightarrow>
       (\<exists>k. leases g k = Some fd) \<or> (\<exists>k d. polling g k = Some (fd, d)))"
proof -
  from assms have inv: "guard_inv m g" by (rule guard_reachable_inv)
  show ?thesis
    using guard_lease_unique [OF inv] guard_lock_iff_lease [OF inv] inv
    unfolding guard_inv_def queue_inv_def fd_inv_def by blast
qed

definition two_requests :: guard where
  "two_requests = snd (acquire_begin 1 ''b'' 300 1 1 (snd (acquire_begin 1 ''a'' 300 0 0 initial_guard)))"

lemma two_requests_eval:
  "leases two_requests = [''a'' \<mapsto> 0]" "waiters two_requests = [''b'']"
  "polling two_requests = [''b'' \<mapsto> (1, 301)]" "lock_owner two_requests = Some (Own 0)"
  by (simp_all add: two_requests_def acquire_begin_def open_lock_def try_flock_def poll_def
      initial_guard_def Let_def)

lemma two_requests_reachable: "guard_reachable 1 two_requests"
proof -
  let ?g = "snd (acquire_begin 1 ''a'' 300 0 0 initial_guard)"
  have "guard_reachable 1 ?g"
    by (rule guard_reachable.step [OF guard_reachable.start guard_step.arrive])
       (simp_all add: initial_guard_def)
  moreover have "leases ?g ''b'' = None" "polling ?g ''b'' = None"
    by (simp_all add: acquire_begin_def open_lock_def try_flock_def initial_guard_def Let_def)
  ultimately show ?thesis
    unfolding two_requests_def by (rule guard_reachable.step [OF _ guard_step.arrive])
qed

theorem long_admission_exclusive_witness:
  "guard_reachable 1 two_requests \<and> length (waiters two_requests) \<le> 1 \<and>
   distinct (waiters two_requests)"
  using two_requests_reachable long_admission_exclusive [OF two_requests_reachable] by blast

text \<open>Admission is first come, first served: in any step, a request that gains the lease was
  alone or at the head of the queue, and the queue changes only by removals and by appending at
  most one request at its end, so no request overtakes another.\<close>

theorem long_admission_fifo:
  assumes "guard_reachable m g" and "guard_step m g g'"
  shows "queue_extends (waiters g) (waiters g') \<and>
    (\<forall>k fd. leases g k = None \<longrightarrow> leases g' k = Some fd \<longrightarrow> waiters g = [] \<or> hd (waiters g) = k)"
  using guard_step_queue [OF assms(2)] guard_step_grant [OF assms(2) guard_reachable_inv [OF assms(1)]]
  by blast

theorem long_admission_fifo_witness:
  "guard_reachable 1 two_requests \<and> guard_step 1 two_requests (release_key ''a'' two_requests) \<and>
   queue_extends (waiters two_requests) (waiters (release_key ''a'' two_requests))"
  using two_requests_reachable guard_step.release [of 1 two_requests "''a''"]
    long_admission_fifo [OF two_requests_reachable guard_step.release [of 1 two_requests "''a''"]]
  by blast



text \<open>A waiting call is always decided at its deadline: a turn at or after the deadline either
  grants the lease or refuses with the capacity message, and a refusal removes the call from the
  queue, closes its descriptor and leaves every lease as it was.\<close>

theorem deadline_decides:
  assumes "guard_reachable m g" and "polling g key = Some (fd, d)" and "d \<le> now"
  shows "(\<exists>g'. poll key now g = (Acquired True, g') \<and> leases g' key = Some fd) \<or>
    (\<exists>g'. poll key now g = (Refused capacity_busy, g') \<and> key \<notin> set (waiters g') \<and>
       polling g' key = None \<and> fd \<notin> open_fds g' \<and> leases g' = leases g)"
proof -
  from assms(1) have inv: "guard_inv m g" by (rule guard_reachable_inv)
  then have dist: "distinct (waiters g)" unfolding guard_inv_def queue_inv_def by blast
  show ?thesis
  proof (cases "if hd (waiters g) = key then try_flock fd g else None")
    case None
    with assms(2,3) dist show ?thesis
      by (auto simp: poll_def leave_queue_def close_fd_def unflock_def)
  next
    case (Some g')
    with assms(2) show ?thesis by (auto simp: poll_def leave_queue_def)
  qed
qed

theorem deadline_decides_witness:
  "\<exists>g'. poll ''b'' 301 two_requests = (Refused capacity_busy, g') \<and> ''b'' \<notin> set (waiters g')"
  using deadline_decides [OF two_requests_reachable, of "''b''" 1 301 301]
  by (auto simp: two_requests_eval poll_def try_flock_def)

end
