(* ===== verification/Warm_Prefix.thy ===== *)
theory Warm_Prefix imports Prelude begin

text \<open>
  Preparing a long prompt in bounded steps: \<open>warm_prefix\<close>, \<open>async_warm_prefix\<close> and
  \<open>LongContextGuard.warm\<close> of \<open>scripts/long_context_callbacks.py\<close>.  The backend's answer
  to the n-th request is given by \<open>reply n\<close> (request 0 is the cache probe).  The trace lists
  the turns given to foreground requests, the requests sent and the pauses; log lines and the
  measured seconds are left out.
\<close>

definition CACHE_PROBE_SECONDS :: rat where "CACHE_PROBE_SECONDS = 2"
definition CONSERVATIVE_TAIL_START :: int where "CONSERVATIVE_TAIL_START = 524288"
definition CONSERVATIVE_TAIL_STEP :: int where "CONSERVATIVE_TAIL_STEP = 2048"

lemmas warm_constants = CONSERVATIVE_TAIL_START_def CONSERVATIVE_TAIL_STEP_def

section \<open>One request and its cancellation\<close>

datatype gen_reply = GenBody json | GenRaise exn

fun is_timeout :: "exn \<Rightarrow> bool" where
  "is_timeout (TimeoutError _) = True"
| "is_timeout CacheProbeMiss = True"
| "is_timeout _ = False"

text \<open>
  A failed request is aborted at the backend; a time-out becomes the benign probe miss only when
  the abort was acknowledged with status 200 (\<open>abort_status\<close> is \<open>None\<close> when the abort raised).
\<close>

definition warm_prefix :: "gen_reply \<Rightarrow> int option \<Rightarrow> json res" where
  "warm_prefix gen abort_status =
     (case gen of
        GenRaise error \<Rightarrow>
          let aborted = (abort_status = Some 200) in
          if is_timeout error
          then (if aborted then Inl CacheProbeMiss
                else Inl (RuntimeError ''Warm request cancellation not acknowledged; stop escalation''))
          else Inl error
      | GenBody result \<Rightarrow>
          if \<not> is_obj result then Inl (TypeError ''subscript'')
          else if \<not> jhas result ''meta_info'' then Inl (KeyError ''meta_info'')
          else Inr (jget result ''meta_info''))"

text \<open>
  \<open>async_warm_prefix\<close> waits for the worker thread behind a shield.  What reaches it is the end
  of the step or a cancellation of its owner; \<open>None\<close> means it is still waiting.
\<close>

datatype wait_event = StepDone "json res" | OwnerCancelled

fun drain_step :: "wait_event list \<Rightarrow> json res option" where
  "drain_step [] = None"
| "drain_step (StepDone _ # _) = Some (Inl CancelledError)"
| "drain_step (OwnerCancelled # es) = drain_step es"

fun async_warm_prefix :: "wait_event list \<Rightarrow> json res option" where
  "async_warm_prefix [] = None"
| "async_warm_prefix (StepDone r # _) = Some r"
| "async_warm_prefix (OwnerCancelled # es) = drain_step es"

section \<open>The preparation loop\<close>

datatype warm_action = ForegroundTurn | WarmRequest "int list" "rat option" | Pause

record warm_summary =
  ws_steps :: nat
  ws_tokens :: nat
  ws_mode :: string

definition next_end :: "int \<Rightarrow> int \<Rightarrow> int \<Rightarrow> int" where
  "next_end WARM_STEP n e =
     (let step = (if e \<ge> CONSERVATIVE_TAIL_START then min WARM_STEP CONSERVATIVE_TAIL_STEP else WARM_STEP);
          boundary = (if e < CONSERVATIVE_TAIL_START then CONSERVATIVE_TAIL_START else n)
      in min (min (e + step) n) boundary)"

text \<open>The check after a step: a cache that shrank by more than 512 tokens stops the run.\<close>

definition check_cached :: "int \<Rightarrow> json \<Rightarrow> unit res" where
  "check_cached previous meta =
     (if \<not> is_obj meta then Inl (AttributeError ''get'')
      else
        let cached = (if jhas meta ''cached_tokens'' then jget meta ''cached_tokens'' else JInt 0) in
        if previous = 0 then Inr ()
        else case py_less_int cached (previous - 512) of
               Inl e \<Rightarrow> Inl e
             | Inr True \<Rightarrow> Inl (RuntimeError ''Long prefix was evicted; defer and retry the request'')
             | Inr False \<Rightarrow> Inr ())"

text \<open>The loop need not end for a step size below one, so its value is an option.\<close>

partial_function (option) warm_loop ::
  "int \<Rightarrow> int list \<Rightarrow> (nat \<Rightarrow> json res) \<Rightarrow> int \<Rightarrow> nat \<Rightarrow> int \<Rightarrow> warm_action list
   \<Rightarrow> (warm_action list \<times> nat res) option" where
  "warm_loop WARM_STEP ids reply previous steps e trace =
     (if e < int (length ids) then
        let e' = next_end WARM_STEP (int (length ids)) e;
            trace' = trace @ [ForegroundTurn, WarmRequest (take (nat e') ids) None]
        in (case reply (Suc steps) of
              Inl x \<Rightarrow> Some (trace', Inl x)
            | Inr meta \<Rightarrow>
                (case check_cached previous meta of
                   Inl x \<Rightarrow> Some (trace', Inl x)
                 | Inr _ \<Rightarrow> warm_loop WARM_STEP ids reply e' (Suc steps) e' (trace' @ [Pause])))
      else Some (trace, Inr steps))"

definition warm ::
  "int \<Rightarrow> int list \<Rightarrow> (nat \<Rightarrow> json res) \<Rightarrow> (warm_action list \<times> warm_summary res) option" where
  "warm WARM_STEP ids reply =
     (let probe = [ForegroundTurn, WarmRequest ids (Some CACHE_PROBE_SECONDS)];
          chunked = map_option (\<lambda>(tr, r). (tr, case r of
                        Inl x \<Rightarrow> Inl x
                      | Inr steps \<Rightarrow> Inr \<lparr>ws_steps = steps, ws_tokens = length ids,
                                         ws_mode = ''chunked-prefix-warming''\<rparr>))
                      (warm_loop WARM_STEP ids reply 0 0 0 probe)
      in case reply 0 of
           Inl CacheProbeMiss \<Rightarrow> chunked
         | Inl x \<Rightarrow> Some (probe, Inl x)
         | Inr meta \<Rightarrow>
             if \<not> is_obj meta then Some (probe, Inl (AttributeError ''get''))
             else if \<not> py_eq (jget meta ''prompt_tokens'') (JInt (int (length ids)))
             then Some (probe, Inl (RuntimeError ''Unexpected cache-probe token usage''))
             else Some (probe, Inr \<lparr>ws_steps = 1, ws_tokens = length ids,
                                   ws_mode = ''bounded-cache-probe''\<rparr>))"

section \<open>Lemmas\<close>

lemma next_end_bounds:
  assumes "0 \<le> e" and "e < n" and "1 \<le> W"
  shows "e < next_end W n e" and "next_end W n e \<le> n" and "next_end W n e - e \<le> W"
    and "e \<ge> CONSERVATIVE_TAIL_START \<Longrightarrow> next_end W n e - e \<le> CONSERVATIVE_TAIL_STEP"
    and "e < CONSERVATIVE_TAIL_START \<Longrightarrow> next_end W n e \<le> CONSERVATIVE_TAIL_START"
  using assms by (auto simp: next_end_def Let_def warm_constants)

text \<open>The prefix lengths requested along a trace, the probe left out.\<close>

fun warm_lengths :: "warm_action list \<Rightarrow> int list" where
  "warm_lengths [] = []"
| "warm_lengths (WarmRequest ids None # tr) = int (length ids) # warm_lengths tr"
| "warm_lengths (_ # tr) = warm_lengths tr"

fun schedule_from :: "int \<Rightarrow> int \<Rightarrow> int \<Rightarrow> int list \<Rightarrow> bool" where
  "schedule_from W n e [] = True"
| "schedule_from W n e (x # xs) = (e < n \<and> x = next_end W n e \<and> schedule_from W n x xs)"

lemma warm_lengths_append: "warm_lengths (xs @ ys) = warm_lengths xs @ warm_lengths ys"
  by (induction xs rule: warm_lengths.induct) auto

text \<open>Each request sent directly follows a turn given to foreground requests.\<close>

fun polite :: "warm_action list \<Rightarrow> bool" where
  "polite [] = True"
| "polite (ForegroundTurn # WarmRequest _ _ # tr) = polite tr"
| "polite (WarmRequest _ _ # tr) = False"
| "polite (_ # tr) = polite tr"

lemma polite_append_turn:
  "polite tr \<Longrightarrow> polite (tr @ [ForegroundTurn, WarmRequest ids t])"
  by (induction tr rule: polite.induct) auto

lemma polite_append_pause: "polite tr \<Longrightarrow> polite (tr @ [Pause])"
  by (induction tr rule: polite.induct) auto

lemma warm_loop_returns:
  assumes "1 \<le> W" and "0 \<le> e" and "e \<le> int (length ids)" and "polite tr"
  shows "\<exists>tr' r ends. warm_loop W ids reply p s e tr = Some (tr', r) \<and> polite tr' \<and>
    warm_lengths tr' = warm_lengths tr @ ends \<and> schedule_from W (int (length ids)) e ends \<and>
    (\<forall>k. r = Inr k \<longrightarrow> k = s + length ends \<and> last (e # ends) = int (length ids))"
  using assms
proof (induction "nat (int (length ids) - e)" arbitrary: p s e tr rule: less_induct)
  case less
  let ?n = "int (length ids)"
  show ?case
  proof (cases "e < ?n")
    case False
    with less.prems show ?thesis by (subst warm_loop.simps) auto
  next
    case True
    let ?e = "next_end W ?n e"
    let ?tr = "tr @ [ForegroundTurn, WarmRequest (take (nat ?e) ids) None]"
    note b = next_end_bounds(1,2) [OF less.prems(2) True less.prems(1)]
    from b less.prems have len: "int (length (take (nat ?e) ids)) = ?e" by simp
    have pol: "polite ?tr" by (rule polite_append_turn [OF less.prems(4)])
    have stop: ?thesis
      if "warm_loop W ids reply p s e tr = Some (?tr, Inl x)" for x
      using that pol len True
      by (intro exI [of _ ?tr] exI [of _ "Inl x"] exI [of _ "[?e]"]) (simp add: warm_lengths_append)
    show ?thesis
    proof (cases "reply (Suc s)")
      case (Inl x)
      with True show ?thesis by (intro stop [of x]) (simp add: warm_loop.simps [of W ids reply p s e] Let_def)
    next
      case (Inr meta)
      show ?thesis
      proof (cases "check_cached p meta")
        case (Inl x)
        with Inr True show ?thesis
          by (intro stop [of x]) (simp add: warm_loop.simps [of W ids reply p s e] Let_def)
      next
        case (Inr u)
        have eq: "warm_loop W ids reply p s e tr = warm_loop W ids reply ?e (Suc s) ?e (?tr @ [Pause])"
          using Inr \<open>reply (Suc s) = Inr meta\<close> True
          by (simp add: warm_loop.simps [of W ids reply p s e] Let_def)
        have "nat (?n - ?e) < nat (?n - e)" using b True by simp
        from less.hyps [OF this less.prems(1) _ b(2) polite_append_pause [OF pol], of ?e "Suc s"] b less.prems
        obtain tr' r ends where
          "warm_loop W ids reply ?e (Suc s) ?e (?tr @ [Pause]) = Some (tr', r)" "polite tr'"
          "warm_lengths tr' = warm_lengths (?tr @ [Pause]) @ ends" "schedule_from W ?n ?e ends"
          "\<forall>k. r = Inr k \<longrightarrow> k = Suc s + length ends \<and> last (?e # ends) = ?n"
          by auto
        with eq len True show ?thesis
          by (intro exI [of _ tr'] exI [of _ r] exI [of _ "?e # ends"])
             (auto simp: warm_lengths_append)
      qed
    qed
  qed
qed

lemma schedule_bounds:
  assumes "1 \<le> W" and "0 \<le> e" and "schedule_from W n e ends" and "i < length ends"
  shows "(e # ends) ! i < ends ! i \<and> ends ! i \<le> n \<and> ends ! i - (e # ends) ! i \<le> W \<and>
    ((e # ends) ! i \<ge> CONSERVATIVE_TAIL_START \<longrightarrow> ends ! i - (e # ends) ! i \<le> CONSERVATIVE_TAIL_STEP)"
  using assms
proof (induction ends arbitrary: e i)
  case Nil
  then show ?case by simp
next
  case (Cons x xs)
  from Cons.prems have x: "e < n" "x = next_end W n e" "schedule_from W n x xs" by auto
  note b = next_end_bounds [OF Cons.prems(2) x(1) Cons.prems(1)]
  show ?case
  proof (cases i)
    case 0
    with b x(2) show ?thesis by simp
  next
    case (Suc j)
    with Cons.IH [OF Cons.prems(1) _ x(3), of j] Cons.prems b(1) x(2) show ?thesis by simp
  qed
qed

lemma drain_step_cancelled: "set pre \<subseteq> {OwnerCancelled} \<Longrightarrow> drain_step (pre @ es) = drain_step es"
  by (induction pre) auto

lemma drain_step_Some:
  "drain_step es = Some r \<Longrightarrow>
   \<exists>pre out post. es = pre @ StepDone out # post \<and> set pre \<subseteq> {OwnerCancelled} \<and> r = Inl CancelledError"
proof (induction es rule: drain_step.induct)
  case (2 out es)
  then show ?case by (intro exI [of _ "[]"]) simp
next
  case (3 es)
  then obtain pre out post where
    "es = pre @ StepDone out # post" "set pre \<subseteq> {OwnerCancelled}" "r = Inl CancelledError" by auto
  then show ?case
    by (intro exI [of _ "OwnerCancelled # pre"] exI [of _ out] exI [of _ post]) simp
qed simp

section \<open>Properties\<close>

text \<open>C30: Preparing a long prompt always ends, for every configured step size and every sequence of
  backend answers; each request is sent right after foreground requests had their turn; the prefix
  lengths grow strictly, by at most the configured step and by at most 2048 tokens from 512K on,
  never past the prompt, and a chunked run that succeeds ends with the whole prompt prepared, one
  step per request.\<close>

theorem warm_bounded_steps:
  assumes "1 \<le> W"
  shows "\<exists>tr r. warm W ids reply = Some (tr, r) \<and> polite tr \<and>
    (\<forall>i < length (warm_lengths tr).
       (0 # warm_lengths tr) ! i < warm_lengths tr ! i \<and>
       warm_lengths tr ! i \<le> int (length ids) \<and>
       warm_lengths tr ! i - (0 # warm_lengths tr) ! i \<le> W \<and>
       ((0 # warm_lengths tr) ! i \<ge> CONSERVATIVE_TAIL_START \<longrightarrow>
          warm_lengths tr ! i - (0 # warm_lengths tr) ! i \<le> CONSERVATIVE_TAIL_STEP)) \<and>
    (\<forall>s. r = Inr s \<longrightarrow> ws_tokens s = length ids \<and>
       (ws_mode s = ''chunked-prefix-warming'' \<longrightarrow>
          ws_steps s = length (warm_lengths tr) \<and> last (0 # warm_lengths tr) = int (length ids)))"
proof -
  let ?probe = "[ForegroundTurn, WarmRequest ids (Some CACHE_PROBE_SECONDS)]"
  have pol: "polite ?probe" and none: "warm_lengths ?probe = []" by simp_all
  from warm_loop_returns [OF assms _ _ pol, of 0 ids reply 0 0]
  obtain tr r ends where loop: "warm_loop W ids reply 0 0 0 ?probe = Some (tr, r)" "polite tr"
    "warm_lengths tr = ends" "schedule_from W (int (length ids)) 0 ends"
    "\<forall>k. r = Inr k \<longrightarrow> k = length ends \<and> last (0 # ends) = int (length ids)"
    by auto
  note sb = schedule_bounds [OF assms _ loop(4)]
  show ?thesis
  proof (cases "reply 0")
    case (Inl x)
    show ?thesis
    proof (cases "x = CacheProbeMiss")
      case True
      with Inl loop sb show ?thesis
        by (cases r) (auto simp: warm_def Let_def split: if_splits)
    next
      case False
      with Inl show ?thesis by (cases x) (simp_all add: warm_def Let_def)
    qed
  next
    case (Inr meta)
    then show ?thesis by (simp add: warm_def Let_def)
  qed
qed

theorem warm_bounded_steps_witness:
  "(1::int) \<le> 512 \<and>
   (\<exists>tr r. warm 512 (replicate 600 7) (\<lambda>n. if n = 0 then Inl CacheProbeMiss else Inr (JObj [])) = Some (tr, r)
     \<and> polite tr)"
  using warm_bounded_steps [of 512 "replicate 600 7" "\<lambda>n. if n = 0 then Inl CacheProbeMiss else Inr (JObj [])"]
  by auto

text \<open>A cancelled preparation step keeps its admission until the step's own HTTP operation has
  ended: the wait never returns before the step is done, it returns the step's outcome when its
  owner was not cancelled before, and raises the cancellation, however often it was repeated,
  only after the end of the step.\<close>

theorem cancellation_waits_for_step:
  shows "async_warm_prefix es = Some r \<longleftrightarrow>
    (\<exists>pre out post. es = pre @ StepDone out # post \<and> set pre \<subseteq> {OwnerCancelled} \<and>
       r = (if pre = [] then out else Inl CancelledError))"
proof
  assume "async_warm_prefix es = Some r"
  then show "\<exists>pre out post. es = pre @ StepDone out # post \<and> set pre \<subseteq> {OwnerCancelled} \<and>
       r = (if pre = [] then out else Inl CancelledError)"
  proof (cases es rule: async_warm_prefix.cases)
    case (3 es')
    with \<open>async_warm_prefix es = Some r\<close> obtain pre out post where
      "es' = pre @ StepDone out # post" "set pre \<subseteq> {OwnerCancelled}" "r = Inl CancelledError"
      by (auto dest: drain_step_Some)
    with 3 show ?thesis
      by (intro exI [of _ "OwnerCancelled # pre"] exI [of _ out] exI [of _ post]) simp
  qed force+
next
  assume "\<exists>pre out post. es = pre @ StepDone out # post \<and> set pre \<subseteq> {OwnerCancelled} \<and>
       r = (if pre = [] then out else Inl CancelledError)"
  then obtain pre out post where es: "es = pre @ StepDone out # post" "set pre \<subseteq> {OwnerCancelled}"
    and r: "r = (if pre = [] then out else Inl CancelledError)" by blast
  then show "async_warm_prefix es = Some r"
    by (cases pre) (auto simp: drain_step_cancelled)
qed

end
