(* ===== verification/Completion.thy ===== *)
theory Completion imports Request_Timing begin

text \<open>
  The life of one admitted chat request: \<open>InteractiveLane\<close> and \<open>completion\<close> of
  \<open>scripts/context_forwarder.py\<close> from the point where the request identity exists.  The state
  holds what the handler owns (its place in the foreground lane, the long lease, the backend cache
  reference, the HTTP client and the upstream response).  An \<open>env\<close> says how each awaited
  operation ends; the theorems hold for every \<open>env\<close>.  A response that was handed to the server
  is driven to its end (or closed) and its background task is run.
\<close>

section \<open>The foreground lane\<close>

record lane =
  active :: int
  idle_set :: bool

definition new_lane :: lane where
  "new_lane = \<lparr>active = 0, idle_set = True\<rparr>"

definition lane_enter :: "lane \<Rightarrow> lane" where
  "lane_enter l = l\<lparr>active := active l + 1, idle_set := False\<rparr>"

definition lane_leave :: "lane \<Rightarrow> lane res" where
  "lane_leave l =
     (if active l < 1 then Inl (RuntimeError ''Interactive lane released without ownership'')
      else let l = l\<lparr>active := active l - 1\<rparr> in
           Inr (if active l = 0 then l\<lparr>idle_set := True\<rparr> else l))"

text \<open>
  \<open>wait_turn\<close>: each round tests the counter, reads the clock, and waits for the idle event with
  the remaining time as its limit.  The rounds the surroundings produce are given; \<open>None\<close> says the
  call is still waiting.  The value is the reading the loop ended with.
\<close>

record wait_round =
  wr_active :: int
  wr_now :: rat
  wr_notified :: bool
  wr_after :: rat

fun wait_rounds :: "rat \<Rightarrow> wait_round list \<Rightarrow> rat option" where
  "wait_rounds deadline [] = None"
| "wait_rounds deadline (r # rs) =
     (if wr_active r = 0 then Some (wr_now r)
      else if deadline - wr_now r \<le> 0 then Some (wr_now r)
      else if \<not> wr_notified r then Some (wr_after r)
      else wait_rounds deadline rs)"

definition wait_turn :: "rat \<Rightarrow> rat \<Rightarrow> wait_round list \<Rightarrow> rat option" where
  "wait_turn maximum_pause start rounds =
     map_option (\<lambda>t. t - start) (wait_rounds (start + maximum_pause) rounds)"

definition lane_inv :: "lane \<Rightarrow> bool" where
  "lane_inv l \<longleftrightarrow> 0 \<le> active l \<and> (idle_set l \<longleftrightarrow> active l = 0)"

lemma lane_inv_new: "lane_inv new_lane"
  by (simp add: lane_inv_def new_lane_def)

lemma lane_inv_enter: "lane_inv l \<Longrightarrow> lane_inv (lane_enter l)"
  by (simp add: lane_inv_def lane_enter_def)

lemma lane_inv_leave: "lane_inv l \<Longrightarrow> lane_leave l = Inr l' \<Longrightarrow> lane_inv l'"
  by (auto simp: lane_inv_def lane_leave_def Let_def split: if_splits)

lemma lane_leave_enter:
  "lane_inv l \<Longrightarrow> \<exists>l'. lane_leave (lane_enter l) = Inr l' \<and> active l' = active l"
  by (simp add: lane_inv_def lane_leave_def lane_enter_def Let_def)

section \<open>What a request owns\<close>

datatype action =
    ADispatch | AUpstreamClose | AClientClose | AAbort | ATimingRecord
  | AOpenCache string | ACloseCache string | AReleaseLease

record life =
  l_lane :: lane
  l_ordinary_owned :: bool
  l_lease_held :: bool
  l_lease_key :: "string option"
  l_cache_session :: "string option"
  l_cache_deadline :: "rat option"
  l_client_open :: bool
  l_upstream :: "int option"
  l_cleaned :: bool
  l_cleanup_result :: "unit res option"
  l_trace :: "action list"

definition new_life :: "lane \<Rightarrow> life" where
  "new_life lane = \<lparr>l_lane = lane, l_ordinary_owned = False, l_lease_held = False,
     l_lease_key = None, l_cache_session = None, l_cache_deadline = None, l_client_open = False,
     l_upstream = None, l_cleaned = False, l_cleanup_result = None, l_trace = []\<rparr>"

definition note_action :: "action \<Rightarrow> life \<Rightarrow> life" where
  "note_action a s = s\<lparr>l_trace := l_trace s @ [a]\<rparr>"

datatype stream_event = Chunk string | EndOfStream | ChunkTimeout | ChunkError exn | GeneratorClosed

record env =
  e_key :: string
  e_acquire :: "exn option"
  e_open :: "exn option"
  e_open_done :: rat
  e_warm :: "exn option"
  e_disconnect_prepare :: bool
  e_send :: "exn + int"
  e_body :: "exn option"
  e_stream_start :: rat
  e_stream :: "(rat \<times> stream_event) list"
  e_loads :: "string \<Rightarrow> json option"
  e_assemble :: "json list \<Rightarrow> json res"
  e_disconnect_collect :: bool
  e_pending_ticks :: nat
  e_ready_cancelled :: bool
  e_driven :: bool
  e_upstream_close :: "exn option"
  e_client_close :: "exn option"
  e_close1 :: bool
  e_close2 :: bool

section \<open>Cleanup\<close>

text \<open>Two attempts to close the backend cache reference; both failing raises.\<close>

definition close_owned_cache_reference :: "env \<Rightarrow> unit res" where
  "close_owned_cache_reference e =
     (if e_close1 e then Inr () else if e_close2 e then Inr ()
      else Inl (RuntimeError ''Owned cache reference close failed; keep long admission held''))"

definition raised :: "exn option \<Rightarrow> unit res" where
  "raised x = (case x of None \<Rightarrow> Inr () | Some e \<Rightarrow> Inl e)"

text \<open>\<open>guard.release(lease)\<close> for the lease of this request.\<close>

definition release_lease :: "life \<Rightarrow> life" where
  "release_lease s =
     (if l_lease_key s = None then note_action AReleaseLease s
      else note_action AReleaseLease (s\<lparr>l_lease_held := False\<rparr>))"

definition leave_if_owned :: "life \<Rightarrow> life res" where
  "leave_if_owned s =
     (if l_ordinary_owned s
      then (case lane_leave (l_lane s) of Inl e \<Rightarrow> Inl e
            | Inr l \<Rightarrow> Inr (s\<lparr>l_lane := l, l_ordinary_owned := False\<rparr>))
      else Inr s)"

text \<open>The \<open>try\<close> part: the first failing close skips the rest.\<close>

definition close_connections :: "env \<Rightarrow> life \<Rightarrow> life \<times> unit res" where
  "close_connections e s =
     (let (s, r) = (if l_upstream s \<noteq> None then (note_action AUpstreamClose s, raised (e_upstream_close e))
                    else (s, Inr ())) in
      case r of Inl x \<Rightarrow> (s, Inl x)
      | Inr _ \<Rightarrow>
         (let (s, r) = (if l_client_open s then (note_action AClientClose s, raised (e_client_close e))
                        else (s, Inr ())) in
          case r of Inl x \<Rightarrow> (s, Inl x) | Inr _ \<Rightarrow> (note_action AAbort s, Inr ())))"

definition perform_cleanup :: "env \<Rightarrow> life \<Rightarrow> life \<times> unit res" where
  "perform_cleanup e s =
     (if l_cleaned s then (s, Inr ())
      else
        let s = note_action ATimingRecord (s\<lparr>l_cleaned := True\<rparr>) in
        case leave_if_owned s of
          Inl x \<Rightarrow> (s, Inl x)
        | Inr s \<Rightarrow>
            let (s, r) = close_connections e s in
            (case l_cache_session s of
               None \<Rightarrow> (release_lease s, r)
             | Some sid \<Rightarrow>
                 let s = note_action (ACloseCache sid) s in
                 (case close_owned_cache_reference e of
                    Inl x \<Rightarrow> (s, Inl x)
                  | Inr _ \<Rightarrow> (release_lease s, r))))"

text \<open>
  \<open>cleanup\<close> starts one task and every caller waits for that task, so the work is done once and
  each caller sees the same result.
\<close>

definition cleanup :: "env \<Rightarrow> life \<Rightarrow> life \<times> unit res" where
  "cleanup e s =
     (case l_cleanup_result s of
        Some r \<Rightarrow> (s, r)
      | None \<Rightarrow> (let (s, r) = perform_cleanup e s in (s\<lparr>l_cleanup_result := Some r\<rparr>, r)))"

section \<open>Preparation and dispatch\<close>

definition prepare :: "env \<Rightarrow> life \<Rightarrow> life \<times> unit res" where
  "prepare e s =
     (case e_acquire e of
        Some x \<Rightarrow> (s, Inl x)
      | None \<Rightarrow>
          let s = s\<lparr>l_lease_held := True, l_cache_session := Some (''dsh-cache-'' @ e_key e)\<rparr>;
              s = note_action (AOpenCache (''dsh-cache-'' @ e_key e)) s in
          case e_open e of
            Some x \<Rightarrow> (s, Inl x)
          | None \<Rightarrow> (s\<lparr>l_cache_deadline := Some (e_open_done e + 3300)\<rparr>, raised (e_warm e)))"

definition watch_client :: "bool \<Rightarrow> life \<times> 'a res \<Rightarrow> life \<times> 'a res" where
  "watch_client disconnected sr =
     (if disconnected then (fst sr, Inl (HTTPException 499 ''Client disconnected.'')) else sr)"

definition dispatch :: "env \<Rightarrow> life \<Rightarrow> life \<times> unit res" where
  "dispatch e s =
     (let s = note_action ADispatch (s\<lparr>l_client_open := True\<rparr>) in
      case e_send e of
        Inl x \<Rightarrow> (s, Inl x)
      | Inr status \<Rightarrow> (s\<lparr>l_upstream := Some status\<rparr>, Inr ()))"

definition cache_reference_remaining :: "rat option \<Rightarrow> rat \<Rightarrow> rat option res" where
  "cache_reference_remaining deadline now =
     (case deadline of
        None \<Rightarrow> Inr None
      | Some d \<Rightarrow>
          if d - now \<le> 0
          then Inl (TimeoutError ''Owned cache preparation/response exceeded its 3300-second budget'')
          else Inr (Some (d - now)))"

section \<open>Streaming\<close>

datatype wire_out = OChunk string | OPending | OError string

fun first_delta :: "json list \<Rightarrow> bool" where
  "first_delta [] = False"
| "first_delta (c # cs) =
     (if \<not> is_obj c then False
      else
        let d = (if jhas c ''delta'' then jget c ''delta'' else JObj []) in
        if \<not> is_obj d then False
        else if list_ex (\<lambda>k. truthy (jget d k)) delta_fields then True
        else first_delta cs)"

definition line_starts_output :: "(string \<Rightarrow> json option) \<Rightarrow> string \<Rightarrow> bool" where
  "line_starts_output loads line =
     (data_line line \<and>
      (case loads (drop 6 line) of
         None \<Rightarrow> False
       | Some item \<Rightarrow> is_obj item \<and> (case jget item ''choices'' of JList cs \<Rightarrow> first_delta cs | _ \<Rightarrow> False)))"

text \<open>
  The generator \<open>stream\<close>: its output and how it ended (\<open>Inr\<close> after the end of the upstream, or
  after the hand-off error record; \<open>Inl\<close> for an escaping exception).  Without more events the
  generator was closed by its consumer.
\<close>

fun stream_loop ::
  "(string \<Rightarrow> json option) \<Rightarrow> rat \<Rightarrow> rat option \<Rightarrow> bool \<Rightarrow> string \<Rightarrow> (rat \<times> stream_event) list
   \<Rightarrow> wire_out list \<times> unit res" where
  "stream_loop loads deadline cache_deadline first buffer [] = ([], Inl CancelledError)"
| "stream_loop loads deadline cache_deadline first buffer ((now, ev) # rest) =
     (case cache_reference_remaining cache_deadline now of
        Inl _ \<Rightarrow> ([OError ''context_cache_handoff_failed''], Inr ())
      | Inr owned \<Rightarrow>
          let remaining = (if \<not> first then deadline - now else 3600);
              remaining = (case owned of None \<Rightarrow> remaining | Some o_left \<Rightarrow> min remaining o_left) in
          if remaining \<le> 0 then ([OError ''context_cache_handoff_failed''], Inr ())
          else (case ev of
            EndOfStream \<Rightarrow> ([], Inr ())
          | ChunkTimeout \<Rightarrow> ([OError ''context_cache_handoff_failed''], Inr ())
          | ChunkError x \<Rightarrow> ([], Inl x)
          | GeneratorClosed \<Rightarrow> ([], Inl CancelledError)
          | Chunk c \<Rightarrow>
              let buffer' = (if first then buffer else buffer @ c);
                  first' = (first \<or> list_ex (line_starts_output loads) (lines_of buffer'));
                  (out, r) = stream_loop loads deadline cache_deadline first'
                               (if first then buffer else rest_of buffer') rest
              in (OChunk c # out, r)))"

definition stream :: "env \<Rightarrow> bool \<Rightarrow> life \<Rightarrow> life \<times> wire_out list \<times> unit res" where
  "stream e long s =
     (let (out, r) = stream_loop (e_loads e) (e_stream_start e + 15) (l_cache_deadline s) (\<not> long) [] (e_stream e);
          (s, c) = cleanup e s
      in (s, out, case c of Inl x \<Rightarrow> Inl x | Inr _ \<Rightarrow> r))"

text \<open>
  \<open>prepared_stream\<close>: comments keep the response alive while \<open>ready\<close> runs; every failure but a
  cancellation becomes one error record.
\<close>

definition failure_output :: "exn \<Rightarrow> wire_out list" where
  "failure_output x =
     (case x of
        HTTPException _ _ \<Rightarrow> [OError ''context_admission_failed'']
      | CancelledError \<Rightarrow> []
      | _ \<Rightarrow> [OError ''context_preparation_failed''])"

definition failure_result :: "exn \<Rightarrow> unit res" where
  "failure_result x = (if x = CancelledError then Inl CancelledError else Inr ())"

definition prepared_stream :: "env \<Rightarrow> life \<Rightarrow> life \<times> wire_out list \<times> unit res" where
  "prepared_stream e s =
     (let pending = replicate (Suc (e_pending_ticks e)) OPending;
          (s, r) = (case prepare e s of (s, Inl x) \<Rightarrow> (s, Inl x) | (s, Inr _) \<Rightarrow> dispatch e s);
          r = (if e_ready_cancelled e then Inl CancelledError else r);
          (s, out, r) =
            (case r of
               Inl x \<Rightarrow> (s, failure_output x, failure_result x)
             | Inr _ \<Rightarrow>
                 if l_upstream s \<noteq> Some 200 then (s, [OError ''context_upstream_failed''], Inr ())
                 else (case stream e True s of
                         (s, out, Inl x) \<Rightarrow> (s, out @ failure_output x, failure_result x)
                       | (s, out, Inr _) \<Rightarrow> (s, out, Inr ())));
          (s, c) = cleanup e s
      in (s, pending @ out, case c of Inl x \<Rightarrow> Inl x | Inr _ \<Rightarrow> r))"

text \<open>\<open>collect\<close>: packets of a completed stream; an error record or undecodable line stops it.\<close>

fun collect_lines :: "(string \<Rightarrow> json option) \<Rightarrow> string list \<Rightarrow> json list res" where
  "collect_lines loads [] = Inr []"
| "collect_lines loads (l # ls) =
     (if \<not> data_line l then collect_lines loads ls
      else case loads (drop 6 l) of
        None \<Rightarrow> Inl (ValueError ''json'')
      | Some pkt \<Rightarrow>
          if jhas pkt ''error''
          then Inl (HTTPException 503 ''Long-context response stopped before completion.'')
          else (case collect_lines loads ls of Inl x \<Rightarrow> Inl x | Inr ps \<Rightarrow> Inr (pkt # ps)))"

definition quote :: string where "quote = [CHR 0x22]"

text \<open>The bytes of the hand-off error record.\<close>

definition handoff_record :: string where
  "handoff_record =
     ''data: {'' @ quote @ ''error'' @ quote @ '': {'' @ quote @ ''code'' @ quote @ '': '' @ quote
     @ ''context_cache_handoff_failed'' @ quote @ '', '' @ quote @ ''message'' @ quote @ '': '' @ quote
     @ ''Long-context cache handoff failed; request stopped without full-prefill fallback.''
     @ quote @ ''}}'' @ [newline, newline]"

fun out_bytes :: "wire_out \<Rightarrow> string" where
  "out_bytes (OChunk c) = c"
| "out_bytes _ = handoff_record"

definition collect :: "env \<Rightarrow> life \<Rightarrow> life \<times> json res" where
  "collect e s =
     (let (s, out, r) = stream e True s in
      case collect_lines (e_loads e) (lines_of (concat (map out_bytes out))) of
        Inl x \<Rightarrow> (s, Inl x)
      | Inr packets \<Rightarrow>
          (case r of Inl x \<Rightarrow> (s, Inl x) | Inr _ \<Rightarrow> (s, e_assemble e packets)))"

section \<open>The handler\<close>

datatype response =
    JSONResponse int
  | Streamed "wire_out list" "unit res"
  | Raised exn

text \<open>
  A handed-off response: the server drives the generator (or never starts it), then runs the
  background task, which is \<open>cleanup\<close> again.
\<close>

definition drive ::
  "env \<Rightarrow> (life \<Rightarrow> life \<times> wire_out list \<times> unit res) \<Rightarrow> life \<Rightarrow> life \<times> response" where
  "drive e gen s =
     (let (s, out, r) = (if e_driven e then gen s else (s, [], Inr ()))
      in (fst (cleanup e s), Streamed out r))"

text \<open>A short request enters the foreground lane; a long one gets a fresh lease identity.\<close>

definition claim_resources :: "env \<Rightarrow> bool \<Rightarrow> life \<Rightarrow> life" where
  "claim_resources e long s =
     (if \<not> long then s\<lparr>l_lane := lane_enter (l_lane s), l_ordinary_owned := True\<rparr>
      else s\<lparr>l_lease_key := Some (e_key e)\<rparr>)"

text \<open>What follows a successful dispatch.\<close>

definition respond :: "env \<Rightarrow> bool \<Rightarrow> bool \<Rightarrow> life \<Rightarrow> life \<times> response res" where
  "respond e long incoming s =
     (if l_upstream s \<noteq> Some 200 \<or> (\<not> long \<and> \<not> incoming)
      then (case e_body e of Some x \<Rightarrow> (s, Inl x)
            | None \<Rightarrow> (s, Inr (JSONResponse (case l_upstream s of Some st \<Rightarrow> st | None \<Rightarrow> 0))))
      else if \<not> incoming
      then (case watch_client (e_disconnect_collect e) (collect e s) of
              (s, Inl x) \<Rightarrow> (s, Inl x)
            | (s, Inr _) \<Rightarrow> (s, Inr (JSONResponse 200)))
      else map_prod id Inr (drive e (stream e long) s))"

text \<open>Everything inside the outer \<open>try\<close>; \<open>Inr\<close> of a streamed response means it was handed off.\<close>

definition handler_body :: "env \<Rightarrow> bool \<Rightarrow> bool \<Rightarrow> life \<Rightarrow> life \<times> response res" where
  "handler_body e long incoming s =
     (let s = claim_resources e long s in
      if long \<and> incoming then map_prod id Inr (drive e (prepared_stream e) s)
      else
        (case (if long then watch_client (e_disconnect_prepare e) (prepare e s) else (s, Inr ())) of
           (s, Inl x) \<Rightarrow> (s, Inl x)
         | (s, Inr _) \<Rightarrow>
             (case dispatch e s of
                (s, Inl x) \<Rightarrow> (s, Inl x)
              | (s, Inr _) \<Rightarrow> respond e long incoming s)))"

text \<open>The outer \<open>finally\<close>: a response that was not handed off is cleaned up here.\<close>

definition completion :: "env \<Rightarrow> bool \<Rightarrow> bool \<Rightarrow> lane \<Rightarrow> life \<times> response" where
  "completion e long incoming lane =
     (case handler_body e long incoming (new_life lane) of
        (s, Inr (Streamed out r)) \<Rightarrow> (s, Streamed out r)
      | (s, Inr resp) \<Rightarrow>
          (let (s, c) = cleanup e s in (s, case c of Inl x \<Rightarrow> Raised x | Inr _ \<Rightarrow> resp))
      | (s, Inl x) \<Rightarrow>
          (let (s, c) = cleanup e s in (s, case c of Inl y \<Rightarrow> Raised y | Inr _ \<Rightarrow> Raised x)))"


section \<open>Lemmas\<close>

definition owns_lease_consistently :: "life \<Rightarrow> bool" where
  "owns_lease_consistently s \<longleftrightarrow> (l_lease_held s \<longrightarrow> l_lease_key s \<noteq> None \<and> l_cache_session s \<noteq> None)"

text \<open>The state while the handler still owns its resources, relative to the lane it found.\<close>

definition running :: "lane \<Rightarrow> life \<Rightarrow> bool" where
  "running lane0 s \<longleftrightarrow>
     lane_inv (l_lane s) \<and>
     active (l_lane s) = active lane0 + (if l_ordinary_owned s then 1 else 0) \<and>
     owns_lease_consistently s \<and> \<not> l_cleaned s \<and> l_cleanup_result s = None \<and>
     set (l_trace s) \<subseteq> {ADispatch} \<union> range AOpenCache"

text \<open>The state after the one cleanup.\<close>

definition settled :: "lane \<Rightarrow> env \<Rightarrow> life \<Rightarrow> bool" where
  "settled lane0 e s \<longleftrightarrow>
     lane_inv (l_lane s) \<and> active (l_lane s) = active lane0 \<and> \<not> l_ordinary_owned s \<and>
     l_cleaned s \<and> l_cleanup_result s \<noteq> None \<and>
     (l_lease_held s \<longrightarrow> \<not> is_ok (close_owned_cache_reference e)) \<and>
     count_list (l_trace s) ATimingRecord = 1 \<and> count_list (l_trace s) AReleaseLease \<le> 1 \<and>
     (is_ok (close_owned_cache_reference e) \<longrightarrow> count_list (l_trace s) AReleaseLease = 1)"

lemma running_new: "lane_inv l \<Longrightarrow> running l (new_life l)"
  by (simp add: running_def new_life_def owns_lease_consistently_def)

lemma running_prepare:
  "running l s \<Longrightarrow> l_lease_key s \<noteq> None \<Longrightarrow> running l (fst (prepare e s))"
  by (auto simp: running_def prepare_def owns_lease_consistently_def note_action_def Let_def
      split: option.splits)

lemma running_dispatch: "running l s \<Longrightarrow> running l (fst (dispatch e s))"
  by (auto simp: running_def dispatch_def owns_lease_consistently_def note_action_def Let_def
      split: sum.splits)

lemma close_connections_frame:
  assumes "close_connections e s = (s', r)"
  shows "l_lane s' = l_lane s \<and> l_ordinary_owned s' = l_ordinary_owned s \<and>
    l_lease_held s' = l_lease_held s \<and> l_lease_key s' = l_lease_key s \<and>
    l_cache_session s' = l_cache_session s \<and> l_cleaned s' = l_cleaned s \<and>
    count_list (l_trace s') ATimingRecord = count_list (l_trace s) ATimingRecord \<and>
    count_list (l_trace s') AReleaseLease = count_list (l_trace s) AReleaseLease"
  using assms
  by (auto simp: close_connections_def note_action_def Let_def
      split: sum.splits if_splits)

lemma leave_if_owned_running:
  assumes "lane_inv (l_lane s)" "0 \<le> active l"
    and "active (l_lane s) = active l + (if l_ordinary_owned s then 1 else 0)"
  obtains s' where "leave_if_owned s = Inr s'" "lane_inv (l_lane s')" "active (l_lane s') = active l"
    "\<not> l_ordinary_owned s'" "s' = s\<lparr>l_lane := l_lane s', l_ordinary_owned := False\<rparr>"
proof (cases "l_ordinary_owned s")
  case False
  with assms that [of s] show ?thesis by (simp add: leave_if_owned_def)
next
  case True
  with assms have "1 \<le> active (l_lane s)" by simp
  then obtain l' where l': "lane_leave (l_lane s) = Inr l'" "active l' = active (l_lane s) - 1"
    by (auto simp: lane_leave_def Let_def)
  with assms(1) have "lane_inv l'" by (auto intro: lane_inv_leave)
  with True l' assms that [of "s\<lparr>l_lane := l', l_ordinary_owned := False\<rparr>"] show ?thesis
    by (simp add: leave_if_owned_def)
qed

lemma count_list_running:
  "set tr \<subseteq> {ADispatch} \<union> range AOpenCache \<Longrightarrow>
   count_list tr ATimingRecord = 0 \<and> count_list tr AReleaseLease = 0"
  by (induction tr) auto

lemma settled_cleanup:
  assumes run: "running l s" and l: "0 \<le> active l"
  shows "settled l e (fst (cleanup e s))"
proof -
  let ?s = "note_action ATimingRecord (s\<lparr>l_cleaned := True\<rparr>)"
  from run have c0: "count_list (l_trace s) ATimingRecord = 0" "count_list (l_trace s) AReleaseLease = 0"
    using count_list_running by (auto simp: running_def)
  have "lane_inv (l_lane ?s)" "active (l_lane ?s) = active l + (if l_ordinary_owned ?s then 1 else 0)"
    using run by (simp_all add: running_def note_action_def)
  from leave_if_owned_running [OF this(1) l this(2)] obtain s1 where s1:
    "leave_if_owned ?s = Inr s1" "lane_inv (l_lane s1)" "active (l_lane s1) = active l"
    "\<not> l_ordinary_owned s1" "s1 = ?s\<lparr>l_lane := l_lane s1, l_ordinary_owned := False\<rparr>" by blast
  obtain s2 r where s2: "close_connections e s1 = (s2, r)" by (cases "close_connections e s1")
  note fr = close_connections_frame [OF s2]
  have t1: "count_list (l_trace s1) ATimingRecord = 1" "count_list (l_trace s1) AReleaseLease = 0"
    "l_cleaned s1" "l_cleanup_result s1 = None" "owns_lease_consistently s1"
    using run c0 by (subst s1(5), simp add: note_action_def running_def owns_lease_consistently_def)+
  have perf: "perform_cleanup e s =
      (case l_cache_session s2 of
               None \<Rightarrow> (release_lease s2, r)
             | Some sid \<Rightarrow>
                 (case close_owned_cache_reference e of
                    Inl x \<Rightarrow> (note_action (ACloseCache sid) s2, Inl x)
                  | Inr _ \<Rightarrow> (release_lease (note_action (ACloseCache sid) s2), r)))"
    using run s1(1) s2
    by (simp add: perform_cleanup_def running_def Let_def split: option.splits sum.splits)
  have "l_cleanup_result s = None" using run by (simp add: running_def)
  then have cl: "fst (cleanup e s) =
      (fst (perform_cleanup e s))\<lparr>l_cleanup_result := Some (snd (perform_cleanup e s))\<rparr>"
    by (simp add: cleanup_def case_prod_beta)
  show ?thesis
    unfolding cl perf settled_def
    using fr s1(2,3,4) t1
    by (auto simp: release_lease_def note_action_def owns_lease_consistently_def
        split: option.splits sum.splits)
qed

lemma settled_again: "settled l e s \<Longrightarrow> fst (cleanup e s) = s"
  by (auto simp: settled_def cleanup_def)

text \<open>Every generator leaves a settled state behind.\<close>

lemma settled_stream: "running l s \<Longrightarrow> 0 \<le> active l \<Longrightarrow> settled l e (fst (stream e long s))"
  using settled_cleanup [of l s e] by (simp add: stream_def case_prod_beta Let_def)

lemma settled_prepared_stream:
  assumes "running l s" and "0 \<le> active l" and "l_lease_key s \<noteq> None"
  shows "settled l e (fst (prepared_stream e s))"
proof -
  let ?ready = "case prepare e s of (s, Inl x) \<Rightarrow> (s, Inl x) | (s, Inr _) \<Rightarrow> dispatch e s"
  have run: "running l (fst ?ready)"
    using running_prepare [OF assms(1,3), of e] running_dispatch [of l "fst (prepare e s)" e]
    by (auto split: prod.splits sum.splits)
  obtain s1 r1 where ready: "?ready = (s1, r1)" by (cases ?ready)
  have "fst (prepared_stream e s) = fst (cleanup e s1) \<or>
        fst (prepared_stream e s) = fst (cleanup e (fst (stream e True s1)))"
    using ready
    by (simp add: prepared_stream_def Let_def case_prod_beta split: sum.splits prod.splits)
  then show ?thesis
    using settled_cleanup [of l s1 e] settled_stream [of l s1 e True] run ready assms(2)
    by (auto simp: settled_again)
qed


lemma settled_drive:
  assumes "running l s" and "0 \<le> active l" and "settled l e (fst (gen s))"
  shows "settled l e (fst (drive e gen s))"
proof (cases "e_driven e")
  case True
  with assms settled_again [OF assms(3)] show ?thesis
    by (simp add: drive_def case_prod_beta Let_def)
next
  case False
  with settled_cleanup [OF assms(1,2)] show ?thesis by (simp add: drive_def)
qed

lemma collect_state: "fst (collect e s) = fst (stream e True s)"
  by (simp add: collect_def case_prod_beta Let_def split: sum.splits)

lemma watch_client_state [simp]: "fst (watch_client d x) = fst x"
  by (simp add: watch_client_def)

lemma drive_Streamed: "\<exists>out r. snd (drive e gen s) = Streamed out r"
  by (simp add: drive_def case_prod_beta Let_def)

definition ends_well :: "lane \<Rightarrow> env \<Rightarrow> life \<times> response res \<Rightarrow> bool" where
  "ends_well l e x \<longleftrightarrow>
     (case snd x of
        Inr (Streamed out r) \<Rightarrow> settled l e (fst x)
      | _ \<Rightarrow> running l (fst x) \<or> settled l e (fst x))"

lemma ends_well_drive:
  assumes "settled l e (fst (drive e gen s))"
  shows "ends_well l e (map_prod id Inr (drive e gen s))"
proof -
  obtain out r where "snd (drive e gen s) = Streamed out r" using drive_Streamed by blast
  with assms show ?thesis by (simp add: ends_well_def)
qed

lemma ends_well_respond:
  assumes run: "running l s" and act: "0 \<le> active l"
  shows "ends_well l e (respond e long incoming s)"
proof -
  note st = settled_stream [OF run act, of e]
  have drv: "settled l e (fst (drive e (stream e long) s))"
    using settled_drive [where gen = "stream e long", OF run act st] .
  obtain sc rc where c: "watch_client (e_disconnect_collect e) (collect e s) = (sc, rc)"
    by (cases "watch_client (e_disconnect_collect e) (collect e s)")
  then have "settled l e sc"
    using st [of True] watch_client_state [of "e_disconnect_collect e" "collect e s"]
    by (simp add: collect_state del: watch_client_state)
  with c run ends_well_drive [OF drv] show ?thesis
    by (cases rc) (auto simp: respond_def ends_well_def split: option.splits)
qed

lemma handler_body_state:
  assumes "lane_inv l"
  shows "ends_well l e (handler_body e long incoming (new_life l))"
proof -
  let ?s1 = "claim_resources e long (new_life l)"
  from assms have act: "0 \<le> active l" by (simp add: lane_inv_def)
  have run1: "running l ?s1" and key: "long \<Longrightarrow> l_lease_key ?s1 \<noteq> None"
    using assms lane_inv_enter [OF assms]
    by (auto simp: running_def new_life_def owns_lease_consistently_def lane_enter_def
        claim_resources_def)
  let ?p = "if long then watch_client (e_disconnect_prepare e) (prepare e ?s1) else (?s1, Inr ())"
  obtain s2 r2 where p: "?p = (s2, r2)" by (cases ?p)
  have "running l (fst ?p)" using run1 running_prepare [OF run1, of e] key by auto
  with p have run2: "running l s2" by (simp del: watch_client_state)
  obtain s3 r3 where d: "dispatch e s2 = (s3, r3)" by (cases "dispatch e s2")
  from running_dispatch [OF run2, of e] d have run3: "running l s3" by simp
  show ?thesis
  proof (cases "long \<and> incoming")
    case True
    with key run1 act have "settled l e (fst (drive e (prepared_stream e) ?s1))"
      by (intro settled_drive settled_prepared_stream) auto
    with True ends_well_drive show ?thesis by (simp add: handler_body_def Let_def)
  next
    case False
    then have "handler_body e long incoming (new_life l) =
        (case r2 of Inl x \<Rightarrow> (s2, Inl x) | Inr _ \<Rightarrow>
           (case r3 of Inl x \<Rightarrow> (s3, Inl x) | Inr _ \<Rightarrow> respond e long incoming s3))"
      by (simp only: handler_body_def Let_def p d if_False prod.case split: sum.splits)
    moreover have "ends_well l e (s2, Inl x)" "ends_well l e (s3, Inl x)" for x
      using run2 run3 by (simp_all add: ends_well_def)
    ultimately show ?thesis
      using ends_well_respond [OF run3 act] by (cases r2; cases r3) simp_all
  qed
qed

lemma settled_completion:
  assumes "lane_inv l"
  shows "settled l e (fst (completion e long incoming l))"
proof -
  from assms have act: "0 \<le> active l" by (simp add: lane_inv_def)
  obtain s r where b: "handler_body e long incoming (new_life l) = (s, r)"
    by (cases "handler_body e long incoming (new_life l)")
  have fin: "settled l e (fst (cleanup e s))" if "running l s \<or> settled l e s"
    using that settled_cleanup [OF _ act, of s e] settled_again [of l e s] by auto
  from handler_body_state [OF assms, of e long incoming] b have ew: "ends_well l e (s, r)" by simp
  consider (str) out q where "r = Inr (Streamed out q)" | (other) "\<nexists>out q. r = Inr (Streamed out q)"
    by blast
  then show ?thesis
  proof cases
    case str
    with b ew show ?thesis by (simp add: completion_def ends_well_def)
  next
    case other
    then have "fst (completion e long incoming l) = fst (cleanup e s)"
      using b by (auto simp: completion_def case_prod_beta Let_def split: sum.splits response.splits)
    moreover from other ew have "running l s \<or> settled l e s"
      by (auto simp: ends_well_def split: sum.splits response.splits)
    ultimately show ?thesis using fin by simp
  qed
qed

fun event_chunks :: "(rat \<times> stream_event) list \<Rightarrow> string list" where
  "event_chunks [] = []"
| "event_chunks ((_, Chunk c) # es) = c # event_chunks es"
| "event_chunks (_ # es) = []"

lemma stream_loop_output:
  "stream_loop loads d cd first buf evs = (out, r) \<Longrightarrow>
   \<exists>n. out = map OChunk (take n (event_chunks evs)) \<or>
       (out = map OChunk (take n (event_chunks evs)) @ [OError ''context_cache_handoff_failed''] \<and> r = Inr ())"
proof (induction evs arbitrary: first buf out r)
  case Nil
  then show ?case by simp
next
  case (Cons ev evs)
  obtain now x where ev: "ev = (now, x)" by (cases ev)
  show ?case
  proof (cases "\<exists>c first' buf' out'. x = Chunk c \<and> stream_loop loads d cd first' buf' evs = (out', r) \<and> out = OChunk c # out'")
    case True
    then obtain c first' buf' out' where h: "x = Chunk c"
      "stream_loop loads d cd first' buf' evs = (out', r)" "out = OChunk c # out'" by blast
    from Cons.IH [OF h(2)] obtain n where
      "out' = map OChunk (take n (event_chunks evs)) \<or>
       (out' = map OChunk (take n (event_chunks evs)) @ [OError ''context_cache_handoff_failed''] \<and> r = Inr ())"
      by blast
    with h ev show ?thesis by (intro exI [of _ "Suc n"]) auto
  next
    case False
    with Cons.prems ev have "out = [] \<or> (out = [OError ''context_cache_handoff_failed''] \<and> r = Inr ())"
      by (cases x) (auto simp: Let_def split: sum.splits if_splits prod.splits option.splits)
    then show ?thesis by (intro exI [of _ 0]) auto
  qed
qed

section \<open>Properties\<close>

text \<open>C28: Whatever happens to a request (every failure, cancellation or disconnect of admission,
  cache opening, warming, dispatch, body, stream or collection, streaming or not, long or short,
  response driven or abandoned), when it is over its cleanup has run exactly once, the foreground
  lane is back at the count it had, and the long lease is released; the lease is kept only when
  both attempts to close the backend cache reference failed, and is never released twice.\<close>

theorem completion_cleans_up:
  assumes "lane_inv l" and "completion e long incoming l = (s, resp)"
  shows "lane_inv (l_lane s) \<and> active (l_lane s) = active l \<and> \<not> l_ordinary_owned s \<and> l_cleaned s \<and>
    count_list (l_trace s) ATimingRecord = 1 \<and> count_list (l_trace s) AReleaseLease \<le> 1 \<and>
    (l_lease_held s \<longrightarrow> \<not> e_close1 e \<and> \<not> e_close2 e) \<and>
    (e_close1 e \<or> e_close2 e \<longrightarrow> count_list (l_trace s) AReleaseLease = 1)"
  using settled_completion [OF assms(1), of e long incoming] assms(2)
  by (auto simp: settled_def close_owned_cache_reference_def split: if_splits)

definition failing_env :: env where
  "failing_env = \<lparr>e_key = ''k'', e_acquire = None, e_open = None, e_open_done = 0,
     e_warm = Some (RuntimeError ''evicted''), e_disconnect_prepare = False, e_send = Inr 200,
     e_body = None, e_stream_start = 0, e_stream = [], e_loads = (\<lambda>_. None),
     e_assemble = (\<lambda>_. Inr JNull), e_disconnect_collect = False, e_pending_ticks = 0,
     e_ready_cancelled = False, e_driven = True, e_upstream_close = None, e_client_close = None,
     e_close1 = False, e_close2 = True\<rparr>"

theorem completion_cleans_up_witness:
  "\<exists>s resp. completion failing_env True False new_lane = (s, resp) \<and> \<not> l_lease_held s
     \<and> active (l_lane s) = 0"
proof -
  obtain s resp where c: "completion failing_env True False new_lane = (s, resp)"
    by (cases "completion failing_env True False new_lane")
  from completion_cleans_up [OF lane_inv_new c] c show ?thesis
    by (auto simp: failing_env_def new_lane_def)
qed

text \<open>The streamed response carries the upstream chunks unchanged and in order, as a prefix of
  what arrived, followed by at most one hand-off error record, after which nothing is sent.\<close>

theorem stream_passes_chunks_through:
  assumes "stream_loop loads deadline cache_deadline first buffer events = (out, r)"
  shows "\<exists>n tail. out = map OChunk (take n (event_chunks events)) @ tail \<and>
    tail \<in> {[], [OError ''context_cache_handoff_failed'']} \<and> (tail = [] \<or> r = Inr ())"
  using stream_loop_output [OF assms] by auto

theorem stream_passes_chunks_through_witness:
  "stream_loop (\<lambda>_. None) 15 None False [] [(1, Chunk ''a''), (16, Chunk ''b'')]
     = ([OChunk ''a'', OError ''context_cache_handoff_failed''], Inr ()) \<and>
   (\<exists>n tail. [OChunk ''a'', OError ''context_cache_handoff_failed'']
      = map OChunk (take n (event_chunks [(1, Chunk ''a''), (16, Chunk ''b'')])) @ tail)"
proof -
  have ev: "stream_loop (\<lambda>_. None) 15 None False [] [(1, Chunk ''a''), (16, Chunk ''b'')]
     = ([OChunk ''a'', OError ''context_cache_handoff_failed''], Inr ())"
    by (simp add: cache_reference_remaining_def lines_of_def rest_of_def newline_def)
  with stream_passes_chunks_through [OF ev] show ?thesis by blast
qed

text \<open>The pause of a long preparation step is bounded: \<open>wait_turn\<close> returns as soon as one round
  finds the lane empty or reads the clock at or past the deadline, and while it keeps waiting
  every round saw foreground work, time left and an idle notification.\<close>

theorem wait_turn_bounded:
  "wait_turn maximum_pause start rounds = None \<longleftrightarrow>
   (\<forall>r. r \<in> set rounds \<longrightarrow>
      wr_active r \<noteq> 0 \<and> wr_now r < start + maximum_pause \<and> wr_notified r)"
  unfolding wait_turn_def by (induction rounds) (auto simp: field_simps)

theorem wait_turn_bounded_witness:
  "wait_turn 8 0 [\<lparr>wr_active = 1, wr_now = 1, wr_notified = True, wr_after = 2\<rparr>,
                  \<lparr>wr_active = 1, wr_now = 9, wr_notified = True, wr_after = 9\<rparr>] \<noteq> None"
  by (subst wait_turn_bounded) auto

end
