(* ===== verification/Iso_Time.thy ===== *)
theory Iso_Time imports Prelude begin

text \<open>
  Time stamps as the sources read them: \<open>datetime.fromisoformat(text.replace('Z', '+00:00'))\<close> on
  the extended format \<open>YYYY-MM-DD\<close>, one separator, \<open>HH:MM:SS\<close>, an optional fraction and an
  optional offset \<open>+HH:MM\<close>, the one \<open>datetime.isoformat\<close>, the Kubernetes API and
  \<open>Date.toISOString\<close> write.  Every other text is refused with \<open>ValueError\<close> here, although recent Python
  versions also read some basic formats.  A moment is the exact number of seconds since 1970.
\<close>

definition digits_of :: "nat \<Rightarrow> string \<Rightarrow> (int \<times> string) option" where
  "digits_of n s = (if n \<le> length s \<and> isdecimal (take n s)
     then Some (int_of_digits (take n s), drop n s) else None)"

definition expect :: "char \<Rightarrow> string \<Rightarrow> string option" where
  "expect c s = (if s \<noteq> [] \<and> hd s = c then Some (tl s) else None)"

text \<open>Days from the civil calendar, counted from 1970-01-01 (proleptic Gregorian, as in Python).\<close>

definition days_from_civil :: "int \<Rightarrow> int \<Rightarrow> int \<Rightarrow> int" where
  "days_from_civil y m d =
     (let y' = (if m \<le> 2 then y - 1 else y);
          era = y' div 400;
          yoe = y' - era * 400;
          doy = (153 * ((m + 9) mod 12) + 2) div 5 + d - 1;
          doe = yoe * 365 + yoe div 4 - yoe div 100 + doy
      in era * 146097 + doe - 719468)"

definition leap_year :: "int \<Rightarrow> bool" where
  "leap_year y = (y mod 4 = 0 \<and> (y mod 100 \<noteq> 0 \<or> y mod 400 = 0))"

definition days_in_month :: "int \<Rightarrow> int \<Rightarrow> int" where
  "days_in_month y m =
     (if m = 2 then (if leap_year y then 29 else 28)
      else if m \<in> {4, 6, 9, 11} then 30 else 31)"

definition parse_date :: "string \<Rightarrow> (int \<times> string) option" where
  "parse_date s =
     (case digits_of 4 s of None \<Rightarrow> None | Some (y, s1) \<Rightarrow>
      case expect CHR ''-'' s1 of None \<Rightarrow> None | Some s2 \<Rightarrow>
      case digits_of 2 s2 of None \<Rightarrow> None | Some (m, s3) \<Rightarrow>
      case expect CHR ''-'' s3 of None \<Rightarrow> None | Some s4 \<Rightarrow>
      case digits_of 2 s4 of None \<Rightarrow> None | Some (d, s5) \<Rightarrow>
      if 1 \<le> y \<and> 1 \<le> m \<and> m \<le> 12 \<and> 1 \<le> d \<and> d \<le> days_in_month y m
      then Some (days_from_civil y m d, s5) else None)"

definition parse_clock :: "string \<Rightarrow> (int \<times> string) option" where
  "parse_clock s =
     (case digits_of 2 s of None \<Rightarrow> None | Some (h, s1) \<Rightarrow>
      case expect CHR '':'' s1 of None \<Rightarrow> None | Some s2 \<Rightarrow>
      case digits_of 2 s2 of None \<Rightarrow> None | Some (m, s3) \<Rightarrow>
      case expect CHR '':'' s3 of None \<Rightarrow> None | Some s4 \<Rightarrow>
      case digits_of 2 s4 of None \<Rightarrow> None | Some (sec, s5) \<Rightarrow>
      if h < 24 \<and> m < 60 \<and> sec < 60 then Some (3600 * h + 60 * m + sec, s5) else None)"

definition parse_fraction :: "string \<Rightarrow> (rat \<times> string) option" where
  "parse_fraction s =
     (case expect CHR ''.'' s of None \<Rightarrow> Some (0, s)
      | Some s1 \<Rightarrow>
          (let ds = takeWhile (\<lambda>c. c \<in> set digit_chars) s1 in
           if length ds \<in> {3, 6}
           then Some (of_int (int_of_digits ds) / of_int (10 ^ length ds), drop (length ds) s1)
           else None))"

text \<open>The offset: absent (a naive moment), or signed hours and minutes.\<close>

definition parse_offset :: "string \<Rightarrow> int option option" where
  "parse_offset s =
     (if s = [] then Some None
      else if hd s \<in> {CHR ''+'', CHR ''-''} then
        (case digits_of 2 (tl s) of None \<Rightarrow> None | Some (h, s1) \<Rightarrow>
         case expect CHR '':'' s1 of None \<Rightarrow> None | Some s2 \<Rightarrow>
         case digits_of 2 s2 of None \<Rightarrow> None | Some (m, s3) \<Rightarrow>
         if s3 = [] \<and> h < 24 \<and> m < 60
         then Some (Some ((if hd s = CHR ''+'' then 1 else -1) * (3600 * h + 60 * m))) else None)
      else None)"

text \<open>\<open>text.replace('Z', '+00:00')\<close>, every occurrence.\<close>

definition replace_zulu :: "string \<Rightarrow> string" where
  "replace_zulu s = concat (map (\<lambda>c. if c = CHR ''Z'' then ''+00:00'' else [c]) s)"

datatype moment = Aware rat | Naive rat

definition fromisoformat :: "string \<Rightarrow> moment res" where
  "fromisoformat s =
     (case parse_date s of None \<Rightarrow> Inl (ValueError ''isoformat'') | Some (day, s1) \<Rightarrow>
      case parse_clock (tl s1) of None \<Rightarrow> Inl (ValueError ''isoformat'') | Some (secs, s2) \<Rightarrow>
      case parse_fraction s2 of None \<Rightarrow> Inl (ValueError ''isoformat'') | Some (sub, s3) \<Rightarrow>
      case parse_offset s3 of None \<Rightarrow> Inl (ValueError ''isoformat'')
      | Some None \<Rightarrow> Inr (Naive (of_int (86400 * day + secs) + sub))
      | Some (Some off) \<Rightarrow> Inr (Aware (of_int (86400 * day + secs - off) + sub)))"

text \<open>\<open>(now - moment).total_seconds()\<close> for an aware \<open>now\<close>: mixing with a naive moment raises
  \<open>TypeError\<close>.\<close>

definition seconds_since :: "rat \<Rightarrow> moment \<Rightarrow> rat res" where
  "seconds_since now m = (case m of Aware t \<Rightarrow> Inr (now - t) | Naive _ \<Rightarrow> Inl (TypeError ''naive''))"

lemma replace_zulu_id: "CHR ''Z'' \<notin> set s \<Longrightarrow> replace_zulu s = s"
  by (induction s) (auto simp: replace_zulu_def)

lemma digits_of_length: "digits_of n s = Some (v, t) \<Longrightarrow> length s = n + length t"
  by (auto simp: digits_of_def split: if_splits)

lemma fromisoformat_example:
  "fromisoformat (replace_zulu ''2026-01-02T03:04:05Z'') = Inr (Aware 1767323045)"
  "fromisoformat ''2026-01-02 03:04:05'' = Inr (Naive 1767323045)"
  "fromisoformat ''2024-02-29T00:00:00.250000-01:30'' = Inr (Aware (1709170200 + 1 / 4))"
  "fromisoformat ''2026-02-29T00:00:00Z'' = Inl (ValueError ''isoformat'')"
  by code_simp+

end
