(* ===== verification/Capacity_Plan.thy ===== *)
theory Capacity_Plan imports Prelude Iso_Time begin

text \<open>
  The replenishment decision of \<open>scripts/capacity_planner.py\<close> (\<open>plan\<close>) and the planning ceiling of
  \<open>scripts/capacity_report.py\<close> (\<open>capacity_report\<close>).  Policy, projection and inventory are the
  decoded JSON files; a value of the wrong shape raises the exception Python raises.
\<close>

section \<open>The planner\<close>

definition ACTIVE_SLOTS_MAX :: int where "ACTIVE_SLOTS_MAX = 200"
definition INVENTORY_ENTRIES_MAX :: int where "INVENTORY_ENTRIES_MAX = 400"

type_synonym slots = "(string \<times> json) list"

text \<open>\<open>{name: s for name, s in slots.items() if s.get('state') != 'retired'}\<close>\<close>

fun active_slots :: "slots \<Rightarrow> slots res" where
  "active_slots [] = Inr []"
| "active_slots ((n, s) # rest) =
     res_bind (py_get s ''state'') (\<lambda>st.
     res_bind (active_slots rest) (\<lambda>act.
     Inr (if st \<noteq> JStr ''retired'' then (n, s) # act else act)))"

definition slot_state :: "json \<Rightarrow> json" where
  "slot_state s = jget s ''state''"

definition pending_state :: "json \<Rightarrow> bool" where
  "pending_state s = (slot_state s \<in> {JStr ''preparing'', JStr ''qualifying''})"

fun distinct_py :: "json list \<Rightarrow> bool" where
  "distinct_py [] = True"
| "distinct_py (x # xs) = (\<not> list_ex (py_eq x) xs \<and> distinct_py xs)"

definition unhashable :: "json \<Rightarrow> bool" where
  "unhashable v = (is_list v \<or> is_obj v)"

definition is_member :: "slots \<Rightarrow> json \<Rightarrow> bool" where
  "is_member kvs u = (case u of JStr s \<Rightarrow> map_of kvs s \<noteq> None | _ \<Rightarrow> False)"

text \<open>The checks of the operator's policy: its keys, version, switch and spare count.\<close>

definition policy_spares :: "json \<Rightarrow> (bool \<times> int) res" where
  "policy_spares policy =
     res_bind (require (is_obj policy) (TypeError ''policy'')) (\<lambda>_.
     res_bind (require (set (jkeys policy) - {''maxAccounts''} = {''version'', ''enabled'', ''warmSpareSlots''}
                        \<and> py_eq (jget policy ''version'') (JInt 1))
                (ValueError ''Invalid policy'')) (\<lambda>_.
     case jget policy ''enabled'' of
       JBool b \<Rightarrow> (case jget policy ''warmSpareSlots'' of
           JInt n \<Rightarrow> if 0 \<le> n \<and> n \<le> 8 then Inr (b, n) else Inl (ValueError ''Invalid capacity bounds'')
         | _ \<Rightarrow> Inl (ValueError ''Invalid capacity bounds''))
     | _ \<Rightarrow> Inl (ValueError ''Invalid policy'')))"

definition observed_age :: "rat \<Rightarrow> json \<Rightarrow> rat res" where
  "observed_age now v =
     (case v of JStr s \<Rightarrow> res_bind (fromisoformat (replace_zulu s)) (seconds_since now)
      | _ \<Rightarrow> Inl (AttributeError ''replace''))"

text \<open>The gateway's projection: the number of accounts and the slots they hold.\<close>

definition projection :: "json \<Rightarrow> (int \<times> json list) res" where
  "projection assignments =
     res_bind (py_idx assignments ''registeredAccounts'') (\<lambda>count.
     res_bind (py_idx assignments ''assignedSlots'') (\<lambda>used.
     case (count, used) of
       (JInt c, JList us) \<Rightarrow>
         if c < 0 \<or> c > 10000 then Inl (ValueError ''Invalid assignment projection'')
         else if list_ex unhashable us then Inl (TypeError ''unhashable'')
         else if \<not> distinct_py us then Inl (ValueError ''Invalid assignment projection'')
         else Inr (c, us)
     | _ \<Rightarrow> Inl (ValueError ''Invalid assignment projection'')))"

definition inventory_slots :: "json \<Rightarrow> json list \<Rightarrow> slots res" where
  "inventory_slots inventory used =
     res_bind (py_idx inventory ''slots'') (\<lambda>slots.
     res_bind (require (is_obj slots \<and> int (length (obj_items slots)) \<le> INVENTORY_ENTRIES_MAX
                        \<and> list_all (is_member (obj_items slots)) used)
                (ValueError ''Assigned inventory must never disappear'')) (\<lambda>_.
     Inr (obj_items slots)))"

definition ready_spares :: "slots \<Rightarrow> json list \<Rightarrow> nat" where
  "ready_spares active used =
     length (filter (\<lambda>(n, s). JStr n \<notin> set used \<and> slot_state s = JStr ''ready'') active)"

definition pending_slots :: "slots \<Rightarrow> nat" where
  "pending_slots active = length (filter (\<lambda>(n, s). pending_state s) active)"

definition resource_keys :: "string list" where
  "resource_keys = [''cpuAfterPair'', ''memoryGiBAfterPair'', ''podsAfterPair'', ''storageGiBAfterPair'']"

definition short_resource :: "json \<Rightarrow> string option" where
  "short_resource resources =
     find (\<lambda>key. measurement (jget resources key) = None) resource_keys"

definition decision_base :: "nat \<Rightarrow> nat \<Rightarrow> int \<Rightarrow> int \<Rightarrow> (string \<times> json) list" where
  "decision_base ready pending desired count =
     [(''readySpares'', JInt (int ready)), (''pendingSlots'', JInt (int pending)),
      (''desiredSpares'', JInt desired), (''registeredAccounts'', JInt count),
      (''existingSlotsToDelete'', JList [])]"

definition wait_for :: "(string \<times> json) list \<Rightarrow> string \<Rightarrow> json" where
  "wait_for base reason = JObj (base @ [(''action'', JStr ''wait''), (''reason'', JStr reason)])"

text \<open>The order of the tests is the order of the code.\<close>

definition decide :: "bool \<Rightarrow> int \<Rightarrow> int \<Rightarrow> nat \<Rightarrow> nat \<Rightarrow> nat \<Rightarrow> nat \<Rightarrow> json \<Rightarrow> json" where
  "decide enabled desired count ready pending active entries resources =
     (let base = decision_base ready pending desired count in
      if \<not> enabled then wait_for base ''automatic-provisioning-disabled''
      else if pending \<noteq> 0 then
        JObj (base @ [(''action'', JStr ''resume''),
                      (''reason'', JStr ''finish-existing-slot-before-creating-another'')])
      else if int ready \<ge> desired then wait_for base ''spare-target-satisfied''
      else if int active \<ge> ACTIVE_SLOTS_MAX \<or> int entries \<ge> INVENTORY_ENTRIES_MAX
        then wait_for base ''inventory-limit''
      else (case short_resource resources of
              Some key \<Rightarrow> wait_for base (''insufficient-or-unknown-'' @ key)
            | None \<Rightarrow> JObj (base @ [(''action'', JStr ''provision''), (''count'', JInt 1),
                                    (''reason'', JStr ''replenish-one-private-pair'')])))"

definition plan :: "json \<Rightarrow> json \<Rightarrow> json \<Rightarrow> json \<Rightarrow> rat \<Rightarrow> json res" where
  "plan policy assignments inventory resources now =
     res_bind (policy_spares policy) (\<lambda>(enabled, spare).
     res_bind (py_idx assignments ''observedAt'') (\<lambda>seen.
     res_bind (observed_age now seen) (\<lambda>age.
     if age < -5 \<or> age > 60 then Inr (wait_for [] ''assignment-state-stale'')
     else
       res_bind (projection assignments) (\<lambda>(count, used).
       res_bind (inventory_slots inventory used) (\<lambda>slots.
       res_bind (active_slots slots) (\<lambda>active.
       Inr (decide enabled spare count (ready_spares active used) (pending_slots active)
              (length active) (length slots) resources)))))))"

section \<open>The capacity report\<close>

record measured =
  m_resource :: string
  m_available :: rat
  m_reserve :: rat
  m_budget :: rat
  m_remaining :: rat
  m_pairs :: int

definition measured_row :: "json \<Rightarrow> string \<Rightarrow> measured res" where
  "measured_row resources name =
     res_bind (py_idx resources name) (\<lambda>v.
     res_bind (py_idx v ''available'') (\<lambda>a.
     res_bind (py_idx v ''reserve'') (\<lambda>r.
     res_bind (py_idx v ''pairBudget'') (\<lambda>b.
     case (measurement a, measurement r, measurement b) of
       (Some av, Some rv, Some bv) \<Rightarrow>
         if bv \<le> 0 then Inl (ValueError ''Missing private pair budget'')
         else (let rest = max 0 (av - rv) in
               Inr \<lparr> m_resource = name, m_available = av, m_reserve = rv, m_budget = bv, m_remaining = rest,
                     m_pairs = max 0 \<lfloor>(rest + 1 / 10 ^ 9) / bv\<rfloor> \<rparr>)
     | _ \<Rightarrow> Inl (ValueError ''Invalid capacity measurement'')))))"

fun account_sum :: "json list \<Rightarrow> int res" where
  "account_sum [] = Inr 0"
| "account_sum (x # xs) =
     res_bind (py_idx x ''accounts'') (\<lambda>v.
     case v of JInt n \<Rightarrow> res_bind (account_sum xs) (\<lambda>k. Inr (n + k))
     | _ \<Rightarrow> Inl (TypeError ''sum''))"

record report =
  mainRegistered :: int
  additionalAccounts :: "int option"
  totalRegistered :: "int option"
  reportComplete :: bool
  readyPairs :: nat
  additionalPairsPossible :: int
  mainPlanningCeiling :: "int option"
  totalPlanningCeiling :: "int option"
  inventoryEntriesRemaining :: int
  limitingResources :: "string list"
  reportRows :: "measured list"

definition report_resources :: "string list" where
  "report_resources = [''cpu'', ''memoryGiB'', ''pods'', ''storageGiB'']"

definition additional_pairs :: "measured list \<Rightarrow> int \<Rightarrow> int" where
  "additional_pairs rows remaining = foldr min (map m_pairs rows) remaining"

definition build_report :: "int \<Rightarrow> nat \<Rightarrow> measured list \<Rightarrow> int \<Rightarrow> int \<Rightarrow> bool \<Rightarrow> report" where
  "build_report registered ready rows remaining extra counted =
     (let added = additional_pairs rows remaining;
          ceiling = min ACTIVE_SLOTS_MAX (registered + int ready + added) in
      \<lparr> mainRegistered = registered,
        additionalAccounts = (if counted then Some extra else None),
        totalRegistered = (if counted then Some (registered + extra) else None),
        reportComplete = counted,
        readyPairs = ready, additionalPairsPossible = added,
        mainPlanningCeiling = (if counted then Some ceiling else None),
        totalPlanningCeiling = (if counted then Some (ceiling + extra) else None),
        inventoryEntriesRemaining = remaining,
        limitingResources = map m_resource (filter (\<lambda>r. m_pairs r = added) rows) @
                            (if remaining = added then [''inventory''] else []),
        reportRows = rows \<rparr>)"

text \<open>\<open>set(assignments['assignedSlots'])\<close>, for whatever JSON value the key holds.\<close>

definition assigned_set :: "json \<Rightarrow> json list res" where
  "assigned_set v =
     (case v of
        JList us \<Rightarrow> if list_ex unhashable us then Inl (TypeError ''unhashable'') else Inr us
      | JObj kvs \<Rightarrow> Inr (map (JStr \<circ> fst) kvs)
      | JStr s \<Rightarrow> Inr (map (\<lambda>c. JStr [c]) s)
      | _ \<Rightarrow> Inl (TypeError ''not iterable''))"

definition legacy_accounts :: "json \<Rightarrow> int res" where
  "legacy_accounts inputs =
     (if \<not> jhas inputs ''additionalDeployments'' then Inr 0
      else (case jget inputs ''additionalDeployments'' of
              JList xs \<Rightarrow> account_sum xs
            | _ \<Rightarrow> Inl (TypeError ''sum'')))"

definition report_ready :: "slots \<Rightarrow> json list \<Rightarrow> nat" where
  "report_ready slots used =
     length (filter (\<lambda>(k, v). slot_state v = JStr ''ready'' \<and> JStr k \<notin> set used \<and>
                             slot_state v \<noteq> JStr ''retired'') slots)"

definition inventory_remaining :: "slots \<Rightarrow> int" where
  "inventory_remaining active = max 0 (ACTIVE_SLOTS_MAX - int (length active))"

text \<open>The account counts are integers, as the gateway and the worker write them; another value
  is refused with \<open>TypeError\<close>.\<close>

definition capacity_report :: "json \<Rightarrow> json \<Rightarrow> json \<Rightarrow> report option res" where
  "capacity_report inputs assignments inventory =
     (if \<not> is_obj inputs then Inr None
      else
        res_bind (res_bind (py_idx assignments ''assignedSlots'') assigned_set) (\<lambda>used.
        res_bind (py_idx inventory ''slots'') (\<lambda>slots.
        res_bind (require (is_obj slots) (AttributeError ''items'')) (\<lambda>_.
        res_bind (active_slots (obj_items slots)) (\<lambda>active.
        res_bind (py_idx inputs ''resources'') (\<lambda>resources.
        res_bind (res_map (measured_row resources) report_resources) (\<lambda>rows.
        res_bind (py_idx assignments ''registeredAccounts'') (\<lambda>count.
        case count of
          JInt registered \<Rightarrow>
            res_bind (legacy_accounts inputs) (\<lambda>extra.
            Inr (Some (build_report registered (report_ready (obj_items slots) used) rows
                   (inventory_remaining active) extra
                   (jget inputs ''additionalDeploymentsComplete'' = JBool True))))
        | _ \<Rightarrow> Inl (TypeError ''registeredAccounts'')))))))))"

section \<open>Lemmas\<close>

lemma jget_JObj: "jget (JObj kvs) k = (case map_of kvs k of None \<Rightarrow> JNull | Some v \<Rightarrow> v)"
  by simp

lemma short_resource_None:
  "short_resource resources = None \<longleftrightarrow>
   (\<forall>key \<in> set resource_keys. \<exists>r. measurement (jget resources key) = Some r)"
  by (auto simp: short_resource_def find_None_iff)

lemma wait_for_action: "jget (wait_for (decision_base r p d c) why) ''action'' = JStr ''wait''"
  "jget (wait_for [] why) ''action'' = JStr ''wait''"
  by (simp_all add: wait_for_def decision_base_def)

lemma wait_for_deletes: "jget (wait_for (decision_base r p d c) why) ''existingSlotsToDelete'' = JList []"
  "jget (wait_for [] why) ''existingSlotsToDelete'' = JNull"
  by (simp_all add: wait_for_def decision_base_def)

lemma decide_action:
  "jget (decide en d c r p a e res) ''action'' =
     (if en \<and> p \<noteq> 0 then JStr ''resume''
      else if en \<and> int r < d \<and> int a < ACTIVE_SLOTS_MAX \<and> int e < INVENTORY_ENTRIES_MAX
              \<and> short_resource res = None
        then JStr ''provision'' else JStr ''wait'')"
proof (cases "en \<and> p = 0 \<and> int r < d \<and> int a < ACTIVE_SLOTS_MAX \<and> int e < INVENTORY_ENTRIES_MAX")
  case True
  then show ?thesis
    by (simp add: decide_def Let_def wait_for_action split: option.split) (simp add: decision_base_def)
next
  case False
  then show ?thesis
    by (auto simp: decide_def Let_def wait_for_action) (simp_all add: decision_base_def)
qed

lemma base_deletes: "jget (JObj (decision_base r p d c @ kvs)) ''existingSlotsToDelete'' = JList []"
  by (simp add: decision_base_def)

lemma decide_deletes_nothing: "jget (decide en d c r p a e res) ''existingSlotsToDelete'' = JList []"
  by (simp add: decide_def Let_def wait_for_deletes base_deletes del: jget.simps split: option.split)

lemma policy_spares_bounds: "policy_spares policy = Inr (en, n) \<Longrightarrow> 0 \<le> n \<and> n \<le> 8"
  by (auto simp: policy_spares_def split: json.splits if_splits)

lemma plan_cases:
  assumes "plan policy assignments inventory resources now = Inr d"
  obtains (stale) "d = wait_for [] ''assignment-state-stale''"
  | (fresh) en spare count used slots active where
      "policy_spares policy = Inr (en, spare)" "projection assignments = Inr (count, used)"
      "inventory_slots inventory used = Inr slots" "active_slots slots = Inr active"
      "d = decide en spare count (ready_spares active used) (pending_slots active)
             (length active) (length slots) resources"
  using assms unfolding plan_def by (auto simp: res_bind_Inr_iff split: if_splits)

lemma active_slots_filter:
  "active_slots slots = Inr active \<Longrightarrow> active = filter (\<lambda>(n, s). slot_state s \<noteq> JStr ''retired'') slots"
  by (induction slots arbitrary: active) (auto simp: res_bind_Inr_iff py_access slot_state_def)

lemma additional_pairs_greatest:
  "n \<le> additional_pairs rows k \<longleftrightarrow> n \<le> k \<and> (\<forall>r \<in> set rows. n \<le> m_pairs r)"
  by (induction rows) (auto simp: additional_pairs_def)

lemma additional_pairs_attained:
  "additional_pairs rows k = k \<or> (\<exists>r \<in> set rows. m_pairs r = additional_pairs rows k)"
  by (induction rows) (auto simp: additional_pairs_def min_def)

definition fits :: "int \<Rightarrow> measured \<Rightarrow> bool" where
  "fits n r = (of_int n * m_budget r \<le> m_remaining r + 1 / 10 ^ 9)"

lemma measured_row_fits:
  assumes "measured_row resources name = Inr r" "0 \<le> n"
  shows "n \<le> m_pairs r \<longleftrightarrow> fits n r"
proof -
  from assms(1) obtain b where r: "0 < b" "m_budget r = b" "0 \<le> m_remaining r"
    "m_pairs r = max 0 \<lfloor>(m_remaining r + 1 / 10 ^ 9) / b\<rfloor>"
    unfolding measured_row_def
    by (clarsimp simp: res_bind_Inr_iff Let_def) (auto simp: Let_def split: option.split_asm if_split_asm)
  have "0 \<le> (m_remaining r + 1 / 10 ^ 9) / b" using r by simp
  then have "m_pairs r = \<lfloor>(m_remaining r + 1 / 10 ^ 9) / b\<rfloor>" using r by simp
  moreover have "n \<le> \<lfloor>(m_remaining r + 1 / 10 ^ 9) / b\<rfloor> \<longleftrightarrow> of_int n * b \<le> m_remaining r + 1 / 10 ^ 9"
    using r(1) by (simp add: le_floor_iff pos_le_divide_eq)
  ultimately show ?thesis using r by (simp add: fits_def)
qed

lemma capacity_report_parts:
  assumes "capacity_report inputs assignments inventory = Inr (Some rep)"
  obtains resources rows active registered ready extra counted where
    "res_map (measured_row resources) report_resources = Inr rows"
    "active_slots (obj_items (jget inventory ''slots'')) = Inr active"
    "rep = build_report registered ready rows (inventory_remaining active) extra counted"
  using assms unfolding capacity_report_def
  by (clarsimp simp: res_bind_Inr_iff py_access split: if_split_asm) (auto split: json.split_asm simp: res_bind_Inr_iff)

lemma measured_rows:
  assumes "res_map (measured_row resources) names = Inr rows" and "r \<in> set rows"
  obtains name where "measured_row resources name = Inr r"
proof -
  from assms(2) obtain i where i: "i < length rows" "rows ! i = r" by (auto simp: in_set_conv_nth)
  with res_map_Inr [OF assms(1)] have "measured_row resources (names ! i) = Inr r" by simp
  then show thesis by (rule that)
qed

section \<open>Properties\<close>

text \<open>A new private pair is provisioned only when the operator enabled it, no started pair is
  unfinished, fewer ready spares exist than the policy (at most 8) asks for, the active and total
  inventory are below their limits and all four measured resources are finite and not negative
  after the pair; a provision is for exactly one pair.\<close>

theorem plan_provisions_only_when_safe:
  assumes "plan policy assignments inventory resources now = Inr d"
    and "jget d ''action'' = JStr ''provision''"
  shows "\<exists>spare count used slots active.
    policy_spares policy = Inr (True, spare) \<and> spare \<le> 8 \<and>
    projection assignments = Inr (count, used) \<and> inventory_slots inventory used = Inr slots \<and>
    active = filter (\<lambda>(n, s). slot_state s \<noteq> JStr ''retired'') slots \<and>
    (\<forall>(n, s) \<in> set active. \<not> pending_state s) \<and> int (ready_spares active used) < spare \<and>
    length active < 200 \<and> length slots < 400 \<and>
    (\<forall>key \<in> set resource_keys. \<exists>r \<ge> 0. measurement (jget resources key) = Some r) \<and>
    jget d ''count'' = JInt 1"
  using assms(1)
proof (cases rule: plan_cases)
  case stale
  with assms(2) show ?thesis by (simp add: wait_for_action)
next
  case (fresh en spare count used slots active)
  from assms(2) fresh(5) have c: "en" "pending_slots active = 0" "int (ready_spares active used) < spare"
    "int (length active) < ACTIVE_SLOTS_MAX" "int (length slots) < INVENTORY_ENTRIES_MAX"
    "short_resource resources = None"
    by (auto simp: decide_action simp del: jget.simps split: if_splits)
  from c(2) have none: "\<forall>(n, s) \<in> set active. \<not> pending_state s"
    by (auto simp: pending_slots_def filter_empty_conv)
  from c have "jget d ''count'' = JInt 1"
    unfolding fresh(5) by (simp add: decide_def Let_def decision_base_def)
  moreover have "\<forall>key \<in> set resource_keys. \<exists>r \<ge> 0. measurement (jget resources key) = Some r"
    using c(6) measurement_nonneg unfolding short_resource_None by blast
  ultimately show ?thesis
    using fresh(1-4) c none policy_spares_bounds [OF fresh(1)] active_slots_filter [OF fresh(4)]
    unfolding ACTIVE_SLOTS_MAX_def INVENTORY_ENTRIES_MAX_def
    by (intro exI [of _ spare] exI [of _ count] exI [of _ used] exI [of _ slots] exI [of _ active]) simp
qed

definition example_policy :: json where
  "example_policy = JObj [(''version'', JInt 1), (''enabled'', JBool True), (''warmSpareSlots'', JInt 2)]"

definition example_assignments :: json where
  "example_assignments = JObj [(''observedAt'', JStr ''2026-01-02T03:04:05Z''),
     (''registeredAccounts'', JInt 1), (''assignedSlots'', JList [JStr ''cap-a-01''])]"

definition example_inventory :: json where
  "example_inventory = JObj [(''slots'', JObj [(''cap-a-01'', JObj [(''state'', JStr ''ready'')]),
     (''cap-b-01'', JObj [(''state'', JStr ''ready'')]), (''cap-c-01'', JObj [(''state'', JStr ''retired'')])])]"

definition example_measurement :: "int \<Rightarrow> json" where
  "example_measurement n = JObj [(''available'', JInt n), (''reserve'', JInt 2), (''pairBudget'', JFlt (1/2))]"

definition example_resources :: json where
  "example_resources = JObj [(''cpuAfterPair'', JInt 4), (''memoryGiBAfterPair'', JInt 100),
     (''podsAfterPair'', JInt 10), (''storageGiBAfterPair'', JFlt (1/2)),
     (''capacityInputs'', JObj [(''resources'', JObj [(''cpu'', example_measurement 6),
        (''memoryGiB'', example_measurement 90), (''pods'', example_measurement 12),
        (''storageGiB'', example_measurement 7)]), (''additionalDeploymentsComplete'', JBool True)])]"

definition example_decision :: json where
  "example_decision = (case plan example_policy example_assignments example_inventory example_resources 1767323050
     of Inr d \<Rightarrow> d | Inl _ \<Rightarrow> JNull)"

lemma example_decision:
  "plan example_policy example_assignments example_inventory example_resources 1767323050 = Inr example_decision"
  "jget example_decision ''action'' = JStr ''provision''"
  by code_simp+

theorem plan_provisions_only_when_safe_witness:
  "jget example_decision ''count'' = JInt 1"
  using plan_provisions_only_when_safe [OF example_decision] by blast

text \<open>The planner never asks for a deletion: every decision waits, resumes or provisions, and
  its list of slots to delete is empty or absent.\<close>

theorem plan_deletes_nothing:
  assumes "plan policy assignments inventory resources now = Inr d"
  shows "jget d ''action'' \<in> {JStr ''wait'', JStr ''resume'', JStr ''provision''} \<and>
    jget d ''existingSlotsToDelete'' \<in> {JNull, JList []}"
  using assms
proof (cases rule: plan_cases)
  case stale
  then show ?thesis by (simp add: wait_for_action wait_for_deletes)
next
  case fresh
  show ?thesis unfolding fresh(5) by (simp add: decide_action decide_deletes_nothing del: jget.simps)
qed

theorem plan_deletes_nothing_witness:
  "jget example_decision ''action'' = JStr ''provision'' \<and>
   jget example_decision ''existingSlotsToDelete'' \<in> {JNull, JList []}"
  using plan_deletes_nothing [OF example_decision(1)] example_decision(2) by simp

text \<open>The reported number of additional pairs is exactly the greatest number that fits: a
  number of pairs is within it when it is within the free inventory slots and every resource holds
  that many pair budgets after its reserve (up to the rounding allowance of 1e-9); at least one
  limiting factor is named and the main ceiling never exceeds the slot limit.\<close>

theorem report_is_the_greatest_fit:
  assumes "capacity_report inputs assignments inventory = Inr (Some rep)" and "0 \<le> n"
  shows "(n \<le> additionalPairsPossible rep \<longleftrightarrow>
      n \<le> inventoryEntriesRemaining rep \<and> (\<forall>r \<in> set (reportRows rep). fits n r)) \<and>
    limitingResources rep \<noteq> [] \<and> (case mainPlanningCeiling rep of None \<Rightarrow> True | Some c \<Rightarrow> c \<le> 200)"
proof -
  obtain resources rows active registered ready extra counted where
    rows: "res_map (measured_row resources) report_resources = Inr rows" and
    rep: "rep = build_report registered ready rows (inventory_remaining active) extra counted"
    by (rule capacity_report_parts [OF assms(1)])
  have "n \<le> m_pairs r \<longleftrightarrow> fits n r" if "r \<in> set rows" for r
    using measured_rows [OF rows that] measured_row_fits [OF _ assms(2)] by metis
  moreover have "limitingResources rep \<noteq> []"
    using additional_pairs_attained [of rows "inventory_remaining active"]
    unfolding rep by (auto simp: build_report_def Let_def filter_empty_conv)
  ultimately show ?thesis
    unfolding rep
    by (auto simp: build_report_def Let_def additional_pairs_greatest ACTIVE_SLOTS_MAX_def)
qed

definition example_report :: report where
  "example_report = (case capacity_report (jget example_resources ''capacityInputs'') example_assignments
     example_inventory of Inr (Some r) \<Rightarrow> r | _ \<Rightarrow> undefined)"

lemma example_report:
  "capacity_report (jget example_resources ''capacityInputs'') example_assignments example_inventory
     = Inr (Some example_report)"
  "additionalPairsPossible example_report = 8"
  by code_simp+

theorem report_is_the_greatest_fit_witness:
  "8 \<le> additionalPairsPossible example_report \<and> 8 \<le> inventoryEntriesRemaining example_report"
  using report_is_the_greatest_fit [OF example_report(1), of 8] example_report(2) by simp

end
