(* ===== verification/Capacity_Session.thy ===== *)
theory Capacity_Session
  imports Prelude Iso_Time Capacity_Plan "HOL-Library.List_Lexorder" "HOL-Library.Char_ord"
    "HOL-Library.Product_Lexorder"
begin

text \<open>
  The session decisions of \<open>scripts/capacity_session.py\<close>: how many single-runtime starts fit
  (\<open>runtime_units\<close>), which private runtimes to start and stop (\<open>session_plan\<close>) and the progress a
  waiting user sees (\<open>pod_progress\<close>).  The demand report of the gateway is an arbitrary JSON value,
  read with the exceptions the code catches; the runtimes are the worker's projection, an
  association list with one entry per Deployment.
\<close>

section \<open>Names, times and units\<close>

definition runtime_name :: "string \<Rightarrow> bool" where
  "runtime_name s = (startswith ''dsh-u-'' s \<and> hex_id 16 (take 16 (drop 6 s)) \<and>
                     drop 22 s \<in> {''-secure'', ''-internet''})"

definition MAX_STARTS_PER_ROUND :: int where "MAX_STARTS_PER_ROUND = 4"
definition DEMAND_STALE_SECONDS :: rat where "DEMAND_STALE_SECONDS = 60"

text \<open>\<open>str(value)\<close> of a JSON value that is not text never has the form of a time with a zone.\<close>

definition parse_time :: "json \<Rightarrow> rat res" where
  "parse_time v =
     (case v of
        JStr s \<Rightarrow> (case fromisoformat (replace_zulu s) of
                    Inr (Aware t) \<Rightarrow> Inr t
                  | Inr (Naive _) \<Rightarrow> Inl (ValueError ''Timezone required'')
                  | Inl e \<Rightarrow> Inl e)
      | _ \<Rightarrow> Inl (ValueError ''isoformat''))"

text \<open>One row of the measurements; \<open>None\<close> where the code returns 0 or catches a missing key.\<close>

definition unit_row :: "json \<Rightarrow> string \<Rightarrow> (rat \<times> rat \<times> rat) option" where
  "unit_row rows name =
     (let row = jget rows name in
      case (measurement (jget row ''available''), measurement (jget row ''reserve''),
            measurement (jget row ''pairBudget'')) of
        (Some a, Some r, Some b) \<Rightarrow> if b \<le> 0 then None else Some (a, r, b)
      | _ \<Rightarrow> None)"

definition row_units :: "rat \<times> rat \<times> rat \<Rightarrow> int" where
  "row_units = (\<lambda>(a, r, b). \<lfloor>(max 0 (a - r) + 1 / 10 ^ 9) / (b / 2)\<rfloor>)"

definition runtime_units :: "json \<Rightarrow> int" where
  "runtime_units resources =
     (let rows = jget (jget resources ''capacityInputs'') ''resources'' in
      case (unit_row rows ''cpu'', unit_row rows ''memoryGiB'', unit_row rows ''pods'',
            unit_row rows ''storageGiB'') of
        (Some c, Some m, Some p, Some _) \<Rightarrow> max 0 (min (row_units c) (min (row_units m) (row_units p)))
      | _ \<Rightarrow> 0)"

section \<open>The session plan\<close>

record runtime =
  replicas :: int
  ready_replicas :: int

record vstate =
  vs_state :: string
  vs_position :: "int option"
  vs_warm :: bool

definition plain_state :: "string \<Rightarrow> vstate" where
  "plain_state s = \<lparr> vs_state = s, vs_position = None, vs_warm = False \<rparr>"

type_synonym runtimes = "(string \<times> runtime) list"

text \<open>The demand loop: entries of known runtimes active within the idle timeout are wanted; the
  first exception ends it, keeps what was read and makes the report not fresh.\<close>

fun scan_demand :: "(string \<Rightarrow> bool) \<Rightarrow> rat \<Rightarrow> rat \<Rightarrow> (string \<times> json) list \<Rightarrow> (string \<times> rat) list \<Rightarrow>
    (string \<times> rat) list \<times> bool" where
  "scan_demand known now idle [] wanted = (wanted, True)"
| "scan_demand known now idle ((name, entry) # rest) wanted =
     (if \<not> known name then scan_demand known now idle rest wanted
      else (case res_bind (py_idx entry ''requestedAt'') parse_time of
              Inl _ \<Rightarrow> (wanted, False)
            | Inr requested \<Rightarrow>
                (case res_bind (py_idx entry ''lastActivityAt'') parse_time of
                   Inl _ \<Rightarrow> (wanted, False)
                 | Inr active \<Rightarrow>
                     scan_demand known now idle rest
                       (if now - active \<le> idle then AList.update name requested wanted else wanted))))"

definition read_demand :: "json \<Rightarrow> (string \<Rightarrow> bool) \<Rightarrow> rat \<Rightarrow> rat \<Rightarrow> (string \<times> rat) list \<times> bool" where
  "read_demand demand known now idle =
     (case res_bind (py_idx demand ''observedAt'') parse_time of
        Inl _ \<Rightarrow> ([], False)
      | Inr seen \<Rightarrow>
          (let fresh = (-5 \<le> now - seen \<and> now - seen \<le> DEMAND_STALE_SECONDS) in
           case py_get_or demand ''runtimes'' (JObj []) of
             Inr (JObj kvs) \<Rightarrow> (let (wanted, ok) = scan_demand known now idle kvs [] in (wanted, fresh \<and> ok))
           | _ \<Rightarrow> ([], False)))"

definition known_runtime :: "runtimes \<Rightarrow> string \<Rightarrow> bool" where
  "known_runtime rts n = (n \<in> set (map fst rts))"

definition replicas_of :: "runtimes \<Rightarrow> string \<Rightarrow> int" where
  "replicas_of rts n = (case map_of rts n of Some r \<Rightarrow> replicas r | None \<Rightarrow> 0)"

text \<open>First pass: the state of every runtime, and the idle ones to stop.\<close>

definition idle_stop :: "bool \<Rightarrow> string list \<Rightarrow> string list \<Rightarrow> string \<times> runtime \<Rightarrow> bool" where
  "idle_stop fresh wanted warm = (\<lambda>(n, r). replicas r \<ge> 1 \<and> fresh \<and> n \<notin> set wanted \<and> n \<notin> set warm)"

definition first_state :: "bool \<Rightarrow> string list \<Rightarrow> string list \<Rightarrow> string \<times> runtime \<Rightarrow> string \<times> vstate" where
  "first_state fresh wanted warm = (\<lambda>(n, r).
     (n, if replicas r \<ge> 1 then
           (let s = (if idle_stop fresh wanted warm (n, r) then plain_state ''stopping''
                     else plain_state (if ready_replicas r \<ge> 1 then ''running'' else ''starting''))
            in if n \<in> set warm then s\<lparr> vs_warm := True \<rparr> else s)
         else plain_state ''stopped''))"

text \<open>Second pass: signed-in users first, in order of their request; third pass: the spares.  The
  triple is the start list, the budget left and the visible states.\<close>

type_synonym round = "string list \<times> int \<times> (string \<times> vstate) list"

fun place_queue :: "int \<Rightarrow> (rat \<times> string) list \<Rightarrow> round \<Rightarrow> round" where
  "place_queue position [] rd = rd"
| "place_queue position ((t, name) # rest) (starts, budget, states) =
     (if budget > 0
      then place_queue (position + 1) rest
             (starts @ [name], budget - 1, AList.update name (plain_state ''starting'') states)
      else place_queue (position + 1) rest
             (starts, budget, AList.update name
                \<lparr> vs_state = ''waiting'', vs_position = Some (position - int (length starts)), vs_warm = False \<rparr>
                states))"

fun place_warm :: "runtimes \<Rightarrow> string list \<Rightarrow> round \<Rightarrow> round" where
  "place_warm rts [] rd = rd"
| "place_warm rts (name # rest) (starts, budget, states) =
     (if replicas_of rts name = 0 \<and> budget > 0
      then place_warm rts rest
             (starts @ [name], budget - 1,
              AList.update name \<lparr> vs_state = ''starting'', vs_position = None, vs_warm = True \<rparr> states)
      else place_warm rts rest (starts, budget, states))"

definition start_queue :: "runtimes \<Rightarrow> (string \<times> rat) list \<Rightarrow> (rat \<times> string) list" where
  "start_queue rts wanted =
     sort (map (\<lambda>(n, t). (t, n)) (filter (\<lambda>(n, t). replicas_of rts n = 0) wanted))"

definition count_state :: "string list \<Rightarrow> (string \<times> vstate) list \<Rightarrow> nat" where
  "count_state names states = length (filter (\<lambda>(n, s). vs_state s \<in> set names) states)"

record summary =
  sm_running :: nat
  sm_starting :: nat
  sm_waiting :: nat
  sm_stopped :: nat
  sm_available :: int
  sm_warm :: nat
  sm_fresh :: bool

record session_decision =
  scaleUp :: "string list"
  scaleDown :: "string list"
  sd_states :: "(string \<times> vstate) list"
  sd_summary :: summary

definition summarise :: "(string \<times> vstate) list \<Rightarrow> int \<Rightarrow> nat \<Rightarrow> bool \<Rightarrow> summary" where
  "summarise states units started fresh =
     \<lparr> sm_running = count_state [''running''] states, sm_starting = count_state [''starting''] states,
       sm_waiting = count_state [''waiting''] states,
       sm_stopped = count_state [''stopped'', ''stopping''] states,
       sm_available = max 0 (units - int started),
       sm_warm = length (filter (\<lambda>(n, s). vs_warm s) states), sm_fresh = fresh \<rparr>"

definition valid_runtimes :: "runtimes \<Rightarrow> bool" where
  "valid_runtimes rts = list_all (\<lambda>(n, r). runtime_name n \<and> replicas r \<ge> 0) rts"

definition plan_round :: "runtimes \<Rightarrow> int \<Rightarrow> (string \<times> rat) list \<Rightarrow> bool \<Rightarrow> string list \<Rightarrow> round" where
  "plan_round rts units wanted fresh warm =
     (let states = map (first_state fresh (map fst wanted) warm) (sort_key fst rts) in
      if fresh then
        place_warm rts warm
          (place_queue 1 (start_queue rts wanted) ([], min units MAX_STARTS_PER_ROUND, states))
      else ([], 0, states))"

definition warm_names :: "runtimes \<Rightarrow> (string \<times> rat) list \<Rightarrow> string list \<Rightarrow> string list" where
  "warm_names rts wanted keep_warm =
     filter (\<lambda>n. known_runtime rts n \<and> n \<notin> set (map fst wanted)) keep_warm"

definition session_plan :: "json \<Rightarrow> runtimes \<Rightarrow> int \<Rightarrow> rat \<Rightarrow> json \<Rightarrow> string list \<Rightarrow> session_decision res" where
  "session_plan demand rts units now idle_timeout keep_warm =
     (case idle_timeout of
        JInt idle \<Rightarrow>
          if idle < 300 \<or> idle > 86400 then Inl (ValueError ''Idle timeout must be 5 minutes to 24 hours'')
          else if \<not> valid_runtimes rts then Inl (ValueError ''Unexpected runtime'')
          else
            (let (wanted, fresh) = read_demand demand (known_runtime rts) now (of_int idle);
                 warm = warm_names rts wanted keep_warm;
                 stops = map fst (filter (idle_stop fresh (map fst wanted) warm) (sort_key fst rts));
                 (starts, budget, states) = plan_round rts units wanted fresh warm
             in Inr \<lparr> scaleUp = starts, scaleDown = stops, sd_states = states,
                      sd_summary = summarise states units (length starts) fresh \<rparr>)
      | _ \<Rightarrow> Inl (ValueError ''Idle timeout must be 5 minutes to 24 hours''))"

section \<open>Progress of a starting pod\<close>

record progress =
  stage :: string
  percent :: int
  detail :: string

definition STAGE_PERCENT :: "string \<Rightarrow> int" where
  "STAGE_PERCENT s =
     (if s = ''queued'' then 5 else if s = ''scheduling'' then 15 else if s = ''preparing'' then 35
      else if s = ''pulling-image'' then 45 else if s = ''starting-containers'' then 65
      else if s = ''starting-dsh'' then 85 else 100)"

definition FAILED_REASONS :: "string list" where
  "FAILED_REASONS = [''ErrImagePull'', ''ImagePullBackOff'', ''CrashLoopBackOff'',
     ''CreateContainerConfigError'', ''CreateContainerError'', ''InvalidImageName'', ''RunContainerError'']"

definition items :: "json \<Rightarrow> json list" where
  "items v = (case v of JList xs \<Rightarrow> xs | _ \<Rightarrow> [])"

definition text_of :: "json \<Rightarrow> string" where
  "text_of v = (case v of JStr s \<Rightarrow> s | _ \<Rightarrow> [])"

definition waiting_reason :: "json \<Rightarrow> string" where
  "waiting_reason c = text_of (jget (jget (jget c ''state'') ''waiting'') ''reason'')"

definition condition :: "json \<Rightarrow> string \<Rightarrow> json" where
  "condition status t =
     (case find (\<lambda>c. jget c ''type'' = JStr t) (rev (items (jget status ''conditions''))) of
        Some c \<Rightarrow> c | None \<Rightarrow> JObj [])"

definition condition_true :: "json \<Rightarrow> string \<Rightarrow> bool" where
  "condition_true status t = (jget (condition status t) ''status'' = JStr ''True'')"

definition live_pods :: "json list \<Rightarrow> json list" where
  "live_pods pods = filter (\<lambda>p. \<not> truthy (jget (jget p ''metadata'') ''deletionTimestamp'')) pods"

definition newest_pod :: "json list \<Rightarrow> json" where
  "newest_pod live = last (sort_key (\<lambda>p. text_of (jget (jget p ''metadata'') ''creationTimestamp'')) live)"

definition show_stage :: "string \<Rightarrow> string \<Rightarrow> progress" where
  "show_stage s text = \<lparr> stage = s, percent = STAGE_PERCENT s, detail = text \<rparr>"

definition status_progress :: "json \<Rightarrow> progress" where
  "status_progress status =
     (let inits = items (jget status ''initContainerStatuses'');
          regular = items (jget status ''containerStatuses'');
          containers = inits @ regular in
      case find (\<lambda>c. waiting_reason c \<in> set FAILED_REASONS) containers of
        Some c \<Rightarrow> \<lparr> stage = ''failed'', percent = STAGE_PERCENT ''starting-containers'', detail = waiting_reason c \<rparr>
      | None \<Rightarrow>
        if \<not> condition_true status ''PodScheduled'' then
          show_stage ''scheduling''
            (if jget (condition status ''PodScheduled'') ''reason'' = JStr ''Unschedulable''
             then ''Waiting for node capacity'' else ''Placing the workspace on the node'')
        else if condition_true status ''Ready'' then show_stage ''ready'' ''Workspace is ready''
        else if \<not> condition_true status ''Initialized'' then
          (if list_ex (\<lambda>c. waiting_reason c = ''ContainerCreating'') containers
              \<and> \<not> truthy (jget status ''initContainerStatuses'')
           then show_stage ''pulling-image'' ''Loading the workspace image''
           else show_stage ''preparing'' ''Mounting your files and preparing settings'')
        else if regular = [] \<or>
             list_ex (\<lambda>c. waiting_reason c \<in> {''ContainerCreating'', ''PodInitializing''}) regular
          then show_stage ''pulling-image'' ''Loading the workspace image''
        else if \<not> list_all (\<lambda>c. jhas (jget c ''state'') ''running'') regular
          then show_stage ''starting-containers'' ''Starting workspace processes''
        else show_stage ''starting-dsh'' ''Starting DSH and checking it responds'')"

text \<open>The pods are those of the Kubernetes API: absent fields read as empty ones.\<close>

definition pod_progress :: "json list \<Rightarrow> progress" where
  "pod_progress pods =
     (let live = live_pods pods in
      if live = [] then \<lparr> stage = ''scheduling'', percent = 10, detail = ''Creating the workspace pod'' \<rparr>
      else status_progress (jget (newest_pod live) ''status''))"

section \<open>Lemmas on the passes\<close>

lemma keys_update: "fst ` set (AList.update k v al) = insert k (fst ` set al)"
  by (induction al) auto

lemma start_queue_keys:
  "snd ` set (start_queue rts wanted) = {n \<in> fst ` set wanted. replicas_of rts n = 0}"
  by (force simp: start_queue_def)

lemma start_queue_distinct:
  assumes "distinct (map fst wanted)"
  shows "distinct (map snd (start_queue rts wanted))"
proof -
  let ?ws = "filter (\<lambda>(n, t). replicas_of rts n = 0) wanted"
  have "distinct (map fst ?ws)" by (rule distinct_filter_fst [OF assms])
  then have "distinct ?ws" "inj_on fst (set ?ws)" by (simp_all add: distinct_map)
  then have "distinct (start_queue rts wanted)"
    unfolding start_queue_def distinct_sort distinct_map by (auto intro: inj_onI)
  moreover have "inj_on snd (set (start_queue rts wanted))"
    using \<open>inj_on fst (set ?ws)\<close> by (auto simp: start_queue_def inj_on_def)
  ultimately show ?thesis by (simp add: distinct_map)
qed

lemma scan_demand_distinct:
  "distinct (map fst wanted) \<Longrightarrow> distinct (map fst (fst (scan_demand known now idle kvs wanted)))"
  by (induction known now idle kvs wanted rule: scan_demand.induct)
     (auto split: sum.splits simp: distinct_update)

lemma scan_demand_known:
  "fst ` set wanted \<subseteq> Collect known \<Longrightarrow>
   fst ` set (fst (scan_demand known now idle kvs wanted)) \<subseteq> Collect known"
  by (induction known now idle kvs wanted rule: scan_demand.induct)
     (simp_all add: keys_update split: sum.splits)

lemma read_demand_wanted:
  "distinct (map fst (fst (read_demand demand known now idle)))"
  "n \<in> fst ` set (fst (read_demand demand known now idle)) \<Longrightarrow> known n"
proof -
  show "distinct (map fst (fst (read_demand demand known now idle)))"
    using scan_demand_distinct [of "[]" known now idle]
    by (auto simp: read_demand_def Let_def case_prod_beta split: sum.splits json.splits)
  show "n \<in> fst ` set (fst (read_demand demand known now idle)) \<Longrightarrow> known n"
    using scan_demand_known [of "[]" known now idle]
    by (auto simp: read_demand_def Let_def case_prod_beta split: sum.splits json.splits)
qed

text \<open>Every pass keeps the keys and only writes known states.\<close>

definition shown_states :: "string list" where
  "shown_states = [''running'', ''starting'', ''waiting'', ''stopped'', ''stopping'']"

definition states_ok :: "string set \<Rightarrow> (string \<times> vstate) list \<Rightarrow> bool" where
  "states_ok names states = (distinct (map fst states) \<and> fst ` set states = names \<and>
     (\<forall>s \<in> snd ` set states. vs_state s \<in> set shown_states))"

lemma set_update_subset: "snd ` set (AList.update k v al) \<subseteq> insert v (snd ` set al)"
  by (induction al) auto

lemma states_ok_update:
  assumes "states_ok names states" "k \<in> names" "vs_state v \<in> set shown_states"
  shows "states_ok names (AList.update k v states)"
proof -
  have "vs_state s \<in> set shown_states" if "s \<in> snd ` set (AList.update k v states)" for s
    using that set_update_subset [of k v states] assms unfolding states_ok_def by blast
  then show ?thesis
    using assms unfolding states_ok_def by (auto simp: keys_update distinct_update)
qed

lemma place_queue_ok:
  "\<lbrakk>states_ok names (snd (snd rd)); snd ` set q \<subseteq> names\<rbrakk> \<Longrightarrow> states_ok names (snd (snd (place_queue p q rd)))"
  by (induction p q rd rule: place_queue.induct)
     (simp_all add: states_ok_update plain_state_def shown_states_def)

lemma place_warm_ok:
  "\<lbrakk>states_ok names (snd (snd rd)); set w \<subseteq> names\<rbrakk> \<Longrightarrow> states_ok names (snd (snd (place_warm rts w rd)))"
  by (induction rts w rd rule: place_warm.induct)
     (simp_all add: states_ok_update shown_states_def)

text \<open>The start list: the head of the queue, then the stopped spares, up to the budget.\<close>

lemma place_queue_starts:
  "place_queue p q (starts, b, st) =
    (starts @ take (nat b) (map snd q), b - int (min (nat b) (length q)), snd (snd (place_queue p q (starts, b, st))))"
proof (induction q arbitrary: p starts b st)
  case Nil
  then show ?case by simp
next
  case (Cons x q)
  obtain t n where x: "x = (t, n)" by (cases x)
  show ?case
  proof (cases "b > 0")
    case True
    then have "nat b = Suc (nat (b - 1))"
      "b - 1 - int (min (nat (b - 1)) (length q)) = b - (1 + int (min (nat (b - 1)) (length q)))" by simp_all
    with True Cons.IH [of "p + 1" "starts @ [n]" "b - 1" "AList.update n (plain_state ''starting'') st"]
    show ?thesis unfolding x by (simp only: place_queue.simps if_True) simp
  next
    case False
    with Cons.IH [of "p + 1" starts b] show ?thesis unfolding x by simp
  qed
qed

lemma place_warm_starts:
  "fst (place_warm rts w (starts, b, st)) =
    starts @ take (nat b) (filter (\<lambda>n. replicas_of rts n = 0) w)"
proof (induction w arbitrary: starts b st)
  case Nil
  then show ?case by simp
next
  case (Cons n w)
  show ?case
  proof (cases "b > 0")
    case True
    then have "nat b = Suc (nat (b - 1))" by simp
    with True Cons.IH show ?thesis by simp
  next
    case False
    with Cons.IH show ?thesis by simp
  qed
qed

definition start_budget :: "int \<Rightarrow> nat" where
  "start_budget units = nat (min units MAX_STARTS_PER_ROUND)"

lemma plan_round_starts:
  "fst (plan_round rts units wanted fresh warm) =
    (if fresh then take (start_budget units)
        (map snd (start_queue rts wanted) @ filter (\<lambda>n. replicas_of rts n = 0) warm) else [])"
proof (cases fresh)
  case True
  let ?b = "min units MAX_STARTS_PER_ROUND"
  let ?q = "start_queue rts wanted"
  have "nat (?b - int (min (nat ?b) (length ?q))) = nat ?b - length ?q" by auto
  moreover define states where "states = map (first_state fresh (map fst wanted) warm) (sort_key fst rts)"
  moreover obtain states' where
    "place_queue 1 ?q ([], ?b, states) = (take (nat ?b) (map snd ?q), ?b - int (min (nat ?b) (length ?q)), states')"
    using place_queue_starts [of 1 ?q "[]" ?b states] by simp
  ultimately show ?thesis
    using True by (simp add: plan_round_def Let_def start_budget_def place_warm_starts)
next
  case False
  then show ?thesis by (simp add: plan_round_def Let_def)
qed

text \<open>The visible state of a queued user.\<close>

definition waiting_at :: "int \<Rightarrow> vstate" where
  "waiting_at k = \<lparr> vs_state = ''waiting'', vs_position = Some k, vs_warm = False \<rparr>"

lemma place_queue_other:
  "n \<notin> snd ` set q \<Longrightarrow> map_of (snd (snd (place_queue p q rd))) n = map_of (snd (snd rd)) n"
  by (induction p q rd rule: place_queue.induct) (auto simp: update_conv')

lemma place_queue_state:
  assumes "distinct (map snd q)" "i < length q"
  shows "map_of (snd (snd (place_queue p q (starts, b, st)))) (snd (q ! i)) =
    Some (if int i < b then plain_state ''starting''
          else waiting_at (p + int i - int (length starts) - max 0 b))"
  using assms
proof (induction q arbitrary: p starts b st i)
  case Nil
  then show ?case by simp
next
  case (Cons x q)
  obtain t n where x: "x = (t, n)" by (cases x)
  from Cons.prems have n: "n \<notin> snd ` set q" "distinct (map snd q)" by (auto simp: x)
  show ?case
  proof (cases i)
    case 0
    then show ?thesis
      by (simp add: x place_queue_other [OF n(1)] update_conv' waiting_at_def)
  next
    case (Suc j)
    with Cons.prems have j: "j < length q" by simp
    show ?thesis
    proof (cases "b > 0")
      case True
      then show ?thesis
        using Cons.IH [OF n(2) j, of "p + 1" "starts @ [n]" "b - 1"]
        by (simp add: x Suc max_def algebra_simps)
    next
      case False
      then show ?thesis
        using Cons.IH [OF n(2) j, of "p + 1" starts b] by (simp add: x Suc algebra_simps)
    qed
  qed
qed

lemma place_warm_other:
  "n \<notin> set w \<Longrightarrow> map_of (snd (snd (place_warm rts w rd))) n = map_of (snd (snd rd)) n"
  by (induction rts w rd rule: place_warm.induct) (auto simp: update_conv')

lemma plan_round_queue_state:
  assumes "distinct (map fst wanted)" "fresh" "i < length (start_queue rts wanted)"
    and "set warm \<inter> fst ` set wanted = {}"
  shows "map_of (snd (snd (plan_round rts units wanted fresh warm))) (snd (start_queue rts wanted ! i)) =
    Some (if int i < min units MAX_STARTS_PER_ROUND then plain_state ''starting''
          else waiting_at (1 + int i - max 0 (min units MAX_STARTS_PER_ROUND)))"
proof -
  let ?q = "start_queue rts wanted"
  have "snd (?q ! i) \<in> fst ` set wanted"
    using start_queue_keys [of rts wanted] nth_mem [OF assms(3)] by auto
  with assms(4) have "snd (?q ! i) \<notin> set warm" by blast
  then show ?thesis
    using place_queue_state [OF start_queue_distinct [OF assms(1)] assms(3)] assms(2)
    by (simp add: plan_round_def Let_def place_warm_other)
qed

lemma first_states_ok:
  assumes "distinct (map fst rts)"
  shows "states_ok (fst ` set rts) (map (first_state fresh wanted warm) (sort_key fst rts))"
proof -
  have f: "fst (first_state fresh wanted warm x) = fst x" for x
    by (cases x) (simp add: first_state_def)
  have "distinct (map fst (sort_key fst rts))"
    using assms by (simp add: distinct_map)
  moreover have "vs_state (snd (first_state fresh wanted warm x)) \<in> set shown_states" for x
    by (cases x) (simp add: first_state_def Let_def plain_state_def shown_states_def)
  ultimately show ?thesis
    unfolding states_ok_def by (auto simp: f image_image comp_def)
qed

lemma plan_round_ok:
  assumes "distinct (map fst rts)" "fst ` set wanted \<subseteq> fst ` set rts" "set warm \<subseteq> fst ` set rts"
  shows "states_ok (fst ` set rts) (snd (snd (plan_round rts units wanted fresh warm)))"
proof -
  have "snd ` set (start_queue rts wanted) \<subseteq> fst ` set rts"
    using assms(2) start_queue_keys [of rts wanted] by blast
  then show ?thesis
    using first_states_ok [OF assms(1)] assms(3)
    by (simp add: plan_round_def Let_def place_queue_ok place_warm_ok)
qed

lemma count_state_sum:
  assumes "\<forall>s \<in> snd ` set states. vs_state s \<in> set shown_states"
  shows "count_state [''running''] states + count_state [''starting''] states +
    count_state [''waiting''] states + count_state [''stopped'', ''stopping''] states = length states"
  using assms by (induction states) (auto simp: count_state_def shown_states_def)

lemma session_plan_parts:
  assumes "session_plan demand rts units now idle_timeout keep_warm = Inr d"
  obtains idle wanted fresh warm where "idle_timeout = JInt idle" "300 \<le> idle" "idle \<le> 86400"
    "valid_runtimes rts"
    "read_demand demand (known_runtime rts) now (of_int idle) = (wanted, fresh)"
    "warm = warm_names rts wanted keep_warm"
    "scaleUp d = fst (plan_round rts units wanted fresh warm)"
    "scaleDown d = map fst (filter (idle_stop fresh (map fst wanted) warm) (sort_key fst rts))"
    "sd_states d = snd (snd (plan_round rts units wanted fresh warm))"
    "sd_summary d = summarise (sd_states d) units (length (scaleUp d)) fresh"
proof (cases idle_timeout)
  case (JInt idle)
  obtain wanted fresh where w: "read_demand demand (known_runtime rts) now (of_int idle) = (wanted, fresh)"
    by (cases "read_demand demand (known_runtime rts) now (of_int idle)")
  obtain starts budget states where
    r: "plan_round rts units wanted fresh (warm_names rts wanted keep_warm) = (starts, budget, states)"
    by (cases "plan_round rts units wanted fresh (warm_names rts wanted keep_warm)")
  from assms JInt have "\<not> (idle < 300 \<or> idle > 86400)" "valid_runtimes rts"
    by (auto simp: session_plan_def split: if_splits)
  with assms w r JInt show ?thesis
    by (intro that [OF JInt _ _ _ w refl]) (auto simp: session_plan_def Let_def)
qed (use assms in \<open>simp_all add: session_plan_def\<close>)

lemma warm_names_known: "set (warm_names rts wanted keep) \<subseteq> fst ` set rts"
  "set (warm_names rts wanted keep) \<inter> fst ` set wanted = {}"
  by (auto simp: warm_names_def known_runtime_def)

lemma read_demand_known: "read_demand demand (known_runtime rts) now idle = (wanted, fresh) \<Longrightarrow>
  distinct (map fst wanted) \<and> fst ` set wanted \<subseteq> fst ` set rts"
  using read_demand_wanted(1) [where demand = demand and known = "known_runtime rts" and now = now and idle = idle]
    read_demand_wanted(2) [where demand = demand and known = "known_runtime rts" and now = now and idle = idle]
  by (auto simp: known_runtime_def)

lemma runtime_units_le:
  assumes "1 \<le> n" "n \<le> runtime_units resources" "name \<in> {''cpu'', ''memoryGiB'', ''pods''}"
  obtains a r b where
    "unit_row (jget (jget resources ''capacityInputs'') ''resources'') name = Some (a, r, b)"
    "n \<le> row_units (a, r, b)"
  using assms by (auto simp: runtime_units_def Let_def split: option.splits)

lemma unit_row_valid:
  assumes "unit_row rows name = Some (a, r, b)"
  shows "measurement (jget (jget rows name) ''available'') = Some a"
    and "measurement (jget (jget rows name) ''reserve'') = Some r"
    and "measurement (jget (jget rows name) ''pairBudget'') = Some b" and "0 < b"
  using assms by (auto simp: unit_row_def Let_def split: option.splits if_splits)

lemma row_units_fit: "0 < b \<Longrightarrow> n \<le> row_units (a, r, b) \<Longrightarrow> of_int n * (b / 2) \<le> max 0 (a - r) + 1 / 10 ^ 9"
  by (simp add: row_units_def le_floor_iff pos_le_divide_eq)

lemma find_SomeD: "find P xs = Some c \<Longrightarrow> P c \<and> c \<in> set xs"
  by (induction xs) (auto split: if_splits)

section \<open>Properties\<close>

definition example_runtimes :: runtimes where
  "example_runtimes =
     [(''dsh-u-00000000000000aa-secure'', \<lparr> replicas = 1, ready_replicas = 1 \<rparr>),
      (''dsh-u-00000000000000bb-secure'', \<lparr> replicas = 0, ready_replicas = 0 \<rparr>),
      (''dsh-u-00000000000000cc-secure'', \<lparr> replicas = 0, ready_replicas = 0 \<rparr>)]"

definition demand_entry :: "string \<Rightarrow> json" where
  "demand_entry t = JObj [(''requestedAt'', JStr t), (''lastActivityAt'', JStr ''2026-01-02T03:04:05Z'')]"

definition example_demand :: json where
  "example_demand = JObj [(''observedAt'', JStr ''2026-01-02T03:04:05Z''),
     (''runtimes'', JObj [(''dsh-u-00000000000000cc-secure'', demand_entry ''2026-01-02T03:04:00Z''),
                          (''dsh-u-00000000000000bb-secure'', demand_entry ''2026-01-02T03:03:00Z'')])]"

definition example_wanted :: "(string \<times> rat) list" where
  "example_wanted = [(''dsh-u-00000000000000cc-secure'', 1767323040), (''dsh-u-00000000000000bb-secure'', 1767322980)]"

definition example_session :: session_decision where
  "example_session = (case session_plan example_demand example_runtimes 1 1767323050 (JInt 3600) []
     of Inr d \<Rightarrow> d | Inl _ \<Rightarrow> undefined)"

lemma example_session:
  "session_plan example_demand example_runtimes 1 1767323050 (JInt 3600) [] = Inr example_session"
  "scaleUp example_session = [''dsh-u-00000000000000bb-secure'']"
  "scaleDown example_session = [''dsh-u-00000000000000aa-secure'']"
  by code_simp+

lemma example_read:
  "read_demand example_demand (known_runtime example_runtimes) 1767323050 (of_int 3600) = (example_wanted, True)"
  by code_simp

text \<open>A runtime is stopped only when the gateway's report is fresh, the runtime is running, no
  user active within the idle timeout wants it and it is not a kept spare; a missing, malformed or
  stale report stops and starts nothing.\<close>

theorem session_stops_only_idle:
  assumes "session_plan demand rts units now (JInt idle) keep_warm = Inr d"
    and "read_demand demand (known_runtime rts) now (of_int idle) = (wanted, fresh)"
  shows "(n \<in> set (scaleDown d) \<longrightarrow>
      fresh \<and> (\<exists>r. (n, r) \<in> set rts \<and> 1 \<le> replicas r) \<and> runtime_name n \<and>
      n \<notin> fst ` set wanted \<and> n \<notin> set keep_warm) \<and>
    (\<not> fresh \<longrightarrow> scaleDown d = [] \<and> scaleUp d = [])"
  using assms(1)
proof (cases rule: session_plan_parts)
  case (1 idle' wanted' fresh' warm)
  then have eq: "wanted' = wanted" "fresh' = fresh" using assms(2) by simp_all
  have stops: "scaleDown d = map fst (filter (idle_stop fresh (map fst wanted) warm) (sort_key fst rts))"
    using 1(8) eq by simp
  have "n \<in> set (scaleDown d) \<longrightarrow>
      fresh \<and> (\<exists>r. (n, r) \<in> set rts \<and> 1 \<le> replicas r) \<and> runtime_name n \<and>
      n \<notin> fst ` set wanted \<and> n \<notin> set keep_warm"
    using 1(4) unfolding stops 1(6) eq
    by (force simp: idle_stop_def warm_names_def known_runtime_def valid_runtimes_def list_all_iff)
  moreover have "\<not> fresh \<longrightarrow> scaleDown d = [] \<and> scaleUp d = []"
    unfolding stops 1(7) eq by (auto simp: idle_stop_def plan_round_starts)
  ultimately show ?thesis by blast
qed

theorem session_stops_only_idle_witness:
  "''dsh-u-00000000000000aa-secure'' \<in> set (scaleDown example_session) \<and>
   ''dsh-u-00000000000000aa-secure'' \<notin> fst ` set example_wanted"
  using session_stops_only_idle [OF example_session(1) example_read] example_session(3) by simp

text \<open>C33: With a fresh report the runtimes to start are the first ones of the queue of stopped,
  wanted runtimes in order of request time, followed by stopped spares, at most four and at most
  the units that fit; every user who is not started sees the position in the remaining queue.\<close>

theorem session_starts_first_come:
  assumes "session_plan demand rts units now (JInt idle) keep_warm = Inr d"
    and "read_demand demand (known_runtime rts) now (of_int idle) = (wanted, True)"
  shows "let queue = start_queue rts wanted; budget = start_budget units in
    sorted queue \<and>
    scaleUp d = take budget (map snd queue @
      filter (\<lambda>n. replicas_of rts n = 0) (warm_names rts wanted keep_warm)) \<and>
    length (scaleUp d) \<le> 4 \<and> int (length (scaleUp d)) \<le> max 0 units \<and>
    (\<forall>i < length queue. map_of (sd_states d) (snd (queue ! i)) =
       Some (if i < budget then plain_state ''starting'' else waiting_at (1 + int i - int budget)))"
  using assms(1)
proof (cases rule: session_plan_parts)
  case (1 idle' wanted' fresh warm)
  then have eq: "wanted' = wanted" "fresh = True" using assms(2) by simp_all
  have b: "int (start_budget units) = max 0 (min units MAX_STARTS_PER_ROUND)"
    by (simp add: start_budget_def MAX_STARTS_PER_ROUND_def)
  have queue: "map_of (sd_states d) (snd (start_queue rts wanted ! i)) =
      Some (if i < start_budget units then plain_state ''starting''
            else waiting_at (1 + int i - int (start_budget units)))"
    if "i < length (start_queue rts wanted)" for i
    using plan_round_queue_state [of wanted True i rts warm units] that
      read_demand_known [OF assms(2)] warm_names_known(2) [of rts wanted keep_warm] b
    unfolding 1(9) 1(6) eq by (simp add: start_budget_def zless_nat_eq_int_zless)
  have "length (scaleUp d) \<le> start_budget units"
    unfolding 1(7) eq by (simp add: plan_round_starts)
  then have "length (scaleUp d) \<le> 4 \<and> int (length (scaleUp d)) \<le> max 0 units"
    unfolding start_budget_def MAX_STARTS_PER_ROUND_def by linarith
  moreover have "sorted (start_queue rts wanted)" by (simp add: start_queue_def)
  ultimately show ?thesis
    using queue unfolding Let_def 1(7) 1(6) eq plan_round_starts by simp
qed

theorem session_starts_first_come_witness:
  "length (scaleUp example_session) \<le> 4 \<and> scaleUp example_session = [''dsh-u-00000000000000bb-secure'']"
  using session_starts_first_come [OF example_session(1) example_read] example_session(2)
  unfolding Let_def by blast

text \<open>Every runtime has exactly one visible state and the summary counts them all: running,
  starting, waiting and stopped (or stopping) runtimes add up to the number of Deployments.\<close>

theorem session_summary_partition:
  assumes "session_plan demand rts units now idle_timeout keep_warm = Inr d" and "distinct (map fst rts)"
  shows "distinct (map fst (sd_states d)) \<and> fst ` set (sd_states d) = fst ` set rts \<and>
    sm_running (sd_summary d) + sm_starting (sd_summary d) + sm_waiting (sd_summary d) +
      sm_stopped (sd_summary d) = length rts"
  using assms(1)
proof (cases rule: session_plan_parts)
  case (1 idle wanted fresh warm)
  have "fst ` set wanted \<subseteq> fst ` set rts" "set warm \<subseteq> fst ` set rts"
    using read_demand_known [OF 1(5)] warm_names_known(1) [of rts wanted keep_warm] 1(6) by auto
  then have ok: "states_ok (fst ` set rts) (sd_states d)"
    unfolding 1(9) by (rule plan_round_ok [OF assms(2)])
  then have "length (sd_states d) = length rts"
    unfolding states_ok_def by (metis assms(2) distinct_card length_map set_map)
  with ok count_state_sum [of "sd_states d"] show ?thesis
    unfolding states_ok_def 1(10) summarise_def by simp
qed

theorem session_summary_partition_witness:
  "sm_running (sd_summary example_session) + sm_starting (sd_summary example_session) +
     sm_waiting (sd_summary example_session) + sm_stopped (sd_summary example_session) = 3"
  using session_summary_partition [OF example_session(1)] by (simp add: example_runtimes_def)

text \<open>The start units never overcommit: that many starts, each half a pair budget, fit into
  what is available after the reserve for processor, memory and pods (up to the rounding allowance
  of 1e-9), and a single unknown or invalid measurement, storage included, gives no unit.\<close>

theorem runtime_units_fit:
  assumes "1 \<le> n" and "n \<le> runtime_units resources"
    and "name \<in> {''cpu'', ''memoryGiB'', ''pods''}"
  shows "let row = jget (jget (jget resources ''capacityInputs'') ''resources'') name in
    \<exists>a r b. measurement (jget row ''available'') = Some a \<and> measurement (jget row ''reserve'') = Some r \<and>
      measurement (jget row ''pairBudget'') = Some b \<and> 0 < b \<and>
      of_int n * (b / 2) \<le> max 0 (a - r) + 1 / 10 ^ 9"
proof -
  obtain a r b where row: "unit_row (jget (jget resources ''capacityInputs'') ''resources'') name = Some (a, r, b)"
    and n: "n \<le> row_units (a, r, b)"
    by (rule runtime_units_le [OF assms])
  note v = unit_row_valid [OF row]
  show ?thesis using v row_units_fit [OF v(4) n] by (auto simp: Let_def)
qed

lemma example_units: "runtime_units example_resources = 16"
  by code_simp

theorem runtime_units_fit_witness:
  "\<exists>a. measurement (jget (jget (jget (jget example_resources ''capacityInputs'') ''resources'') ''cpu'') ''available'')
     = Some a"
  using runtime_units_fit [of 16 example_resources "''cpu''"] example_units by (auto simp: Let_def)

text \<open>Progress tells the truth about the pod: full progress is shown only for a scheduled pod
  whose condition Ready holds and none of whose containers waits for one of the failure reasons,
  and the stage is failed exactly when some container waits for such a reason.\<close>

theorem pod_progress_honest:
  "(percent (status_progress status) = 100 \<longleftrightarrow> stage (status_progress status) = ''ready'') \<and>
   (stage (status_progress status) = ''failed'' \<longleftrightarrow>
      (\<exists>c. c \<in> set (items (jget status ''initContainerStatuses'') @ items (jget status ''containerStatuses'')) \<and>
           waiting_reason c \<in> set FAILED_REASONS)) \<and>
   (stage (status_progress status) = ''ready'' \<longleftrightarrow>
      stage (status_progress status) \<noteq> ''failed'' \<and>
      condition_true status ''PodScheduled'' \<and> condition_true status ''Ready'')"
proof (cases "find (\<lambda>c. waiting_reason c \<in> set FAILED_REASONS)
    (items (jget status ''initContainerStatuses'') @ items (jget status ''containerStatuses''))")
  case None
  then have none: "(\<exists>c. c \<in> set (items (jget status ''initContainerStatuses'') @
      items (jget status ''containerStatuses'')) \<and> waiting_reason c \<in> set FAILED_REASONS) = False"
    unfolding find_None_iff by simp
  show ?thesis
    unfolding none using None by (simp add: status_progress_def Let_def show_stage_def STAGE_PERCENT_def)
next
  case (Some c)
  from find_SomeD [OF this] Some show ?thesis
    by (auto simp: status_progress_def Let_def STAGE_PERCENT_def)
qed

end
