(* ===== verification/Capacity_Kube.thy ===== *)
theory Capacity_Kube imports Capacity_Session begin

text \<open>
  The in-cluster client of \<open>scripts/capacity_kube.py\<close>.  The API server is the world: \<open>send\<close> takes a
  request and the server's state and answers with a decoded body or an HTTP error.  The bearer
  token and the TLS context are left out; a request shows its method, path, content type and body.
  SHA-256 of the canonical JSON text is the parameter \<open>digest\<close>.
\<close>

record request =
  verb :: string
  path :: string
  media :: string
  body :: "json option"

datatype reply = Reply json | Http_Error int

type_synonym 'w server = "request \<Rightarrow> 'w \<Rightarrow> reply \<times> 'w"

fun kind_path :: "string \<Rightarrow> (string \<times> string) res" where
  "kind_path kind =
     (if kind = ''Deployment'' then Inr (''/apis/apps/v1'', ''deployments'')
      else if kind = ''Service'' then Inr (''/api/v1'', ''services'')
      else if kind = ''Secret'' then Inr (''/api/v1'', ''secrets'')
      else if kind = ''PersistentVolumeClaim'' then Inr (''/api/v1'', ''persistentvolumeclaims'')
      else if kind = ''Pod'' then Inr (''/api/v1'', ''pods'')
      else if kind = ''Job'' then Inr (''/apis/batch/v1'', ''jobs'')
      else if kind = ''Node'' then Inr (''/api/v1'', ''nodes'')
      else if kind = ''AllPod'' then Inr (''/api/v1'', ''pods'')
      else if kind = ''StorageCapacity'' then Inr (''/apis/storage.k8s.io/v1'', ''csistoragecapacities'')
      else if kind = ''NodeMetrics'' then Inr (''/apis/metrics.k8s.io/v1beta1'', ''nodes'')
      else Inl (KeyError kind))"

definition name_chars :: string where "name_chars = digit_chars @ lower_chars @ ''.-''"

definition valid_name :: "string \<Rightarrow> bool" where
  "valid_name s = (fullmatch_class name_chars 1 252 s \<and> hd s \<in> set (digit_chars @ lower_chars))"

definition valid_namespace :: "string \<Rightarrow> bool" where
  "valid_namespace s = fullmatch_class (digit_chars @ lower_chars @ ''-'') 1 63 s"

text \<open>\<open>Kube.__init__\<close>: the namespace becomes part of every path.\<close>

definition new_kube :: "string \<Rightarrow> string res" where
  "new_kube namespace =
     (if valid_namespace namespace then Inr namespace else Inl (ValueError ''Invalid namespace''))"

text \<open>\<open>urlencode({'labelSelector': selector})\<close> with \<open>quote_plus\<close> for ASCII text.\<close>

definition upper_hex :: "nat \<Rightarrow> char" where
  "upper_hex n = ''0123456789ABCDEF'' ! (n mod 16)"

definition quote_char :: "char \<Rightarrow> string" where
  "quote_char c =
     (if c \<in> set (alnum_chars @ ''_.-~'') then [c]
      else if c = CHR '' '' then ''+''
      else [CHR ''%'', upper_hex (of_char c div 16), upper_hex (of_char c)])"

definition quote_plus :: "string \<Rightarrow> string" where
  "quote_plus s = concat (map quote_char s)"

definition kube_path :: "string \<Rightarrow> string \<Rightarrow> string option \<Rightarrow> string option \<Rightarrow> string res" where
  "kube_path ns kind name selector =
     res_bind (kind_path kind) (\<lambda>(prefix, plural).
       let url = prefix
             @ (if kind \<in> {''Node'', ''AllPod'', ''StorageCapacity'', ''NodeMetrics''} then ''''
                else ''/namespaces/'' @ ns) @ ''/'' @ plural in
       res_bind (case name of None \<Rightarrow> Inr url | Some n \<Rightarrow>
                   if n = '''' then Inr url
                   else if valid_name n then Inr (url @ ''/'' @ n)
                   else Inl (ValueError ''Invalid resource name'')) (\<lambda>url.
       Inr (case selector of None \<Rightarrow> url
            | Some q \<Rightarrow> if q = '''' then url else url @ ''?labelSelector='' @ quote_plus q)))"

definition json_media :: string where "json_media = ''application/json''"
definition merge_patch :: string where "merge_patch = ''application/merge-patch+json''"

text \<open>\<open>Kube.call\<close>: a 404 on GET is \<open>None\<close>, every other HTTP error is a \<open>RuntimeError\<close>.\<close>

definition kube_call :: "'w server \<Rightarrow> string \<Rightarrow> string \<Rightarrow> string \<Rightarrow> string option \<Rightarrow> json option \<Rightarrow>
    string option \<Rightarrow> ('w, json) io" where
  "kube_call send ns meth kind name bdy selector =
     io_bind (io_lift (kube_path ns kind name selector)) (\<lambda>url w.
       case send \<lparr> verb = meth, path = url, media = json_media, body = bdy \<rparr> w of
         (Reply j, w') \<Rightarrow> (Inr j, w')
       | (Http_Error code, w') \<Rightarrow>
           (if code = 404 \<and> meth = ''GET'' then Inr JNull
            else Inl (RuntimeError (''Kubernetes '' @ meth @ '' '' @ kind)), w'))"

definition scale_path :: "string \<Rightarrow> string \<Rightarrow> string" where
  "scale_path ns name = ''/apis/apps/v1/namespaces/'' @ ns @ ''/deployments/'' @ name @ ''/scale''"

definition scale_request :: "string \<Rightarrow> string \<Rightarrow> int \<Rightarrow> request" where
  "scale_request ns name n =
     \<lparr> verb = ''PATCH'', path = scale_path ns name, media = merge_patch,
       body = Some (JObj [(''spec'', JObj [(''replicas'', JInt n)])]) \<rparr>"

definition kube_scale :: "'w server \<Rightarrow> string \<Rightarrow> string \<Rightarrow> int \<Rightarrow> ('w, json) io" where
  "kube_scale send ns name n =
     (if \<not> runtime_name name \<or> n \<notin> {0, 1}
      then io_raise (ValueError ''Refusing to scale outside private user runtimes'')
      else (\<lambda>w. case send (scale_request ns name n) w of
                  (Reply j, w') \<Rightarrow> (Inr j, w')
                | (Http_Error code, w') \<Rightarrow> (Inl (RuntimeError ''Kubernetes PATCH scale''), w')))"

section \<open>Creating objects\<close>

definition provisioner_prefixes :: "string list" where
  "provisioner_prefixes = [''dsh-cap-'', ''dsh-u-'', ''dsh-inference-signup-'', ''dsh-harness-signup-'', ''dsh-app-status-'']"

definition managed_label :: string where "managed_label = ''dsh.example.com/capacity-managed''"
definition digest_annotation :: string where "digest_annotation = ''dsh.example.com/capacity-spec-sha256''"

definition spec_part :: "json \<Rightarrow> json" where
  "spec_part document =
     JObj (map (\<lambda>k. (k, jget document k)) (filter (jhas document) [''kind'', ''spec'', ''data'', ''type'']))"

definition owned :: "json \<Rightarrow> string \<Rightarrow> bool" where
  "owned old fingerprint =
     (jget (jget (jget old ''metadata'') ''labels'') managed_label = JStr ''true'' \<and>
      jget (jget (jget old ''metadata'') ''annotations'') digest_annotation = JStr fingerprint)"

text \<open>\<open>metadata.setdefault(field, {})[key] = value\<close>\<close>

definition set_meta :: "string \<Rightarrow> string \<Rightarrow> string \<Rightarrow> json \<Rightarrow> json" where
  "set_meta field key v metadata =
     jset field (jset key (JStr v) (if jhas metadata field then jget metadata field else JObj [])) metadata"

definition stamped :: "string \<Rightarrow> string \<Rightarrow> json \<Rightarrow> json" where
  "stamped ns fingerprint document =
     jset ''metadata''
       (jset ''namespace'' (JStr ns)
         (set_meta ''annotations'' digest_annotation fingerprint
           (set_meta ''labels'' managed_label ''true'' (jget document ''metadata'')))) document"

text \<open>\<open>Kube.ensure_new\<close>; documents and server objects have the shape of Kubernetes objects.\<close>

definition ensure_new :: "(json \<Rightarrow> string) \<Rightarrow> 'w server \<Rightarrow> string \<Rightarrow> json \<Rightarrow> ('w, json) io" where
  "ensure_new digest send ns document =
     (let kind = text_of (jget document ''kind'');
          name = text_of (jget (jget document ''metadata'') ''name'');
          fingerprint = digest (spec_part document) in
      if \<not> list_ex (\<lambda>p. startswith p name) provisioner_prefixes
      then io_raise (ValueError ''Refusing to write outside provisioner resource prefixes'')
      else
        io_bind (kube_call send ns ''GET'' kind (Some name) None None) (\<lambda>old.
          if truthy old
          then (if owned old fingerprint then io_return old
                else io_raise (ValueError ''Existing object is not owned by the provisioner''))
          else kube_call send ns ''POST'' kind None (Some (stamped ns fingerprint document)) None))"

section \<open>Lemmas\<close>

text \<open>A server that also keeps the requests it received.\<close>

definition logged :: "'w server \<Rightarrow> (request list \<times> 'w) server" where
  "logged send req lw = (case send req (snd lw) of (rep, w') \<Rightarrow> (rep, (fst lw @ [req], w')))"

definition get_request :: "string \<Rightarrow> request" where
  "get_request url = \<lparr> verb = ''GET'', path = url, media = json_media, body = None \<rparr>"

definition post_request :: "string \<Rightarrow> json \<Rightarrow> request" where
  "post_request url b = \<lparr> verb = ''POST'', path = url, media = json_media, body = Some b \<rparr>"

lemma logged_simps:
  "send req w = (rep, w') \<Longrightarrow> logged send req (l, w) = (rep, (l @ [req], w'))"
  by (simp add: logged_def)

lemma kube_call_logged:
  assumes "kube_path ns kind name selector = Inr url"
    and "send \<lparr> verb = meth, path = url, media = json_media, body = bdy \<rparr> w = (rep, w')"
  shows "kube_call (logged send) ns meth kind name bdy selector (l, w) =
    (case rep of Reply j \<Rightarrow> Inr j
     | Http_Error code \<Rightarrow> if code = 404 \<and> meth = ''GET'' then Inr JNull
                         else Inl (RuntimeError (''Kubernetes '' @ meth @ '' '' @ kind)),
     l @ [\<lparr> verb = meth, path = url, media = json_media, body = bdy \<rparr>], w')"
  using assms by (simp add: kube_call_def logged_def split: reply.split)

lemma kube_call_bad_path:
  "kube_path ns kind name selector = Inl e \<Longrightarrow> kube_call send ns meth kind name bdy selector w = (Inl e, w)"
  by (simp add: kube_call_def)

lemma kube_path_unnamed:
  "kube_path ns kind (Some name) None = Inr url \<Longrightarrow> \<exists>url'. kube_path ns kind None None = Inr url'"
  by (auto simp: kube_path_def res_bind_Inr_iff Let_def simp del: kind_path.simps)

lemma stamped_meta:
  assumes "is_obj document" "is_obj (jget document ''metadata'')"
    "jhas (jget document ''metadata'') ''labels'' \<Longrightarrow> is_obj (jget (jget document ''metadata'') ''labels'')"
    "jhas (jget document ''metadata'') ''annotations'' \<Longrightarrow> is_obj (jget (jget document ''metadata'') ''annotations'')"
  shows "owned (stamped ns fingerprint document) fingerprint"
    and "jget (jget (stamped ns fingerprint document) ''metadata'') ''namespace'' = JStr ns"
  using assms by (auto simp: owned_def stamped_def set_meta_def)

section \<open>Properties\<close>

text \<open>Creating an object never overwrites one: \<open>ensure_new\<close> sends nothing, one GET, or a GET
  followed by one POST; the POST is sent only when the GET found no object, it carries the
  document stamped with label, digest and namespace, and an existing object is returned only
  when it carries the provisioner's label and the same digest.\<close>

theorem ensure_new_never_overwrites:
  assumes "ensure_new digest (logged send) ns document (l, w) = (r, (l', w'))"
  shows "l' = l \<and> w' = w \<and> (\<exists>e. r = Inl e) \<or>
    (\<exists>url rep w1. send (get_request url) w = (rep, w1) \<and>
       kube_path ns (text_of (jget document ''kind''))
         (Some (text_of (jget (jget document ''metadata'') ''name''))) None = Inr url \<and>
       (l' = l @ [get_request url] \<and> w' = w1 \<and>
          (\<forall>old. r = Inr old \<longrightarrow> rep = Reply old \<and> owned old (digest (spec_part document))) \<or>
        (\<exists>url'. l' = l @ [get_request url, post_request url' (stamped ns (digest (spec_part document)) document)] \<and>
           (rep = Http_Error 404 \<or> (\<exists>old. rep = Reply old \<and> \<not> truthy old)))))"
proof -
  let ?kind = "text_of (jget document ''kind'')"
  let ?name = "text_of (jget (jget document ''metadata'') ''name'')"
  let ?new = "stamped ns (digest (spec_part document)) document"
  consider (refused) "\<not> list_ex (\<lambda>p. startswith p ?name) provisioner_prefixes"
    | (bad) e where "kube_path ns ?kind (Some ?name) None = Inl e"
    | (get) url where "list_ex (\<lambda>p. startswith p ?name) provisioner_prefixes"
        "kube_path ns ?kind (Some ?name) None = Inr url"
    by (cases "kube_path ns ?kind (Some ?name) None") auto
  then show ?thesis
  proof cases
    case refused
    then show ?thesis using assms by (auto simp: ensure_new_def Let_def)
  next
    case bad
    then show ?thesis using assms
      by (auto simp: ensure_new_def Let_def kube_call_bad_path split: if_splits)
  next
    case get
    obtain rep w1 where s: "send (get_request url) w = (rep, w1)" by force
    note g = kube_call_logged [where send = send and w = w, OF get(2) s [unfolded get_request_def], of l, folded get_request_def]
    have e: "ensure_new digest (logged send) ns document (l, w) =
      io_bind (kube_call (logged send) ns ''GET'' ?kind (Some ?name) None None) (\<lambda>old.
          if truthy old then (if owned old (digest (spec_part document)) then io_return old
                else io_raise (ValueError ''Existing object is not owned by the provisioner''))
          else kube_call (logged send) ns ''POST'' ?kind None (Some ?new) None) (l, w)"
      using get(1) by (simp add: ensure_new_def Let_def)
    have post: "\<exists>url'. l' = l @ [get_request url, post_request url' ?new]"
      if "kube_call (logged send) ns ''POST'' ?kind None (Some ?new) None (l @ [get_request url], w1) = (r, (l', w'))"
    proof -
      obtain url' where u: "kube_path ns ?kind None None = Inr url'"
        using kube_path_unnamed [OF get(2)] by blast
      obtain rep' w2 where s': "send (post_request url' ?new) w1 = (rep', w2)" by force
      show ?thesis
        using that kube_call_logged [where send = send and w = w1, OF u s' [unfolded post_request_def], of "l @ [get_request url]"]
        by (auto simp: post_request_def)
    qed
    show ?thesis
    proof (cases rep)
      case (Reply old)
      then show ?thesis
        using assms get(2) s g post unfolding e by (cases "truthy old") (auto simp: io_bind_def split: if_splits)
    next
      case (Http_Error code)
      then show ?thesis
        using assms get(2) s g post unfolding e by (cases "code = 404") (auto simp: io_bind_def)
    qed
  qed
qed

text \<open>Scaling is confined: a request is sent only for the name of a private user runtime and
  only to zero or one replica; it is a single merge patch of that Deployment's scale whose whole
  body is the replica count, and every other call is refused without sending anything.\<close>

theorem scale_is_confined:
  "(runtime_name name \<and> n \<in> {0, 1} \<longrightarrow>
      fst (snd (kube_scale (logged send) ns name n (l, w))) = l @ [scale_request ns name n]) \<and>
   (\<not> (runtime_name name \<and> n \<in> {0, 1}) \<longrightarrow>
      kube_scale (logged send) ns name n (l, w) =
        (Inl (ValueError ''Refusing to scale outside private user runtimes''), (l, w)))"
  by (auto simp: kube_scale_def logged_def split: prod.splits reply.splits)

section \<open>Witnesses\<close>

definition empty_server :: "unit server" where
  "empty_server req w = (if verb req = ''GET'' then (Http_Error 404, ()) else (Reply (JObj []), ()))"

definition example_claim :: json where
  "example_claim = JObj [(''kind'', JStr ''Service''), (''metadata'', JObj [(''name'', JStr ''dsh-u-a'')]),
     (''spec'', JObj [])]"

lemma example_creation:
  "ensure_new (\<lambda>_. ''d'') (logged empty_server) ''ns'' example_claim ([], ()) =
    (Inr (JObj []), ([get_request ''/api/v1/namespaces/ns/services/dsh-u-a'',
       post_request ''/api/v1/namespaces/ns/services'' (stamped ''ns'' ''d'' example_claim)], ()))"
  by code_simp

lemma get_request_eq [simp]: "get_request a = get_request b \<longleftrightarrow> a = b"
  by (simp add: get_request_def)

theorem ensure_new_never_overwrites_witness:
  "\<exists>url rep w1. empty_server (get_request url) () = (rep, w1) \<and>
     (rep = Http_Error 404 \<or> (\<exists>old. rep = Reply old \<and> truthy old = False))"
  using ensure_new_never_overwrites [OF example_creation] by simp blast

theorem scale_is_confined_witness:
  "kube_scale (logged empty_server) ''ns'' ''kube-dns'' 0 ([], ()) =
     (Inl (ValueError ''Refusing to scale outside private user runtimes''), ([], ()))"
proof -
  have "\<not> runtime_name ''kube-dns''" by code_simp
  then show ?thesis
    using scale_is_confined [of "''kube-dns''" 0 empty_server "''ns''" "[]" "()"] by simp
qed

end
