(* ===== verification/Capacity_Control.thy ===== *)
theory Capacity_Control imports Capacity_Kube begin

text \<open>
  The single-writer reconciler of \<open>scripts/capacity_controller.py\<close>: durable JSON files, one
  reconciliation round (\<open>reconcile\<close>), the spares kept running (\<open>warm_spares\<close>), one session round
  (\<open>sessions\<close>) and the pause between rounds.  The trusted worker is a record of outcomes: its
  measured resources and, per slot, the routes and receipt of \<open>prepare_and_qualify\<close> or the exception.
  Clock readings and random identities are arguments.
\<close>

section \<open>Files\<close>

record entry =
  is_regular :: bool
  bytes :: int
  content :: "json option"

type_synonym files = "(string \<times> entry) list"

definition READ_LIMIT :: int where "READ_LIMIT = 262144"

text \<open>\<open>read_json\<close>: symbolic links and missing files are \<open>OSError\<close> (no entry here).\<close>

definition read_json :: "string \<Rightarrow> (files, json) io" where
  "read_json p fs =
     (case map_of fs p of
        None \<Rightarrow> (Inl (OSError p), fs)
      | Some e \<Rightarrow>
          (if \<not> is_regular e \<or> bytes e > READ_LIMIT then Inl (ValueError ''Invalid capacity input'')
           else (case content e of None \<Rightarrow> Inl (ValueError ''JSONDecodeError'') | Some j \<Rightarrow> Inr j), fs))"

text \<open>\<open>atomic_json\<close>: the whole file is replaced in one step; \<open>dump\<close> is the length of the JSON text.\<close>

definition atomic_json :: "(json \<Rightarrow> int) \<Rightarrow> string \<Rightarrow> json \<Rightarrow> (files, unit) io" where
  "atomic_json dump p v fs =
     (Inr (), AList.update p \<lparr> is_regular = True, bytes = dump v, content = Some v \<rparr> fs)"

definition file_json :: "files \<Rightarrow> string \<Rightarrow> json" where
  "file_json fs p = (case map_of fs p of Some e \<Rightarrow> (case content e of Some j \<Rightarrow> j | None \<Rightarrow> JNull) | None \<Rightarrow> JNull)"

definition policy_file :: string where "policy_file = ''policy/policy.json''"
definition assignments_file :: string where "assignments_file = ''policy/assignments.json''"
definition demand_file :: string where "demand_file = ''policy/demand.json''"
definition inventory_file :: string where "inventory_file = ''inventory/inventory.json''"
definition pool_file :: string where "pool_file = ''inventory/pool.json''"

section \<open>One reconciliation round\<close>

record worker =
  w_resources :: "json res"
  w_qualify :: "string \<Rightarrow> (json \<times> json) res"

definition slots_of :: "json \<Rightarrow> json res" where
  "slots_of j = res_bind (py_idx j ''slots'') (\<lambda>s.
     if is_obj s then Inr s else Inl (TypeError ''slots''))"

definition put_slot :: "string \<Rightarrow> json \<Rightarrow> json \<Rightarrow> json" where
  "put_slot name v j = jset ''slots'' (jset name v (jget j ''slots'')) j"

text \<open>\<open>record.get('state') == 'ready' and record.get('qualification', {}).get('status') == 'passed'\<close>\<close>

definition receipt_passed :: "json \<Rightarrow> bool res" where
  "receipt_passed rec =
     res_bind (py_get rec ''state'') (\<lambda>st.
     if st \<noteq> JStr ''ready'' then Inr False
     else res_bind (py_get_or rec ''qualification'' (JObj [])) (\<lambda>q.
          res_bind (py_get q ''status'') (\<lambda>s. Inr (s = JStr ''passed''))))"

definition publish_one :: "string \<times> json \<Rightarrow> json \<times> bool \<Rightarrow> (json \<times> bool) res" where
  "publish_one = (\<lambda>(name, rec) (published, changed).
     res_bind (receipt_passed rec) (\<lambda>ok.
     if \<not> ok then Inr (published, changed)
     else
       res_bind (slots_of published) (\<lambda>slots.
       res_bind (py_idx rec ''routes'') (\<lambda>routes.
       if jhas slots name
       then (if py_eq (jget slots name) routes then Inr (published, changed)
             else Inl (RuntimeError ''Published private route differs from its receipt''))
       else Inr (put_slot name routes published, True)))))"

definition recover_publication :: "(json \<Rightarrow> int) \<Rightarrow> json \<Rightarrow> (files, unit) io" where
  "recover_publication dump inventory =
     io_bind (read_json pool_file) (\<lambda>published.
     io_bind (io_lift (res_bind (py_idx inventory ''slots'') (\<lambda>slots.
        res_bind (require (is_obj slots) (AttributeError ''items'')) (\<lambda>_.
        res_fold publish_one (obj_items slots) (published, False))))) (\<lambda>(published', changed).
     if changed then atomic_json dump pool_file published' else io_return ()))"

fun first_pending :: "slots \<Rightarrow> string res" where
  "first_pending [] = Inl StopIteration"
| "first_pending ((name, rec) # rest) =
     res_bind (py_idx rec ''state'') (\<lambda>st.
     if st \<in> {JStr ''preparing'', JStr ''qualifying''} then Inr name else first_pending rest)"

text \<open>The slot of this round: a new one is written to the inventory before any work is done.\<close>

definition choose_slot :: "(json \<Rightarrow> int) \<Rightarrow> string \<Rightarrow> string \<Rightarrow> json \<Rightarrow> json \<Rightarrow> (files, string option) io" where
  "choose_slot dump hex stamp decision inventory =
     (if jget decision ''action'' = JStr ''provision'' then
        (let slot = ''cap-'' @ hex @ ''-01'';
             rec = JObj [(''state'', JStr ''preparing''), (''createdAt'', JStr stamp)] in
         io_bind (io_lift (slots_of inventory)) (\<lambda>_.
         io_bind (atomic_json dump inventory_file (put_slot slot rec inventory)) (\<lambda>_.
         io_return (Some slot))))
      else if jget decision ''action'' = JStr ''resume'' then
        io_bind (io_lift (res_bind (slots_of inventory) (\<lambda>s. first_pending (obj_items s)))) (\<lambda>slot.
        io_return (Some slot))
      else io_return None)"

definition qualified_record :: "json \<Rightarrow> json \<Rightarrow> string \<Rightarrow> json \<Rightarrow> json" where
  "qualified_record routes receipt stamp rec =
     jset ''qualifiedAt'' (JStr stamp) (jset ''qualification'' receipt
       (jset ''routes'' routes (jset ''state'' (JStr ''ready'') rec)))"

definition pair_passed :: "json \<Rightarrow> json \<Rightarrow> bool res" where
  "pair_passed routes receipt =
     res_bind (py_get receipt ''status'') (\<lambda>s.
     Inr (s = JStr ''passed'' \<and> is_obj routes \<and> set (jkeys routes) = {''secure'', ''internet''}))"

text \<open>The receipt is made durable in the inventory first, then the route is published.\<close>

definition record_receipt :: "(json \<Rightarrow> int) \<Rightarrow> string \<Rightarrow> string \<Rightarrow> json \<Rightarrow> json \<Rightarrow> (files, unit) io" where
  "record_receipt dump stamp slot routes receipt =
     io_bind (read_json inventory_file) (\<lambda>inventory.
     io_bind (io_lift (res_bind (slots_of inventory) (\<lambda>slots.
        res_bind (py_idx slots slot) (\<lambda>rec.
        res_bind (require (is_obj rec) (AttributeError ''update'')) (\<lambda>_. Inr rec))))) (\<lambda>rec.
     atomic_json dump inventory_file (put_slot slot (qualified_record routes receipt stamp rec) inventory)))"

definition publish_route :: "(json \<Rightarrow> int) \<Rightarrow> string \<Rightarrow> json \<Rightarrow> (files, unit) io" where
  "publish_route dump slot routes =
     io_bind (read_json pool_file) (\<lambda>published.
     io_bind (io_lift (slots_of published)) (\<lambda>slots.
     if jhas slots slot \<and> \<not> py_eq (jget slots slot) routes
     then io_raise (RuntimeError ''Refusing to replace a published private route'')
     else atomic_json dump pool_file (put_slot slot routes published)))"

definition finish_slot :: "(json \<Rightarrow> int) \<Rightarrow> worker \<Rightarrow> string \<Rightarrow> string \<Rightarrow> (files, json) io" where
  "finish_slot dump worker stamp slot =
     io_bind (io_lift (w_qualify worker slot)) (\<lambda>(routes, receipt).
     io_bind (io_lift (pair_passed routes receipt)) (\<lambda>ok.
     if \<not> ok then io_raise (RuntimeError ''New private pair failed qualification'')
     else
       io_bind (record_receipt dump stamp slot routes receipt) (\<lambda>_.
       io_bind (publish_route dump slot routes) (\<lambda>_.
       io_return receipt))))"

record outcome =
  o_decision :: json
  o_report :: "report option"
  o_published :: "(string \<times> json) option"

text \<open>The round after the recovery of a publication that a crash interrupted.\<close>

definition provision_round :: "(json \<Rightarrow> int) \<Rightarrow> worker \<Rightarrow> rat \<Rightarrow> string \<Rightarrow> string \<Rightarrow> json \<Rightarrow> json \<Rightarrow> json \<Rightarrow>
    (files, outcome) io" where
  "provision_round dump worker now stamp hex policy assignments inventory =
     io_bind (io_lift (w_resources worker)) (\<lambda>resources.
     io_bind (io_lift (plan policy assignments inventory resources now)) (\<lambda>decision.
     io_bind (io_lift (res_bind (py_get resources ''capacityInputs'') (\<lambda>inputs.
                 capacity_report inputs assignments inventory))) (\<lambda>rep.
     io_bind (choose_slot dump hex stamp decision inventory) (\<lambda>chosen.
     case chosen of
       None \<Rightarrow> io_return \<lparr> o_decision = decision, o_report = rep, o_published = None \<rparr>
     | Some slot \<Rightarrow>
         io_bind (finish_slot dump worker stamp slot) (\<lambda>receipt.
         io_return \<lparr> o_decision = jset ''action'' (JStr ''published'') decision, o_report = rep,
                     o_published = Some (slot, receipt) \<rparr>)))))"

definition reconcile :: "(json \<Rightarrow> int) \<Rightarrow> worker \<Rightarrow> rat \<Rightarrow> string \<Rightarrow> string \<Rightarrow> (files, outcome) io" where
  "reconcile dump worker now stamp hex =
     io_bind (read_json policy_file) (\<lambda>policy.
     io_bind (read_json assignments_file) (\<lambda>assignments.
     io_bind (read_json inventory_file) (\<lambda>inventory.
     io_bind (recover_publication dump inventory) (\<lambda>_.
     provision_round dump worker now stamp hex policy assignments inventory))))"

section \<open>Spares kept running\<close>

fun collect_spares :: "nat \<Rightarrow> json list \<Rightarrow> slots \<Rightarrow> string list \<Rightarrow> string list res" where
  "collect_spares count assigned [] names = Inr names"
| "collect_spares count assigned ((slot, routes) # rest) names =
     (if JStr slot \<in> set assigned then collect_spares count assigned rest names
      else
        res_bind (res_bind (py_idx routes ''secure'') (\<lambda>r. py_idx r ''host'')) (\<lambda>host.
        case host of
          JStr h \<Rightarrow>
            (let n = before_char CHR ''.'' h;
                 names' = (if runtime_name n \<and> endswith ''-secure'' n then names @ [n] else names) in
             if length names' = count then Inr names' else collect_spares count assigned rest names')
        | _ \<Rightarrow> Inl (AttributeError ''split'')))"

text \<open>Every exception of the reads and of the loop is caught: nothing is kept warm then.\<close>

definition warm_spares :: "int \<Rightarrow> files \<Rightarrow> string list" where
  "warm_spares count fs =
     (if count \<le> 0 then []
      else
        (case res_bind (fst (read_json pool_file fs)) slots_of of
           Inl _ \<Rightarrow> []
         | Inr pool \<Rightarrow>
             (case res_bind (res_bind (fst (read_json assignments_file fs))
                      (\<lambda>a. py_idx a ''assignedSlots'')) assigned_set of
                Inl _ \<Rightarrow> []
              | Inr assigned \<Rightarrow>
                  (case collect_spares (nat count) assigned (obj_items pool) [] of
                     Inl _ \<Rightarrow> [] | Inr names \<Rightarrow> names))))"

section \<open>One session round\<close>

text \<open>\<open>Worker.runtimes\<close>, on the objects the API server returns.\<close>

definition json_int :: "json \<Rightarrow> int" where
  "json_int v = (case v of JInt n \<Rightarrow> n | _ \<Rightarrow> 0)"

definition runtime_of :: "json \<Rightarrow> string \<times> runtime" where
  "runtime_of d = (text_of (jget (jget d ''metadata'') ''name''),
     \<lparr> replicas = (if jhas (jget d ''spec'') ''replicas'' then json_int (jget (jget d ''spec'') ''replicas'') else 1),
       ready_replicas = json_int (jget (jget d ''status'') ''readyReplicas'') \<rparr>)"

definition runtimes_of :: "json list \<Rightarrow> runtimes" where
  "runtimes_of deployments = filter (\<lambda>(n, r). runtime_name n) (map runtime_of deployments)"

definition worker_runtimes :: "'w server \<Rightarrow> string \<Rightarrow> ('w, runtimes) io" where
  "worker_runtimes send ns =
     io_bind (kube_call send ns ''GET'' ''Deployment'' None None None) (\<lambda>rep.
     io_lift (res_bind (py_idx rep ''items'') (\<lambda>ds. Inr (runtimes_of (items ds)))))"

text \<open>Runtimes of a pair that is still being prepared are taken out of the session decision;
  \<open>identity\<close> is the first sixteen digits of the SHA-256 of the slot name.\<close>

definition pair_names :: "(string \<Rightarrow> string) \<Rightarrow> string \<Rightarrow> string list" where
  "pair_names identity slot =
     [''dsh-u-'' @ identity slot @ ''-secure'', ''dsh-u-'' @ identity slot @ ''-internet'']"

fun unfinished_names :: "(string \<Rightarrow> string) \<Rightarrow> slots \<Rightarrow> string list res" where
  "unfinished_names identity [] = Inr []"
| "unfinished_names identity ((slot, rec) # rest) =
     res_bind (py_get rec ''state'') (\<lambda>st.
     res_bind (unfinished_names identity rest) (\<lambda>ns.
     Inr ((if st \<in> {JStr ''preparing'', JStr ''qualifying''} then pair_names identity slot else []) @ ns)))"

definition session_runtimes :: "string list \<Rightarrow> runtimes \<Rightarrow> runtimes" where
  "session_runtimes unfinished rts = filter (\<lambda>(n, r). n \<notin> set unfinished) rts"

fun scale_all :: "'w server \<Rightarrow> string \<Rightarrow> int \<Rightarrow> string list \<Rightarrow> ('w, unit) io" where
  "scale_all send ns n [] = io_return ()"
| "scale_all send ns n (name # rest) =
     io_bind (kube_scale send ns name n) (\<lambda>_. scale_all send ns n rest)"

definition starting_progress :: "'w server \<Rightarrow> string \<Rightarrow> string \<Rightarrow> ('w, progress) io" where
  "starting_progress send ns name w =
     (let fallback = \<lparr> stage = ''scheduling'', percent = 10, detail = ''Starting your workspace'' \<rparr> in
      case kube_call send ns ''GET'' ''Pod'' None None (Some (''app='' @ name)) w of
        (Inr rep, w') \<Rightarrow>
          (Inr (case py_idx rep ''items'' of Inr (JList pods) \<Rightarrow> pod_progress pods | _ \<Rightarrow> fallback), w')
      | (Inl _, w') \<Rightarrow> (Inr fallback, w'))"

fun add_progress :: "'w server \<Rightarrow> string \<Rightarrow> (string \<times> vstate) list \<Rightarrow>
    ('w, (string \<times> vstate \<times> progress option) list) io" where
  "add_progress send ns [] = io_return []"
| "add_progress send ns ((name, s) # rest) =
     io_bind (if vs_state s = ''waiting''
              then io_return (Some (show_stage ''queued'' ''Waiting for shared resources''))
              else if vs_state s = ''starting''
              then io_bind (starting_progress send ns name) (\<lambda>p. io_return (Some p))
              else io_return None) (\<lambda>p.
     io_bind (add_progress send ns rest) (\<lambda>shown.
     io_return ((name, s, p) # shown)))"

record session_report =
  sr_states :: "(string \<times> vstate \<times> progress option) list"
  sr_summary :: summary

definition apply_session :: "'w server \<Rightarrow> string \<Rightarrow> session_decision \<Rightarrow> ('w, session_report) io" where
  "apply_session send ns d =
     io_bind (scale_all send ns 0 (scaleDown d)) (\<lambda>_.
     io_bind (scale_all send ns 1 (scaleUp d)) (\<lambda>_.
     io_bind (add_progress send ns (sd_states d)) (\<lambda>shown.
     io_return \<lparr> sr_states = shown, sr_summary = sd_summary d \<rparr>)))"

text \<open>The inventory read: \<open>OSError\<close>, \<open>ValueError\<close> and \<open>KeyError\<close> end the round quietly (\<open>None\<close>); other
  exceptions leave \<open>sessions\<close>.\<close>

definition quiet :: "'a res \<Rightarrow> 'a option res" where
  "quiet r = (case r of
      Inr x \<Rightarrow> Inr (Some x)
    | Inl (OSError _) \<Rightarrow> Inr None
    | Inl (ValueError _) \<Rightarrow> Inr None
    | Inl (KeyError _) \<Rightarrow> Inr None
    | Inl e \<Rightarrow> Inl e)"

definition unfinished_pairs :: "(string \<Rightarrow> string) \<Rightarrow> files \<Rightarrow> string list option res" where
  "unfinished_pairs identity fs =
     quiet (res_bind (fst (read_json inventory_file fs)) (\<lambda>inventory.
            res_bind (py_idx inventory ''slots'') (\<lambda>slots.
            res_bind (require (is_obj slots) (AttributeError ''items'')) (\<lambda>_.
            unfinished_names identity (obj_items slots)))))"

definition session_demand :: "files \<Rightarrow> json" where
  "session_demand fs = (case fst (read_json demand_file fs) of Inr j \<Rightarrow> j | Inl _ \<Rightarrow> JObj [])"

definition sessions :: "'w server \<Rightarrow> string \<Rightarrow> (string \<Rightarrow> string) \<Rightarrow> json res \<Rightarrow> rat \<Rightarrow> json \<Rightarrow> int \<Rightarrow>
    files \<Rightarrow> ('w, session_report option) io" where
  "sessions send ns identity resources now idle_timeout warm_count fs =
     io_bind (worker_runtimes send ns) (\<lambda>rts.
     io_bind (io_lift (unfinished_pairs identity fs)) (\<lambda>unfinished.
     case unfinished of
       None \<Rightarrow> io_return None
     | Some names \<Rightarrow>
         io_bind (io_lift resources) (\<lambda>rs.
         io_bind (io_lift (session_plan (session_demand fs) (session_runtimes names rts) (runtime_units rs)
                    now idle_timeout (warm_spares warm_count fs))) (\<lambda>d.
         io_bind (apply_session send ns d) (\<lambda>rep. io_return (Some rep))))))"

section \<open>The loop of the controller\<close>

text \<open>One turn of \<open>main\<close>: the next delay after the reconciliation, and the pause.\<close>

definition next_delay :: "bool \<Rightarrow> int \<Rightarrow> int" where
  "next_delay reconciled delay = (if reconciled then 15 else min 300 (delay * 2))"

definition busy :: "session_report option res \<Rightarrow> bool" where
  "busy r = (case r of Inr (Some s) \<Rightarrow> sm_starting (sr_summary s) > 0 \<or> sm_waiting (sr_summary s) > 0 | _ \<Rightarrow> False)"

definition pause :: "session_report option res \<Rightarrow> int \<Rightarrow> int" where
  "pause r delay = (if busy r then 5 else delay)"

section \<open>What a step keeps\<close>

lemma read_json_keeps: "(\<And>fs. R fs fs) \<Longrightarrow> io_keeps R (read_json p)"
  by (simp add: io_keeps_def read_json_def split: option.split)

lemma read_json_same [simp]: "snd (read_json p fs) = fs"
  by (simp add: read_json_def split: option.split)

lemma read_json_value: "read_json p fs = (Inr j, fs') \<Longrightarrow> fs' = fs \<and> file_json fs p = j"
  by (auto simp: read_json_def file_json_def split: option.splits if_splits)

lemma atomic_json_file [simp]:
  "file_json (snd (atomic_json dump p v fs)) q = (if q = p then v else file_json fs q)"
  by (simp add: atomic_json_def file_json_def update_conv')

lemma file_names_distinct [simp]: "pool_file \<noteq> inventory_file" "inventory_file \<noteq> pool_file"
  by (simp_all add: pool_file_def inventory_file_def)

definition route_of :: "json \<Rightarrow> string \<Rightarrow> json option" where
  "route_of j n = (if jhas (jget j ''slots'') n then Some (jget (jget j ''slots'') n) else None)"

definition published_route :: "files \<Rightarrow> string \<Rightarrow> json option" where
  "published_route fs = route_of (file_json fs pool_file)"

definition inventory_record :: "files \<Rightarrow> string \<Rightarrow> json option" where
  "inventory_record fs = route_of (file_json fs inventory_file)"

lemma slots_of_Inr: "slots_of j = Inr s \<longleftrightarrow> is_obj j \<and> jhas j ''slots'' \<and> s = jget j ''slots'' \<and> is_obj s"
  by (auto simp: slots_of_def res_bind_Inr_iff py_access)

lemma route_of_put:
  "slots_of j = Inr s \<Longrightarrow> route_of (put_slot n v j) m = (if m = n then Some v else route_of j m)"
  by (auto simp: slots_of_Inr route_of_def put_slot_def)

text \<open>The relations: \<open>exact\<close> keeps every route and publishes only what the inventory qualifies;
  \<open>kept\<close> may also rewrite a route by an equal one and publish what the worker qualified.\<close>

definition ready_record :: "json \<Rightarrow> string \<Rightarrow> json \<Rightarrow> bool" where
  "ready_record inventory n r =
     (\<exists>rec. (n, rec) \<in> set (obj_items (jget inventory ''slots'')) \<and> receipt_passed rec = Inr True \<and>
            (jget rec ''routes'' = r \<or> py_eq (jget rec ''routes'') r))"

definition worker_passed :: "worker \<Rightarrow> string \<Rightarrow> json \<Rightarrow> bool" where
  "worker_passed w n r = (\<exists>receipt. w_qualify w n = Inr (r, receipt) \<and> pair_passed r receipt = Inr True)"

definition exact :: "json \<Rightarrow> files \<Rightarrow> files \<Rightarrow> bool" where
  "exact inventory fs fs' =
     (\<forall>n. (\<forall>r. published_route fs n = Some r \<longrightarrow> published_route fs' n = Some r) \<and>
          (\<forall>r. published_route fs n = None \<longrightarrow> published_route fs' n = Some r \<longrightarrow>
             (\<exists>rec. (n, rec) \<in> set (obj_items (jget inventory ''slots'')) \<and> receipt_passed rec = Inr True \<and>
                    jget rec ''routes'' = r)))"

definition kept :: "json \<Rightarrow> worker \<Rightarrow> files \<Rightarrow> files \<Rightarrow> bool" where
  "kept inventory w fs fs' =
     (\<forall>n. (\<forall>r. published_route fs n = Some r \<longrightarrow>
             (\<exists>r'. published_route fs' n = Some r' \<and> (r' = r \<or> py_eq r r'))) \<and>
          (\<forall>r. published_route fs n = None \<longrightarrow> published_route fs' n = Some r \<longrightarrow>
             ready_record inventory n r \<or> worker_passed w n r))"

lemma exact_kept: "exact inventory a b \<Longrightarrow> kept inventory w a b"
  unfolding exact_def kept_def ready_record_def by blast

lemma exact_same: "published_route b = published_route a \<Longrightarrow> exact inventory a b"
  by (simp add: exact_def)

lemma exact_then_kept:
  assumes ab: "exact inventory a b" and bc: "kept inventory w b c"
  shows "kept inventory w a c"
  unfolding kept_def
proof (intro allI conjI impI)
  fix n r assume "published_route a n = Some r"
  with ab have "published_route b n = Some r" unfolding exact_def by blast
  with bc show "\<exists>r'. published_route c n = Some r' \<and> (r' = r \<or> py_eq r r')" unfolding kept_def by blast
next
  fix n r assume none: "published_route a n = None" and c: "published_route c n = Some r"
  show "ready_record inventory n r \<or> worker_passed w n r"
  proof (cases "published_route b n")
    case None
    with bc c show ?thesis unfolding kept_def by blast
  next
    case (Some r1)
    with bc c have "r = r1 \<or> py_eq r1 r" unfolding kept_def by force
    with ab none Some show ?thesis unfolding exact_def ready_record_def by blast
  qed
qed

lemma publish_one_exact:
  assumes "publish_one (name, rec) (pub, ch) = Inr (pub', ch')"
  shows "(pub' = pub \<and> ch' = ch) \<or>
    (ch' \<and> route_of pub name = None \<and> receipt_passed rec = Inr True \<and>
     (\<forall>n. route_of pub' n = (if n = name then Some (jget rec ''routes'') else route_of pub n)))"
  using assms
  by (auto simp: publish_one_def res_bind_Inr_iff py_access put_slot_def route_of_def slots_of_Inr
      split: if_splits)

lemma publish_fold:
  assumes "res_fold publish_one recs (pub, ch) = Inr (pub', ch')"
  shows "(\<forall>n r. route_of pub n = Some r \<longrightarrow> route_of pub' n = Some r) \<and>
    (\<forall>n r. route_of pub n = None \<longrightarrow> route_of pub' n = Some r \<longrightarrow>
       (\<exists>rec. (n, rec) \<in> set recs \<and> receipt_passed rec = Inr True \<and> jget rec ''routes'' = r)) \<and>
    (\<not> ch' \<longrightarrow> pub' = pub \<and> \<not> ch)"
  using assms
proof (induction recs arbitrary: pub ch)
  case Nil
  then show ?case by simp
next
  case (Cons x recs)
  obtain name rec where x: "x = (name, rec)" by (cases x)
  from Cons.prems obtain pub1 ch1 where s: "publish_one (name, rec) (pub, ch) = Inr (pub1, ch1)"
    and rest: "res_fold publish_one recs (pub1, ch1) = Inr (pub', ch')"
    by (auto simp: x split: sum.splits)
  note IH = Cons.IH [OF rest]
  from publish_one_exact [OF s] show ?case
  proof
    assume "pub1 = pub \<and> ch1 = ch"
    with IH show ?thesis unfolding x list.set by blast
  next
    assume new: "ch1 \<and> route_of pub name = None \<and> receipt_passed rec = Inr True \<and>
      (\<forall>n. route_of pub1 n = (if n = name then Some (jget rec ''routes'') else route_of pub n))"
    have "route_of pub' n = Some r" if "route_of pub n = Some r" for n r
      using IH new that by (cases "n = name") auto
    moreover have "\<exists>rec. (n, rec) \<in> set (x # recs) \<and> receipt_passed rec = Inr True \<and> jget rec ''routes'' = r"
      if "route_of pub n = None" "route_of pub' n = Some r" for n r
    proof (cases "n = name")
      case True
      with IH new that have "jget rec ''routes'' = r" by force
      with new True show ?thesis unfolding x by auto
    next
      case False
      with IH new that have "\<exists>rec. (n, rec) \<in> set recs \<and> receipt_passed rec = Inr True \<and> jget rec ''routes'' = r"
        by auto
      then show ?thesis unfolding list.set by blast
    qed
    ultimately show ?thesis using IH new by blast
  qed
qed

lemma recover_exact: "io_keeps (exact inventory) (recover_publication dump inventory)"
  unfolding io_keeps_def
proof
  fix fs
  obtain r fs' where run: "recover_publication dump inventory fs = (r, fs')"
    by (cases "recover_publication dump inventory fs")
  show "exact inventory fs (snd (recover_publication dump inventory fs))"
    using run [unfolded recover_publication_def]
  proof (cases rule: io_bindE)
    case (1 e)
    then have "fs' = fs" by (auto simp: read_json_def split: option.splits if_splits)
    with run show ?thesis by (simp add: exact_same)
  next
    case (2 pub fs1)
    then have pub: "fs1 = fs" "route_of pub = published_route fs"
      using read_json_value [of pool_file fs pub fs1] by (simp_all add: published_route_def)
    show ?thesis
    proof (cases "res_fold publish_one (obj_items (jget inventory ''slots'')) (pub, False)")
      case (Inl e)
      then have "fs' = fs" using 2(2) pub(1)
        by (auto simp: res_bind_def py_access split: sum.splits if_splits)
      with run show ?thesis by (simp add: exact_same)
    next
      case (Inr pc)
      obtain pub' ch where pc: "pc = (pub', ch)" by (cases pc)
      from 2(2) pub(1) Inr pc have "fs' = fs \<or> ch \<and> fs' = snd (atomic_json dump pool_file pub' fs)"
        by (auto simp: res_bind_def py_access split: sum.splits if_splits)
      then have "published_route fs' = published_route fs \<or> published_route fs' = route_of pub'"
        by (auto simp: published_route_def)
      then show ?thesis
        using publish_fold [OF Inr [unfolded pc]] pub(2) run
        unfolding exact_def by auto
    qed
  qed
qed

text \<open>Steps that leave the pool file alone.\<close>

definition pool_same :: "files \<Rightarrow> files \<Rightarrow> bool" where
  "pool_same fs fs' = (published_route fs' = published_route fs)"

lemma pool_same_bind:
  "io_keeps pool_same m \<Longrightarrow> (\<And>x. io_keeps pool_same (f x)) \<Longrightarrow> io_keeps pool_same (io_bind m f)"
  unfolding io_keeps_def pool_same_def io_bind_def
  by (auto split: prod.split sum.split) (metis snd_conv)+

lemma pool_same_steps:
  "io_keeps pool_same (read_json p)" "io_keeps pool_same (io_return x)" "io_keeps pool_same (io_raise e)"
  "io_keeps pool_same (io_lift r)" "io_keeps pool_same (atomic_json dump inventory_file v)"
  by (simp_all add: read_json_keeps pool_same_def io_keeps_pure) (simp add: io_keeps_def pool_same_def published_route_def)

lemma choose_slot_pool: "io_keeps pool_same (choose_slot dump hex stamp decision inventory)"
  by (auto simp: choose_slot_def Let_def intro!: pool_same_bind pool_same_steps)

lemma record_receipt_pool: "io_keeps pool_same (record_receipt dump stamp slot routes receipt)"
  by (auto simp: record_receipt_def intro!: pool_same_bind pool_same_steps)

lemma publish_route_kept:
  assumes "w_qualify worker slot = Inr (routes, receipt)" "pair_passed routes receipt = Inr True"
  shows "io_keeps (kept inventory worker) (publish_route dump slot routes)"
  unfolding io_keeps_def
proof
  fix fs
  have same: "kept inventory worker fs fs" by (rule exact_kept [OF exact_same [OF refl]])
  consider e where "read_json pool_file fs = (Inl e, fs)"
    | pub where "read_json pool_file fs = (Inr pub, fs)" "file_json fs pool_file = pub"
    by (cases "read_json pool_file fs") (auto simp: read_json_def file_json_def split: option.splits if_splits)
  then show "kept inventory worker fs (snd (publish_route dump slot routes fs))"
  proof cases
    case 1
    with same show ?thesis by (simp add: publish_route_def)
  next
    case (2 pub)
    show ?thesis
    proof (cases "slots_of pub")
      case (Inl e)
      with 2 same show ?thesis by (simp add: publish_route_def)
    next
      case (Inr slots)
      show ?thesis
      proof (cases "jhas slots slot \<and> \<not> py_eq (jget slots slot) routes")
        case True
        with 2 Inr same show ?thesis by (simp add: publish_route_def)
      next
        case False
        then have fs': "published_route (snd (publish_route dump slot routes fs)) n =
            (if n = slot then Some routes else published_route fs n)" for n
          using 2 Inr by (auto simp: publish_route_def published_route_def route_of_put [OF Inr])
        have "slots = jget pub ''slots''" using Inr by (simp add: slots_of_Inr)
        with False have old: "py_eq r routes" if "published_route fs slot = Some r" for r
          using that 2(2) by (auto simp: published_route_def route_of_def split: if_splits)
        show ?thesis
          unfolding kept_def fs' using old assms by (auto simp: worker_passed_def)
      qed
    qed
  qed
qed

lemma finish_slot_kept: "io_keeps (kept inventory worker) (finish_slot dump worker stamp slot)"
  unfolding io_keeps_def
proof
  fix fs
  have same: "kept inventory worker a b" if "pool_same a b" for a b
    using that by (auto simp: pool_same_def intro: exact_kept exact_same)
  show "kept inventory worker fs (snd (finish_slot dump worker stamp slot fs))"
  proof (cases "\<exists>routes receipt. w_qualify worker slot = Inr (routes, receipt) \<and> pair_passed routes receipt = Inr True")
    case True
    then obtain routes receipt where q: "w_qualify worker slot = Inr (routes, receipt)"
      "pair_passed routes receipt = Inr True" by blast
    have "io_keeps (kept inventory worker) (io_bind (publish_route dump slot routes) (\<lambda>_. io_return receipt))"
      using publish_route_kept [OF q] by (auto simp: io_keeps_def io_bind_def split: prod.splits sum.splits) (metis snd_conv)+
    then have "io_keeps (kept inventory worker) (io_bind (record_receipt dump stamp slot routes receipt)
        (\<lambda>_. io_bind (publish_route dump slot routes) (\<lambda>_. io_return receipt)))"
      by (rule io_keeps_bind [OF record_receipt_pool])
        (auto simp: pool_same_def intro: same exact_then_kept exact_same)
    then show ?thesis using q by (simp add: finish_slot_def io_keeps_def)
  next
    case False
    then have "snd (finish_slot dump worker stamp slot fs) = fs"
      by (auto simp: finish_slot_def split: sum.splits prod.splits if_splits)
    then show ?thesis by (simp add: same pool_same_def)
  qed
qed

lemma kept_return:
  "io_keeps (kept inventory worker) m \<Longrightarrow> io_keeps (kept inventory worker) (io_bind m (\<lambda>x. io_return (g x)))"
  unfolding io_keeps_def io_bind_def by (auto split: prod.split sum.split) (metis snd_conv)+

lemma same_kept_bind:
  "io_keeps pool_same m \<Longrightarrow> (\<And>x. io_keeps (kept inventory worker) (f x)) \<Longrightarrow>
   io_keeps (kept inventory worker) (io_bind m f)"
  by (rule io_keeps_bind [where R = pool_same])
     (auto simp: pool_same_def intro: exact_then_kept exact_kept exact_same)

lemma provision_round_kept:
  "io_keeps (kept inventory worker) (provision_round dump worker now stamp hex policy assignments inventory)"
proof -
  have same: "kept inventory worker w w" for w by (rule exact_kept [OF exact_same [OF refl]])
  show ?thesis
    unfolding provision_round_def
    by (intro same_kept_bind pool_same_steps choose_slot_pool)
      (auto split: option.split intro!: kept_return finish_slot_kept io_keeps_pure same)
qed

section \<open>The inventory only grows\<close>

definition names_kept :: "files \<Rightarrow> files \<Rightarrow> bool" where
  "names_kept fs fs' = (\<forall>n. inventory_record fs n \<noteq> None \<longrightarrow> inventory_record fs' n \<noteq> None)"

lemma names_kept_refl: "names_kept fs fs" and names_kept_trans: "names_kept a b \<Longrightarrow> names_kept b c \<Longrightarrow> names_kept a c"
  by (auto simp: names_kept_def)

lemma names_kept_bind:
  "io_keeps names_kept m \<Longrightarrow> (\<And>x. io_keeps names_kept (f x)) \<Longrightarrow> io_keeps names_kept (io_bind m f)"
  by (rule io_keeps_bind) (auto intro: names_kept_trans)

lemma names_kept_steps:
  "io_keeps names_kept (read_json p)" "io_keeps names_kept (io_return x)" "io_keeps names_kept (io_raise e)"
  "io_keeps names_kept (io_lift r)" "io_keeps names_kept (atomic_json dump pool_file v)"
  by (simp_all add: read_json_keeps names_kept_refl io_keeps_pure)
     (simp add: io_keeps_def names_kept_def inventory_record_def)

lemma put_slot_names:
  assumes "slots_of (file_json fs inventory_file) = Inr s"
  shows "names_kept fs (snd (atomic_json dump inventory_file (put_slot n v (file_json fs inventory_file)) fs))"
  using route_of_put [OF assms] by (simp add: names_kept_def inventory_record_def)

lemma choose_slot_names:
  assumes "file_json fs inventory_file = inventory"
  shows "names_kept fs (snd (choose_slot dump hex stamp decision inventory fs))"
  using put_slot_names [of fs] assms
  by (auto simp: choose_slot_def Let_def names_kept_refl atomic_json_def io_bind_def split: sum.split)

lemma record_receipt_names: "io_keeps names_kept (record_receipt dump stamp slot routes receipt)"
  unfolding io_keeps_def
proof
  fix fs
  consider e where "read_json inventory_file fs = (Inl e, fs)"
    | inv where "read_json inventory_file fs = (Inr inv, fs)" "file_json fs inventory_file = inv"
    by (cases "read_json inventory_file fs") (auto simp: read_json_def file_json_def split: option.splits if_splits)
  then show "names_kept fs (snd (record_receipt dump stamp slot routes receipt fs))"
  proof cases
    case 1
    then show ?thesis by (simp add: record_receipt_def names_kept_refl)
  next
    case (2 inv)
    then show ?thesis
      using put_slot_names [of fs _ dump slot] names_kept_refl [of fs]
      by (auto simp: record_receipt_def res_bind_def split: sum.split)
  qed
qed

lemma finish_slot_names: "io_keeps names_kept (finish_slot dump worker stamp slot)"
  unfolding finish_slot_def publish_route_def
  by (auto intro!: names_kept_bind names_kept_steps record_receipt_names split: prod.split)

definition inv_same :: "files \<Rightarrow> files \<Rightarrow> bool" where
  "inv_same fs fs' = (file_json fs' inventory_file = file_json fs inventory_file)"

lemma recover_inv: "io_keeps inv_same (recover_publication dump inventory)"
proof -
  have bind: "io_keeps inv_same m \<Longrightarrow> (\<And>x. io_keeps inv_same (f x)) \<Longrightarrow> io_keeps inv_same (io_bind m f)" for m f
    unfolding io_keeps_def inv_same_def io_bind_def by (auto split: prod.split sum.split) (metis snd_conv)+
  have steps: "io_keeps inv_same (read_json p)" "io_keeps inv_same (io_return x)" "io_keeps inv_same (io_lift r)"
    "io_keeps inv_same (atomic_json dump pool_file v)" for p x r v
    by (simp_all add: read_json_keeps inv_same_def io_keeps_pure) (simp add: io_keeps_def inv_same_def)
  show ?thesis
    unfolding recover_publication_def by (auto intro!: bind steps split: prod.split)
qed

lemma provision_round_names:
  assumes "file_json fs inventory_file = inventory"
  shows "names_kept fs (snd (provision_round dump worker now stamp hex policy assignments inventory fs))"
proof -
  have fin: "names_kept fs1 (snd ((case chosen of
       None \<Rightarrow> io_return \<lparr> o_decision = decision, o_report = rep, o_published = None \<rparr>
     | Some slot \<Rightarrow>
         io_bind (finish_slot dump worker stamp slot) (\<lambda>receipt.
         io_return \<lparr> o_decision = jset ''action'' (JStr ''published'') decision, o_report = rep,
                     o_published = Some (slot, receipt) \<rparr>)) fs1))" for chosen decision rep fs1
  proof (cases chosen)
    case None
    then show ?thesis by (simp add: names_kept_refl)
  next
    case (Some slot)
    have "io_keeps names_kept (io_bind (finish_slot dump worker stamp slot) (\<lambda>receipt.
         io_return \<lparr> o_decision = jset ''action'' (JStr ''published'') decision, o_report = rep,
                     o_published = Some (slot, receipt) \<rparr>))"
      by (rule names_kept_bind [OF finish_slot_names names_kept_steps(2)])
    with Some show ?thesis by (simp add: io_keeps_def)
  qed
  have lift: "names_kept fs (snd (io_bind (io_lift q) f fs))" if "\<And>x. names_kept fs (snd (f x fs))" for q f
    using that by (simp add: names_kept_refl split: sum.split)
  have chosen: "names_kept fs (snd (io_bind (choose_slot dump hex stamp d inventory) f fs))"
    if "\<And>x w. names_kept w (snd (f x w))" for d f
  proof -
    obtain q fs1 where c: "choose_slot dump hex stamp d inventory fs = (q, fs1)" by fastforce
    then have "names_kept fs fs1" using choose_slot_names [OF assms, of dump hex stamp d] by simp
    with c that show ?thesis by (cases q) (auto intro: names_kept_trans)
  qed
  show ?thesis
    unfolding provision_round_def by (intro lift chosen fin)
qed

section \<open>Spares and sessions\<close>

definition spare_name :: "slots \<Rightarrow> json list \<Rightarrow> string \<Rightarrow> bool" where
  "spare_name pool assigned n = (runtime_name n \<and> endswith ''-secure'' n \<and>
     (\<exists>slot routes h. (slot, routes) \<in> set pool \<and> JStr slot \<notin> set assigned \<and>
        jget (jget routes ''secure'') ''host'' = JStr h \<and> n = before_char CHR ''.'' h))"

lemma collect_spares_bound:
  "collect_spares count assigned pool names = Inr ns \<Longrightarrow> length names < count \<Longrightarrow>
   length ns \<le> count \<and> (\<forall>n \<in> set ns. n \<in> set names \<or> spare_name pool assigned n)"
proof (induction count assigned pool names rule: collect_spares.induct)
  case (1 count assigned names)
  then show ?case by simp
next
  case (2 count assigned slot routes rest names)
  have mono: "spare_name rest assigned n \<Longrightarrow> spare_name ((slot, routes) # rest) assigned n" for n
    unfolding spare_name_def by auto
  show ?case
  proof (cases "JStr slot \<in> set assigned")
    case True
    with 2 mono show ?thesis by auto
  next
    case False
    from 2(3) False obtain h where h: "jget (jget routes ''secure'') ''host'' = JStr h"
      by (auto simp: res_bind_Inr_iff py_access split: json.splits)
    let ?n = "before_char CHR ''.'' h"
    let ?names = "if runtime_name ?n \<and> endswith ''-secure'' ?n then names @ [?n] else names"
    have new: "\<forall>n \<in> set ?names. n \<in> set names \<or> spare_name ((slot, routes) # rest) assigned n"
      using False h by (auto simp: spare_name_def)
    have host: "res_bind (py_idx routes ''secure'') (\<lambda>r. py_idx r ''host'') = Inr (JStr h)"
      using 2(3) False h by (auto simp: res_bind_Inr_iff py_access split: json.splits)
    show ?thesis
    proof (cases "length ?names = count")
      case True
      with 2(3) False host have "ns = ?names" by (simp add: Let_def)
      with True new show ?thesis by auto
    next
      case wait: False
      then have "length ?names < count" using 2(4) by (auto split: if_splits)
      moreover have "collect_spares count assigned rest ?names = Inr ns"
        using 2(3) False host wait by (simp add: Let_def)
      ultimately have "length ns \<le> count \<and> (\<forall>n \<in> set ns. n \<in> set ?names \<or> spare_name rest assigned n)"
        using 2(2) [OF False, of ?n h ?names] wait by simp
      then show ?thesis using new mono by blast
    qed
  qed
qed

text \<open>\<open>sends P\<close>: every request added to the log satisfies \<open>P\<close>.\<close>

definition sends :: "(request \<Rightarrow> bool) \<Rightarrow> request list \<times> 'w \<Rightarrow> request list \<times> 'w \<Rightarrow> bool" where
  "sends P a b = (\<exists>ds. fst b = fst a @ ds \<and> (\<forall>q \<in> set ds. P q))"

lemma sends_refl: "sends P a a"
  by (simp add: sends_def)

lemma sends_trans: "sends P a b \<Longrightarrow> sends P b c \<Longrightarrow> sends P a c"
  by (force simp: sends_def)

lemma sends_bind:
  "io_keeps (sends P) m \<Longrightarrow> (\<And>x. io_keeps (sends P) (f x)) \<Longrightarrow> io_keeps (sends P) (io_bind m f)"
  by (rule io_keeps_bind) (auto intro: sends_trans)

lemmas sends_pure = io_keeps_pure [of "sends P" for P, OF sends_refl]

lemma logged_sends: "P req \<Longrightarrow> sends P lw (snd (logged send req lw))"
  by (auto simp: sends_def logged_def split: prod.split)

lemma kube_call_sends:
  assumes "\<And>url. P \<lparr> verb = meth, path = url, media = json_media, body = bdy \<rparr>"
  shows "io_keeps (sends P) (kube_call (logged send) ns meth kind name bdy selector)"
  unfolding io_keeps_def
proof
  fix w
  show "sends P w (snd (kube_call (logged send) ns meth kind name bdy selector w))"
    using logged_sends [where P = P and send = send and lw = w, OF assms] sends_refl [of P w]
    by (auto simp: kube_call_def split: sum.split prod.split reply.split) (metis snd_conv)+
qed

lemma kube_scale_sends:
  assumes "P (scale_request ns name n)"
  shows "io_keeps (sends P) (kube_scale (logged send) ns name n)"
  unfolding io_keeps_def
proof
  fix w
  show "sends P w (snd (kube_scale (logged send) ns name n w))"
    using logged_sends [where P = P and send = send and lw = w, OF assms] sends_refl [of P w]
    by (auto simp: kube_scale_def split: prod.split reply.split)
qed

lemma scale_all_sends:
  "(\<And>name. name \<in> set names \<Longrightarrow> P (scale_request ns name n)) \<Longrightarrow>
   io_keeps (sends P) (scale_all (logged send) ns n names)"
proof (induction names)
  case Nil
  show ?case unfolding scale_all.simps by (rule sends_pure)
next
  case (Cons name names)
  show ?case unfolding scale_all.simps
    by (intro sends_bind kube_scale_sends Cons) simp_all
qed

lemma io_bind_lift_Inr: "io_bind (io_lift (Inr x)) f = f x"
  and io_bind_lift_Inl: "io_bind (io_lift (Inl e)) f = io_raise e"
  by (rule ext, simp)+

definition session_request :: "string \<Rightarrow> string set \<Rightarrow> request \<Rightarrow> bool" where
  "session_request ns names q = (verb q = ''GET'' \<or> (\<exists>name \<in> names. \<exists>n \<in> {0, 1}. q = scale_request ns name n))"

lemma starting_progress_sends:
  "io_keeps (sends (session_request ns names)) (starting_progress (logged send) ns name)"
  unfolding io_keeps_def
proof
  fix w
  have k: "io_keeps (sends (session_request ns names)) (kube_call (logged send) ns ''GET'' ''Pod'' None None (Some (''app='' @ name)))"
    by (rule kube_call_sends) (simp add: session_request_def)
  obtain q w' where c: "kube_call (logged send) ns ''GET'' ''Pod'' None None (Some (''app='' @ name)) w = (q, w')"
    by (rule prod.exhaust)
  have "sends (session_request ns names) w w'" by (rule io_keepsD [OF k c])
  then show "sends (session_request ns names) w (snd (starting_progress (logged send) ns name w))"
    unfolding starting_progress_def c Let_def by (cases q) auto
qed

lemma add_progress_sends: "io_keeps (sends (session_request ns names)) (add_progress (logged send) ns states)"
proof (induction states)
  case Nil
  show ?case unfolding add_progress.simps by (rule sends_pure)
next
  case (Cons x states)
  obtain name s where x: "x = (name, s)" by (cases x)
  show ?case
    unfolding x add_progress.simps
    by (intro sends_bind Cons.IH sends_pure) (auto intro!: sends_bind sends_pure starting_progress_sends)
qed

lemma worker_runtimes_sends: "io_keeps (sends (session_request ns names)) (worker_runtimes (logged send) ns)"
  unfolding worker_runtimes_def
  by (intro sends_bind sends_pure kube_call_sends) (simp add: session_request_def)

lemma apply_session_sends:
  assumes "set (scaleDown d) \<union> set (scaleUp d) \<subseteq> names"
  shows "io_keeps (sends (session_request ns names)) (apply_session (logged send) ns d)"
  unfolding apply_session_def
  by (intro sends_bind sends_pure scale_all_sends add_progress_sends)
     (use assms in \<open>auto simp: session_request_def\<close>)

lemma session_plan_names:
  assumes "session_plan demand rts units now idle_timeout keep_warm = Inr d"
  shows "set (scaleDown d) \<union> set (scaleUp d) \<subseteq> fst ` set rts"
  using assms
proof (cases rule: session_plan_parts)
  case (1 idle wanted fresh warm)
  have "set (scaleDown d) \<subseteq> fst ` set rts" unfolding 1(8) by auto
  moreover have "set (scaleUp d) \<subseteq> fst ` set rts"
  proof -
    have "snd ` set (start_queue rts wanted) \<subseteq> fst ` set rts"
      using start_queue_keys [of rts wanted] read_demand_known [OF 1(5)] by blast
    moreover have "set warm \<subseteq> fst ` set rts" using warm_names_known(1) 1(6) by simp
    ultimately show ?thesis
      unfolding 1(7) plan_round_starts by (auto dest!: in_set_takeD)
  qed
  ultimately show ?thesis by blast
qed

lemma session_runtimes_names: "fst ` set (session_runtimes unfinished rts) \<subseteq> - set unfinished"
  by (auto simp: session_runtimes_def)

definition scalable :: "(string \<Rightarrow> string) \<Rightarrow> files \<Rightarrow> string set" where
  "scalable identity fs =
     {name. \<exists>names. unfinished_pairs identity fs = Inr (Some names) \<and> name \<notin> set names}"

section \<open>Properties\<close>

text \<open>C32: A reconciliation round, however it ends, never loses a slot of the inventory and never
  withdraws or replaces a published private route (it may only rewrite it by an equal one); a
  route it publishes is one the inventory holds with a passed receipt or one the worker just
  qualified with a passed receipt and exactly the two environments.\<close>

theorem reconcile_only_adds:
  assumes "reconcile dump worker now stamp hex fs = (r, fs')"
  shows "(\<forall>n. inventory_record fs n \<noteq> None \<longrightarrow> inventory_record fs' n \<noteq> None) \<and>
    (\<forall>n route. published_route fs n = Some route \<longrightarrow>
       (\<exists>route'. published_route fs' n = Some route' \<and> (route' = route \<or> py_eq route route'))) \<and>
    (\<forall>n route. published_route fs n = None \<longrightarrow> published_route fs' n = Some route \<longrightarrow>
       ready_record (file_json fs inventory_file) n route \<or> worker_passed worker n route)"
proof -
  let ?inv = "file_json fs inventory_file"
  have "names_kept fs fs' \<and> kept ?inv worker fs fs'"
  proof (cases "\<exists>p a i. fst (read_json policy_file fs) = Inr p \<and> fst (read_json assignments_file fs) = Inr a \<and>
      fst (read_json inventory_file fs) = Inr i")
    case False
    then have "fs' = fs"
      using assms by (auto simp: reconcile_def read_json_def io_bind_def split: option.splits if_splits)
    then show ?thesis by (simp add: names_kept_refl exact_kept [OF exact_same])
  next
    case True
    then obtain p a i where reads: "read_json policy_file fs = (Inr p, fs)"
      "read_json assignments_file fs = (Inr a, fs)" "read_json inventory_file fs = (Inr i, fs)"
      using read_json_same [of _ fs] by (metis prod.collapse)
    then have i: "i = ?inv" using read_json_value by metis
    obtain rr fs1 where rec: "recover_publication dump i fs = (rr, fs1)"
      by (cases "recover_publication dump i fs")
    have ex: "exact ?inv fs fs1" and same: "inv_same fs fs1"
      using rec recover_exact [of i dump] recover_inv [of dump i] i by (auto dest: io_keepsD)
    have nk: "names_kept fs fs1" using same by (simp add: inv_same_def names_kept_def inventory_record_def)
    from reads rec assms have "fs' = fs1 \<or>
        (r, fs') = provision_round dump worker now stamp hex p a i fs1"
      by (auto simp: reconcile_def split: sum.splits) (cases rr; simp)
    then show ?thesis
    proof
      assume "fs' = fs1"
      with nk ex show ?thesis by (simp add: exact_kept)
    next
      assume fin: "(r, fs') = provision_round dump worker now stamp hex p a i fs1"
      have "names_kept fs1 fs'"
        using provision_round_names [of fs1 i dump worker now stamp hex p a] same i fin
        by (simp add: inv_same_def) (metis snd_conv)
      moreover have "kept ?inv worker fs1 fs'"
        using provision_round_kept [of i worker dump now stamp hex p a] fin i by (metis io_keepsD)
      ultimately show ?thesis using nk ex by (meson names_kept_trans exact_then_kept)
    qed
  qed
  then show ?thesis unfolding names_kept_def kept_def by blast
qed

text \<open>The spares kept running are at most the configured number, and each is the secure runtime
  of a published slot that no account holds.\<close>

theorem warm_spares_are_unassigned:
  assumes "n \<in> set (warm_spares count fs)"
  shows "int (length (warm_spares count fs)) \<le> count \<and> runtime_name n \<and> endswith ''-secure'' n \<and>
    (\<exists>slot routes h assigned. (slot, routes) \<in> set (obj_items (jget (file_json fs pool_file) ''slots'')) \<and>
       assigned_set (jget (file_json fs assignments_file) ''assignedSlots'') = Inr assigned \<and>
       JStr slot \<notin> set assigned \<and> jget (jget routes ''secure'') ''host'' = JStr h \<and>
       n = before_char CHR ''.'' h)"
proof -
  from assms obtain pj pool aj assigned names where
    "0 < count" "read_json pool_file fs = (Inr pj, fs)" "slots_of pj = Inr pool"
    "read_json assignments_file fs = (Inr aj, fs)" "assigned_set (jget aj ''assignedSlots'') = Inr assigned"
    "collect_spares (nat count) assigned (obj_items pool) [] = Inr names" "warm_spares count fs = names"
  proof -
    let ?pool = "res_bind (fst (read_json pool_file fs)) slots_of"
    let ?assigned = "res_bind (res_bind (fst (read_json assignments_file fs))
        (\<lambda>a. py_idx a ''assignedSlots'')) assigned_set"
    from assms obtain pool assigned names where w: "0 < count" "?pool = Inr pool" "?assigned = Inr assigned"
      "collect_spares (nat count) assigned (obj_items pool) [] = Inr names" "warm_spares count fs = names"
      by (auto simp: warm_spares_def split: sum.splits if_splits)
    from w(2) obtain pj where p: "fst (read_json pool_file fs) = Inr pj" "slots_of pj = Inr pool"
      by (auto simp: res_bind_Inr_iff)
    from w(3) obtain aj where a: "fst (read_json assignments_file fs) = Inr aj"
        "assigned_set (jget aj ''assignedSlots'') = Inr assigned"
      by (auto simp: res_bind_Inr_iff py_access)
    show thesis by (rule that [OF w(1) _ p(2) _ a(2) w(4,5)]) (simp_all add: prod_eq_iff p(1) a(1))
  qed
  note f = this
  have pool: "pool = jget (file_json fs pool_file) ''slots''" and a: "aj = file_json fs assignments_file"
    using f(3) read_json_value [OF f(2)] read_json_value [OF f(4)] by (simp_all add: slots_of_Inr)
  have "length names \<le> nat count \<and> spare_name (obj_items pool) assigned n"
    using collect_spares_bound [OF f(6)] f(1,7) assms by auto
  then show ?thesis
    using f(1,5,7) unfolding spare_name_def pool a by auto
qed

text \<open>A session round only reads and scales: besides GET requests it sends nothing but scale
  requests to zero or one replica, never for a runtime of a pair that is still being prepared or
  qualified, and none at all when the inventory cannot be read.\<close>

theorem sessions_only_scale:
  assumes "sessions (logged send) ns identity resources now idle_timeout warm_count fs (l, w) = (r, (l', w'))"
  shows "\<exists>ds. l' = l @ ds \<and> (\<forall>q \<in> set ds. session_request ns (scalable identity fs) q)"
proof -
  let ?R = "sends (session_request ns (scalable identity fs))"
  have round: "io_keeps ?R (io_bind (io_lift (session_plan
         demand (session_runtimes names rts) units now idle_timeout warm)) (\<lambda>d.
         io_bind (apply_session (logged send) ns d) (\<lambda>rep. io_return (Some rep))))"
    if "unfinished_pairs identity fs = Inr (Some names)" for names rts demand units warm
  proof (cases "session_plan demand (session_runtimes names rts) units now idle_timeout warm")
    case (Inl e)
    show ?thesis unfolding Inl io_bind_lift_Inl by (rule sends_pure)
  next
    case (Inr d)
    have "set (scaleDown d) \<union> set (scaleUp d) \<subseteq> scalable identity fs"
      using session_plan_names [OF Inr] session_runtimes_names [of names rts] that
      unfolding scalable_def by blast
    then show ?thesis unfolding Inr io_bind_lift_Inr
      by (intro sends_bind apply_session_sends sends_pure)
  qed
  have "io_keeps ?R (sessions (logged send) ns identity resources now idle_timeout warm_count fs)"
    unfolding sessions_def
  proof (rule sends_bind [OF worker_runtimes_sends])
    fix rts
    let ?rest = "\<lambda>unfinished. case unfinished of
       None \<Rightarrow> io_return None
     | Some names \<Rightarrow>
         io_bind (io_lift resources) (\<lambda>rs.
         io_bind (io_lift (session_plan (session_demand fs) (session_runtimes names rts) (runtime_units rs)
                    now idle_timeout (warm_spares warm_count fs))) (\<lambda>d.
         io_bind (apply_session (logged send) ns d) (\<lambda>rep. io_return (Some rep))))"
    show "io_keeps ?R (io_bind (io_lift (unfinished_pairs identity fs)) ?rest)"
    proof (cases "unfinished_pairs identity fs")
      case (Inl e)
      show ?thesis unfolding Inl io_bind_lift_Inl by (rule sends_pure)
    next
      case (Inr u)
      have "io_keeps ?R (?rest u)"
      proof (cases u)
        case None
        show ?thesis unfolding None option.case by (rule sends_pure)
      next
        case (Some names)
        show ?thesis unfolding Some option.case
          by (intro sends_bind [OF sends_pure(3)] round) (simp add: Inr Some)
      qed
      then show ?thesis unfolding Inr io_bind_lift_Inr .
    qed
  qed
  from io_keepsD [OF this assms] show ?thesis by (simp add: sends_def)
qed

section \<open>Witnesses\<close>

definition as_file :: "json \<Rightarrow> entry" where
  "as_file j = \<lparr> is_regular = True, bytes = 10, content = Some j \<rparr>"

definition example_routes :: "string \<Rightarrow> json" where
  "example_routes h = JObj [(''secure'', JObj [(''host'', JStr (h @ ''-secure.ns.svc''))]),
                           (''internet'', JObj [(''host'', JStr (h @ ''-internet.ns.svc''))])]"

definition example_pool :: json where
  "example_pool = JObj [(''slots'', JObj [(''cap-a-01'', example_routes ''dsh-u-00000000000000aa''),
                                        (''cap-b-01'', example_routes ''dsh-u-00000000000000bb'')])]"

definition example_files :: files where
  "example_files = [(policy_file, as_file example_policy), (assignments_file, as_file example_assignments),
     (inventory_file, as_file example_inventory),
     (pool_file, as_file example_pool), (demand_file, as_file example_demand)]"

definition example_worker :: worker where
  "example_worker = \<lparr> w_resources = Inr example_resources,
     w_qualify = (\<lambda>slot. Inr (example_routes ''dsh-u-00000000000000cc'', JObj [(''status'', JStr ''passed'')])) \<rparr>"

definition example_round :: "outcome res \<times> files" where
  "example_round = reconcile (\<lambda>_. 10) example_worker 1767323050 ''now'' ''0011223344556677'' example_files"


lemma example_round:
  "reconcile (\<lambda>_. 10) example_worker 1767323050 ''now'' ''0011223344556677'' example_files =
     (fst example_round, snd example_round)"
  "is_ok (fst example_round)"
  "published_route example_files ''cap-0011223344556677-01'' = None"
  "published_route (snd example_round) ''cap-0011223344556677-01'' = Some (example_routes ''dsh-u-00000000000000cc'')"
  by (simp add: example_round_def) code_simp+

theorem reconcile_only_adds_witness:
  "ready_record (file_json example_files inventory_file) ''cap-0011223344556677-01''
       (example_routes ''dsh-u-00000000000000cc'') \<or>
   worker_passed example_worker ''cap-0011223344556677-01'' (example_routes ''dsh-u-00000000000000cc'')"
  using reconcile_only_adds [OF example_round(1)] example_round(3,4) by blast

lemma example_spares: "warm_spares 1 example_files = [''dsh-u-00000000000000bb-secure'']"
  by code_simp

theorem warm_spares_are_unassigned_witness:
  "runtime_name ''dsh-u-00000000000000bb-secure'' \<and> warm_spares 1 example_files = [''dsh-u-00000000000000bb-secure'']"
  using warm_spares_are_unassigned [of "''dsh-u-00000000000000bb-secure''" 1 example_files] example_spares by simp

definition deployment_server :: "unit server" where
  "deployment_server req w = (Reply (JObj [(''items'', JList (map (\<lambda>(n, k). JObj [
      (''metadata'', JObj [(''name'', JStr n)]), (''spec'', JObj [(''replicas'', JInt k)])])
      [(''dsh-u-00000000000000aa-secure'', 1), (''dsh-u-00000000000000bb-secure'', 0)]))]), ())"

definition example_session_round :: "session_report option res \<times> request list \<times> unit" where
  "example_session_round = sessions (logged deployment_server) ''ns'' (\<lambda>_. ''00000000000000aa'') (Inr example_resources)
     1767323050 (JInt 3600) 0 example_files ([], ())"

lemma example_session_log:
  "map verb (fst (snd example_session_round)) = [''GET'', ''PATCH'', ''PATCH'', ''GET'']"
  unfolding example_session_round_def by code_simp

lemma example_session_run:
  "sessions (logged deployment_server) ''ns'' (\<lambda>_. ''00000000000000aa'') (Inr example_resources)
     1767323050 (JInt 3600) 0 example_files ([], ()) =
   (fst example_session_round, (fst (snd example_session_round), ()))"
  by (simp add: example_session_round_def prod_eq_iff)

theorem sessions_only_scale_witness:
  "\<exists>ds. fst (snd example_session_round) = [] @ ds \<and>
     map verb (fst (snd example_session_round)) = [''GET'', ''PATCH'', ''PATCH'', ''GET'']"
  using sessions_only_scale [OF example_session_run] example_session_log by auto

end
