(* ===== verification/Capacity_Resources.thy ===== *)
theory Capacity_Resources imports Capacity_Session begin

text \<open>
  The resource measurement of the provisioning worker, \<open>scripts/capacity_worker.py\<close>: Kubernetes
  quantities, the effective request of a pod, and \<open>Worker.resources\<close>, whose result the planner and the
  session planner use.  Replies of the API server have the shape of Kubernetes objects (a missing key
  reads as \<open>JNull\<close>); Python's \<open>float(text)\<close>, the documents the generator makes for a future pair and
  \<open>statvfs\<close> are parameters, and quantities are finite.
\<close>

section \<open>Quantities\<close>

type_synonym floats = "string \<Rightarrow> rat res"

definition unit_scales :: "(string \<times> rat) list" where
  "unit_scales =
     [(''Ki'', 1024), (''Mi'', 1024 ^ 2), (''Gi'', 1024 ^ 3), (''Ti'', 1024 ^ 4), (''k'', 1000), (''K'', 1000), (''M'', 1000 ^ 2),
      (''G'', 1000 ^ 3), (''T'', 1000 ^ 4), (''P'', 1000 ^ 5), (''E'', 1000 ^ 6), (''n'', 1 / 10 ^ 9), (''m'', 1 / 1000)]"

definition quantity_text :: "floats \<Rightarrow> string \<Rightarrow> rat res" where
  "quantity_text fl s =
     (case List.find (\<lambda>(u, _). endswith u s) unit_scales of
        Some (u, scale) \<Rightarrow> res_bind (fl (take (length s - length u) s)) (\<lambda>x. Inr (x * scale))
      | None \<Rightarrow> fl s)"

text \<open>\<open>str\<close> of a number has no unit; of the other values it is no number.\<close>

definition quantity :: "floats \<Rightarrow> json \<Rightarrow> rat res" where
  "quantity fl v =
     (case v of JStr s \<Rightarrow> quantity_text fl s | JInt i \<Rightarrow> Inr (of_int i) | JFlt r \<Rightarrow> Inr r
      | _ \<Rightarrow> Inl (ValueError ''float''))"

text \<open>\<open>int(v)\<close> of a decimal text or a number.\<close>

definition whole :: "json \<Rightarrow> rat res" where
  "whole v =
     (case v of JStr s \<Rightarrow> if isdecimal s then Inr (of_int (int_of_digits s)) else Inl (ValueError ''int'')
      | JInt i \<Rightarrow> Inr (of_int i) | _ \<Rightarrow> Inl (TypeError ''int''))"

text \<open>\<open>d.get(k, default)\<close> and lists that may be missing.\<close>

definition get_or :: "json \<Rightarrow> string \<Rightarrow> json \<Rightarrow> json" where
  "get_or d k z = (if jhas d k then jget d k else z)"

definition jlist :: "json \<Rightarrow> json list" where
  "jlist v = (case v of JList xs \<Rightarrow> xs | _ \<Rightarrow> [])"

definition request_of :: "floats \<Rightarrow> string \<Rightarrow> json \<Rightarrow> rat res" where
  "request_of fl resource c = quantity fl (get_or (jget (jget c ''resources'') ''requests'') resource (JStr ''0''))"

text \<open>The loop over the init containers: the largest demand so far and the sidecars that keep running.\<close>

fun init_demand :: "(bool \<times> rat) list \<Rightarrow> rat \<Rightarrow> rat \<Rightarrow> rat \<times> rat" where
  "init_demand [] peak sidecars = (peak, sidecars)"
| "init_demand ((always, request) # rest) peak sidecars =
     (if always then init_demand rest (max peak (sidecars + request)) (sidecars + request)
      else init_demand rest (max peak (sidecars + request)) sidecars)"

definition effective_demand :: "rat list \<Rightarrow> (bool \<times> rat) list \<Rightarrow> rat \<Rightarrow> rat \<Rightarrow> rat" where
  "effective_demand regular inits pod overhead =
     (case init_demand inits 0 0 of (peak, sidecars) \<Rightarrow>
        max (max (sum_list regular + sidecars) peak) pod + overhead)"

definition always_restarts :: "json \<Rightarrow> bool" where
  "always_restarts c = (jget c ''restartPolicy'' = JStr ''Always'')"

definition effective_request :: "floats \<Rightarrow> json \<Rightarrow> string \<Rightarrow> rat res" where
  "effective_request fl pod resource =
     (let spec = jget pod ''spec''; inits = jlist (jget spec ''initContainers'') in
      res_bind (res_map (request_of fl resource) (jlist (jget spec ''containers''))) (\<lambda>regular.
      res_bind (res_map (request_of fl resource) inits) (\<lambda>initial.
      res_bind (request_of fl resource spec) (\<lambda>pod_request.
      res_bind (quantity fl (get_or (jget spec ''overhead'') resource (JStr ''0''))) (\<lambda>overhead.
      Inr (effective_demand regular (zip (map always_restarts inits) initial) pod_request overhead))))))"

section \<open>\<open>Worker.resources\<close>\<close>

record worker_env =
  we_float :: floats
  we_nodes :: "json res"
  we_pods :: "json res"
  we_metrics :: "json res"
  we_now :: rat
  we_storage :: "json res"
  we_future :: "json list res"
  we_claims :: "json list"
  we_deployment :: "string \<Rightarrow> json res"
  we_central :: "rat option"

record worker_config =
  wc_class :: string
  wc_cpu :: rat
  wc_memory :: rat
  wc_pods :: rat
  wc_storage :: rat
  wc_additional :: "(string \<times> string) list option"

definition SIGNUP_STORAGE_RESERVE_GIB :: rat where "SIGNUP_STORAGE_RESERVE_GIB = 200"

text \<open>Available amount, reserve and budget of one pair.\<close>

record resource_row =
  rr_available :: rat
  rr_reserve :: rat
  rr_budget :: rat

definition after_pair :: "resource_row \<Rightarrow> rat" where
  "after_pair r = rr_available r - rr_reserve r - rr_budget r"

record usage =
  us_cpu :: rat
  us_memory :: rat

record additional_row =
  ar_label :: string
  ar_desired :: json
  ar_ready :: json
  ar_cpu :: rat
  ar_memory :: rat

record worker_report =
  wr_cpu :: resource_row
  wr_memory :: resource_row
  wr_pods :: resource_row
  wr_storage :: resource_row
  wr_additional :: "additional_row list"
  wr_complete :: bool
  wr_central :: "rat option"
  wr_observed :: usage
  wr_reserved :: usage

definition GiB :: rat where "GiB = 1024 ^ 3"

definition counted_pod :: "json \<Rightarrow> json \<Rightarrow> bool" where
  "counted_pod node p =
     (jget (jget p ''spec'') ''nodeName'' \<in> {JNull, jget (jget node ''metadata'') ''name''} \<and>
      jget (jget p ''status'') ''phase'' \<notin> {JStr ''Succeeded'', JStr ''Failed''})"

definition total_request :: "floats \<Rightarrow> json list \<Rightarrow> string \<Rightarrow> rat res" where
  "total_request fl pods resource = res_bind (res_map (\<lambda>p. effective_request fl p resource) pods) (\<lambda>rs. Inr (sum_list rs))"

text \<open>The block that reads the live usage; \<open>Inr None\<close> where the code returns an empty result.\<close>

definition read_usage :: "worker_env \<Rightarrow> json \<Rightarrow> usage option res" where
  "read_usage we node =
     res_bind (we_metrics we) (\<lambda>reply.
     case List.find (\<lambda>m. jget (jget m ''metadata'') ''name'' = jget (jget node ''metadata'') ''name'') (jlist (jget reply ''items'')) of
       None \<Rightarrow> Inl StopIteration
     | Some metric \<Rightarrow>
         res_bind (py_idx metric ''timestamp'') (\<lambda>t.
         res_bind (observed_age (we_now we) t) (\<lambda>age.
         if age < -5 \<or> age > 90 then Inr None
         else
           res_bind (py_idx metric ''usage'') (\<lambda>u.
           res_bind (py_idx u ''cpu'') (\<lambda>c.
           res_bind (quantity (we_float we) c) (\<lambda>cpu.
           res_bind (py_idx u ''memory'') (\<lambda>m.
           res_bind (quantity (we_float we) m) (\<lambda>memory.
           if cpu < 0 \<or> memory < 0 then Inr None
           else Inr (Some \<lparr> us_cpu = cpu, us_memory = memory \<rparr>)))))))))"

definition observed_usage :: "worker_env \<Rightarrow> json \<Rightarrow> usage option res" where
  "observed_usage we node =
     (case read_usage we node of
        Inr u \<Rightarrow> Inr u
      | Inl (RuntimeError _) \<Rightarrow> Inr None
      | Inl (KeyError _) \<Rightarrow> Inr None
      | Inl StopIteration \<Rightarrow> Inr None
      | Inl (ValueError _) \<Rightarrow> Inr None
      | Inl e \<Rightarrow> Inl e)"

definition free_storage :: "worker_env \<Rightarrow> worker_config \<Rightarrow> rat list res" where
  "free_storage we wc =
     res_bind (we_storage we) (\<lambda>reply.
     res_bind (res_map (\<lambda>c. quantity (we_float we) (jget c ''capacity''))
        (filter (\<lambda>c. jget c ''storageClassName'' = JStr (wc_class wc) \<and> truthy (jget c ''capacity'')) (jlist (jget reply ''items'')))) (\<lambda>qs.
     Inr (map (\<lambda>q. q / GiB) qs)))"

definition pod_template :: "json \<Rightarrow> json" where
  "pod_template d = jget (jget d ''spec'') ''template''"

text \<open>The budgets of a future pair, never below the minimum.\<close>

record pair_budget =
  pb_cpu :: rat
  pb_memory :: rat
  pb_pods :: rat
  pb_storage :: rat

definition pair_budgets :: "worker_env \<Rightarrow> pair_budget res" where
  "pair_budgets we =
     res_bind (we_future we) (\<lambda>future.
     res_bind (total_request (we_float we) (map pod_template future) ''cpu'') (\<lambda>cpu.
     res_bind (total_request (we_float we) (map pod_template future) ''memory'') (\<lambda>memory.
     res_bind (res_map (\<lambda>d. quantity (we_float we) (jget (jget (jget (jget d ''spec'') ''resources'') ''requests'') ''storage''))
       (we_claims we)) (\<lambda>claims.
     Inr \<lparr> pb_cpu = max (1 / 4) (cpu + 1 / 100), pb_memory = max (9 / 4) (memory / GiB + 32 / 1024),
           pb_pods = of_nat (length future), pb_storage = max 23 (sum_list claims / GiB + 2) \<rparr>))))"

definition deployment_name :: "string \<Rightarrow> bool" where
  "deployment_name s = fullmatch_class (lower_chars @ digit_chars @ ''.-'') 1 63 s"

definition deployment_label :: "string \<Rightarrow> bool" where
  "deployment_label s = fullmatch_class (alnum_chars @ '' -'') 1 40 s"

definition auth_users :: "json \<Rightarrow> json list" where
  "auth_users d = concat (map (\<lambda>c. map (\<lambda>e. jget e ''value'')
     (filter (\<lambda>e. jget e ''name'' = JStr ''AUTH_USER'' \<and> truthy (jget e ''value'')) (jlist (jget c ''env''))))
     (jlist (jget (jget (pod_template d) ''spec'') ''containers'')))"

definition selected_pod :: "json \<Rightarrow> json \<Rightarrow> bool" where
  "selected_pod d p = list_all (\<lambda>(k, v). py_eq (jget (jget (jget p ''metadata'') ''labels'') k) v)
     (obj_items (jget (jget (jget d ''spec'') ''selector'') ''matchLabels''))"

text \<open>One additional deployment: \<open>None\<close> leaves the list incomplete.\<close>

definition additional_one :: "worker_env \<Rightarrow> json list \<Rightarrow> string \<times> string \<Rightarrow> additional_row option res" where
  "additional_one we pods item =
     (case item of (name, label) \<Rightarrow>
        if \<not> deployment_name name \<or> \<not> deployment_label label then Inl (ValueError ''Invalid additional deployment'')
        else
          res_bind (we_deployment we name) (\<lambda>d.
          if \<not> truthy d \<or> length (remdups (auth_users d)) \<noteq> 1 then Inr None
          else
            (let own = filter (selected_pod d) pods in
             res_bind (total_request (we_float we) own ''cpu'') (\<lambda>cpu.
             res_bind (total_request (we_float we) own ''memory'') (\<lambda>memory.
             Inr (Some \<lparr> ar_label = label, ar_desired = get_or (jget d ''spec'') ''replicas'' (JInt 1),
                        ar_ready = get_or (jget d ''status'') ''readyReplicas'' (JInt 0),
                        ar_cpu = cpu, ar_memory = memory / GiB \<rparr>))))))"

definition additional_deployments :: "worker_env \<Rightarrow> worker_config \<Rightarrow> json list \<Rightarrow> (additional_row list \<times> bool) res" where
  "additional_deployments we wc pods =
     (case wc_additional wc of
        None \<Rightarrow> Inr ([], False)
      | Some listed \<Rightarrow>
          res_bind (res_map (additional_one we pods) listed) (\<lambda>rows.
          Inr (concat (map (\<lambda>r. case r of None \<Rightarrow> [] | Some x \<Rightarrow> [x]) rows), None \<notin> set rows)))"

definition rows_of :: "worker_config \<Rightarrow> pair_budget \<Rightarrow> usage \<Rightarrow> usage \<Rightarrow> usage \<Rightarrow> rat \<Rightarrow> nat \<Rightarrow> rat list \<Rightarrow>
    resource_row \<times> resource_row \<times> resource_row \<times> resource_row" where
  "rows_of wc pb alloc reserved observed pod_limit pod_count storage =
     (\<lparr> rr_available = max 0 (us_cpu alloc - max (us_cpu reserved) (us_cpu observed)), rr_reserve = wc_cpu wc, rr_budget = pb_cpu pb \<rparr>,
      \<lparr> rr_available = max 0 ((us_memory alloc - max (us_memory reserved) (us_memory observed)) / GiB),
        rr_reserve = wc_memory wc, rr_budget = pb_memory pb \<rparr>,
      \<lparr> rr_available = max 0 (pod_limit - of_nat pod_count), rr_reserve = wc_pods wc, rr_budget = pb_pods pb \<rparr>,
      \<lparr> rr_available = Min (set storage), rr_reserve = max SIGNUP_STORAGE_RESERVE_GIB (wc_storage wc), rr_budget = pb_storage pb \<rparr>)"

text \<open>From the storage on: reserved and observed usage are known.\<close>

definition build_resources :: "worker_env \<Rightarrow> worker_config \<Rightarrow> json \<Rightarrow> json list \<Rightarrow> usage \<Rightarrow> usage \<Rightarrow> worker_report option res" where
  "build_resources we wc node pods reserved observed =
     res_bind (free_storage we wc) (\<lambda>storage.
     if storage = [] then Inr None
     else
       res_bind (pair_budgets we) (\<lambda>pb.
       res_bind (quantity (we_float we) (jget (jget (jget node ''status'') ''allocatable'') ''cpu'')) (\<lambda>alloc_cpu.
       res_bind (quantity (we_float we) (jget (jget (jget node ''status'') ''allocatable'') ''memory'')) (\<lambda>alloc_memory.
       res_bind (whole (jget (jget (jget node ''status'') ''allocatable'') ''pods'')) (\<lambda>pod_limit.
       res_bind (additional_deployments we wc pods) (\<lambda>(additional, all_known).
       case rows_of wc pb \<lparr> us_cpu = alloc_cpu, us_memory = alloc_memory \<rparr> reserved observed pod_limit (length pods) storage of
         (cpu, memory, pod_row, store) \<Rightarrow>
           Inr (Some \<lparr> wr_cpu = cpu, wr_memory = memory, wr_pods = pod_row, wr_storage = store,
             wr_additional = additional, wr_complete = all_known, wr_central = we_central we,
             wr_observed = observed, wr_reserved = reserved \<rparr>)))))))"

definition worker_resources :: "worker_env \<Rightarrow> worker_config \<Rightarrow> worker_report option res" where
  "worker_resources we wc =
     res_bind (we_nodes we) (\<lambda>nodes.
     case jlist (jget nodes ''items'') of
       [node] \<Rightarrow>
         res_bind (we_pods we) (\<lambda>reply.
         let pods = filter (counted_pod node) (jlist (jget reply ''items'')) in
         res_bind (total_request (we_float we) pods ''cpu'') (\<lambda>cpu.
         res_bind (total_request (we_float we) pods ''memory'') (\<lambda>memory.
         res_bind (observed_usage we node) (\<lambda>usage.
         case usage of
           None \<Rightarrow> Inr None
         | Some observed \<Rightarrow> build_resources we wc node pods \<lparr> us_cpu = cpu, us_memory = memory \<rparr> observed))))
     | _ \<Rightarrow> Inr None)"

text \<open>The four numbers the planner reads.\<close>

definition resources_json :: "worker_report option \<Rightarrow> json" where
  "resources_json wr =
     (case wr of
        None \<Rightarrow> JObj []
      | Some r \<Rightarrow> JObj [(''cpuAfterPair'', JFlt (after_pair (wr_cpu r))), (''memoryGiBAfterPair'', JFlt (after_pair (wr_memory r))),
          (''podsAfterPair'', JFlt (after_pair (wr_pods r))), (''storageGiBAfterPair'', JFlt (after_pair (wr_storage r)))])"

section \<open>Lemmas\<close>

lemma init_demand_sidecars: "snd (init_demand inits peak sidecars) = sidecars + sum_list (map snd (filter fst inits))"
  by (induction inits peak sidecars rule: init_demand.induct) (auto simp: ac_simps)

lemma Max_insert_max: "finite S \<Longrightarrow> Max (insert (max a b) S) = max a (Max (insert b S))" for a :: "'a :: linorder"
  by (cases "S = {}") (auto simp: max.assoc)

text \<open>The reference: what is requested while init container \<open>i\<close> starts.\<close>

definition demand_at :: "(bool \<times> rat) list \<Rightarrow> nat \<Rightarrow> rat" where
  "demand_at inits i = sum_list (map snd (filter fst (take i inits))) + snd (inits ! i)"

lemma init_demand_peak:
  "fst (init_demand inits peak sidecars) = Max (insert peak ((\<lambda>i. sidecars + demand_at inits i) ` {..<length inits}))"
proof (induction inits peak sidecars rule: init_demand.induct)
  case (1 peak sidecars)
  then show ?case by simp
next
  case (2 always request rest peak sidecars)
  let ?s = "if always then sidecars + request else sidecars"
  have "(\<lambda>i. sidecars + demand_at ((always, request) # rest) i) ` {..<length ((always, request) # rest)} =
      insert (sidecars + request) ((\<lambda>i. ?s + demand_at rest i) ` {..<length rest})"
    by (simp add: lessThan_Suc_eq_insert_0 image_image demand_at_def ac_simps cong: image_cong)
  moreover have "fst (init_demand ((always, request) # rest) peak sidecars) =
      Max (insert (max peak (sidecars + request)) ((\<lambda>i. ?s + demand_at rest i) ` {..<length rest}))"
    using 2 by simp
  moreover have "Max (insert peak (insert (sidecars + request) ((\<lambda>i. ?s + demand_at rest i) ` {..<length rest}))) =
      Max (insert (max peak (sidecars + request)) ((\<lambda>i. ?s + demand_at rest i) ` {..<length rest}))"
    by (subst Max_insert_max) simp_all
  ultimately show ?case by simp
qed

lemma built:
  assumes "build_resources we wc node pods reserved observed = Inr (Some r)"
  obtains storage pb alloc pod_limit where "free_storage we wc = Inr storage" "storage \<noteq> []" "pair_budgets we = Inr pb"
    "quantity (we_float we) (jget (jget (jget node ''status'') ''allocatable'') ''cpu'') = Inr (us_cpu alloc)"
    "quantity (we_float we) (jget (jget (jget node ''status'') ''allocatable'') ''memory'') = Inr (us_memory alloc)"
    "(wr_cpu r, wr_memory r, wr_pods r, wr_storage r) = rows_of wc pb alloc reserved observed pod_limit (length pods) storage"
    "wr_observed r = observed" "wr_reserved r = reserved"
proof -
  from assms obtain storage where s: "free_storage we wc = Inr storage" "storage \<noteq> []"
    by (auto simp: build_resources_def res_bind_Inr_iff split: if_splits)
  with assms obtain pb c m l ac where *: "pair_budgets we = Inr pb"
    "quantity (we_float we) (jget (jget (jget node ''status'') ''allocatable'') ''cpu'') = Inr c"
    "quantity (we_float we) (jget (jget (jget node ''status'') ''allocatable'') ''memory'') = Inr m"
    and r: "(case ac of (additional, all_known) \<Rightarrow>
       case rows_of wc pb \<lparr> us_cpu = c, us_memory = m \<rparr> reserved observed l (length pods) storage of
         (cpu, memory, pod_row, store) \<Rightarrow>
           Inr (Some \<lparr> wr_cpu = cpu, wr_memory = memory, wr_pods = pod_row, wr_storage = store,
             wr_additional = additional, wr_complete = all_known, wr_central = we_central we,
             wr_observed = observed, wr_reserved = reserved \<rparr>)) = (Inr (Some r) :: worker_report option res)"
    by (auto simp: build_resources_def res_bind_Inr_iff)
  show ?thesis
    by (rule that [OF s *(1), of "\<lparr> us_cpu = c, us_memory = m \<rparr>" l]) (use r * in \<open>auto split: prod.splits\<close>)
qed

lemma measured:
  assumes "worker_resources we wc = Inr (Some r)"
  obtains nodes node pods reserved observed where "we_nodes we = Inr nodes" "jlist (jget nodes ''items'') = [node]"
    "observed_usage we node = Inr (Some observed)" "total_request (we_float we) pods ''cpu'' = Inr (us_cpu reserved)"
    "total_request (we_float we) pods ''memory'' = Inr (us_memory reserved)"
    "build_resources we wc node pods reserved observed = Inr (Some r)"
proof -
  from assms obtain nodes where n: "we_nodes we = Inr nodes" by (auto simp: worker_resources_def res_bind_Inr_iff)
  then obtain node where node: "jlist (jget nodes ''items'') = [node]"
    using assms by (auto simp: worker_resources_def split: list.splits)
  with assms n obtain reply cpu memory usage where
    "total_request (we_float we) (filter (counted_pod node) (jlist (jget reply ''items''))) ''cpu'' = Inr cpu"
    "total_request (we_float we) (filter (counted_pod node) (jlist (jget reply ''items''))) ''memory'' = Inr memory"
    "observed_usage we node = Inr usage"
    "(case usage of None \<Rightarrow> Inr None | Some observed \<Rightarrow> build_resources we wc node
       (filter (counted_pod node) (jlist (jget reply ''items''))) \<lparr> us_cpu = cpu, us_memory = memory \<rparr> observed) = Inr (Some r)"
    unfolding worker_resources_def by (auto simp: res_bind_Inr_iff Let_def)
  with n node show ?thesis
    by (cases usage) (auto intro: that [of nodes node _ _ "\<lparr> us_cpu = cpu, us_memory = memory \<rparr>"])
qed

lemma budgets_minimum:
  "pair_budgets we = Inr pb \<Longrightarrow> 1 / 4 \<le> pb_cpu pb \<and> 9 / 4 \<le> pb_memory pb \<and> 23 \<le> pb_storage pb"
  by (auto simp: pair_budgets_def res_bind_Inr_iff max_def)

lemma max_zero_le: "0 \<le> max 0 x - a - b \<Longrightarrow> 0 \<le> a \<Longrightarrow> 0 < b \<Longrightarrow> a + b \<le> (x :: rat)"
  by (auto simp: max_def split: if_splits)

lemma headroom:
  assumes "(c, m, p, s) = rows_of wc pb alloc reserved observed limit n storage" "pair_budgets we = Inr pb"
    and "storage \<noteq> []" "0 \<le> wc_cpu wc" "0 \<le> wc_memory wc"
    and "0 \<le> after_pair c" "0 \<le> after_pair m" "0 \<le> after_pair s"
  shows "max (us_cpu reserved) (us_cpu observed) + wc_cpu wc + 1 / 4 \<le> us_cpu alloc"
    and "max (us_memory reserved) (us_memory observed) / GiB + wc_memory wc + 9 / 4 \<le> us_memory alloc / GiB"
    and "\<forall>x \<in> set storage. 223 \<le> x"
proof -
  note rows = assms(1)[unfolded rows_of_def prod.inject]
  note min = budgets_minimum [OF assms(2)]
  have "wc_cpu wc + pb_cpu pb \<le> us_cpu alloc - max (us_cpu reserved) (us_cpu observed)"
    using rows assms(4,6) min by (intro max_zero_le) (auto simp: after_pair_def)
  with min show "max (us_cpu reserved) (us_cpu observed) + wc_cpu wc + 1 / 4 \<le> us_cpu alloc" by linarith
  have "wc_memory wc + pb_memory pb \<le> (us_memory alloc - max (us_memory reserved) (us_memory observed)) / GiB"
    using rows assms(5,7) min by (intro max_zero_le) (auto simp: after_pair_def)
  with min show "max (us_memory reserved) (us_memory observed) / GiB + wc_memory wc + 9 / 4 \<le> us_memory alloc / GiB"
    by (simp add: diff_divide_distrib)
  have "Min (set storage) \<ge> 223"
    using rows assms(8) min by (auto simp: after_pair_def SIGNUP_STORAGE_RESERVE_GIB_def)
  then show "\<forall>x \<in> set storage. 223 \<le> x" using assms(3) by simp
qed

lemma provision_measured:
  assumes "plan policy assignments inventory resources now = Inr d" "jget d ''action'' = JStr ''provision''"
  shows "\<forall>key \<in> set resource_keys. \<exists>r \<ge> 0. measurement (jget resources key) = Some r"
  using assms(1)
proof (cases rule: plan_cases)
  case stale
  with assms(2) show ?thesis by (simp add: wait_for_action)
next
  case (fresh en spare count used slots active)
  from assms(2) fresh(5) have "short_resource resources = None"
    by (auto simp: decide_action simp del: jget.simps split: if_splits)
  then show ?thesis
    by (auto simp: short_resource_def find_None_iff intro: measurement_nonneg)
qed

section \<open>Properties\<close>



definition example_floats :: floats where
  "example_floats t = (if isdecimal t then Inr (of_int (int_of_digits t)) else Inl (ValueError ''float''))"

definition example_node :: json where
  "example_node = JObj [(''metadata'', JObj [(''name'', JStr ''node'')]),
     (''status'', JObj [(''allocatable'', JObj [(''cpu'', JInt 16), (''memory'', JStr ''128Gi''), (''pods'', JStr ''110'')])])]"

definition example_metrics :: json where
  "example_metrics = JObj [(''items'', JList [JObj [(''metadata'', JObj [(''name'', JStr ''node'')]),
     (''timestamp'', JStr ''2026-01-02T03:04:05Z''), (''usage'', JObj [(''cpu'', JStr ''500m''), (''memory'', JStr ''1Gi'')])]])]"

definition example_worker :: worker_env where
  "example_worker = \<lparr> we_float = example_floats, we_nodes = Inr (JObj [(''items'', JList [example_node])]),
     we_pods = Inr (JObj [(''items'', JList [])]), we_metrics = Inr example_metrics, we_now = 1767323050,
     we_storage = Inr (JObj [(''items'', JList [JObj [(''storageClassName'', JStr ''fast''), (''capacity'', JStr ''500Gi'')]])]),
     we_future = Inr [], we_claims = [], we_deployment = (\<lambda>_. Inr JNull), we_central = None \<rparr>"

definition example_site :: worker_config where
  "example_site = \<lparr> wc_class = ''fast'', wc_cpu = 2, wc_memory = 32, wc_pods = 10, wc_storage = 0, wc_additional = Some [] \<rparr>"

definition example_measured :: "worker_report option" where
  "example_measured = (case worker_resources example_worker example_site of Inr wr \<Rightarrow> wr | Inl _ \<Rightarrow> None)"

definition example_provision :: json where
  "example_provision = (case plan example_policy example_assignments example_inventory (resources_json example_measured) 1767323050
     of Inr d \<Rightarrow> d | Inl _ \<Rightarrow> JNull)"

lemma example_provisioned:
  "worker_resources example_worker example_site = Inr example_measured"
  "plan example_policy example_assignments example_inventory (resources_json example_measured) 1767323050 = Inr example_provision"
  "jget example_provision ''action'' = JStr ''provision''"
  by code_simp+


end
