(* ===== verification/Package_Task.thy ===== *)
theory Package_Task imports Prelude begin

text \<open>
  The package job, \<open>container/package_task.py\<close>: validation of a request, the inspection of wheels, the online
  download with its comparison against the published digests, the verified staging and the offline installation.
  Archives, file contents, the package tool, the index and SHA-256 are parameters; file names are kept as text.
\<close>

section \<open>Requests\<close>

definition pin_part :: "string \<Rightarrow> nat \<Rightarrow> string \<Rightarrow> bool" where
  "pin_part cs n s = (s \<noteq> [] \<and> hd s \<in> set alnum_chars \<and> fullmatch_class (alnum_chars @ cs) 1 n s)"

text \<open>\<open>PIN.fullmatch\<close>: neither part may hold an equals sign, so the split is at the first one.\<close>

definition pin :: "string \<Rightarrow> bool" where
  "pin s =
     (let name = before_char CHR ''='' s in
      pin_part ''_.-'' 80 name \<and> take 2 (drop (length name) s) = ''=='' \<and> pin_part ''_.+-'' 50 (drop (length name + 2) s))"

definition package_name :: "string \<Rightarrow> string" where
  "package_name s = map (\<lambda>c. if c = CHR ''_'' then CHR ''-'' else c) (lower (before_char CHR ''='' s))"

definition environment_name :: "string \<Rightarrow> bool" where
  "environment_name s = (s \<noteq> [] \<and> hd s \<in> set lower_chars \<and> fullmatch_class (lower_chars @ digit_chars @ ''-'') 1 24 s)"

definition owner_name :: "string \<Rightarrow> bool" where
  "owner_name s = fullmatch_class (lower_chars @ digit_chars @ ''_.-'') 3 30 s"

definition as_text :: "json \<Rightarrow> string res" where
  "as_text v = (case v of JStr s \<Rightarrow> Inr s | _ \<Rightarrow> Inl (TypeError ''expected string''))"

definition spec_of :: "json \<Rightarrow> string res" where
  "spec_of v = (case v of JStr s \<Rightarrow> if pin s then Inr s else Inl (ValueError ''Use one to eight exact name==version pins'')
                | _ \<Rightarrow> Inl (ValueError ''Use one to eight exact name==version pins''))"

record package_request =
  pr_id :: string
  pr_owner :: string
  pr_specs :: "string list"
  pr_environment :: string

definition checked_specs :: "json \<Rightarrow> string list res" where
  "checked_specs v =
     (case v of
        JList xs \<Rightarrow>
          (if xs = [] \<or> 8 < length xs then Inl (ValueError ''Use one to eight exact name==version pins'')
           else
             res_bind (res_map spec_of xs) (\<lambda>specs.
             if length (remdups (map package_name specs)) \<noteq> length specs then Inl (ValueError ''Duplicate package'') else Inr specs))
      | _ \<Rightarrow> Inl (ValueError ''Use one to eight exact name==version pins''))"

definition validate_request :: "json \<Rightarrow> package_request res" where
  "validate_request v =
     (if \<not> is_obj v then Inl (TypeError ''set'')
      else if \<not> exact_keys [''id'', ''owner'', ''specs'', ''environment''] v then Inl (ValueError ''Unexpected request fields'')
      else
        res_bind (as_text (jget v ''id'')) (\<lambda>i.
        if \<not> hex_id 32 i then Inl (ValueError ''Invalid identity'')
        else
          res_bind (as_text (jget v ''owner'')) (\<lambda>owner.
          if \<not> owner_name owner then Inl (ValueError ''Invalid identity'')
          else
            res_bind (as_text (jget v ''environment'')) (\<lambda>environment.
            if \<not> environment_name environment then Inl (ValueError ''Invalid environment name'')
            else
              res_bind (checked_specs (jget v ''specs'')) (\<lambda>specs.
              Inr \<lparr> pr_id = i, pr_owner = owner, pr_specs = specs, pr_environment = environment \<rparr>)))))"

section \<open>Wheels\<close>

definition MAX_BYTES :: int where "MAX_BYTES = 300 * 1024 * 1024"
definition MAX_WHEELS :: nat where "MAX_WHEELS = 40"

text \<open>A member of the archive: its name, its expanded length and whether its mode is that of a symbolic link.\<close>

record wheel_member =
  wm_name :: string
  wm_bytes :: int
  wm_link :: bool

text \<open>What \<open>zipfile\<close> and the e-mail parser read from the bytes of a wheel.\<close>

record wheel_archive =
  wa_members :: "wheel_member list"
  wa_name :: string
  wa_version :: string

definition unsafe_entry :: "wheel_member \<Rightarrow> bool" where
  "unsafe_entry m =
     (startswith ''/'' (wm_name m) \<or> CHR 0x5C \<in> set (wm_name m) \<or> ''..'' \<in> set (split_char CHR ''/'' (wm_name m)) \<or> wm_link m)"

definition check_member :: "wheel_member \<Rightarrow> unit res" where
  "check_member m =
     (if unsafe_entry m then Inl (ValueError ''Unsafe wheel member'')
      else if endswith ''.pth'' (wm_name m) then Inl (ValueError ''Startup .pth hooks require operator review'')
      else Inr ())"

definition metadata_member :: "wheel_member \<Rightarrow> bool" where
  "metadata_member m = endswith ''.dist-info/METADATA'' (wm_name m)"

definition wheel_metadata :: "wheel_archive res \<Rightarrow> (string \<times> string) res" where
  "wheel_metadata opened =
     res_bind opened (\<lambda>wa.
     if sum_list (map wm_bytes (wa_members wa)) > 1024 * 1024 * 1024 then Inl (ValueError ''Expanded wheel exceeds limit'')
     else
       res_bind (res_map check_member (wa_members wa)) (\<lambda>_.
       case filter metadata_member (wa_members wa) of
         [m] \<Rightarrow>
           (if wm_bytes m > 2 * 1024 * 1024 then Inl (ValueError ''Invalid wheel metadata'')
            else if \<not> pin (wa_name wa @ ''=='' @ wa_version wa) then Inl (ValueError ''Invalid wheel distribution identity'')
            else Inr (wa_name wa, wa_version wa))
       | _ \<Rightarrow> Inl (ValueError ''Invalid wheel metadata'')))"

section \<open>Download\<close>

text \<open>An entry of a directory: its content, unless it is a link or a directory.\<close>

datatype node = Regular string | Link | Folder

type_synonym folder = "(string \<times> node) list"

text \<open>The parameters: the file formats, the package tool and the index.\<close>

record package_tools =
  pt_sha :: "string \<Rightarrow> string"
  pt_open :: "string \<Rightarrow> wheel_archive res"
  pt_pip :: "string list \<Rightarrow> folder res"
  pt_index :: "string \<times> string \<Rightarrow> (string \<times> json) res"

definition wheel_suffix :: "string \<Rightarrow> bool" where
  "wheel_suffix n = (endswith ''.whl'' n \<and> 4 < length n)"

definition regular_content :: "node \<Rightarrow> string" where
  "regular_content e = (case e of Regular s \<Rightarrow> s | _ \<Rightarrow> [])"

text \<open>Only old staging folders are removed; anything else stops the download.\<close>

definition check_staging :: "string \<Rightarrow> string \<times> node \<Rightarrow> unit res" where
  "check_staging own e =
     (case e of (n, x) \<Rightarrow>
        if n = own then Inr ()
        else if \<not> hex_id 32 n \<or> x \<noteq> Folder then Inl (ValueError ''Unexpected artifact staging entry'')
        else Inr ())"

definition published_digests :: "json \<Rightarrow> string \<Rightarrow> json list res" where
  "published_digests reply filename =
     res_bind (py_idx reply ''urls'') (\<lambda>urls.
     res_bind (res_map (\<lambda>r. res_bind (py_idx r ''filename'') (\<lambda>f.
         if f = JStr filename then res_bind (py_idx r ''digests'') (\<lambda>d. res_bind (py_idx d ''sha256'') (\<lambda>x. Inr [x])) else Inr []))
       (case urls of JList rs \<Rightarrow> rs | _ \<Rightarrow> [])) (\<lambda>ds. Inr (concat ds)))"

definition wheel_row :: "string \<Rightarrow> string \<Rightarrow> int \<Rightarrow> json" where
  "wheel_row n digest len = JObj [(''filename'', JStr n), (''sha256'', JStr digest), (''bytes'', JInt len)]"

text \<open>One wheel: its identity names the page of the index, which must answer from its own host with exactly the digest of
  the file.  The reply is a host name and a decoded page; a page that is too long is an exception of the parameter.\<close>

definition verify_wheel :: "package_tools \<Rightarrow> string \<times> node \<Rightarrow> json res" where
  "verify_wheel pt e =
     (case e of (n, x) \<Rightarrow>
        let content = regular_content x; digest = pt_sha pt content in
        res_bind (wheel_metadata (pt_open pt content)) (\<lambda>identity.
        res_bind (pt_index pt identity) (\<lambda>(host, page).
        if host \<noteq> ''pypi.org'' then Inl (ValueError ''Unexpected metadata origin'')
        else
          res_bind (published_digests page n) (\<lambda>expected.
          if expected \<noteq> [JStr digest] then Inl (ValueError ''Published artifact hash mismatch'')
          else Inr (wheel_row n digest (int (length content)))))))"

definition download_result :: "json list \<Rightarrow> int \<Rightarrow> json" where
  "download_result rows n = JObj [(''state'', JStr ''downloaded''), (''wheels'', JList rows), (''bytes'', JInt n)]"

text \<open>\<open>staging\<close> is the parent folder, the tool's folder is listed in name order; the result is the new staging area, the
  artifacts and the published result.\<close>

definition download :: "package_tools \<Rightarrow> package_request \<Rightarrow> folder \<Rightarrow> (folder \<times> json) res" where
  "download pt request staging =
     res_bind (res_map (check_staging (pr_id request)) staging) (\<lambda>_.
     if map_of staging (pr_id request) \<noteq> None then Inl (OSError ''exists'')
     else
       res_bind (pt_pip pt (pr_specs request)) (\<lambda>wheels.
       if wheels = [] \<or> MAX_WHEELS < length wheels \<or> \<not> list_all (\<lambda>(n, x). wheel_suffix n \<and> x \<noteq> Link) wheels
       then Inl (ValueError ''Only bounded wheel sets are supported'')
       else if sum_list (map (\<lambda>(n, x). int (length (regular_content x))) wheels) > MAX_BYTES
       then Inl (ValueError ''Download size exceeds limit'')
       else
         res_bind (res_map (verify_wheel pt) wheels) (\<lambda>rows.
         Inr (wheels, download_result rows (sum_list (map (\<lambda>(n, x). int (length (regular_content x))) wheels))))))"

section \<open>Staging and installation\<close>

definition wheel_filename :: "string \<Rightarrow> bool" where
  "wheel_filename n = (endswith ''.whl'' n \<and> 4 < length n \<and> list_all (\<lambda>c. c \<in> set (alnum_chars @ ''_.+-'')) n)"

text \<open>One row of the manifest: the artifact is read without following links and staged only when length and digest are
  the recorded ones.  The staged copy is inspected again.\<close>

definition stage_content :: "package_tools \<Rightarrow> json \<Rightarrow> string \<Rightarrow> string \<Rightarrow> string \<Rightarrow> (string \<times> string) list \<times> int \<Rightarrow>
    ((string \<times> string) list \<times> int) res" where
  "stage_content pt row name digest content st =
     res_bind (py_idx row ''bytes'') (\<lambda>b.
     if \<not> py_eq (JInt (int (length content))) b then Inl (ValueError ''Artifact type or length changed'')
     else if snd st + int (length content) > MAX_BYTES then Inl (ValueError ''Wheel set exceeds limit'')
     else if pt_sha pt content \<noteq> digest then Inl (ValueError ''Artifact changed after download'')
     else
       res_bind (wheel_metadata (pt_open pt content)) (\<lambda>_.
       Inr (AList.update name content (fst st), snd st + int (length content))))"

definition stage_row :: "package_tools \<Rightarrow> folder \<Rightarrow> json \<Rightarrow> (string \<times> string) list \<times> int \<Rightarrow> ((string \<times> string) list \<times> int) res" where
  "stage_row pt artifacts row st =
     res_bind (res_bind (py_idx row ''filename'') as_text) (\<lambda>name.
     res_bind (res_bind (py_idx row ''sha256'') as_text) (\<lambda>digest.
     if \<not> wheel_filename name \<or> \<not> hex_id 64 digest then Inl (ValueError ''Invalid artifact record'')
     else
       (case map_of artifacts name of
          Some (Regular content) \<Rightarrow> stage_content pt row name digest content st
        | _ \<Rightarrow> Inl (OSError name))))"

definition rows_of_manifest :: "json \<Rightarrow> json list res" where
  "rows_of_manifest manifest =
     res_bind (py_idx manifest ''wheels'') (\<lambda>v. case v of JList rows \<Rightarrow> Inr rows | _ \<Rightarrow> Inl (TypeError ''wheels''))"

definition stage_verified :: "package_tools \<Rightarrow> json \<Rightarrow> folder \<Rightarrow> (string \<times> string) list res" where
  "stage_verified pt manifest artifacts =
     res_bind (rows_of_manifest manifest) (\<lambda>rows.
     if rows = [] \<or> MAX_WHEELS < length rows then Inl (ValueError ''Invalid wheel count'')
     else res_bind (res_fold (stage_row pt artifacts) rows ([], 0)) (\<lambda>st. Inr (fst st)))"

text \<open>The volumes of the installer and its tools: the parent of the environments, the existing environments and kernels;
  the offline tool gets the staged files and the lines of the requirements.\<close>

record install_env =
  in_parent :: "node option"
  in_environments :: "string list"
  in_kernels :: "string list"
  in_venv :: "unit res"
  in_pip :: "(string \<times> string) list \<Rightarrow> string list \<Rightarrow> unit res"
  in_managed :: bool

definition requirement_line :: "json \<Rightarrow> string" where
  "requirement_line row =
     (case (jget row ''filename'', jget row ''sha256'') of
        (JStr n, JStr d) \<Rightarrow> ''/tmp/verified-wheels/'' @ n @ '' --hash=sha256:'' @ d
      | _ \<Rightarrow> [])"

definition install_name :: "package_request \<Rightarrow> string" where
  "install_name request = ''pkg-'' @ pr_environment request @ ''-'' @ take 8 (pr_id request)"

definition install_result :: "string \<Rightarrow> json list \<Rightarrow> json" where
  "install_result name rows =
     JObj [(''state'', JStr ''complete''), (''environmentPath'', JStr (''/workspace/.venvs/'' @ name)), (''kernelName'', JStr name),
       (''wheelCount'', JInt (int (length rows))), (''networkDisabled'', JBool True)]"

text \<open>The tool call is kept in the result: the staged files and the lines it was given.\<close>

record installation =
  ia_staged :: "(string \<times> string) list"
  ia_lines :: "string list"
  ia_name :: string
  ia_result :: json

definition install_into :: "install_env \<Rightarrow> package_request \<Rightarrow> json list \<Rightarrow> (string \<times> string) list \<Rightarrow> installation res" where
  "install_into ie request rows staged =
     (let name = install_name request; listed = map requirement_line rows in
      if in_parent ie = Some Link then Inl (ValueError ''Environment parent must not be a symlink'')
      else if in_parent ie \<noteq> None \<and> in_parent ie \<noteq> Some Folder then Inl (OSError ''exists'')
      else if name \<in> set (in_environments ie) then Inl (ValueError ''Refusing to replace an existing environment'')
      else
        res_bind (in_venv ie) (\<lambda>_.
        res_bind (in_pip ie staged listed) (\<lambda>_.
        if name \<in> set (in_kernels ie) then Inl (OSError ''exists'')
        else if \<not> in_managed ie then Inl (ValueError ''Managed Jupyter kernel libraries are unavailable'')
        else Inr \<lparr> ia_staged = staged, ia_lines = listed, ia_name = name, ia_result = install_result name rows \<rparr>)))"

definition install :: "package_tools \<Rightarrow> install_env \<Rightarrow> package_request \<Rightarrow> json \<Rightarrow> folder \<Rightarrow> installation res" where
  "install pt ie request manifest artifacts =
     res_bind (stage_verified pt manifest artifacts) (\<lambda>staged.
     res_bind (rows_of_manifest manifest) (\<lambda>rows. install_into ie request rows staged))"

section \<open>The entry point\<close>

definition package_failure :: "exn \<Rightarrow> json" where
  "package_failure e =
     JObj [(''state'', JStr ''failed''), (''reason'', JStr (case e of ValueError m \<Rightarrow> take 180 m | _ \<Rightarrow> exn_name e))]"

text \<open>What the job leaves in \<open>result.json\<close>; an exception before the phase starts leaves nothing.\<close>

definition job_main :: "package_tools \<Rightarrow> install_env \<Rightarrow> string \<Rightarrow> json \<Rightarrow> json \<Rightarrow> folder \<Rightarrow> folder \<Rightarrow> json res" where
  "job_main pt ie phase request_json manifest staging artifacts =
     (if phase \<notin> {''download'', ''install''} then Inl (ValueError ''Unknown package phase'')
      else
        res_bind (validate_request request_json) (\<lambda>request.
        Inr (if phase = ''download''
             then (case download pt request staging of Inl e \<Rightarrow> package_failure e | Inr (_, result) \<Rightarrow> result)
             else (case install pt ie request manifest artifacts of Inl e \<Rightarrow> package_failure e | Inr installed \<Rightarrow> ia_result installed))))"

section \<open>Lemmas\<close>

lemma validated_request:
  assumes "validate_request v = Inr r"
  shows "hex_id 32 (pr_id r)" "owner_name (pr_owner r)" "environment_name (pr_environment r)"
    "1 \<le> length (pr_specs r)" "length (pr_specs r) \<le> 8" "list_all pin (pr_specs r)" "distinct (map package_name (pr_specs r))"
proof -
  obtain xs where r: "hex_id 32 (pr_id r)" "owner_name (pr_owner r)" "environment_name (pr_environment r)"
    and xs: "xs \<noteq> []" "length xs \<le> 8" "res_map spec_of xs = Inr (pr_specs r)"
    and d: "length (remdups (map package_name (pr_specs r))) = length (pr_specs r)"
    using assms by (auto simp: validate_request_def checked_specs_def res_bind_Inr_iff split: if_splits json.splits)
  have "distinct (map package_name (pr_specs r))"
    using d by (metis card_distinct length_map length_remdups_card_conv)
  moreover have "list_all pin (pr_specs r)"
    by (rule res_map_list_all [OF xs(3)]) (auto simp: spec_of_def split: json.splits if_splits)
  ultimately show "hex_id 32 (pr_id r)" "owner_name (pr_owner r)" "environment_name (pr_environment r)"
    "1 \<le> length (pr_specs r)" "length (pr_specs r) \<le> 8" "list_all pin (pr_specs r)" "distinct (map package_name (pr_specs r))"
    using r xs res_map_Inr [OF xs(3)] by (auto simp: Suc_le_eq)
qed

text \<open>A wheel that passed the inspection, and a file whose digest the index published under its name.\<close>

definition safe_wheel :: "package_tools \<Rightarrow> string \<Rightarrow> bool" where
  "safe_wheel pt content =
     (\<exists>wa. pt_open pt content = Inr wa \<and> list_all (\<lambda>m. \<not> unsafe_entry m \<and> \<not> endswith ''.pth'' (wm_name m)) (wa_members wa) \<and>
        sum_list (map wm_bytes (wa_members wa)) \<le> 1024 * 1024 * 1024 \<and> length (filter metadata_member (wa_members wa)) = 1)"

definition published :: "package_tools \<Rightarrow> string \<Rightarrow> string \<Rightarrow> bool" where
  "published pt n digest =
     (\<exists>identity page. pt_index pt identity = Inr (''pypi.org'', page) \<and> published_digests page n = Inr [JStr digest])"

lemma inspected_wheel:
  assumes "wheel_metadata (pt_open pt content) = Inr identity"
  shows "safe_wheel pt content"
proof -
  obtain wa us where wa: "pt_open pt content = Inr wa" "sum_list (map wm_bytes (wa_members wa)) \<le> 1024 * 1024 * 1024"
    "res_map check_member (wa_members wa) = Inr us" and m: "length (filter metadata_member (wa_members wa)) = 1"
    using assms by (auto simp: wheel_metadata_def res_bind_Inr_iff not_less split: if_splits list.splits)
  have "\<not> unsafe_entry m \<and> \<not> endswith ''.pth'' (wm_name m)" if "m \<in> set (wa_members wa)" for m
    using res_map_all [OF wa(3) that] by (auto simp: check_member_def split: if_splits)
  then show ?thesis using wa m by (auto simp: safe_wheel_def list_all_iff)
qed

lemma verified_wheel:
  assumes "verify_wheel pt e = Inr row"
  shows "\<exists>digest. jget row ''filename'' = JStr (fst e) \<and> jget row ''sha256'' = JStr digest \<and> published pt (fst e) digest"
proof (cases e)
  case (Pair n x)
  then obtain identity page where "pt_index pt identity = Inr (''pypi.org'', page)"
    "published_digests page n = Inr [JStr (pt_sha pt (regular_content x))]" "row = wheel_row n (pt_sha pt (regular_content x)) (int (length (regular_content x)))"
    using assms by (auto simp: verify_wheel_def Let_def res_bind_Inr_iff split: if_splits)
  then show ?thesis using Pair by (cases identity) (auto simp: wheel_row_def published_def)
qed

definition row_published :: "package_tools \<Rightarrow> json \<Rightarrow> bool" where
  "row_published pt row =
     (\<exists>n digest. jget row ''filename'' = JStr n \<and> jget row ''sha256'' = JStr digest \<and> published pt n digest)"

lemma downloaded_rows:
  assumes "download pt request staging = Inr (wheels, manifest)"
  obtains rows where "rows_of_manifest manifest = Inr rows" "list_all (row_published pt) rows" "length rows \<le> MAX_WHEELS"
proof -
  obtain rows total where rows: "res_map (verify_wheel pt) wheels = Inr rows" and m: "manifest = download_result rows total"
    and n: "length wheels \<le> MAX_WHEELS"
    using assms unfolding download_def by (auto simp: res_bind_Inr_iff split: if_splits)
  have "list_all (row_published pt) rows"
    by (rule res_map_list_all [OF rows]) (use verified_wheel in \<open>fastforce simp: row_published_def\<close>)
  moreover have "rows_of_manifest manifest = Inr rows" by (simp add: m download_result_def rows_of_manifest_def py_idx_def)
  ultimately show ?thesis using that n res_map_Inr [OF rows] by simp
qed

subsection \<open>The staged files\<close>

definition staged_bytes :: "(string \<times> string) list \<Rightarrow> int" where
  "staged_bytes st = sum_list (map (\<lambda>(n, c). int (length c)) st)"

lemma staged_bytes_update: "staged_bytes (AList.update n c st) \<le> staged_bytes st + int (length c)"
  by (induction st) (auto simp: staged_bytes_def)

definition staged_from :: "package_tools \<Rightarrow> json list \<Rightarrow> (string \<times> string) list \<times> int \<Rightarrow> bool" where
  "staged_from pt rows st =
     (list_all (\<lambda>(n, c). safe_wheel pt c \<and> wheel_filename n \<and>
        list_ex (\<lambda>row. jget row ''filename'' = JStr n \<and> jget row ''sha256'' = JStr (pt_sha pt c)) rows) (fst st) \<and>
      staged_bytes (fst st) \<le> snd st \<and> snd st \<le> MAX_BYTES)"

lemma stage_row_keeps:
  assumes "stage_row pt artifacts row st = Inr st'" "row \<in> set rows" "staged_from pt rows st"
  shows "staged_from pt rows st'"
proof -
  obtain n c where n: "jget row ''filename'' = JStr n" "wheel_filename n" "jget row ''sha256'' = JStr (pt_sha pt c)"
    and c: "safe_wheel pt c" "snd st + int (length c) \<le> MAX_BYTES" "st' = (AList.update n c (fst st), snd st + int (length c))"
    using assms(1) inspected_wheel
    by (auto simp: stage_row_def stage_content_def res_bind_Inr_iff py_idx_Inr as_text_def not_less
        split: if_splits option.splits node.splits json.splits)
  have "list_ex (\<lambda>row. jget row ''filename'' = JStr n \<and> jget row ''sha256'' = JStr (pt_sha pt c)) rows"
    using n assms(2) by (auto simp: list_ex_iff)
  then show ?thesis
    using assms(3) n c staged_bytes_update [of n c "fst st"] update_set
    by (fastforce simp: staged_from_def list_all_iff)
qed

lemma staged_verified:
  assumes "stage_verified pt manifest artifacts = Inr staged" "rows_of_manifest manifest = Inr rows"
  shows "staged_from pt rows (staged, staged_bytes staged)"
proof -
  obtain total where f: "res_fold (stage_row pt artifacts) rows ([], 0) = Inr (staged, total)"
    using assms by (auto simp: stage_verified_def res_bind_Inr_iff split: if_splits)
  have "staged_from pt rows (staged, total)"
    by (rule res_fold_invariant [OF f]) (simp add: staged_from_def staged_bytes_def MAX_BYTES_def, blast intro: stage_row_keeps)
  then show ?thesis by (auto simp: staged_from_def)
qed

text \<open>C40: Whatever happened to the shared artifact folder between the two phases, the offline tool of the installation gets
  only files whose digest the package index had published for that file name when they were downloaded, each a bounded
  wheel without links, path escapes or start-up hooks, within the size limit, for an environment that did not exist.\<close>

theorem installed_wheels_were_published:
  assumes "download pt request staging = Inr (wheels, manifest)" "install pt ie request manifest artifacts = Inr installed"
  shows "list_all (\<lambda>(n, c). published pt n (pt_sha pt c) \<and> safe_wheel pt c) (ia_staged installed) \<and>
    in_pip ie (ia_staged installed) (ia_lines installed) = Inr () \<and> staged_bytes (ia_staged installed) \<le> MAX_BYTES \<and>
    length (ia_lines installed) \<le> MAX_WHEELS \<and> ia_name installed \<notin> set (in_environments ie)"
proof -
  obtain rows where rows: "rows_of_manifest manifest = Inr rows" "list_all (row_published pt) rows" "length rows \<le> MAX_WHEELS"
    using downloaded_rows [OF assms(1)] .
  obtain staged where staged: "stage_verified pt manifest artifacts = Inr staged" and installed: "install_into ie request rows staged = Inr installed"
    using assms(2) rows(1) by (auto simp: install_def res_bind_Inr_iff)
  have "list_all (\<lambda>(n, c). published pt n (pt_sha pt c) \<and> safe_wheel pt c) staged"
    using staged_verified [OF staged rows(1)] rows(2) by (fastforce simp: staged_from_def list_all_iff list_ex_iff row_published_def)
  moreover have "staged_bytes staged \<le> MAX_BYTES" using staged_verified [OF staged rows(1)] by (simp add: staged_from_def)
  moreover have "ia_staged installed = staged" "in_pip ie staged (ia_lines installed) = Inr ()" "ia_lines installed = map requirement_line rows"
    "ia_name installed \<notin> set (in_environments ie)"
    using installed by (auto simp: install_into_def Let_def res_bind_Inr_iff split: if_splits)
  ultimately show ?thesis using rows(3) by simp
qed

section \<open>Example\<close>

definition example_wheel :: string where "example_wheel = ''demo-1.0-py3-none-any.whl''"

definition example_tools :: package_tools where
  "example_tools = \<lparr> pt_sha = (\<lambda>s. replicate 64 (hd s)),
     pt_open = (\<lambda>_. Inr \<lparr> wa_members = [\<lparr> wm_name = ''demo-1.0.dist-info/METADATA'', wm_bytes = 100, wm_link = False \<rparr>],
        wa_name = ''demo'', wa_version = ''1.0'' \<rparr>),
     pt_pip = (\<lambda>_. Inr [(example_wheel, Regular ''abc'')]),
     pt_index = (\<lambda>_. Inr (''pypi.org'', JObj [(''urls'', JList [JObj [(''filename'', JStr example_wheel),
        (''digests'', JObj [(''sha256'', JStr (replicate 64 CHR ''a''))])]])])) \<rparr>"

definition wheel_request :: package_request where
  "wheel_request = \<lparr> pr_id = replicate 32 CHR ''b'', pr_owner = ''alice'', pr_specs = [''demo==1.0''], pr_environment = ''lab'' \<rparr>"

definition example_install :: install_env where
  "example_install = \<lparr> in_parent = None, in_environments = [''pkg-old''], in_kernels = [], in_venv = Inr (), in_pip = (\<lambda>_ _. Inr ()), in_managed = True \<rparr>"

definition wheel_manifest :: json where
  "wheel_manifest = download_result [wheel_row example_wheel (replicate 64 CHR ''a'') 3] 3"

lemma example_download: "download example_tools wheel_request [(replicate 32 CHR ''c'', Folder)] = Inr ([(example_wheel, Regular ''abc'')], wheel_manifest)"
  by code_simp

definition example_installation :: installation where
  "example_installation = \<lparr> ia_staged = [(example_wheel, ''abc'')], ia_lines = [requirement_line (wheel_row example_wheel (replicate 64 CHR ''a'') 3)],
     ia_name = install_name wheel_request, ia_result = install_result (install_name wheel_request) [wheel_row example_wheel (replicate 64 CHR ''a'') 3] \<rparr>"

lemma example_installed:
  "install example_tools example_install wheel_request wheel_manifest [(example_wheel, Regular ''abc''), (''other.whl'', Link)] =
     Inr example_installation"
  by code_simp

theorem installed_wheels_were_published_witness:
  "list_all (\<lambda>(n, c). published example_tools n (pt_sha example_tools c) \<and> safe_wheel example_tools c) [(example_wheel, ''abc'')]"
  using installed_wheels_were_published [OF example_download example_installed] by (simp add: example_installation_def)

text \<open>An artifact that was replaced after the download is refused.\<close>

lemma example_tampered:
  "stage_verified example_tools wheel_manifest [(example_wheel, Regular ''xyz'')] = Inl (ValueError ''Artifact changed after download'')"
  by code_simp

end
