(* ===== verification/Capacity_Worker.thy ===== *)
theory Capacity_Worker imports Capacity_Resources Capacity_Kube begin

text \<open>
  Provisioning and qualification of a fresh runtime pair by the worker, \<open>scripts/capacity_worker.py\<close>:
  the default service file, the comparison of a running pod with its template, the restricted inference
  credential, the private storage of a new pair, and the loop that waits until both runtimes qualify.
  Pods have the shape of Kubernetes objects (a missing key reads as \<open>JNull\<close>); the issuer, base 64,
  SHA-256 and the file system's replies are parameters.
\<close>

section \<open>The default services\<close>

text \<open>The control directory: the published file, if any.\<close>

definition default_services :: json where
  "default_services = JObj [(''allowed'', JBool False), (''services'', JObj [(''jupyter'', JObj
     [(''name'', JStr ''jupyter''), (''kind'', JStr ''jupyter''), (''cwd'', JStr ''/workspace''),
      (''argv'', JList [JStr ''jupyter'', JStr ''lab'']), (''port'', JInt 8888), (''enabled'', JBool True),
      (''generation'', JInt 1)])])]"

text \<open>Files of the directory by name.  The temporary file is complete before it is linked and always removed in
  the end, so it is not shown; \<open>os.link\<close> fails when the target exists.\<close>

type_synonym directory = "(string \<times> json) list"

definition initialize_services :: "string \<Rightarrow> unit res \<Rightarrow> unit res \<Rightarrow> directory \<Rightarrow> bool res \<times> directory" where
  "initialize_services temp write sync d =
     (if map_of d temp \<noteq> None then (Inl (OSError ''exists''), AList.delete temp d)
      else
        (case write of
           Inl e \<Rightarrow> (Inl e, d)
         | Inr _ \<Rightarrow>
             (if map_of d ''config.json'' \<noteq> None then (Inr False, d)
              else
                (let d' = AList.update ''config.json'' default_services d in
                 case sync of Inl e \<Rightarrow> (Inl e, d') | Inr _ \<Rightarrow> (Inr True, d')))))"

section \<open>The running pod\<close>

definition named_in :: "json list \<Rightarrow> json \<Rightarrow> json list" where
  "named_in xs name = filter (\<lambda>x. jget x ''name'' = name) xs"

definition namespaces_closed :: "json \<Rightarrow> bool" where
  "namespaces_closed spec = (jget spec ''automountServiceAccountToken'' = JBool False \<and>
     list_all (\<lambda>k. \<not> truthy (jget spec k)) [''hostNetwork'', ''hostPID'', ''shareProcessNamespace''])"

definition volume_safe :: "json \<Rightarrow> bool" where
  "volume_safe v = (\<not> jhas v ''hostPath'' \<and>
     list_all (\<lambda>x. \<not> jhas x ''serviceAccountToken'') (jlist (jget (jget v ''projected'') ''sources'')))"

text \<open>\<open>{e['name']: e for e in env}\<close>\<close>

definition env_by_name :: "json \<Rightarrow> json" where
  "env_by_name es = foldl (\<lambda>d e. case jget e ''name'' of JStr n \<Rightarrow> jset n e d | _ \<Rightarrow> d) (JObj []) (jlist es)"

definition same_or :: "string \<Rightarrow> json \<Rightarrow> json \<Rightarrow> json \<Rightarrow> bool" where
  "same_or k z a b = py_eq (get_or a k z) (get_or b k z)"

definition mount_matches :: "json \<Rightarrow> json \<Rightarrow> bool" where
  "mount_matches current m =
     (case filter (\<lambda>x. jget x ''mountPath'' = jget m ''mountPath'') (jlist (jget current ''volumeMounts'')) of
        [x] \<Rightarrow> same_or ''name'' JNull x m \<and> same_or ''subPath'' JNull x m \<and> same_or ''readOnly'' (JBool False) x m
      | _ \<Rightarrow> False)"

definition container_matches :: "json \<Rightarrow> json \<Rightarrow> bool" where
  "container_matches current c =
     (let security = jget current ''securityContext''; wanted = jget c ''securityContext'' in
      jget current ''image'' = jget c ''image'' \<and>
      jget security ''runAsNonRoot'' = JBool True \<and> jget security ''allowPrivilegeEscalation'' = JBool False \<and>
      JStr ''ALL'' \<in> set (jlist (jget (jget security ''capabilities'') ''drop'')) \<and>
      list_all (\<lambda>k. jhas wanted k \<longrightarrow> py_eq (jget security k) (jget wanted k)) [''runAsUser'', ''runAsGroup'', ''readOnlyRootFilesystem''] \<and>
      py_eq (jget current ''command'') (jget c ''command'') \<and> py_eq (jget current ''args'') (jget c ''args'') \<and>
      py_eq (env_by_name (jget current ''env'')) (env_by_name (jget c ''env'')) \<and>
      length (jlist (jget current ''volumeMounts'')) = length (jlist (jget c ''volumeMounts'')) \<and>
      list_all (mount_matches current) (jlist (jget c ''volumeMounts'')))"

definition source_matches :: "json \<Rightarrow> json \<Rightarrow> string \<Rightarrow> string \<Rightarrow> bool" where
  "source_matches actual v field name =
     (jhas v field \<longrightarrow>
        (case named_in (jlist (jget actual ''volumes'')) (jget v ''name'') of
           [x] \<Rightarrow> py_eq (jget (jget x field) name) (jget (jget v field) name)
         | _ \<Rightarrow> False))"

definition volume_matches :: "json \<Rightarrow> json \<Rightarrow> bool" where
  "volume_matches actual v =
     (source_matches actual v ''configMap'' ''name'' \<and> source_matches actual v ''secret'' ''secretName'' \<and>
      source_matches actual v ''persistentVolumeClaim'' ''claimName'')"

definition image_digest_part :: "json \<Rightarrow> string" where
  "image_digest_part v = (case v of JStr s \<Rightarrow> last (split_char CHR ''@'' s) | _ \<Rightarrow> [])"

definition container_ready :: "json \<Rightarrow> json \<Rightarrow> bool" where
  "container_ready pod c =
     list_ex (\<lambda>s. jget s ''name'' = jget c ''name'' \<and> truthy (jget s ''ready'') \<and>
         endswith (image_digest_part (jget c ''image'')) (case jget s ''imageID'' of JStr i \<Rightarrow> i | _ \<Rightarrow> []))
       (jlist (jget (jget pod ''status'') ''containerStatuses''))"

definition validate_runtime :: "json \<Rightarrow> json \<Rightarrow> bool" where
  "validate_runtime pod expected =
     (let actual = jget pod ''spec''; wanted = jget (pod_template expected) ''spec'';
          running = jlist (jget actual ''containers''); declared = jlist (jget wanted ''containers'') in
      namespaces_closed actual \<and>
      set (map (\<lambda>c. jget c ''name'') running) = set (map (\<lambda>c. jget c ''name'') declared) \<and>
      list_all volume_safe (jlist (jget actual ''volumes'')) \<and>
      list_all (\<lambda>c. case named_in running (jget c ''name'') of current # _ \<Rightarrow> container_matches current c | [] \<Rightarrow> False) declared \<and>
      list_all (volume_matches actual) (jlist (jget wanted ''volumes'')) \<and>
      list_all (container_ready pod) declared)"

section \<open>The restricted credential\<close>

datatype issuer_call = Issuer string string "json option"

datatype credential_event = Call issuer_call "int \<times> json" | Persist string

record credential_world =
  cw_trace :: "credential_event list"

record credential_env =
  ci_secret :: "json res"
  ci_decode :: "json \<Rightarrow> string res"
  ci_fresh :: string
  ci_ensure :: "unit res"
  ci_master :: "string res"
  ci_sha :: "string \<Rightarrow> string"
  ci_call :: "issuer_call \<Rightarrow> (int \<times> json) res"

definition issuer :: "credential_env \<Rightarrow> string \<Rightarrow> string \<Rightarrow> json option \<Rightarrow> (credential_world, int \<times> json) io" where
  "issuer ci endpoint bearer bdy w =
     (case ci_call ci (Issuer endpoint bearer bdy) of
        Inl e \<Rightarrow> (Inl e, w)
      | Inr r \<Rightarrow> (Inr r, w\<lparr> cw_trace := cw_trace w @ [Call (Issuer endpoint bearer bdy) r] \<rparr>))"

definition persist_token :: "credential_env \<Rightarrow> string \<Rightarrow> (credential_world, unit) io" where
  "persist_token ci token w =
     (case ci_ensure ci of
        Inl e \<Rightarrow> (Inl e, w)
      | Inr _ \<Rightarrow> (Inr (), w\<lparr> cw_trace := cw_trace w @ [Persist token] \<rparr>))"

definition planned_token :: "credential_env \<Rightarrow> string \<Rightarrow> (credential_world, string) io" where
  "planned_token ci field =
     io_bind (io_lift (ci_secret ci)) (\<lambda>existing.
     if truthy existing then
       (if jget (jget (jget existing ''metadata'') ''labels'') managed_label \<noteq> JStr ''true''
        then io_raise (ValueError ''Secret collision'')
        else io_lift (res_bind (py_idx (jget existing ''data'') field) (ci_decode ci)))
     else io_bind (persist_token ci (''sk-'' @ ci_fresh ci)) (\<lambda>_. io_return (''sk-'' @ ci_fresh ci)))"

definition MODEL_NAME :: json where "MODEL_NAME = JStr ''deepseek-v4.1-flash''"

definition allowed_routes :: json where
  "allowed_routes = JList (map JStr [''/v1/messages'', ''/messages'', ''/v1/chat/completions'', ''/chat/completions'', ''/v1/models'',
     ''/models'', ''/token/count'', ''/utils/token_counter''])"

definition generate_body :: "string \<Rightarrow> string \<Rightarrow> json" where
  "generate_body token name =
     JObj [(''key'', JStr token), (''key_alias'', JStr name), (''models'', JList [MODEL_NAME]), (''allowed_routes'', allowed_routes),
       (''metadata'', JObj [(''purpose'', JStr ''Private DSH automatic provisioning; inference only'')])]"

definition must :: "bool \<Rightarrow> exn \<Rightarrow> (credential_world, unit) io" where
  "must b e = io_lift (require b e)"

text \<open>The lookup names the key by its digest.  The key is issued only when the issuer does not know it.\<close>

definition lookup_endpoint :: "credential_env \<Rightarrow> string \<Rightarrow> string" where
  "lookup_endpoint ci token = ''/key/info?key='' @ ci_sha ci token"

definition issue_key :: "credential_env \<Rightarrow> string \<Rightarrow> string \<Rightarrow> string \<Rightarrow> (credential_world, unit) io" where
  "issue_key ci name token master =
     io_bind (issuer ci (lookup_endpoint ci token) master None) (\<lambda>(status, info).
     if status = 200 then
       must (jget (jget info ''info'') ''models'' = JList [MODEL_NAME])
         (ValueError ''Existing inference credential has unexpected model scope'')
     else
       io_bind (must (status \<in> {400, 401, 404}) (RuntimeError ''Credential issuer is unavailable'')) (\<lambda>_.
       io_bind (issuer ci ''/key/generate'' master (Some (generate_body token name))) (\<lambda>(status', out).
       must (status' = 200 \<and> jget out ''key'' = JStr token) (RuntimeError ''Planned inference credential was not issued''))))"

definition refused_call :: "credential_env \<Rightarrow> string \<Rightarrow> string \<Rightarrow> json \<Rightarrow> string \<Rightarrow> (credential_world, unit) io" where
  "refused_call ci endpoint token bdy e =
     io_bind (issuer ci endpoint token (Some bdy)) (\<lambda>(status, _). must (status \<in> {401, 403}) (ValueError e))"

definition user_message :: "string \<Rightarrow> json" where
  "user_message t = JList [JObj [(''role'', JStr ''user''), (''content'', JStr t)]]"

definition foreign_model_body :: json where
  "foreign_model_body = JObj [(''model'', JStr ''claude-opus-4-6''), (''max_tokens'', JInt 1), (''messages'', user_message ''Restriction check'')]"

definition probe_text :: string where "probe_text = ''Reply exactly CAPACITY_KEY_OK''"

definition messages_body :: json where
  "messages_body = JObj [(''model'', MODEL_NAME), (''max_tokens'', JInt 128), (''thinking'', JObj [(''type'', JStr ''disabled'')]),
     (''messages'', user_message probe_text)]"

definition chat_body :: json where
  "chat_body = JObj [(''model'', MODEL_NAME), (''max_tokens'', JInt 32), (''temperature'', JInt 0),
     (''chat_template_kwargs'', JObj [(''enable_thinking'', JBool False)]), (''messages'', user_message probe_text)]"

definition text_part :: "json \<Rightarrow> string res" where
  "text_part v = (case v of JStr s \<Rightarrow> Inr s | _ \<Rightarrow> Inl (TypeError ''str''))"

definition reply_text :: "bool \<Rightarrow> json \<Rightarrow> json res" where
  "reply_text messages out =
     (if messages
      then res_bind (res_map (\<lambda>v. text_part (get_or v ''text'' (JStr []))) (jlist (get_or out ''content'' (JList [])))) (\<lambda>ts. Inr (JStr (concat ts)))
      else (case jlist (get_or out ''choices'' (JList [JObj []])) of
              [] \<Rightarrow> Inl (IndexError ''choices'')
            | c # _ \<Rightarrow> Inr (get_or (jget c ''message'') ''content'' (JStr []))))"

definition probe_inference :: "credential_env \<Rightarrow> string \<Rightarrow> bool \<Rightarrow> (credential_world, unit) io" where
  "probe_inference ci token messages =
     io_bind (issuer ci (if messages then ''/v1/messages'' else ''/v1/chat/completions'') token
       (Some (if messages then messages_body else chat_body))) (\<lambda>(status, out).
     io_bind (io_lift (reply_text messages out)) (\<lambda>v.
     if status \<noteq> 200 then io_raise (RuntimeError ''Fresh restricted credential inference failed'')
     else
       (case v of
          JStr s \<Rightarrow> must (strip s = ''CAPACITY_KEY_OK'') (RuntimeError ''Fresh restricted credential inference failed'')
        | _ \<Rightarrow> io_raise (AttributeError ''strip''))))"

definition credential :: "credential_env \<Rightarrow> string \<Rightarrow> string \<Rightarrow> bool \<Rightarrow> (credential_world, unit) io" where
  "credential ci name field messages =
     io_bind (planned_token ci field) (\<lambda>token.
     io_bind (io_lift (ci_master ci)) (\<lambda>master.
     io_bind (issue_key ci name token master) (\<lambda>_.
     io_bind (refused_call ci ''/key/generate'' token (JObj []) ''Issued credential permits administration'') (\<lambda>_.
     io_bind (refused_call ci ''/model/new'' token (JObj []) ''Issued credential permits administration'') (\<lambda>_.
     io_bind (refused_call ci ''/v1/chat/completions'' token foreign_model_body ''Issued credential permits an unapproved model'') (\<lambda>_.
     probe_inference ci token messages))))))"

section \<open>Private storage\<close>

text \<open>Central folders by path: whether the folder holds anything.  The ledger records that the pair's folders
  were made; a crash in between leaves it unset.\<close>

record slot_world =
  sl_folders :: "(string \<times> bool) list"
  sl_initialized :: bool

definition private_leaves :: "string list" where
  "private_leaves = [''secure'', ''state/sessions'', ''state/attachments'', ''state/storages'', ''state/workspaces'', ''state/logs'']"

definition private_path :: "string \<Rightarrow> string \<Rightarrow> bool" where
  "private_path identity p = (p \<in> set (map (\<lambda>leaf. ''dsh/private/'' @ identity @ ''/'' @ leaf) private_leaves))"

fun make_folders :: "string \<Rightarrow> string list \<Rightarrow> slot_world \<Rightarrow> unit res \<times> slot_world" where
  "make_folders identity [] w = (Inr (), w\<lparr> sl_initialized := True \<rparr>)"
| "make_folders identity (p # ps) w =
     (if \<not> private_path identity p then (Inl (ValueError ''Unexpected central path''), w)
      else
        (case map_of (sl_folders w) p of
           Some True \<Rightarrow> (Inl (ValueError ''Non-empty new private path''), w)
         | Some False \<Rightarrow> make_folders identity ps w
         | None \<Rightarrow> make_folders identity ps (w\<lparr> sl_folders := (p, False) # sl_folders w \<rparr>)))"

definition valid_slot :: "string \<Rightarrow> bool" where
  "valid_slot s = (startswith ''cap-'' s \<and> hex_id 16 (take 16 (drop 4 s)) \<and> drop 20 s = ''-01'')"

definition prepare_storage :: "(string \<Rightarrow> string) \<Rightarrow> (string list \<times> string list) res \<Rightarrow> string \<Rightarrow> slot_world \<Rightarrow> unit res \<times> slot_world" where
  "prepare_storage sha generated slot w =
     (if \<not> valid_slot slot then (Inl (ValueError ''Invalid slot''), w)
      else
        (case generated of
           Inl e \<Rightarrow> (Inl e, w)
         | Inr (slots, paths) \<Rightarrow>
             if slots \<noteq> [slot] then (Inl (ValueError ''Slot generation mismatch''), w)
             else if sl_initialized w then (Inr (), w)
             else make_folders (take 16 (sha slot)) paths w))"

section \<open>Qualification\<close>

text \<open>What one look at one runtime of the pair sees.  The deployment it is compared with is a lookup by name.\<close>

record runtime_look =
  rl_deployment :: "json res"
  rl_pods :: "json res"
  rl_qualification :: "json res"
  rl_now :: rat
  rl_token :: "string res"
  rl_history :: "string \<Rightarrow> unit res"

text \<open>The inner block: \<open>Inr False\<close> is not ready yet.  The exceptions of the readings that the code catches
  make the pair not ready.\<close>

definition qualified_look :: "runtime_look \<Rightarrow> bool res" where
  "qualified_look l =
     res_bind (rl_qualification l) (\<lambda>q.
     if \<not> truthy (jget q ''passed'') then Inr False
     else
       res_bind (py_idx q ''observedAt'') (\<lambda>t.
       case jnum t of
         None \<Rightarrow> Inl (TypeError ''-'')
       | Some seen \<Rightarrow>
           if rl_now l - seen > 600 then Inr False
           else res_bind (rl_token l) (\<lambda>token. res_bind (rl_history l (strip token)) (\<lambda>_. Inr True))))"

definition caught_look :: "bool res \<Rightarrow> bool res" where
  "caught_look r =
     (case r of
        Inl (OSError _) \<Rightarrow> Inr False
      | Inl (ValueError _) \<Rightarrow> Inr False
      | Inl (RuntimeError _) \<Rightarrow> Inr False
      | Inl (TimeoutError _) \<Rightarrow> Inr False
      | x \<Rightarrow> x)"

definition runtime_ready :: "json res \<Rightarrow> runtime_look \<Rightarrow> bool res" where
  "runtime_ready expected l =
     res_bind (rl_deployment l) (\<lambda>d.
     if \<not> truthy d \<or> \<not> py_eq (get_or (jget d ''status'') ''readyReplicas'' (JInt 0)) (JInt 1) then Inr False
     else
       res_bind (rl_pods l) (\<lambda>reply.
       case filter (\<lambda>p. \<not> truthy (jget (jget p ''metadata'') ''deletionTimestamp'')) (jlist (jget reply ''items'')) of
         [pod] \<Rightarrow> res_bind expected (\<lambda>wanted. if \<not> validate_runtime pod wanted then Inr False else caught_look (qualified_look l))
       | _ \<Rightarrow> Inr False))"

text \<open>One round looks at the runtimes in order and stops at the first that is not ready.\<close>

fun pair_ready :: "(json res \<times> runtime_look) list \<Rightarrow> bool res" where
  "pair_ready [] = Inr True"
| "pair_ready ((expected, l) # rest) =
     res_bind (runtime_ready expected l) (\<lambda>ok. if ok then pair_ready rest else Inr False)"

text \<open>The loop: one entry per round that begins before the deadline.\<close>

fun await_pair :: "(json res \<times> runtime_look) list list \<Rightarrow> unit res" where
  "await_pair [] = Inl (RuntimeError ''New runtime pair did not qualify before deadline'')"
| "await_pair (round1 # rounds) =
     res_bind (pair_ready round1) (\<lambda>ready. if ready then Inr () else await_pair rounds)"

text \<open>\<open>empty_history\<close>: the two replies of the runtime.\<close>

record history_replies =
  hr_cookies :: "string list res"
  hr_list :: "(int \<times> json) res"

definition auth_cookies :: "string list \<Rightarrow> string list" where
  "auth_cookies vs = map (before_char CHR '';'') (filter (startswith ''dsh-auth-'') vs)"

definition empty_history :: "history_replies \<Rightarrow> unit res" where
  "empty_history hr =
     res_bind (hr_cookies hr) (\<lambda>vs.
     if auth_cookies vs = [] then Inl (RuntimeError ''Private DSH authentication failed'')
     else
       res_bind (hr_list hr) (\<lambda>(status, v).
       if status \<noteq> 200 \<or> jget (jget v ''result'') ''ok'' \<noteq> JBool True \<or>
          jget (jget (jget v ''result'') ''value'') ''items'' \<noteq> JList []
       then Inl (RuntimeError ''Fresh private runtime inherited sessions or cannot list history'')
       else Inr ()))"

section \<open>Properties of the parts\<close>

subsection \<open>Services\<close>

lemma services_never_overwritten:
  assumes "initialize_services temp write sync d = (r, d')" "temp \<noteq> ''config.json''" "map_of d ''config.json'' = Some v"
  shows "map_of d' ''config.json'' = Some v" "r \<noteq> Inr True"
  using assms by (auto simp: initialize_services_def map_of_delete split: if_splits sum.splits)

lemma services_start_stopped: "jget default_services ''allowed'' = JBool False"
  by (simp add: default_services_def)

subsection \<open>Credentials\<close>

lemma planned_token_wp:
  "io_wp (planned_token ci field)
     (\<lambda>token w'. if \<exists>v. ci_secret ci = Inr v \<and> truthy v then w' = w else w' = w\<lparr> cw_trace := cw_trace w @ [Persist token] \<rparr>)
     (\<lambda>w'. w' = w) w"
  by (auto simp: planned_token_def persist_token_def wp_rules io_wp_def io_bind_def split: sum.splits)

text \<open>The calls a provisioning may make, given its token and the master key.\<close>

definition master_call :: "credential_env \<Rightarrow> string \<Rightarrow> string \<Rightarrow> string \<Rightarrow> issuer_call \<Rightarrow> bool" where
  "master_call ci name token master c =
     (c = Issuer (lookup_endpoint ci token) master None \<or> c = Issuer ''/key/generate'' master (Some (generate_body token name)))"

definition token_call :: "string \<Rightarrow> bool \<Rightarrow> issuer_call \<Rightarrow> bool" where
  "token_call token messages c =
     (c \<in> {Issuer ''/key/generate'' token (Some (JObj [])), Issuer ''/model/new'' token (Some (JObj [])),
           Issuer ''/v1/chat/completions'' token (Some foreign_model_body),
           Issuer (if messages then ''/v1/messages'' else ''/v1/chat/completions'') token (Some (if messages then messages_body else chat_body))})"

definition issuer_calls :: "credential_event list \<Rightarrow> issuer_call list" where
  "issuer_calls es = concat (map (\<lambda>e. case e of Call c _ \<Rightarrow> [c] | Persist _ \<Rightarrow> []) es)"

lemma issuer_calls_simps [simp]:
  "issuer_calls [] = []" "issuer_calls (Call c r # es) = c # issuer_calls es" "issuer_calls (Persist t # es) = issuer_calls es"
  "issuer_calls (es @ fs) = issuer_calls es @ issuer_calls fs"
  by (simp_all add: issuer_calls_def)

text \<open>What the trace shows when the credential was accepted: the issuer knows the key with the one model, the three
  forbidden calls were denied_call, the probe was answered.\<close>

definition issued :: "credential_env \<Rightarrow> string \<Rightarrow> string \<Rightarrow> string \<Rightarrow> credential_event list \<Rightarrow> bool" where
  "issued ci name token master es =
     (\<exists>status info out. let lookup = Call (Issuer (lookup_endpoint ci token) master None) (status, info) in
        es = [lookup] \<and> status = 200 \<and> jget (jget info ''info'') ''models'' = JList [MODEL_NAME] \<or>
        es = [lookup, Call (Issuer ''/key/generate'' master (Some (generate_body token name))) (200, out)] \<and>
          status \<in> {400, 401, 404} \<and> jget out ''key'' = JStr token)"

definition denied_call :: "string \<Rightarrow> string \<Rightarrow> json \<Rightarrow> credential_event \<Rightarrow> bool" where
  "denied_call token endpoint bdy e = (\<exists>status out. e = Call (Issuer endpoint token (Some bdy)) (status, out) \<and> status \<in> {401, 403})"

definition answered :: "string \<Rightarrow> bool \<Rightarrow> credential_event \<Rightarrow> bool" where
  "answered token messages e =
     (\<exists>out s. e = Call (Issuer (if messages then ''/v1/messages'' else ''/v1/chat/completions'') token
           (Some (if messages then messages_body else chat_body))) (200, out) \<and>
        reply_text messages out = Inr (JStr s) \<and> strip s = ''CAPACITY_KEY_OK'')"

lemma issuer_wp [wp_rules]:
  "io_wp (issuer ci endpoint bearer bdy) Q E w =
     (case ci_call ci (Issuer endpoint bearer bdy) of Inl _ \<Rightarrow> E w
      | Inr r \<Rightarrow> Q r (w\<lparr> cw_trace := cw_trace w @ [Call (Issuer endpoint bearer bdy) r] \<rparr>))"
  by (simp add: io_wp_def issuer_def split: sum.split)

lemma must_wp [wp_rules]: "io_wp (must b e) Q E w = (if b then Q () w else E w)"
  by (simp add: must_def require_def wp_rules)

text \<open>Each part extends the trace by events of one kind.\<close>

definition extends :: "(credential_event list \<Rightarrow> bool) \<Rightarrow> credential_world \<Rightarrow> credential_world \<Rightarrow> bool" where
  "extends P w w' = (\<exists>es. w' = w\<lparr> cw_trace := cw_trace w @ es \<rparr> \<and> P es)"

lemma extends_self [simp]: "P [] \<Longrightarrow> extends P w w"
  by (auto simp: extends_def intro!: exI [of _ "[]"])

lemma extends_add: "P es \<Longrightarrow> extends P w (w\<lparr> cw_trace := cw_trace w @ es \<rparr>)"
  by (auto simp: extends_def)

lemma issue_key_wp:
  "io_wp (issue_key ci name token master) (\<lambda>_. extends (issued ci name token master) w)
     (extends (\<lambda>es. list_all (master_call ci name token master) (issuer_calls es)) w) w"
proof -
  let ?l = "Issuer (lookup_endpoint ci token) master None" and ?g = "Issuer ''/key/generate'' master (Some (generate_body token name))"
  have ok: "master_call ci name token master ?l" "master_call ci name token master ?g" by (simp_all add: master_call_def)
  have one: "extends (\<lambda>es. list_all (master_call ci name token master) (issuer_calls es)) w (w\<lparr> cw_trace := cw_trace w @ [Call ?l r] \<rparr>)" for r
    by (rule extends_add) (simp add: ok)
  have two: "extends (\<lambda>es. list_all (master_call ci name token master) (issuer_calls es)) w (w\<lparr> cw_trace := cw_trace w @ [Call ?l r, Call ?g r'] \<rparr>)" for r r'
    by (rule extends_add) (simp add: ok)
  have done1: "extends (issued ci name token master) w (w\<lparr> cw_trace := cw_trace w @ [Call ?l (200, info)] \<rparr>)"
    if "jget (jget info ''info'') ''models'' = JList [MODEL_NAME]" for info
    using that by (intro extends_add) (auto simp: issued_def)
  have done2: "extends (issued ci name token master) w (w\<lparr> cw_trace := cw_trace w @ [Call ?l (status, info), Call ?g (200, out)] \<rparr>)"
    if "status \<in> {400, 401, 404}" "jget out ''key'' = JStr token" for status info out
    using that by (intro extends_add) (auto simp: issued_def Let_def)
  show ?thesis
    unfolding issue_key_def
    by (simp add: wp_rules split: sum.split prod.split) (auto intro: one two done1 done2)
qed

lemma refused_call_wp:
  "io_wp (refused_call ci endpoint token bdy e) (\<lambda>_. extends (\<lambda>es. \<exists>x. es = [x] \<and> denied_call token endpoint bdy x) w)
     (extends (\<lambda>es. list_all (\<lambda>c. c = Issuer endpoint token (Some bdy)) (issuer_calls es)) w) w"
proof (cases "ci_call ci (Issuer endpoint token (Some bdy))")
  case (Inr r)
  obtain status out where r: "r = (status, out)" by (cases r)
  let ?w = "w\<lparr> cw_trace := cw_trace w @ [Call (Issuer endpoint token (Some bdy)) r] \<rparr>"
  have "extends (\<lambda>es. \<exists>x. es = [x] \<and> denied_call token endpoint bdy x) w ?w" if "status \<in> {401, 403}"
    using that by (intro extends_add) (auto simp: denied_call_def r)
  moreover have "extends (\<lambda>es. list_all (\<lambda>c. c = Issuer endpoint token (Some bdy)) (issuer_calls es)) w ?w"
    by (rule extends_add) simp
  ultimately show ?thesis
    unfolding refused_call_def wp_rules Inr sum.case unfolding r prod.case wp_rules by simp
qed (simp add: refused_call_def wp_rules)

lemma probe_inference_wp:
  "io_wp (probe_inference ci token messages) (\<lambda>_. extends (\<lambda>es. \<exists>x. es = [x] \<and> answered token messages x) w)
     (extends (\<lambda>es. list_all (token_call token messages) (issuer_calls es)) w) w"
proof -
  define c where "c = Issuer (if messages then ''/v1/messages'' else ''/v1/chat/completions'') token (Some (if messages then messages_body else chat_body))"
  have call: "token_call token messages c" by (simp add: token_call_def c_def)
  show ?thesis
  proof (cases "ci_call ci c")
    case (Inr r)
    obtain status out where r: "r = (status, out)" by (cases r)
    let ?w = "w\<lparr> cw_trace := cw_trace w @ [Call c (status, out)] \<rparr>"
    have good: "extends (\<lambda>es. \<exists>x. es = [x] \<and> answered token messages x) w ?w"
      if "status = 200" "reply_text messages out = Inr (JStr s)" "strip s = ''CAPACITY_KEY_OK''" for s
      by (rule extends_add) (use that in \<open>auto simp: answered_def c_def\<close>)
    have bad: "extends (\<lambda>es. list_all (token_call token messages) (issuer_calls es)) w (w\<lparr> cw_trace := cw_trace w @ [Call c r] \<rparr>)" for r
      by (rule extends_add) (use call in simp)
    show ?thesis
      unfolding probe_inference_def wp_rules c_def [symmetric] Inr sum.case unfolding r prod.case wp_rules
    proof (cases "reply_text messages out")
      case (Inr v)
      show "case reply_text messages out of Inl e \<Rightarrow> extends (\<lambda>es. list_all (token_call token messages) (issuer_calls es)) w ?w
        | Inr x \<Rightarrow> if status \<noteq> 200 then extends (\<lambda>es. list_all (token_call token messages) (issuer_calls es)) w ?w
          else io_wp (case x of JStr s \<Rightarrow> must (strip s = ''CAPACITY_KEY_OK'') (RuntimeError ''Fresh restricted credential inference failed'')
            | _ \<Rightarrow> io_raise (AttributeError ''strip'')) (\<lambda>_. extends (\<lambda>es. \<exists>x. es = [x] \<and> answered token messages x) w)
             (extends (\<lambda>es. list_all (token_call token messages) (issuer_calls es)) w) ?w"
        using bad good [of _] Inr by (cases v) (simp_all add: wp_rules)
    qed (simp add: bad)
  qed (simp add: probe_inference_def wp_rules c_def [symmetric])
qed

lemma wp_Inr: "io_wp m (\<lambda>_. extends P w) E w \<Longrightarrow> m w = (Inr x, w') \<Longrightarrow> extends P w w'"
  by (simp add: io_wp_def)

lemma extendsE:
  assumes "extends P w w'"
  obtains es where "cw_trace w' = cw_trace w @ es" "P es"
  using assms by (auto simp: extends_def)

text \<open>Whatever the outcome, the calls made are among the intended ones.\<close>

definition intended :: "credential_env \<Rightarrow> string \<Rightarrow> string \<Rightarrow> string \<Rightarrow> bool \<Rightarrow> issuer_call \<Rightarrow> bool" where
  "intended ci name token master messages c = (master_call ci name token master c \<or> token_call token messages c)"

abbreviation only_intended where
  "only_intended ci name token master messages \<equiv> extends (\<lambda>es. list_all (intended ci name token master messages) (issuer_calls es))"

lemma only_intended_trans:
  "only_intended ci name token master messages a b \<Longrightarrow> only_intended ci name token master messages b c \<Longrightarrow>
   only_intended ci name token master messages a c"
  by (auto simp: extends_def)

lemma extends_mono: "extends P w w' \<Longrightarrow> (\<And>es. P es \<Longrightarrow> Q es) \<Longrightarrow> extends Q w w'"
  by (auto simp: extends_def)

lemma keeps_if_wp:
  assumes "\<And>w. io_wp m (\<lambda>_. extends P w) (extends P' w) w"
    and "\<And>es. P es \<Longrightarrow> Q es" "\<And>es. P' es \<Longrightarrow> Q es"
  shows "io_keeps (extends Q) m"
  unfolding io_keeps_def
proof
  fix w
  have "io_wp m (\<lambda>_. extends Q w) (extends Q w) w"
    by (rule io_wp_mono [OF assms(1)]) (auto elim: extends_mono intro: assms(2,3))
  then show "extends Q w (snd (m w))" by (rule io_wp_snd)
qed

lemma parts_keep:
  "io_keeps (only_intended ci name token master messages) (issue_key ci name token master)"
  "io_keeps (only_intended ci name token master messages) (refused_call ci ''/key/generate'' token (JObj []) e)"
  "io_keeps (only_intended ci name token master messages) (refused_call ci ''/model/new'' token (JObj []) e)"
  "io_keeps (only_intended ci name token master messages) (refused_call ci ''/v1/chat/completions'' token foreign_model_body e)"
  "io_keeps (only_intended ci name token master messages) (probe_inference ci token messages)"
proof -
  have call: "intended ci name token master messages (Issuer x token (Some b))"
    if "token_call token messages (Issuer x token (Some b))" for x b using that by (simp add: intended_def)
  have refusal: "io_keeps (only_intended ci name token master messages) (refused_call ci x token b e)"
    if "token_call token messages (Issuer x token (Some b))" for x b
    by (rule keeps_if_wp [OF refused_call_wp])
       (use call [OF that] in \<open>auto simp: denied_call_def list_all_iff\<close>)
  show "io_keeps (only_intended ci name token master messages) (refused_call ci ''/key/generate'' token (JObj []) e)"
    "io_keeps (only_intended ci name token master messages) (refused_call ci ''/model/new'' token (JObj []) e)"
    "io_keeps (only_intended ci name token master messages) (refused_call ci ''/v1/chat/completions'' token foreign_model_body e)"
    by (rule refusal, simp add: token_call_def)+
  show "io_keeps (only_intended ci name token master messages) (issue_key ci name token master)"
    by (rule keeps_if_wp [OF issue_key_wp])
       (auto simp: issued_def Let_def intended_def master_call_def list_all_iff)
  show "io_keeps (only_intended ci name token master messages) (probe_inference ci token messages)"
    by (rule keeps_if_wp [OF probe_inference_wp])
       (auto simp: answered_def intended_def token_call_def list_all_iff)
qed

text \<open>Whatever the issuer and the cluster answer, provisioning a credential never sends a fresh token before the token
  was persisted as a new Secret, presents the master key only to look the key up by its digest and to generate that key for
  the one model and the inference routes, and makes no other call than these and the four probes with the token itself.\<close>

theorem credential_calls_are_confined:
  assumes "credential ci name field messages \<lparr> cw_trace = [] \<rparr> = (r, w')"
  shows "\<exists>token persisted es. cw_trace w' = persisted @ es \<and> (persisted = [] \<or> persisted = [Persist token]) \<and>
     (es \<noteq> [] \<longrightarrow> (persisted = [] \<longleftrightarrow> (\<exists>v. ci_secret ci = Inr v \<and> truthy v)) \<and>
        (\<exists>master. ci_master ci = Inr master \<and> list_all (intended ci name token master messages) (issuer_calls es)))"
proof -
  let ?w = "\<lparr> cw_trace = [] \<rparr>"
  show ?thesis
    using assms unfolding credential_def
  proof (cases rule: io_bindE)
    case (1 e)
    then show ?thesis using io_wpD(2) [OF planned_token_wp 1(1)] by simp
  next
    case (2 token w1)
    note p = io_wpD(1) [OF planned_token_wp 2(1)]
    show ?thesis
      using 2(2)
    proof (cases rule: io_bindE)
      case (1 e)
      then show ?thesis using p by (auto split: if_splits)
    next
      case second: (2 master w2)
      have eq: "w2 = w1" "ci_master ci = Inr master" using second(1) by auto
      let ?R = "only_intended ci name token master messages"
      have "io_keeps ?R (io_bind (issue_key ci name token master) (\<lambda>_.
        io_bind (refused_call ci ''/key/generate'' token (JObj []) ''Issued credential permits administration'') (\<lambda>_.
        io_bind (refused_call ci ''/model/new'' token (JObj []) ''Issued credential permits administration'') (\<lambda>_.
        io_bind (refused_call ci ''/v1/chat/completions'' token foreign_model_body ''Issued credential permits an unapproved model'') (\<lambda>_.
        probe_inference ci token messages)))))"
        by (rule io_keeps_bind [where R = ?R], rule parts_keep)+ (auto intro: parts_keep only_intended_trans)
      from io_keepsD [OF this second(2)] have "?R w1 w'" by (simp only: eq)
      then obtain es where "cw_trace w' = cw_trace w1 @ es" "list_all (intended ci name token master messages) (issuer_calls es)"
        by (rule extendsE)
      moreover have "cw_trace w1 = (if \<exists>v. ci_secret ci = Inr v \<and> truthy v then [] else [Persist token])"
        using p by (auto split: if_splits)
      ultimately show ?thesis
        using eq(2) by (intro exI [of _ token] exI [of _ "cw_trace w1"] exI [of _ es]) auto
    qed
  qed
qed

text \<open>A credential the worker accepts was persisted first, is known to the issuer for exactly the one model (already,
  or by one generation after a lookup that did not find it), was denied_call by both administrative calls and for a foreign
  model, and answered the probe exactly.\<close>

theorem accepted_credential_is_restricted:
  assumes "credential ci name field messages \<lparr> cw_trace = [] \<rparr> = (Inr (), w')"
  shows "\<exists>token master persisted issuance generate new foreign probe.
     cw_trace w' = persisted @ issuance @ [generate, new, foreign, probe] \<and>
     persisted = (if \<exists>v. ci_secret ci = Inr v \<and> truthy v then [] else [Persist token]) \<and>
     ci_master ci = Inr master \<and> issued ci name token master issuance \<and>
     denied_call token ''/key/generate'' (JObj []) generate \<and> denied_call token ''/model/new'' (JObj []) new \<and>
     denied_call token ''/v1/chat/completions'' foreign_model_body foreign \<and> answered token messages probe"
proof -
  obtain token w1 where t: "planned_token ci field \<lparr> cw_trace = [] \<rparr> = (Inr token, w1)"
    and r1: "io_bind (io_lift (ci_master ci)) (\<lambda>master. io_bind (issue_key ci name token master) (\<lambda>_.
      io_bind (refused_call ci ''/key/generate'' token (JObj []) ''Issued credential permits administration'') (\<lambda>_.
      io_bind (refused_call ci ''/model/new'' token (JObj []) ''Issued credential permits administration'') (\<lambda>_.
      io_bind (refused_call ci ''/v1/chat/completions'' token foreign_model_body ''Issued credential permits an unapproved model'') (\<lambda>_.
      probe_inference ci token messages))))) w1 = (Inr (), w')"
    using assms unfolding credential_def by (auto elim!: io_bindE)
  obtain master where m: "ci_master ci = Inr master" using r1 by (cases "ci_master ci") auto
  obtain w2 w3 w4 w5 where steps: "issue_key ci name token master w1 = (Inr (), w2)"
    "refused_call ci ''/key/generate'' token (JObj []) ''Issued credential permits administration'' w2 = (Inr (), w3)"
    "refused_call ci ''/model/new'' token (JObj []) ''Issued credential permits administration'' w3 = (Inr (), w4)"
    "refused_call ci ''/v1/chat/completions'' token foreign_model_body ''Issued credential permits an unapproved model'' w4 = (Inr (), w5)"
    "probe_inference ci token messages w5 = (Inr (), w')"
    using r1 unfolding io_bind_lift m sum.case by (auto elim!: io_bindE)
  note p = io_wpD(1) [OF planned_token_wp t]
  have "cw_trace w1 = (if \<exists>v. ci_secret ci = Inr v \<and> truthy v then [] else [Persist token])"
    using p by (auto split: if_splits)
  moreover obtain issuance where "cw_trace w2 = cw_trace w1 @ issuance" "issued ci name token master issuance"
    by (rule extendsE [OF wp_Inr [OF issue_key_wp steps(1)]])
  moreover obtain generate where "cw_trace w3 = cw_trace w2 @ [generate]" "denied_call token ''/key/generate'' (JObj []) generate"
    by (rule extendsE [OF wp_Inr [OF refused_call_wp steps(2)]]) auto
  moreover obtain new where "cw_trace w4 = cw_trace w3 @ [new]" "denied_call token ''/model/new'' (JObj []) new"
    by (rule extendsE [OF wp_Inr [OF refused_call_wp steps(3)]]) auto
  moreover obtain foreign where "cw_trace w5 = cw_trace w4 @ [foreign]"
    "denied_call token ''/v1/chat/completions'' foreign_model_body foreign"
    by (rule extendsE [OF wp_Inr [OF refused_call_wp steps(4)]]) auto
  moreover obtain probe where "cw_trace w' = cw_trace w5 @ [probe]" "answered token messages probe"
    by (rule extendsE [OF wp_Inr [OF probe_inference_wp steps(5)]]) auto
  ultimately show ?thesis
    using m by (intro exI conjI) (assumption | simp)+
qed

subsection \<open>Storage\<close>

lemma make_folders_keeps:
  "make_folders identity ps w = (r, w') \<Longrightarrow> map_of (sl_folders w) q = Some b \<Longrightarrow> map_of (sl_folders w') q = Some b"
proof (induction identity ps w rule: make_folders.induct)
  case (2 identity p ps w)
  then show ?case
    by (cases "map_of (sl_folders w) p"; cases "p = q") (auto split: if_splits bool.splits)
qed auto

lemma make_folders_new:
  assumes "make_folders identity ps w = (Inr (), w')"
  shows "list_all (private_path identity) ps" "list_all (\<lambda>p. map_of (sl_folders w) p \<noteq> Some True \<and> map_of (sl_folders w') p = Some False) ps"
    "sl_initialized w'"
proof -
  have "list_all (private_path identity) ps \<and>
      list_all (\<lambda>p. map_of (sl_folders w) p \<noteq> Some True \<and> map_of (sl_folders w') p = Some False) ps \<and> sl_initialized w'"
    using assms
  proof (induction identity ps w rule: make_folders.induct)
    case (2 identity p ps w)
    then have p: "private_path identity p" by (auto split: if_splits)
    show ?case
    proof (cases "map_of (sl_folders w) p")
      case None
      then show ?thesis
        using 2 p make_folders_keeps [of identity ps "w\<lparr> sl_folders := (p, False) # sl_folders w \<rparr>" "Inr ()" w' p False]
        by (auto simp: list_all_iff split: if_splits)
    next
      case (Some b)
      then show ?thesis
        using 2 p make_folders_keeps [of identity ps w "Inr ()" w' p b] by (cases b) auto
    qed
  qed auto
  then show "list_all (private_path identity) ps"
    "list_all (\<lambda>p. map_of (sl_folders w) p \<noteq> Some True \<and> map_of (sl_folders w') p = Some False) ps" "sl_initialized w'"
    by blast+
qed

lemma prepare_storage_new:
  assumes "prepare_storage sha generated slot w = (Inr (), w')" "\<not> sl_initialized w"
  shows "\<exists>paths. generated = Inr ([slot], paths) \<and>
     list_all (\<lambda>p. private_path (take 16 (sha slot)) p \<and> map_of (sl_folders w) p \<noteq> Some True \<and> map_of (sl_folders w') p = Some False) paths"
  using assms make_folders_new [of "take 16 (sha slot)" _ w w']
  by (auto simp: prepare_storage_def list_all_iff split: if_splits sum.splits)

subsection \<open>Qualification\<close>

definition declared_only :: "json \<Rightarrow> json \<Rightarrow> bool" where
  "declared_only pod expected =
     list_all (\<lambda>x. list_ex (\<lambda>c. jget c ''name'' = jget x ''name'') (jlist (jget (jget (pod_template expected) ''spec'') ''containers'')))
       (jlist (jget (jget pod ''spec'') ''containers''))"

definition hardened :: "json \<Rightarrow> json \<Rightarrow> bool" where
  "hardened pod c =
     list_ex (\<lambda>x. jget x ''name'' = jget c ''name'' \<and> jget x ''image'' = jget c ''image'' \<and>
         py_eq (jget x ''command'') (jget c ''command'') \<and> py_eq (env_by_name (jget x ''env'')) (env_by_name (jget c ''env'')) \<and>
         jget (jget x ''securityContext'') ''runAsNonRoot'' = JBool True \<and>
         jget (jget x ''securityContext'') ''allowPrivilegeEscalation'' = JBool False)
       (jlist (jget (jget pod ''spec'') ''containers''))"

definition isolated_pod :: "json \<Rightarrow> json \<Rightarrow> bool" where
  "isolated_pod pod expected =
     (namespaces_closed (jget pod ''spec'') \<and> list_all volume_safe (jlist (jget (jget pod ''spec'') ''volumes'')) \<and>
      declared_only pod expected \<and>
      list_all (hardened pod) (jlist (jget (jget (pod_template expected) ''spec'') ''containers'')))"

lemma named_in_mem:
  assumes "named_in xs n = x # ys"
  shows "x \<in> set xs \<and> jget x ''name'' = n"
proof -
  have "x \<in> set (named_in xs n)" unfolding assms by simp
  then show ?thesis by (simp add: named_in_def)
qed

lemma validated_isolated:
  assumes "validate_runtime pod expected"
  shows "isolated_pod pod expected"
proof -
  let ?running = "jlist (jget (jget pod ''spec'') ''containers'')"
  let ?declared = "jlist (jget (jget (pod_template expected) ''spec'') ''containers'')"
  have names: "set (map (\<lambda>c. jget c ''name'') ?running) = set (map (\<lambda>c. jget c ''name'') ?declared)"
    and match: "list_all (\<lambda>c. case named_in ?running (jget c ''name'') of current # _ \<Rightarrow> container_matches current c | [] \<Rightarrow> False) ?declared"
    and rest: "namespaces_closed (jget pod ''spec'')" "list_all volume_safe (jlist (jget (jget pod ''spec'') ''volumes''))"
    using assms unfolding validate_runtime_def Let_def by blast+
  have "declared_only pod expected"
    unfolding declared_only_def list_all_iff list_ex_iff
  proof
    fix x assume "x \<in> set ?running"
    then have "jget x ''name'' \<in> set (map (\<lambda>c. jget c ''name'') ?declared)" using names by force
    then show "\<exists>c\<in>set ?declared. jget c ''name'' = jget x ''name''" by force
  qed
  moreover have "hardened pod c" if "c \<in> set ?declared" for c
  proof -
    have "case named_in ?running (jget c ''name'') of current # _ \<Rightarrow> container_matches current c | [] \<Rightarrow> False"
      using match that unfolding list_all_iff by blast
    then obtain x ys where x: "named_in ?running (jget c ''name'') = x # ys" "container_matches x c"
      by (cases "named_in ?running (jget c ''name'')") auto
    then show ?thesis
      using named_in_mem [OF x(1)] by (auto simp: hardened_def list_ex_iff container_matches_def Let_def)
  qed
  ultimately show ?thesis using rest by (simp add: isolated_pod_def list_all_iff)
qed

definition undeleted_pods :: "json \<Rightarrow> json list" where
  "undeleted_pods reply = filter (\<lambda>p. \<not> truthy (jget (jget p ''metadata'') ''deletionTimestamp'')) (jlist (jget reply ''items''))"

text \<open>What a look at a runtime shows when the runtime qualifies.\<close>

definition qualifies :: "json \<Rightarrow> runtime_look \<Rightarrow> bool" where
  "qualifies expected l =
     (\<exists>d reply pod q seen token. rl_deployment l = Inr d \<and> py_eq (get_or (jget d ''status'') ''readyReplicas'' (JInt 0)) (JInt 1) \<and>
        rl_pods l = Inr reply \<and> undeleted_pods reply = [pod] \<and> isolated_pod pod expected \<and> list_all (container_ready pod)
          (jlist (jget (jget (pod_template expected) ''spec'') ''containers'')) \<and>
        rl_qualification l = Inr q \<and> truthy (jget q ''passed'') \<and> jnum (jget q ''observedAt'') = Some seen \<and> rl_now l \<le> seen + 600 \<and>
        rl_token l = Inr token \<and> rl_history l (strip token) = Inr ())"

lemma qualified_look_True:
  "qualified_look l = Inr True \<Longrightarrow> \<exists>q seen token. rl_qualification l = Inr q \<and> truthy (jget q ''passed'') \<and>
     jnum (jget q ''observedAt'') = Some seen \<and> rl_now l \<le> seen + 600 \<and> rl_token l = Inr token \<and> rl_history l (strip token) = Inr ()"
  by (auto simp: qualified_look_def res_bind_Inr_iff py_idx_Inr split: if_splits option.splits)

lemma caught_look_True: "caught_look r = Inr True \<longleftrightarrow> r = Inr True"
  by (auto simp: caught_look_def split: sum.splits exn.splits)

lemma runtime_ready_qualifies:
  assumes "runtime_ready expected l = Inr True"
  shows "\<exists>wanted. expected = Inr wanted \<and> qualifies wanted l"
proof -
  let ?live = "\<lambda>reply. filter (\<lambda>p. \<not> truthy (jget (jget p ''metadata'') ''deletionTimestamp'')) (jlist (jget reply ''items''))"
  obtain d reply where "rl_deployment l = Inr d" "py_eq (get_or (jget d ''status'') ''readyReplicas'' (JInt 0)) (JInt 1)"
    "rl_pods l = Inr reply" and one: "(case ?live reply of [pod] \<Rightarrow> res_bind expected (\<lambda>wanted. if \<not> validate_runtime pod wanted then Inr False
       else caught_look (qualified_look l)) | _ \<Rightarrow> Inr False) = Inr True"
    using assms unfolding runtime_ready_def by (auto simp: res_bind_Inr_iff split: if_splits)
  moreover obtain pod wanted where "?live reply = [pod]" "expected = Inr wanted" "validate_runtime pod wanted"
    "caught_look (qualified_look l) = Inr True"
  proof (cases "?live reply")
    case (Cons pod ps)
    then show ?thesis using one that by (cases ps; cases expected) (auto split: if_splits)
  qed (use one in simp)
  ultimately obtain d reply pod wanted where d: "rl_deployment l = Inr d"
    "py_eq (get_or (jget d ''status'') ''readyReplicas'' (JInt 0)) (JInt 1)"
    "rl_pods l = Inr reply" "undeleted_pods reply = [pod]" and e: "expected = Inr wanted" and v: "validate_runtime pod wanted"
    and q: "qualified_look l = Inr True"
    unfolding undeleted_pods_def caught_look_True by blast
  have "list_all (container_ready pod) (jlist (jget (jget (pod_template wanted) ''spec'') ''containers''))"
    using v unfolding validate_runtime_def Let_def by blast
  then have "qualifies wanted l"
    unfolding qualifies_def using d validated_isolated [OF v] qualified_look_True [OF q] by blast
  then show ?thesis using e by blast
qed

fun look_qualifies :: "json res \<times> runtime_look \<Rightarrow> bool" where
  "look_qualifies (Inr wanted, l) = qualifies wanted l"
| "look_qualifies (Inl e, l) = False"

lemma pair_ready_qualifies: "pair_ready ps = Inr True \<Longrightarrow> list_all look_qualifies ps"
proof (induction ps rule: pair_ready.induct)
  case (2 expected l rest)
  then have r: "runtime_ready expected l = Inr True" "pair_ready rest = Inr True" by (auto simp: res_bind_Inr_iff split: if_splits)
  obtain wanted where "expected = Inr wanted" "qualifies wanted l" using runtime_ready_qualifies [OF r(1)] by blast
  moreover have "list_all look_qualifies rest" by (rule 2(1) [OF TrueI r(2)])
  ultimately show ?case by simp
qed simp

lemma qualifying_round:
  assumes "await_pair rounds = Inr ()"
  shows "\<exists>before looks after. rounds = before @ looks # after \<and> list_all look_qualifies looks"
  using assms
proof (induction rounds rule: await_pair.induct)
  case (2 round1 rounds)
  then obtain ready where r: "pair_ready round1 = Inr ready" "(if ready then Inr () else await_pair rounds) = Inr ()"
    by (auto simp: res_bind_Inr_iff)
  show ?case
  proof (cases ready)
    case True
    then have "round1 # rounds = [] @ round1 # rounds \<and> list_all look_qualifies round1"
      using pair_ready_qualifies r(1) by simp
    then show ?thesis by blast
  next
    case False
    then obtain b m a where "rounds = b @ m # a" "list_all look_qualifies m" using 2(1) [of ready] r(2) by (auto split: if_splits)
    then have "round1 # rounds = (round1 # b) @ m # a \<and> list_all look_qualifies m" by simp
    then show ?thesis by blast
  qed
qed simp

text \<open>The worker reports a pair as qualified only when one round before the deadline saw every runtime of the pair ready
  with exactly one live pod that runs only the declared containers with the declared images, environment and commands,
  without root, host namespaces, host paths or a management token, a passed qualification at most ten minutes old, and an
  empty history.\<close>

theorem qualified_pair_is_isolated:
  assumes "await_pair rounds = Inr ()"
  shows "\<exists>before looks after. rounds = before @ looks # after \<and> list_all look_qualifies looks"
  using assms by (rule qualifying_round)

section \<open>Examples\<close>

definition example_issuer :: "issuer_call \<Rightarrow> (int \<times> json) res" where
  "example_issuer c =
     (case c of Issuer endpoint bearer bdy \<Rightarrow>
        if bearer = ''master'' then
          (if endpoint = ''/key/generate'' then Inr (200, JObj [(''key'', JStr ''sk-1'')]) else Inr (404, JObj []))
        else if endpoint = ''/v1/messages'' then Inr (200, JObj [(''content'', JList [JObj [(''text'', JStr ''CAPACITY_KEY_OK'')]])])
        else Inr (403, JObj []))"

definition example_credential :: credential_env where
  "example_credential = \<lparr> ci_secret = Inr JNull, ci_decode = (\<lambda>_. Inr []), ci_fresh = ''1'', ci_ensure = Inr (), ci_master = Inr ''master'',
     ci_sha = (\<lambda>_. ''d''), ci_call = example_issuer \<rparr>"

definition example_trace :: "credential_event list" where
  "example_trace = cw_trace (snd (credential example_credential ''dsh'' ''api-key'' True \<lparr> cw_trace = [] \<rparr>))"

lemma example_accepted:
  "credential example_credential ''dsh'' ''api-key'' True \<lparr> cw_trace = [] \<rparr> = (Inr (), \<lparr> cw_trace = example_trace \<rparr>)"
  by code_simp

theorem credential_calls_are_confined_witness:
  "\<exists>token persisted es. cw_trace \<lparr> cw_trace = example_trace \<rparr> = persisted @ es \<and> (persisted = [] \<or> persisted = [Persist token]) \<and>
     length (issuer_calls es) \<le> 6"
proof -
  obtain token persisted es where p: "cw_trace \<lparr> cw_trace = example_trace \<rparr> = persisted @ es" "persisted = [] \<or> persisted = [Persist token]"
    using credential_calls_are_confined [OF example_accepted] by blast
  have "length (issuer_calls (persisted @ es)) = 6" unfolding p(1) [symmetric] by code_simp
  then have "length (issuer_calls es) \<le> 6" by simp
  then show ?thesis using p by blast
qed

theorem accepted_credential_is_restricted_witness:
  "\<exists>token persisted issuance rest. cw_trace \<lparr> cw_trace = example_trace \<rparr> = persisted @ issuance @ rest \<and>
     persisted = [Persist token] \<and> issued example_credential ''dsh'' token ''master'' issuance"
proof -
  have fresh: "\<not> (\<exists>v. ci_secret example_credential = Inr v \<and> truthy v)" and key: "ci_master example_credential = Inr ''master''"
    by (simp_all add: example_credential_def)
  from accepted_credential_is_restricted [OF example_accepted] show ?thesis
    unfolding key if_not_P [OF fresh] by auto
qed

definition example_container :: json where
  "example_container = JObj [(''name'', JStr ''dsh''), (''image'', JStr ''r/dsh@sha256:1''),
     (''securityContext'', JObj [(''runAsNonRoot'', JBool True), (''allowPrivilegeEscalation'', JBool False),
        (''capabilities'', JObj [(''drop'', JList [JStr ''ALL''])])]), (''volumeMounts'', JList [])]"

definition example_expected :: json where
  "example_expected = JObj [(''spec'', JObj [(''template'', JObj [(''spec'', JObj [(''containers'', JList [example_container]), (''volumes'', JList [])])])])]"

definition example_running :: json where
  "example_running = JObj [(''metadata'', JObj []),
     (''spec'', JObj [(''automountServiceAccountToken'', JBool False), (''containers'', JList [example_container]), (''volumes'', JList [])]),
     (''status'', JObj [(''containerStatuses'', JList [JObj [(''name'', JStr ''dsh''), (''ready'', JBool True), (''imageID'', JStr ''x@sha256:1'')]])])]"

definition example_look :: "bool \<Rightarrow> runtime_look" where
  "example_look passed = \<lparr> rl_deployment = Inr (JObj [(''status'', JObj [(''readyReplicas'', JInt 1)])]),
     rl_pods = Inr (JObj [(''items'', JList [example_running])]),
     rl_qualification = Inr (JObj [(''passed'', JBool passed), (''observedAt'', JInt 100)]), rl_now = 160,
     rl_token = Inr ''t'', rl_history = (\<lambda>_. Inr ()) \<rparr>"

lemma example_qualified:
  "await_pair [[(Inr example_expected, example_look False)], [(Inr example_expected, example_look True), (Inr example_expected, example_look True)]] = Inr ()"
  by code_simp

theorem qualified_pair_is_isolated_witness:
  "\<exists>before looks after. [[(Inr example_expected, example_look False)], [(Inr example_expected, example_look True), (Inr example_expected, example_look True)]] =
     before @ looks # after \<and> list_all look_qualifies looks"
  by (rule qualified_pair_is_isolated [OF example_qualified])

end
