(* ===== verification/Capacity_Pair.thy ===== *)
theory Capacity_Pair imports Capacity_Worker begin

text \<open>
  The documents of a new runtime pair and their creation: the generator of private workloads from reviewed
  templates (\<open>generate\<close> of \<open>scripts/prepare_signup_pool.py\<close>), the service supervisor that is added to each
  (\<open>sidecar\<close> of \<open>scripts/deploy_app_supervision.py\<close>), and \<open>Worker.prepare_and_qualify\<close>, which composes them with the
  storage, the credentials and the qualification of \<open>Capacity_Worker\<close>.  Templates have the shape of Kubernetes
  objects; SHA-256 is a parameter.
\<close>

section \<open>Updates of nested objects\<close>

text \<open>\<open>d[k] = v\<close> and \<open>d[k] = f(d[k])\<close> with the exceptions of a missing key or another type, and \<open>setdefault\<close>.\<close>

definition py_set :: "string \<Rightarrow> json \<Rightarrow> json \<Rightarrow> json res" where
  "py_set k v d = (if is_obj d then Inr (jset k v d) else Inl (TypeError k))"

definition py_upd :: "string \<Rightarrow> (json \<Rightarrow> json res) \<Rightarrow> json \<Rightarrow> json res" where
  "py_upd k f d = res_bind (py_idx d k) (\<lambda>v. res_bind (f v) (\<lambda>v'. py_set k v' d))"

definition py_setdefault :: "string \<Rightarrow> json \<Rightarrow> json \<Rightarrow> json" where
  "py_setdefault k z d = (if jhas d k then d else jset k z d)"

text \<open>An update of the pod of a workload.\<close>

definition upd_template :: "(json \<Rightarrow> json res) \<Rightarrow> json \<Rightarrow> json res" where
  "upd_template f = py_upd ''spec'' (py_upd ''template'' f)"

definition upd_pod :: "(json \<Rightarrow> json res) \<Rightarrow> json \<Rightarrow> json res" where
  "upd_pod f = upd_template (py_upd ''spec'' f)"

definition name_of :: "json \<Rightarrow> json" where "name_of d = jget d ''name''"

definition containers_of :: "json \<Rightarrow> json list" where "containers_of pod = jlist (jget pod ''containers'')"
definition volumes_of :: "json \<Rightarrow> json list" where "volumes_of pod = jlist (jget pod ''volumes'')"
definition mounts_of :: "json \<Rightarrow> json list" where "mounts_of c = jlist (jget c ''volumeMounts'')"
definition env_of :: "json \<Rightarrow> json list" where "env_of c = jlist (jget c ''env'')"

section \<open>A private workload\<close>

definition pool_labels :: "string \<Rightarrow> json" where
  "pool_labels pool = JObj [(''dsh.example.com/signup-pool'', JStr pool)]"

definition private_metadata :: "string \<Rightarrow> string \<Rightarrow> json" where
  "private_metadata name pool = JObj [(''name'', JStr name), (''namespace'', JStr ''llm''), (''labels'', pool_labels pool)]"

definition runtime_labels :: "string \<Rightarrow> string \<Rightarrow> string \<Rightarrow> json \<Rightarrow> json" where
  "runtime_labels name identity pool labels =
     jset ''dsh.example.com/signup-pool'' (JStr pool) (jset ''dsh.example.com/owner'' (JStr identity) (jset ''app'' (JStr name) labels))"

definition runtime_metadata :: "string \<Rightarrow> string \<Rightarrow> string \<Rightarrow> json \<Rightarrow> json res" where
  "runtime_metadata name identity pool template =
     res_bind (py_idx template ''metadata'') (\<lambda>m. res_bind (py_idx m ''labels'') (\<lambda>labels.
     py_set ''metadata'' (JObj [(''labels'', runtime_labels name identity pool labels)]) template))"

definition private_spec :: "string \<Rightarrow> string \<Rightarrow> string \<Rightarrow> json \<Rightarrow> json res" where
  "private_spec name identity pool spec =
     res_bind (py_set ''replicas'' (JInt 1) spec) (\<lambda>spec.
     res_bind (py_set ''revisionHistoryLimit'' (JInt 2) spec) (\<lambda>spec.
     res_bind (py_upd ''selector'' (py_set ''matchLabels'' (JObj [(''app'', JStr name)])) spec)
       (py_upd ''template'' (runtime_metadata name identity pool))))"

definition private_frame :: "string \<Rightarrow> string \<Rightarrow> string \<Rightarrow> json \<Rightarrow> json res" where
  "private_frame name identity pool source =
     res_bind (py_set ''metadata'' (private_metadata name pool) source) (\<lambda>workload.
     py_upd ''spec'' (private_spec name identity pool) (jpop ''status'' workload))"

text \<open>The pod: only the known backup may initialize, no management token, no second container but the supervisor.\<close>

definition drop_initialization :: "json \<Rightarrow> json res" where
  "drop_initialization pod =
     (if list_ex (\<lambda>c. name_of c \<noteq> JStr ''context-profile-backup'') (jlist (jget pod ''initContainers''))
      then Inl (ValueError ''Review unexpected initialization before cloning'')
      else Inr (jpop ''initContainers'' pod))"

definition private_service_volumes :: "json set" where
  "private_service_volumes =
     {JStr ''app-supervisor-source'', JStr ''app-service-control'', JStr ''app-service-status'', JStr ''app-supervisor-tmp''}"

definition drop_supervisor :: "json \<Rightarrow> json res" where
  "drop_supervisor pod =
     (if length (containers_of pod) = 2 \<and> set (map name_of (containers_of pod)) = {JStr ''dsh'', JStr ''app-supervisor''} then
        (let own = filter (\<lambda>c. name_of c = JStr ''dsh'') (containers_of pod) in
         if list_ex (\<lambda>m. name_of m \<in> private_service_volumes) (mounts_of (hd own))
         then Inl (ValueError ''Supervisor control unexpectedly mounted in agent'')
         else Inr (jset ''volumes'' (JList (filter (\<lambda>v. name_of v \<notin> private_service_volumes) (volumes_of pod)))
                    (jset ''containers'' (JList own) pod)))
      else Inr pod)"

definition single_container :: "json \<Rightarrow> json res" where
  "single_container pod =
     (case containers_of pod of
        [c] \<Rightarrow> if truthy (jget pod ''hostNetwork'') \<or> truthy (jget pod ''hostPID'')
               then Inl (ValueError ''Unexpected private template'') else Inr c
      | _ \<Rightarrow> Inl (ValueError ''Unexpected private template''))"

definition token_absent :: "json \<Rightarrow> unit res" where
  "token_absent pod = require (jget pod ''automountServiceAccountToken'' = JBool False)
     (ValueError ''Template must not mount a management token'')"

text \<open>The container: \<open>re.search(..., re.I)\<close> on the names of literal values, the pinned image, the security context.\<close>

definition fold_case :: "string \<Rightarrow> string" where
  "fold_case s = map (\<lambda>c. if c \<in> set lower_chars then char_of (of_char c - 32 :: nat) else c) s"

fun contains_text :: "string \<Rightarrow> string \<Rightarrow> bool" where
  "contains_text p [] = (p = [])"
| "contains_text p (c # s) = (startswith p (c # s) \<or> contains_text p s)"

definition secret_name :: "string \<Rightarrow> bool" where
  "secret_name n =
     (let u = fold_case n; v = removesuffix [CHR 0x0A] u in
      list_ex (\<lambda>p. contains_text p u) [''PASSWORD'', ''API_KEY'', ''SECRET'', ''KEYTAB''] \<or>
      list_ex (\<lambda>x. x = ''TOKEN'' \<or> endswith ''_TOKEN'' x) [u, v])"

definition string_of :: "json \<Rightarrow> string" where
  "string_of v = (case v of JStr s \<Rightarrow> s | _ \<Rightarrow> [])"

definition literal_credential :: "json \<Rightarrow> bool" where
  "literal_credential e =
     (secret_name (string_of (name_of e)) \<and> jhas e ''value'' \<and>
      \<not> endswith ''_FILE'' (string_of (name_of e)) \<and> \<not> endswith ''_PATH'' (string_of (name_of e)))"

definition foreign_secret :: "json \<Rightarrow> bool" where
  "foreign_secret e = (jhas (jget e ''valueFrom'') ''secretKeyRef'' \<and> name_of e \<noteq> JStr ''DEEPSEEK_API_KEY'')"

definition check_env :: "json \<Rightarrow> unit res" where
  "check_env e =
     (if foreign_secret e then Inl (ValueError ''Never clone an unexpected user credential environment'')
      else if literal_credential e then Inl (ValueError ''Never clone literal credential values'')
      else Inr ())"

definition pinned_image :: "string \<Rightarrow> bool" where
  "pinned_image s =
     (let n = length s in 72 < n \<and> hex_id 64 (drop (n - 64) s) \<and> take 8 (drop (n - 72) s) = ''@sha256:'' \<and>
        list_all (\<lambda>c. \<not> is_space c) (take (n - 72) s))"

definition check_container :: "json \<Rightarrow> unit res" where
  "check_container c =
     res_bind (res_map check_env (env_of c)) (\<lambda>_.
     res_bind (require (pinned_image (string_of (jget c ''image''))) (ValueError ''Pin the qualified image'')) (\<lambda>_.
     res_bind (require (\<not> truthy (jget (jget c ''securityContext'') ''privileged'') \<and>
         jget (jget c ''securityContext'') ''allowPrivilegeEscalation'' = JBool False) (ValueError ''Unsafe execution template'')) (\<lambda>_.
     require (jget (jget c ''securityContext'') ''runAsNonRoot'' = JBool True) (ValueError ''Non-root execution required''))))"

definition inference_secret :: "string \<Rightarrow> string" where "inference_secret identity = ''dsh-inference-signup-'' @ identity"

definition harness_secret :: "string \<Rightarrow> string \<Rightarrow> string" where
  "harness_secret identity environment = ''dsh-harness-signup-'' @ identity @ ''-'' @ environment"

definition own_credential :: "string \<Rightarrow> json \<Rightarrow> json res" where
  "own_credential identity e =
     (if name_of e = JStr ''DEEPSEEK_API_KEY'' then
        res_bind (py_idx e ''valueFrom'') (\<lambda>from.
        res_bind (py_upd ''secretKeyRef'' (py_set ''name'' (JStr (inference_secret identity))) from) (\<lambda>from'.
        py_set ''valueFrom'' from' e))
      else Inr e)"

definition floor_request :: "json \<Rightarrow> json res" where
  "floor_request c =
     py_upd ''resources'' (\<lambda>r. py_upd ''requests'' (py_set ''cpu'' (JStr ''100m'')) (py_setdefault ''requests'' (JObj []) r))
       (py_setdefault ''resources'' (JObj []) c)"

subsection \<open>Volumes\<close>

text \<open>The pass over the volumes: the mounts of the container, the volumes so far, the new claims and the central paths.\<close>

record volume_pass =
  vp_mounts :: "json list"
  vp_volumes :: "json list"
  vp_claims :: "json list"
  vp_paths :: "string list"

definition state_folders :: "string list" where
  "state_folders = [''sessions'', ''attachments'', ''storages'', ''workspaces'', ''logs'']"

definition state_path :: "string \<Rightarrow> json" where "state_path n = JStr (''/state/'' @ n)"

definition central_suffix :: "json \<Rightarrow> string res" where
  "central_suffix p =
     (if p = JStr ''/workspace'' then Inr ''secure''
      else if p \<in> set (map state_path state_folders)
      then Inr (''state/'' @ last (split_char CHR ''/'' (string_of p)))
      else Inl (ValueError ''Unexpected central mount''))"

definition central_path :: "string \<Rightarrow> string \<Rightarrow> string" where
  "central_path identity suffix = ''dsh/private/'' @ identity @ ''/'' @ suffix"

definition central_mount :: "string \<Rightarrow> json \<Rightarrow> json \<Rightarrow> json res" where
  "central_mount identity volume m =
     (if name_of m = volume then
        res_bind (central_suffix (jget m ''mountPath'')) (\<lambda>s. Inr (jset ''subPath'' (JStr (central_path identity s)) m))
      else Inr m)"

definition claim_spec :: "json \<Rightarrow> json" where
  "claim_spec spec = JObj (map (\<lambda>k. (k, jget spec k)) (filter (jhas spec) [''accessModes'', ''resources'', ''storageClassName'', ''volumeMode'']))"

definition new_claim :: "string \<Rightarrow> string \<Rightarrow> json \<Rightarrow> json" where
  "new_claim pool claim spec =
     JObj [(''apiVersion'', JStr ''v1''), (''kind'', JStr ''PersistentVolumeClaim''), (''metadata'', private_metadata claim pool),
       (''spec'', claim_spec spec)]"

definition claim_of :: "json \<Rightarrow> json" where
  "claim_of v = jget (jget v ''persistentVolumeClaim'') ''claimName''"

definition own_claim :: "string \<Rightarrow> json \<Rightarrow> json res" where
  "own_claim claim = py_upd ''persistentVolumeClaim'' (py_set ''claimName'' (JStr claim))"

definition own_secret :: "string \<Rightarrow> string \<Rightarrow> json \<Rightarrow> json res" where
  "own_secret identity environment v =
     (if name_of v = JStr ''harness-credentials'' then
        py_upd ''secret'' (py_set ''secretName'' (JStr (harness_secret identity environment))) v
      else Inr v)"

definition private_volume ::
    "string \<Rightarrow> string \<Rightarrow> string \<Rightarrow> string \<Rightarrow> json \<Rightarrow> json \<Rightarrow> volume_pass \<Rightarrow> volume_pass res" where
  "private_volume name identity pool environment claims v vp =
     (if jhas v ''hostPath'' then Inl (ValueError ''No host filesystem mounts'')
      else if jhas v ''secret'' \<and> name_of v \<noteq> JStr ''harness-credentials''
      then Inl (ValueError ''Never clone an unexpected private Secret mount'')
      else
        res_bind (own_secret identity environment v) (\<lambda>v.
        let mounts = filter (\<lambda>m. name_of m = name_of v) (vp_mounts vp) in
        if \<not> jhas v ''persistentVolumeClaim'' then Inr (vp\<lparr> vp_volumes := vp_volumes vp @ [v] \<rparr>)
        else if claim_of v = JStr ''dsh-package-approved'' then
          (if mounts = [] \<or> \<not> list_all (\<lambda>m. truthy (jget m ''readOnly'')) mounts
           then Inl (ValueError ''Approved artifacts must be read-only'')
           else Inr (vp\<lparr> vp_volumes := vp_volumes vp @ [v] \<rparr>))
        else if claim_of v = JStr ''dsh-da-workspace-secure'' then
          (if environment \<noteq> ''secure'' \<or> length mounts \<noteq> 6 then Inl (ValueError ''Unexpected central-storage template'')
           else
             res_bind (res_map (\<lambda>m. central_suffix (jget m ''mountPath'')) mounts) (\<lambda>suffixes.
             res_bind (res_map (central_mount identity (name_of v)) (vp_mounts vp)) (\<lambda>mounts'.
             Inr (vp\<lparr> vp_mounts := mounts', vp_volumes := vp_volumes vp @ [v],
                     vp_paths := vp_paths vp @ map (central_path identity) suffixes \<rparr>))))
        else
          res_bind (py_idx claims (string_of (claim_of v))) (\<lambda>old.
          let claim = name @ ''-'' @ string_of (name_of v) in
          res_bind (own_claim claim v) (\<lambda>v'.
          Inr (vp\<lparr> vp_volumes := vp_volumes vp @ [v'],
                   vp_claims := vp_claims vp @ [new_claim pool claim (jget old ''spec'')] \<rparr>)))))"

definition private_volumes ::
    "string \<Rightarrow> string \<Rightarrow> string \<Rightarrow> string \<Rightarrow> json \<Rightarrow> json \<Rightarrow> json \<Rightarrow> volume_pass res" where
  "private_volumes name identity pool environment claims pod c =
     res_bind (py_idx pod ''volumes'') (\<lambda>vs.
     res_fold (private_volume name identity pool environment claims) (jlist vs)
       \<lparr> vp_mounts = mounts_of c, vp_volumes = [], vp_claims = [], vp_paths = [] \<rparr>)"

definition private_container :: "string \<Rightarrow> json \<Rightarrow> json res" where
  "private_container identity c =
     res_bind (floor_request c) (\<lambda>c.
     res_bind (check_container c) (\<lambda>_.
     res_bind (py_idx c ''env'') (\<lambda>entries.
     res_bind (res_map (own_credential identity) (jlist entries)) (\<lambda>env.
     py_set ''env'' (JList env) c))))"

text \<open>The pod with its one container, its volumes, the new claims and the central paths.\<close>

record private_parts =
  pp_pod :: json
  pp_claims :: "json list"
  pp_paths :: "string list"

definition assembled :: "json \<Rightarrow> json \<Rightarrow> volume_pass \<Rightarrow> private_parts" where
  "assembled pod c vp =
     \<lparr> pp_pod = jset ''volumes'' (JList (vp_volumes vp))
         (jset ''containers'' (JList [jset ''volumeMounts'' (JList (vp_mounts vp)) c]) pod),
       pp_claims = vp_claims vp, pp_paths = vp_paths vp \<rparr>"

definition private_pod :: "string \<Rightarrow> string \<Rightarrow> string \<Rightarrow> string \<Rightarrow> json \<Rightarrow> json \<Rightarrow> private_parts res" where
  "private_pod name identity pool environment claims template_pod =
     (if \<not> is_obj template_pod then Inl (AttributeError ''get'')
      else
        res_bind (drop_initialization template_pod) (\<lambda>pod.
        res_bind (token_absent pod) (\<lambda>_.
        res_bind (drop_supervisor pod) (\<lambda>pod.
        res_bind (single_container pod) (\<lambda>c.
        res_bind (private_container identity c) (\<lambda>c.
        res_bind (private_volumes name identity pool environment claims pod c) (\<lambda>vp.
        Inr (assembled pod c vp))))))))"

section \<open>The documents\<close>

definition service_port :: "string \<Rightarrow> int \<Rightarrow> json" where
  "service_port n p = JObj [(''name'', JStr n), (''port'', JInt p), (''targetPort'', JStr n)]"

definition pair_service :: "string \<Rightarrow> string \<Rightarrow> json" where
  "pair_service name pool =
     JObj [(''apiVersion'', JStr ''v1''), (''kind'', JStr ''Service''), (''metadata'', private_metadata name pool),
       (''spec'', JObj [(''clusterIP'', JStr ''None''), (''selector'', JObj [(''app'', JStr name)]),
          (''ports'', JList [service_port ''web'' 3081, service_port ''terminal'' 7681])])]"

definition pair_runtime :: "string \<Rightarrow> string \<Rightarrow> string" where
  "pair_runtime identity environment = ''dsh-u-'' @ identity @ ''-'' @ environment"

definition private_workload :: "string \<Rightarrow> string \<Rightarrow> json \<Rightarrow> json \<Rightarrow> string \<Rightarrow> (json list \<times> string list) res" where
  "private_workload pool identity templates claims environment =
     (let name = pair_runtime identity environment in
      res_bind (private_frame name identity pool (jget templates environment)) (\<lambda>workload.
      res_bind (private_pod name identity pool environment claims (jget (pod_template workload) ''spec'')) (\<lambda>parts.
      res_bind (upd_pod (\<lambda>_. Inr (pp_pod parts)) workload) (\<lambda>workload'.
      Inr (pp_claims parts @ [workload', pair_service name pool], pp_paths parts)))))"

definition pair_route :: "string \<Rightarrow> string \<Rightarrow> json" where
  "pair_route identity environment =
     JObj [(''host'', JStr (pair_runtime identity environment @ ''.llm.svc.cluster.local'')), (''port'', JInt 3081),
       (''tokenFile'', JStr (''/runtime-tokens/signup/'' @ identity @ ''/'' @ environment @ ''/'' @ environment))]"

definition identity_of :: "(string \<Rightarrow> string) \<Rightarrow> string \<Rightarrow> string" where
  "identity_of sha slot = take 16 (sha slot)"

definition environments :: "string list" where "environments = [''secure'', ''internet'']"

definition private_pair ::
    "(string \<Rightarrow> string) \<Rightarrow> json \<Rightarrow> json \<Rightarrow> string \<Rightarrow> string \<Rightarrow> (json list \<times> string list) res" where
  "private_pair sha templates claims pool slot =
     res_bind (res_map (private_workload pool (identity_of sha slot) templates claims) environments) (\<lambda>parts.
     Inr (concat (map fst parts), concat (map snd parts)))"

definition slot_name :: "string \<Rightarrow> nat \<Rightarrow> string" where
  "slot_name pool i = pool @ ''-'' @ (if i < 10 then ''0'' else []) @ decimal i"

record generation =
  gn_documents :: "json list"
  gn_slots :: "(string \<times> (string \<times> json) list) list"
  gn_paths :: "string list"

definition generate :: "(string \<Rightarrow> string) \<Rightarrow> json \<Rightarrow> json \<Rightarrow> string \<Rightarrow> nat \<Rightarrow> generation res" where
  "generate sha templates claims pool pairs =
     (if \<not> fullmatch_class (lower_chars @ digit_chars @ ''-'') 3 24 pool \<or> pairs < 1 \<or> 16 < pairs
      then Inl (ValueError ''Use a bounded pool identifier and 1-16 pairs'')
      else if set (jkeys templates) \<noteq> {''secure'', ''internet''}
      then Inl (ValueError ''Both reviewed private environments are required'')
      else
        (let slots = map (slot_name pool) [1..<Suc pairs] in
         res_bind (res_map (private_pair sha templates claims pool) slots) (\<lambda>parts.
         Inr \<lparr> gn_documents = concat (map fst parts),
               gn_slots = map (\<lambda>slot. (slot, map (\<lambda>e. (e, pair_route (identity_of sha slot) e)) environments)) slots,
               gn_paths = sort (remdups (concat (map snd parts))) \<rparr>)))"

section \<open>The service supervisor\<close>

definition named_container :: "string \<Rightarrow> json \<Rightarrow> json res" where
  "named_container n pod = (case named_in (containers_of pod) (JStr n) of [] \<Rightarrow> Inl StopIteration | c # _ \<Rightarrow> Inr c)"

definition state_mount :: "json \<Rightarrow> json res" where
  "state_mount c = (case filter (\<lambda>m. jget m ''mountPath'' = JStr ''/state'') (mounts_of c) of [] \<Rightarrow> Inl StopIteration | m # _ \<Rightarrow> Inr m)"

definition strip_slashes :: "string \<Rightarrow> string" where
  "strip_slashes s = rev (dropWhile (\<lambda>c. c = CHR ''/'') (rev (dropWhile (\<lambda>c. c = CHR ''/'') s)))"

definition notebook_mount :: "json \<Rightarrow> json" where
  "notebook_mount state =
     JObj [(''name'', name_of state), (''mountPath'', JStr ''/state/jupyter''),
       (''subPath'', JStr (dropWhile (\<lambda>c. c = CHR ''/'') (strip_slashes (string_of (get_or state ''subPath'' (JStr []))) @ ''/jupyter'')))]"

definition shared_mount :: "json \<Rightarrow> bool" where
  "shared_mount m =
     (let p = string_of (jget m ''mountPath'') in p = ''/workspace'' \<or> startswith ''/workspace/'' p \<or> startswith ''/packages/approved'' p)"

definition mount :: "string \<Rightarrow> string \<Rightarrow> (string \<times> json) list \<Rightarrow> json" where
  "mount n p rest = JObj ([(''name'', JStr n), (''mountPath'', JStr p)] @ rest)"

definition read_only :: "string \<times> json" where "read_only = (''readOnly'', JBool True)"

definition supervisor_mounts :: "string \<Rightarrow> json \<Rightarrow> json \<Rightarrow> json list" where
  "supervisor_mounts identity c state =
     filter shared_mount (mounts_of c) @
     [notebook_mount state, mount ''app-supervisor-source'' ''/service-source'' [read_only],
      mount ''app-service-control'' ''/service-control'' [(''subPath'', JStr identity), read_only],
      mount ''app-service-status'' ''/service-status'' [], mount ''app-supervisor-tmp'' ''/tmp'' []]"

definition env_entry :: "string \<Rightarrow> string \<Rightarrow> json" where
  "env_entry n v = JObj [(''name'', JStr n), (''value'', JStr v)]"

definition supervisor_env :: "json \<Rightarrow> json list" where
  "supervisor_env c =
     (let kept = filter (\<lambda>e. name_of e \<in> {JStr ''DSH_TRUSTED_HOST'', JStr ''DSH_ENVIRONMENT''}) (env_of c);
          env = kept @ [env_entry ''HOME'' ''/tmp/service-home'', env_entry ''PYTHONDONTWRITEBYTECODE'' ''1''] in
      case named_in env (JStr ''DSH_ENVIRONMENT'') of
        e # _ \<Rightarrow> if jget e ''value'' = JStr ''secure''
          then env @ [env_entry ''PIP_NO_INDEX'' ''1'', env_entry ''PIP_FIND_LINKS'' ''/packages/approved/python'', env_entry ''npm_config_offline'' ''true'']
          else env
      | [] \<Rightarrow> env)"

definition restricted_context :: json where
  "restricted_context = JObj [(''runAsNonRoot'', JBool True), (''runAsUser'', JInt 10001), (''runAsGroup'', JInt 10001),
     (''allowPrivilegeEscalation'', JBool False), (''readOnlyRootFilesystem'', JBool True),
     (''capabilities'', JObj [(''drop'', JList [JStr ''ALL''])]), (''seccompProfile'', JObj [(''type'', JStr ''RuntimeDefault'')])]"

definition bounded_resources :: "string \<Rightarrow> string \<Rightarrow> string \<Rightarrow> string \<Rightarrow> json" where
  "bounded_resources cpu memory cpu_limit memory_limit =
     JObj [(''requests'', JObj [(''cpu'', JStr cpu), (''memory'', JStr memory)]),
       (''limits'', JObj [(''cpu'', JStr cpu_limit), (''memory'', JStr memory_limit)])]"

definition supervisor_container :: "string \<Rightarrow> json \<Rightarrow> json \<Rightarrow> json" where
  "supervisor_container identity c state =
     JObj [(''name'', JStr ''app-supervisor''), (''image'', jget c ''image''),
       (''command'', JList [JStr ''python3'', JStr ''/service-source/app-supervisor.py'']), (''env'', JList (supervisor_env c)),
       (''volumeMounts'', JList (supervisor_mounts identity c state)), (''securityContext'', restricted_context),
       (''resources'', bounded_resources ''25m'' ''64Mi'' ''1'' ''1Gi'')]"

definition claim_volume :: "string \<Rightarrow> string \<Rightarrow> json" where
  "claim_volume n claim = JObj [(''name'', JStr n), (''persistentVolumeClaim'', JObj [(''claimName'', JStr claim)])]"

definition status_claim :: "string \<Rightarrow> string" where "status_claim identity = ''dsh-app-status-'' @ identity"

definition supervisor_volumes :: "string \<Rightarrow> string \<Rightarrow> string \<Rightarrow> json list" where
  "supervisor_volumes configmap control identity =
     [JObj [(''name'', JStr ''app-supervisor-source''), (''configMap'', JObj [(''name'', JStr configmap)])],
      claim_volume ''app-service-control'' control, claim_volume ''app-service-status'' (status_claim identity),
      JObj [(''name'', JStr ''app-supervisor-tmp''), (''emptyDir'', JObj [(''sizeLimit'', JStr ''64Mi'')])]]"

definition add_parts :: "json list \<Rightarrow> json list \<Rightarrow> json \<Rightarrow> json" where
  "add_parts cs vs pod = jset ''volumes'' (JList (volumes_of pod @ vs)) (jset ''containers'' (JList (containers_of pod @ cs)) pod)"

definition supervised_pod :: "string \<Rightarrow> string \<Rightarrow> string \<Rightarrow> json \<Rightarrow> json res" where
  "supervised_pod configmap control identity pod =
     (if \<not> is_obj pod then Inl (AttributeError ''get'')
      else if truthy (jget pod ''shareProcessNamespace'') then Inl (ValueError ''Shared process namespace is not supported'')
      else
        res_bind (named_container ''dsh'' pod) (\<lambda>c.
        if \<not> pinned_image (string_of (jget c ''image'')) then Inl (ValueError ''Pinned image required'')
        else if named_in (containers_of pod) (JStr ''app-supervisor'') \<noteq> []
        then Inl (ValueError ''Supervisor already installed; use an explicit upgrade'')
        else
          res_bind (state_mount c) (\<lambda>state.
          Inr (jset ''automountServiceAccountToken'' (JBool False)
             (add_parts [supervisor_container identity c state] (supervisor_volumes configmap control identity) pod)))))"

definition sidecar :: "json \<Rightarrow> string \<Rightarrow> string \<Rightarrow> string \<Rightarrow> json res" where
  "sidecar deployment configmap control identity = upd_pod (supervised_pod configmap control identity) deployment"

section \<open>Provisioning a pair\<close>

text \<open>The world of a provisioning: the ledger and folders, the trace of the credential checks, the server's own state
  and the control directories of the services by identity.\<close>

record 'w pair_world =
  pw_slot :: slot_world
  pw_credentials :: credential_world
  pw_server :: 'w
  pw_services :: "(string \<times> directory) list"

text \<open>Site configuration, hash functions, and what the outside answers: the issuer for each Secret, the file system
  for each control directory, and the looks of each round before the deadline.\<close>

record pair_env =
  pe_sha :: "string \<Rightarrow> string"
  pe_digest :: "json \<Rightarrow> string"
  pe_namespace :: string
  pe_configmap :: string
  pe_control :: string
  pe_class :: string
  pe_inventory :: string
  pe_templates :: json
  pe_claims :: json
  pe_issuer :: "string \<Rightarrow> credential_env"
  pe_temp :: string
  pe_write :: "string \<Rightarrow> unit res"
  pe_sync :: "string \<Rightarrow> unit res"
  pe_rounds :: "(string \<Rightarrow> runtime_look) list"

definition on_slot :: "(slot_world, 'a) io \<Rightarrow> ('w pair_world, 'a) io" where
  "on_slot m w = (case m (pw_slot w) of (r, s) \<Rightarrow> (r, w\<lparr> pw_slot := s \<rparr>))"

definition on_credentials :: "(credential_world, 'a) io \<Rightarrow> ('w pair_world, 'a) io" where
  "on_credentials m w = (case m (pw_credentials w) of (r, s) \<Rightarrow> (r, w\<lparr> pw_credentials := s \<rparr>))"

definition on_server :: "('w, 'a) io \<Rightarrow> ('w pair_world, 'a) io" where
  "on_server m w = (case m (pw_server w) of (r, s) \<Rightarrow> (r, w\<lparr> pw_server := s \<rparr>))"

text \<open>The control directory of a service: the defaults, the ready mark and the link to the status directory, each only
  when absent.\<close>

definition put_absent :: "string \<Rightarrow> json \<Rightarrow> directory \<Rightarrow> directory" where
  "put_absent n v d = (if map_of d n = None then AList.update n v d else d)"

definition publish_service :: "pair_env \<Rightarrow> string \<Rightarrow> ('w pair_world, unit) io" where
  "publish_service pe service w =
     (let d = (case map_of (pw_services w) service of None \<Rightarrow> [] | Some d \<Rightarrow> d) in
      case initialize_services (pe_temp pe) (pe_write pe service) (pe_sync pe service) d of
        (Inl e, d') \<Rightarrow> (Inl e, w\<lparr> pw_services := AList.update service d' (pw_services w) \<rparr>)
      | (Inr _, d') \<Rightarrow>
          (Inr (), w\<lparr> pw_services := AList.update service
             (put_absent ''status'' (JStr (''/capacity/inventory/runtime-status/'' @ service)) (put_absent ''ready'' (JStr []) d'))
             (pw_services w) \<rparr>))"

definition service_key :: "(string \<Rightarrow> string) \<Rightarrow> string \<Rightarrow> string \<Rightarrow> string" where
  "service_key sha host mode = take 24 (sha (host @ ''|'' @ mode))"

definition cluster_host :: "pair_env \<Rightarrow> string \<Rightarrow> string" where
  "cluster_host pe name = name @ ''.'' @ pe_namespace pe @ ''.svc.cluster.local''"

definition environment_of :: "string \<Rightarrow> string" where
  "environment_of name = (if endswith ''-secure'' name then ''secure'' else ''internet'')"

definition service_of :: "pair_env \<Rightarrow> string \<Rightarrow> string" where
  "service_of pe name =
     service_key (pe_sha pe) (cluster_host pe name) (if environment_of name = ''secure'' then ''off'' else ''on'')"

definition status_document :: "pair_env \<Rightarrow> string \<Rightarrow> json" where
  "status_document pe service =
     JObj [(''apiVersion'', JStr ''v1''), (''kind'', JStr ''PersistentVolumeClaim''),
       (''metadata'', JObj [(''name'', JStr (status_claim service))]),
       (''spec'', JObj [(''storageClassName'', JStr (pe_class pe)), (''accessModes'', JList [JStr ''ReadWriteOnce'']),
          (''resources'', JObj [(''requests'', JObj [(''storage'', JStr ''1Gi'')])])])]"

definition exporter_container :: "string \<Rightarrow> string \<Rightarrow> string \<Rightarrow> json \<Rightarrow> json" where
  "exporter_container identity environment service img =
     JObj [(''name'', JStr ''capacity-token-exporter''), (''image'', img),
       (''command'', JList [JStr ''python3'', JStr ''/service-source/capacity-token-exporter.py'']),
       (''env'', JList [env_entry ''DSH_ENVIRONMENT'' environment]),
       (''volumeMounts'', JList
          [mount ''app-supervisor-source'' ''/service-source'' [read_only], mount ''routing-tokens'' ''/runtime-tokens'' [read_only],
           mount ''app-service-status'' ''/private-status'' [read_only],
           mount ''capacity-publication'' ''/published'' [(''subPath'', JStr (''runtime-tokens/'' @ identity @ ''/'' @ environment))],
           mount ''capacity-publication'' ''/published-status'' [(''subPath'', JStr (''runtime-status/'' @ service))]]),
       (''securityContext'', restricted_context), (''resources'', bounded_resources ''5m'' ''16Mi'' ''100m'' ''64Mi'')]"

definition managed_metadata :: "json \<Rightarrow> json res" where
  "managed_metadata m = py_upd ''labels'' (py_set managed_label (JStr ''true'')) (py_setdefault ''labels'' (JObj []) m)"

definition exported_pod :: "pair_env \<Rightarrow> string \<Rightarrow> string \<Rightarrow> json \<Rightarrow> json res" where
  "exported_pod pe identity name pod =
     res_bind (named_container ''dsh'' pod) (\<lambda>c.
     Inr (add_parts [exporter_container identity (environment_of name) (service_of pe name) (jget c ''image'')]
            [claim_volume ''capacity-publication'' (pe_inventory pe)] pod))"

text \<open>The deployment that is created: the supervisor, the label, the publication volume and the exporter.\<close>

definition published_deployment :: "pair_env \<Rightarrow> string \<Rightarrow> string \<Rightarrow> json \<Rightarrow> json res" where
  "published_deployment pe identity name document =
     res_bind (sidecar document (pe_configmap pe) (pe_control pe) (service_of pe name)) (\<lambda>updated.
     res_bind (upd_template (py_upd ''metadata'' managed_metadata) updated) (upd_pod (exported_pod pe identity name)))"

text \<open>One deployment; the status claim is created before the image is looked up and the deployment itself last.\<close>

definition create_deployment :: "'w server \<Rightarrow> pair_env \<Rightarrow> string \<Rightarrow> json \<Rightarrow> ('w pair_world, json) io" where
  "create_deployment send pe identity document =
     (let name = string_of (jget (jget document ''metadata'') ''name''); service = service_of pe name in
      io_bind (publish_service pe service) (\<lambda>_.
      io_bind (io_lift (res_bind (sidecar document (pe_configmap pe) (pe_control pe) service)
        (upd_template (py_upd ''metadata'' managed_metadata)))) (\<lambda>_.
      io_bind (on_server (ensure_new (pe_digest pe) send (pe_namespace pe) (status_document pe service))) (\<lambda>_.
      io_bind (io_lift (published_deployment pe identity name document)) (\<lambda>updated.
      io_bind (on_server (ensure_new (pe_digest pe) send (pe_namespace pe) updated)) (\<lambda>_.
      io_return updated))))))"

fun create_documents :: "'w server \<Rightarrow> pair_env \<Rightarrow> string \<Rightarrow> json list \<Rightarrow> (string \<times> json) list \<Rightarrow>
    ('w pair_world, (string \<times> json) list) io" where
  "create_documents send pe identity [] expected = io_return expected"
| "create_documents send pe identity (d # ds) expected =
     (if jget d ''kind'' \<noteq> JStr ''Deployment''
      then io_bind (on_server (ensure_new (pe_digest pe) send (pe_namespace pe) d)) (\<lambda>_. create_documents send pe identity ds expected)
      else io_bind (create_deployment send pe identity d) (\<lambda>updated.
        create_documents send pe identity ds (AList.update (string_of (jget (jget d ''metadata'') ''name'')) updated expected)))"

text \<open>\<open>routes\<close>: the host of the site's name space; the token file the exporter publishes.\<close>

definition site_route :: "pair_env \<Rightarrow> string \<Rightarrow> string \<times> json \<Rightarrow> string \<times> json" where
  "site_route pe identity r =
     (case r of (environment, target) \<Rightarrow>
        (environment, jset ''tokenFile'' (JStr (''/runtime-tokens/capacity/'' @ identity @ ''/'' @ environment @ ''/token''))
           (jset ''host'' (JStr (cluster_host pe (before_char CHR ''.'' (string_of (jget target ''host''))))) target)))"

definition route_name :: "json \<Rightarrow> string" where
  "route_name target = before_char CHR ''.'' (string_of (jget target ''host''))"

definition expected_of :: "(string \<times> json) list \<Rightarrow> string \<Rightarrow> json res" where
  "expected_of expected n = (case map_of expected n of None \<Rightarrow> Inl (KeyError n) | Some d \<Rightarrow> Inr d)"

definition round_of :: "(string \<times> json) list \<Rightarrow> (string \<times> json) list \<Rightarrow> (string \<Rightarrow> runtime_look) \<Rightarrow> (json res \<times> runtime_look) list" where
  "round_of routes expected look =
     map (\<lambda>(environment, target). (expected_of expected (route_name target), look environment)) routes"

definition pair_credentials :: "pair_env \<Rightarrow> string \<Rightarrow> (credential_world, unit) io" where
  "pair_credentials pe identity =
     io_bind (credential (pe_issuer pe (inference_secret identity)) (inference_secret identity) ''litellm-api-key'' False) (\<lambda>_.
     io_bind (credential (pe_issuer pe (harness_secret identity ''secure'')) (harness_secret identity ''secure'') ''api-key'' True) (\<lambda>_.
     credential (pe_issuer pe (harness_secret identity ''internet'')) (harness_secret identity ''internet'') ''api-key'' True))"

definition pool_of :: "string \<Rightarrow> string" where "pool_of slot = take (length slot - 3) slot"

definition generated_of :: "pair_env \<Rightarrow> string \<Rightarrow> generation res" where
  "generated_of pe slot = generate (pe_sha pe) (pe_templates pe) (pe_claims pe) (pool_of slot) 1"

definition create_and_qualify :: "'w server \<Rightarrow> pair_env \<Rightarrow> string \<Rightarrow> generation \<Rightarrow> ('w pair_world, (string \<times> json) list) io" where
  "create_and_qualify send pe identity g =
     (let routes = map (site_route pe identity) (concat (map snd (gn_slots g))) in
      io_bind (on_credentials (pair_credentials pe identity)) (\<lambda>_.
      io_bind (create_documents send pe identity (gn_documents g) []) (\<lambda>expected.
      io_bind (io_lift (await_pair (map (round_of routes expected) (pe_rounds pe)))) (\<lambda>_.
      io_return routes))))"

definition prepare_and_qualify :: "'w server \<Rightarrow> pair_env \<Rightarrow> string \<Rightarrow> ('w pair_world, (string \<times> json) list) io" where
  "prepare_and_qualify send pe slot =
     io_bind (on_slot (prepare_storage (pe_sha pe) (res_bind (generated_of pe slot) (\<lambda>g. Inr (map fst (gn_slots g), gn_paths g))) slot)) (\<lambda>_.
     io_bind (io_lift (generated_of pe slot)) (create_and_qualify send pe (identity_of (pe_sha pe) slot)))"

section \<open>Lemmas on updates\<close>

lemma py_set_Inr: "py_set k v d = Inr d' \<longleftrightarrow> is_obj d \<and> d' = jset k v d"
  by (auto simp: py_set_def)

lemma py_upd_Inr: "py_upd k f d = Inr d' \<longleftrightarrow> (\<exists>v'. is_obj d \<and> jhas d k \<and> f (jget d k) = Inr v' \<and> d' = jset k v' d)"
  by (auto simp: py_upd_def res_bind_Inr_iff py_idx_Inr py_set_Inr)

lemmas update_rules = py_set_Inr py_upd_Inr res_bind_Inr_iff

lemma upd_template_Inr:
  assumes "upd_template f d = Inr d'"
  shows "f (pod_template d) = Inr (pod_template d')" "\<And>k. k \<noteq> ''spec'' \<Longrightarrow> jget d' k = jget d k"
  using assms by (auto simp: upd_template_def py_upd_Inr pod_template_def)

lemma upd_pod_Inr:
  assumes "upd_pod f d = Inr d'"
  shows "f (jget (pod_template d) ''spec'') = Inr (jget (pod_template d') ''spec'')" "\<And>k. k \<noteq> ''spec'' \<Longrightarrow> jget d' k = jget d k"
  using assms upd_template_Inr [OF assms [unfolded upd_pod_def]] by (auto simp: py_upd_Inr)

section \<open>What a private workload holds\<close>

definition env_private :: "string \<Rightarrow> json \<Rightarrow> bool" where
  "env_private identity e =
     (\<not> literal_credential e \<and>
      (jhas (jget e ''valueFrom'') ''secretKeyRef'' \<longrightarrow>
         jget (jget (jget e ''valueFrom'') ''secretKeyRef'') ''name'' = JStr (inference_secret identity)))"

definition mount_private :: "string \<Rightarrow> json \<Rightarrow> bool" where
  "mount_private identity m = private_path identity (string_of (jget m ''subPath''))"

definition claim_private :: "string \<Rightarrow> string \<Rightarrow> string \<Rightarrow> json list \<Rightarrow> json \<Rightarrow> bool" where
  "claim_private name identity environment mounts v =
     (claim_of v = JStr (name @ ''-'' @ string_of (name_of v)) \<or>
      claim_of v = JStr ''dsh-package-approved'' \<and> list_all (\<lambda>m. truthy (jget m ''readOnly'')) (named_in mounts (name_of v)) \<or>
      claim_of v = JStr ''dsh-da-workspace-secure'' \<and> environment = ''secure'' \<and>
        list_all (mount_private identity) (named_in mounts (name_of v)))"

definition volume_private :: "string \<Rightarrow> string \<Rightarrow> string \<Rightarrow> json list \<Rightarrow> json \<Rightarrow> bool" where
  "volume_private name identity environment mounts v =
     (\<not> jhas v ''hostPath'' \<and>
      (jhas v ''secret'' \<longrightarrow> jget (jget v ''secret'') ''secretName'' = JStr (harness_secret identity environment)) \<and>
      (jhas v ''persistentVolumeClaim'' \<longrightarrow> claim_private name identity environment mounts v))"

lemma state_leaves:
  "list_all (\<lambda>n. ''state/'' @ last (split_char CHR ''/'' (string_of (state_path n))) \<in> set private_leaves) state_folders"
  by code_simp

lemma central_suffix_leaf:
  assumes "central_suffix p = Inr s"
  shows "s \<in> set private_leaves" "p \<noteq> JNull"
proof -
  consider "p = JStr ''/workspace''" "s = ''secure''"
    | n where "p = state_path n" "n \<in> set state_folders" "s = ''state/'' @ last (split_char CHR ''/'' (string_of (state_path n)))"
    using assms unfolding central_suffix_def by (auto split: if_splits)
  then have "s \<in> set private_leaves \<and> p \<noteq> JNull"
  proof cases
    case 1
    then show ?thesis by (simp add: private_leaves_def)
  next
    case 2
    then show ?thesis using state_leaves unfolding list_all_iff state_path_def by blast
  qed
  then show "s \<in> set private_leaves" "p \<noteq> JNull" by blast+
qed

lemma central_suffix_private: "central_suffix p = Inr s \<Longrightarrow> private_path identity (central_path identity s)"
  unfolding private_path_def central_path_def by (drule central_suffix_leaf(1)) simp

lemma central_mount_name: "central_mount identity n m = Inr m' \<Longrightarrow> name_of m' = name_of m"
  by (auto simp: central_mount_def name_of_def res_bind_Inr_iff jset_other split: if_splits)

lemma central_mount_keeps:
  assumes "central_mount identity n m = Inr m'"
  shows "mount_private identity m \<Longrightarrow> mount_private identity m'" "jget m' ''readOnly'' = jget m ''readOnly''"
    "name_of m = n \<Longrightarrow> mount_private identity m'"
proof -
  have "m' = m \<and> name_of m \<noteq> n \<or> (\<exists>s. central_suffix (jget m ''mountPath'') = Inr s \<and> m' = jset ''subPath'' (JStr (central_path identity s)) m)"
    using assms by (auto simp: central_mount_def res_bind_Inr_iff split: if_splits)
  moreover have "mount_private identity (jset ''subPath'' (JStr (central_path identity s)) m)"
    if "central_suffix (jget m ''mountPath'') = Inr s" for s
  proof -
    have "is_obj m" using central_suffix_leaf(2) [OF that] by (cases m) auto
    then show ?thesis using central_suffix_private [OF that] by (simp add: mount_private_def string_of_def)
  qed
  ultimately show "mount_private identity m \<Longrightarrow> mount_private identity m'" "jget m' ''readOnly'' = jget m ''readOnly''"
    "name_of m = n \<Longrightarrow> mount_private identity m'"
    by (auto simp: jset_other)
qed

lemma named_in_iff: "x \<in> set (named_in xs n) \<longleftrightarrow> x \<in> set xs \<and> name_of x = n"
  by (auto simp: named_in_def name_of_def)

lemma volume_private_mounts:
  assumes "volume_private name identity environment mounts v" "res_map (central_mount identity n) mounts = Inr mounts'"
  shows "volume_private name identity environment mounts' v"
proof -
  have old: "\<exists>m \<in> set (named_in mounts k). central_mount identity n m = Inr m'" if "m' \<in> set (named_in mounts' k)" for m' k
    using res_map_mem [OF assms(2)] that central_mount_name by (metis named_in_iff)
  have "list_all (\<lambda>m. truthy (jget m ''readOnly'')) (named_in mounts' k)"
    if "list_all (\<lambda>m. truthy (jget m ''readOnly'')) (named_in mounts k)" for k
    using that old central_mount_keeps(2) unfolding list_all_iff by metis
  moreover have "list_all (mount_private identity) (named_in mounts' k)" if "list_all (mount_private identity) (named_in mounts k)" for k
    using that old central_mount_keeps(1) unfolding list_all_iff by metis
  ultimately show ?thesis using assms(1) unfolding volume_private_def claim_private_def by blast
qed

text \<open>A volume with its own Secret.\<close>

definition secret_private :: "string \<Rightarrow> string \<Rightarrow> json \<Rightarrow> bool" where
  "secret_private identity environment v =
     (\<not> jhas v ''hostPath'' \<and> (jhas v ''secret'' \<longrightarrow> jget (jget v ''secret'') ''secretName'' = JStr (harness_secret identity environment)))"

lemma own_secret_private:
  assumes "own_secret identity environment v = Inr v'" "\<not> jhas v ''hostPath''" "\<not> (jhas v ''secret'' \<and> name_of v \<noteq> JStr ''harness-credentials'')"
  shows "secret_private identity environment v'"
proof (cases "name_of v = JStr ''harness-credentials''")
  case True
  then show ?thesis
    using assms by (auto simp: own_secret_def update_rules secret_private_def)
next
  case False
  then show ?thesis using assms by (auto simp: own_secret_def secret_private_def)
qed

lemma own_claim_private:
  assumes "own_claim claim v = Inr v'" "secret_private identity environment v"
  shows "secret_private identity environment v'" "claim_of v' = JStr claim" "name_of v' = name_of v"
  using assms by (auto simp: own_claim_def update_rules secret_private_def claim_of_def name_of_def)

definition claim_document :: "string \<Rightarrow> json \<Rightarrow> bool" where
  "claim_document name d = (jget d ''kind'' = JStr ''PersistentVolumeClaim'' \<and>
     (\<exists>x. jget (jget d ''metadata'') ''name'' = JStr (name @ ''-'' @ x)))"

definition pass_private :: "string \<Rightarrow> string \<Rightarrow> string \<Rightarrow> volume_pass \<Rightarrow> bool" where
  "pass_private name identity environment vp =
     (list_all (volume_private name identity environment (vp_mounts vp)) (vp_volumes vp) \<and>
      list_all (private_path identity) (vp_paths vp) \<and> list_all (claim_document name) (vp_claims vp))"

lemma pass_add:
  assumes "pass_private name identity environment vp" "volume_private name identity environment (vp_mounts vp) v"
  shows "pass_private name identity environment (vp\<lparr> vp_volumes := vp_volumes vp @ [v] \<rparr>)"
  using assms by (simp add: pass_private_def)

lemma new_claim_document: "claim_document name (new_claim pool (name @ ''-'' @ x) spec)"
  by (simp add: claim_document_def new_claim_def private_metadata_def)

lemma private_volume_keeps:
  assumes "private_volume name identity pool environment claims v vp = Inr vp'" "pass_private name identity environment vp"
  shows "pass_private name identity environment vp'"
proof -
  let ?central = "JStr ''dsh-da-workspace-secure''" and ?approved = "JStr ''dsh-package-approved''"
  obtain u where u: "own_secret identity environment v = Inr u" and s: "secret_private identity environment u"
    using assms(1) own_secret_private unfolding private_volume_def by (auto simp: res_bind_Inr_iff split: if_splits)
  let ?mounts = "filter (\<lambda>m. name_of m = name_of u) (vp_mounts vp)"
  have named: "?mounts = named_in (vp_mounts vp) (name_of u)" by (simp add: named_in_def name_of_def)
  consider "\<not> jhas u ''persistentVolumeClaim''" "vp' = vp\<lparr> vp_volumes := vp_volumes vp @ [u] \<rparr>"
    | "claim_of u = ?approved" "list_all (\<lambda>m. truthy (jget m ''readOnly'')) ?mounts" "vp' = vp\<lparr> vp_volumes := vp_volumes vp @ [u] \<rparr>"
    | suffixes mounts' where "claim_of u = ?central" "environment = ''secure''"
        "res_map (\<lambda>m. central_suffix (jget m ''mountPath'')) ?mounts = Inr suffixes"
        "res_map (central_mount identity (name_of u)) (vp_mounts vp) = Inr mounts'"
        "vp' = vp\<lparr> vp_mounts := mounts', vp_volumes := vp_volumes vp @ [u], vp_paths := vp_paths vp @ map (central_path identity) suffixes \<rparr>"
    | old w where "own_claim (name @ ''-'' @ string_of (name_of u)) u = Inr w"
        "vp' = vp\<lparr> vp_volumes := vp_volumes vp @ [w],
           vp_claims := vp_claims vp @ [new_claim pool (name @ ''-'' @ string_of (name_of u)) (jget old ''spec'')] \<rparr>"
    using assms(1) unfolding private_volume_def u by (auto simp: res_bind_Inr_iff Let_def split: if_splits)
  then show ?thesis
  proof cases
    case 1
    then show ?thesis using s pass_add [OF assms(2)] by (simp add: volume_private_def secret_private_def)
  next
    case 2
    then have "volume_private name identity environment (vp_mounts vp) u"
      using s unfolding named by (simp add: volume_private_def secret_private_def claim_private_def)
    then show ?thesis using pass_add [OF assms(2)] 2(3) by simp
  next
    case 3
    have "mount_private identity m" if "m \<in> set (named_in mounts' (name_of u))" for m
      using res_map_mem [OF 3(4)] that central_mount_keeps(3) central_mount_name by (metis named_in_iff)
    then have "volume_private name identity environment mounts' u"
      using s 3 by (simp add: volume_private_def secret_private_def claim_private_def list_all_iff)
    moreover have "list_all (\<lambda>x. private_path identity (central_path identity x)) suffixes"
      by (rule res_map_list_all [OF 3(3)]) (rule central_suffix_private)
    moreover have "list_all (volume_private name identity environment mounts') (vp_volumes vp)"
      using assms(2) volume_private_mounts [OF _ 3(4)] by (auto simp: pass_private_def list_all_iff)
    ultimately show ?thesis
      using assms(2) 3(5) by (auto simp: pass_private_def list_all_iff)
  next
    case 4
    have "volume_private name identity environment (vp_mounts vp) w"
      using own_claim_private [OF 4(1) s] by (simp add: volume_private_def secret_private_def claim_private_def)
    then show ?thesis using assms(2) 4(2) new_claim_document by (simp add: pass_private_def)
  qed
qed

lemma private_volumes_private:
  assumes "private_volumes name identity pool environment claims pod c = Inr vp"
  shows "pass_private name identity environment vp"
proof -
  obtain vs where "res_fold (private_volume name identity pool environment claims) vs
      \<lparr> vp_mounts = mounts_of c, vp_volumes = [], vp_claims = [], vp_paths = [] \<rparr> = Inr vp"
    using assms by (auto simp: private_volumes_def res_bind_Inr_iff)
  then show ?thesis
    by (rule res_fold_invariant [where P = "pass_private name identity environment"])
      (simp add: pass_private_def, rule private_volume_keeps)
qed

lemma private_volumes_mounts: "private_volumes name identity pool environment claims pod c = Inr vp \<Longrightarrow> is_obj pod"
  by (auto simp: private_volumes_def res_bind_Inr_iff py_idx_Inr)

definition container_private :: "string \<Rightarrow> json \<Rightarrow> bool" where
  "container_private identity c =
     (pinned_image (string_of (jget c ''image'')) \<and> jget (jget c ''securityContext'') ''runAsNonRoot'' = JBool True \<and>
      \<not> truthy (jget (jget c ''securityContext'') ''privileged'') \<and>
      jget (jget c ''securityContext'') ''allowPrivilegeEscalation'' = JBool False \<and> list_all (env_private identity) (env_of c))"

definition pod_private :: "string \<Rightarrow> string \<Rightarrow> string \<Rightarrow> json \<Rightarrow> bool" where
  "pod_private name identity environment pod =
     (is_obj pod \<and> \<not> jhas pod ''initContainers'' \<and> jget pod ''automountServiceAccountToken'' = JBool False \<and>
      \<not> truthy (jget pod ''hostNetwork'') \<and> \<not> truthy (jget pod ''hostPID'') \<and>
      (\<exists>c. containers_of pod = [c] \<and> container_private identity c \<and>
        list_all (volume_private name identity environment (mounts_of c)) (volumes_of pod)))"

lemma own_credential_private:
  assumes "own_credential identity e = Inr e'" "check_env e = Inr ()"
  shows "env_private identity e'"
proof (cases "name_of e = JStr ''DEEPSEEK_API_KEY''")
  case True
  then obtain x where x: "is_obj e" "is_obj x" "is_obj (jget x ''secretKeyRef'')"
    "e' = jset ''valueFrom'' (jset ''secretKeyRef'' (jset ''name'' (JStr (inference_secret identity)) (jget x ''secretKeyRef'')) x) e"
    using assms(1) by (auto simp: own_credential_def update_rules)
  moreover have "\<not> literal_credential e" using assms(2) by (auto simp: check_env_def split: if_splits)
  ultimately show ?thesis by (simp add: env_private_def literal_credential_def name_of_def)
next
  case False
  then have "e' = e" using assms(1) by (simp add: own_credential_def)
  then show ?thesis using False assms(2) by (auto simp: env_private_def check_env_def foreign_secret_def split: if_splits)
qed

lemma private_container_private:
  assumes "private_container identity c = Inr c'"
  shows "container_private identity c'" "is_obj c'"
proof -
  obtain d entries env where "check_container d = Inr ()" "is_obj d" "jget d ''env'' = entries"
    and env: "res_map (own_credential identity) (jlist entries) = Inr env" and c': "c' = jset ''env'' (JList env) d"
    using assms unfolding private_container_def by (auto simp: res_bind_Inr_iff py_idx_Inr py_set_Inr)
  moreover have "list_all (env_private identity) env"
  proof (rule res_map_list_all [OF env])
    fix e e' assume "e \<in> set (jlist entries)" "own_credential identity e = Inr e'"
    moreover obtain us where "res_map check_env (jlist entries) = Inr us"
      using \<open>check_container d = Inr ()\<close> \<open>jget d ''env'' = entries\<close> by (auto simp: check_container_def res_bind_Inr_iff env_of_def)
    ultimately have "check_env e = Inr ()" using res_map_all [of check_env] by fastforce
    then show "env_private identity e'" by (rule own_credential_private [OF \<open>own_credential identity e = Inr e'\<close>])
  qed
  ultimately show "container_private identity c'" "is_obj c'"
    by (auto simp: container_private_def check_container_def res_bind_Inr_iff env_of_def jlist_def jset_other)
qed

lemma cleared_pod:
  assumes "drop_initialization t = Inr p" "token_absent p = Inr ()" "drop_supervisor p = Inr q" "single_container q = Inr c" "is_obj t"
  shows "is_obj q" "\<not> jhas q ''initContainers''" "jget q ''automountServiceAccountToken'' = JBool False"
    "\<not> truthy (jget q ''hostNetwork'')" "\<not> truthy (jget q ''hostPID'')"
proof -
  have p: "p = jpop ''initContainers'' t" using assms(1) by (auto simp: drop_initialization_def split: if_splits)
  have a: "jget p ''automountServiceAccountToken'' = JBool False" using assms(2) by (simp add: token_absent_def)
  have q: "q = p \<or> (\<exists>vs own. q = jset ''volumes'' vs (jset ''containers'' own p))"
    using assms(3) by (auto simp: drop_supervisor_def Let_def split: if_splits)
  show "is_obj q" "\<not> jhas q ''initContainers''" "jget q ''automountServiceAccountToken'' = JBool False"
    using q a p assms(5) by (auto simp: jset_other)
  show "\<not> truthy (jget q ''hostNetwork'')" "\<not> truthy (jget q ''hostPID'')"
    using assms(4) by (auto simp: single_container_def split: list.splits if_splits)
qed

lemma private_pod_private:
  assumes "private_pod name identity pool environment claims t = Inr parts"
  shows "pod_private name identity environment (pp_pod parts)" "list_all (private_path identity) (pp_paths parts)"
    "list_all (claim_document name) (pp_claims parts)"
proof -
  obtain p q c c' vp where steps: "is_obj t" "drop_initialization t = Inr p" "token_absent p = Inr ()" "drop_supervisor p = Inr q"
    "single_container q = Inr c" "private_container identity c = Inr c'"
    "private_volumes name identity pool environment claims q c' = Inr vp" and parts: "parts = assembled q c' vp"
    using assms unfolding private_pod_def by (auto simp: res_bind_Inr_iff split: if_splits)
  note q = cleared_pod [OF steps(2,3,4,5,1)] and c' = private_container_private [OF steps(6)]
  note vp = private_volumes_private [OF steps(7), unfolded pass_private_def]
  let ?c = "jset ''volumeMounts'' (JList (vp_mounts vp)) c'"
  have "containers_of (pp_pod parts) = [?c]" "volumes_of (pp_pod parts) = vp_volumes vp" "mounts_of ?c = vp_mounts vp"
    using q(1) c'(2) by (simp_all add: parts assembled_def containers_of_def volumes_of_def mounts_of_def jlist_def jset_other)
  moreover have "container_private identity ?c"
    using c' by (simp add: container_private_def jset_other env_of_def)
  ultimately show "pod_private name identity environment (pp_pod parts)"
    using q vp by (simp add: pod_private_def parts assembled_def jset_other)
  show "list_all (private_path identity) (pp_paths parts)" "list_all (claim_document name) (pp_claims parts)"
    using vp by (simp_all add: parts assembled_def)
qed

section \<open>The generated documents\<close>

definition private_deployment :: "string \<Rightarrow> string \<Rightarrow> string \<Rightarrow> json \<Rightarrow> bool" where
  "private_deployment identity environment pool d =
     (let name = pair_runtime identity environment in
      jget d ''metadata'' = private_metadata name pool \<and> jget (jget d ''spec'') ''replicas'' = JInt 1 \<and>
      jget (jget (jget d ''spec'') ''selector'') ''matchLabels'' = JObj [(''app'', JStr name)] \<and>
      pod_private name identity environment (jget (pod_template d) ''spec''))"

definition private_document :: "string \<Rightarrow> string \<Rightarrow> json \<Rightarrow> bool" where
  "private_document identity pool d =
     list_ex (\<lambda>environment. claim_document (pair_runtime identity environment) d \<or> d = pair_service (pair_runtime identity environment) pool \<or>
        private_deployment identity environment pool d) environments"

lemma upd_pod_spec:
  assumes "upd_pod f d = Inr d'" "k \<noteq> ''template''"
  shows "jget (jget d' ''spec'') k = jget (jget d ''spec'') k"
  using assms by (auto simp: upd_pod_def upd_template_def py_upd_Inr jset_other)

lemma private_frame_spec:
  assumes "private_frame name identity pool source = Inr d"
  shows "jget d ''metadata'' = private_metadata name pool" "jget (jget d ''spec'') ''replicas'' = JInt 1"
    "jget (jget (jget d ''spec'') ''selector'') ''matchLabels'' = JObj [(''app'', JStr name)]"
  using assms by (auto simp: private_frame_def private_spec_def update_rules jset_other)

lemma private_workload_private:
  assumes "private_workload pool identity templates claims environment = Inr (ds, ps)" "environment \<in> set environments"
  shows "list_all (private_document identity pool) ds" "list_all (private_path identity) ps"
proof -
  let ?n = "pair_runtime identity environment"
  obtain w parts w' where w: "private_frame ?n identity pool (jget templates environment) = Inr w"
    "private_pod ?n identity pool environment claims (jget (pod_template w) ''spec'') = Inr parts"
    "upd_pod (\<lambda>_. Inr (pp_pod parts)) w = Inr w'" and ds: "ds = pp_claims parts @ [w', pair_service ?n pool]" "ps = pp_paths parts"
    using assms(1) unfolding private_workload_def Let_def by (auto simp: res_bind_Inr_iff)
  note p = private_pod_private [OF w(2)] and f = private_frame_spec [OF w(1)]
  have "jget (pod_template w') ''spec'' = pp_pod parts" using upd_pod_Inr(1) [OF w(3)] by simp
  moreover have "jget w' ''metadata'' = jget w ''metadata''" by (rule upd_pod_Inr(2) [OF w(3)]) simp
  moreover have "jget (jget w' ''spec'') ''replicas'' = jget (jget w ''spec'') ''replicas''"
    "jget (jget w' ''spec'') ''selector'' = jget (jget w ''spec'') ''selector''"
    by (rule upd_pod_spec [OF w(3)], simp)+
  ultimately have "private_deployment identity environment pool w'"
    unfolding private_deployment_def Let_def using p(1) f by metis
  moreover have "private_document identity pool d" if "claim_document ?n d \<or> d = pair_service ?n pool \<or> private_deployment identity environment pool d" for d
    using that assms(2) unfolding private_document_def list_ex_iff by blast
  ultimately show "list_all (private_document identity pool) ds" "list_all (private_path identity) ps"
    using p(2,3) unfolding ds list_all_iff by auto
qed

lemma private_pair_private:
  assumes "private_pair sha templates claims pool slot = Inr (ds, ps)"
  shows "list_all (private_document (identity_of sha slot) pool) ds" "list_all (private_path (identity_of sha slot)) ps"
proof -
  obtain parts where parts: "res_map (private_workload pool (identity_of sha slot) templates claims) environments = Inr parts"
    and ds: "ds = concat (map fst parts)" "ps = concat (map snd parts)"
    using assms unfolding private_pair_def by (auto simp: res_bind_Inr_iff)
  have "list_all (\<lambda>p. list_all (private_document (identity_of sha slot) pool) (fst p) \<and> list_all (private_path (identity_of sha slot)) (snd p)) parts"
  proof (rule res_map_list_all [OF parts])
    fix e p assume e: "e \<in> set environments" "private_workload pool (identity_of sha slot) templates claims e = Inr p"
    show "list_all (private_document (identity_of sha slot) pool) (fst p) \<and> list_all (private_path (identity_of sha slot)) (snd p)"
      using private_workload_private [of pool _ templates claims e "fst p" "snd p"] e by simp
  qed
  then show "list_all (private_document (identity_of sha slot) pool) ds" "list_all (private_path (identity_of sha slot)) ps"
    by (auto simp: ds list_all_iff)
qed

lemma generated_private:
  assumes "generate sha templates claims pool pairs = Inr g"
  shows "list_all (\<lambda>d. list_ex (\<lambda>s. private_document (identity_of sha (fst s)) pool d) (gn_slots g)) (gn_documents g) \<and>
    list_all (\<lambda>p. list_ex (\<lambda>s. private_path (identity_of sha (fst s)) p) (gn_slots g)) (gn_paths g) \<and>
    length (gn_slots g) = pairs \<and> pairs \<le> 16"
proof -
  let ?slots = "map (slot_name pool) [1..<Suc pairs]"
  have n: "pairs \<le> 16" using assms by (auto simp: generate_def split: if_splits)
  have "res_bind (res_map (private_pair sha templates claims pool) ?slots) (\<lambda>parts.
     Inr \<lparr> gn_documents = concat (map fst parts),
           gn_slots = map (\<lambda>slot. (slot, map (\<lambda>e. (e, pair_route (identity_of sha slot) e)) environments)) ?slots,
           gn_paths = sort (remdups (concat (map snd parts))) \<rparr>) = Inr g"
    using assms unfolding generate_def Let_def by (simp only: sum.distinct split: if_splits)
  then obtain parts where parts: "res_map (private_pair sha templates claims pool) ?slots = Inr parts"
    and "g = \<lparr> gn_documents = concat (map fst parts),
           gn_slots = map (\<lambda>slot. (slot, map (\<lambda>e. (e, pair_route (identity_of sha slot) e)) environments)) ?slots,
           gn_paths = sort (remdups (concat (map snd parts))) \<rparr>"
    unfolding res_bind_Inr_iff by blast
  then have g: "gn_documents g = concat (map fst parts)" "map fst (gn_slots g) = ?slots" "set (gn_paths g) = set (concat (map snd parts))"
    by (simp_all only: generation.simps map_map comp_def fst_conv set_sort set_remdups)
  have slot: "list_ex (\<lambda>s. P (fst s)) (gn_slots g)" if "x \<in> set ?slots" "P x" for P x
    using that unfolding g(2) [symmetric] by (auto simp: list_ex_iff)
  have "list_all (\<lambda>p. list_all (\<lambda>d. list_ex (\<lambda>s. private_document (identity_of sha (fst s)) pool d) (gn_slots g)) (fst p) \<and>
      list_all (\<lambda>q. list_ex (\<lambda>s. private_path (identity_of sha (fst s)) q) (gn_slots g)) (snd p)) parts"
  proof (rule res_map_list_all [OF parts])
    fix x p assume x: "x \<in> set ?slots" "private_pair sha templates claims pool x = Inr p"
    note p = private_pair_private [of sha templates claims pool x "fst p" "snd p"]
    show "list_all (\<lambda>d. list_ex (\<lambda>s. private_document (identity_of sha (fst s)) pool d) (gn_slots g)) (fst p) \<and>
      list_all (\<lambda>q. list_ex (\<lambda>s. private_path (identity_of sha (fst s)) q) (gn_slots g)) (snd p)"
      unfolding list_all_iff
    proof (intro conjI ballI)
      fix d assume "d \<in> set (fst p)"
      then show "list_ex (\<lambda>s. private_document (identity_of sha (fst s)) pool d) (gn_slots g)"
        using p x by (intro slot [OF x(1), of "\<lambda>y. private_document (identity_of sha y) pool d"]) (auto simp: list_all_iff)
    next
      fix q assume "q \<in> set (snd p)"
      then show "list_ex (\<lambda>s. private_path (identity_of sha (fst s)) q) (gn_slots g)"
        using p x by (intro slot [OF x(1), of "\<lambda>y. private_path (identity_of sha y) q"]) (auto simp: list_all_iff)
    qed
  qed
  moreover have "length (gn_slots g) = pairs" using arg_cong [OF g(2), of length] by simp
  ultimately show ?thesis using g n by (auto simp: list_all_iff)
qed

text \<open>Every document the generator returns belongs to one new identity: its claims are named after its runtimes, and
  each workload runs one pinned, unprivileged container without a management token, literal credentials or another user's
  Secret, whose volumes are the pair's own claims, read-only approved packages or central folders of that identity; all
  central paths returned are folders of a new identity.\<close>

theorem generated_pairs_are_private:
  assumes "generate sha templates claims pool pairs = Inr g"
  shows "list_all (\<lambda>d. list_ex (\<lambda>s. private_document (identity_of sha (fst s)) pool d) (gn_slots g)) (gn_documents g) \<and>
    list_all (\<lambda>p. list_ex (\<lambda>s. private_path (identity_of sha (fst s)) p) (gn_slots g)) (gn_paths g) \<and>
    length (gn_slots g) = pairs \<and> pairs \<le> 16"
  using assms by (rule generated_private)

section \<open>The published deployment\<close>

text \<open>The pod that is created: the private agent container unchanged, the supervisor and the exporter, and the private
  volumes with the five control volumes.\<close>

definition published_pod :: "pair_env \<Rightarrow> string \<Rightarrow> string \<Rightarrow> json \<Rightarrow> json \<Rightarrow> bool" where
  "published_pod pe identity name private pod =
     (\<exists>c state. containers_of private = [c] \<and>
        containers_of pod = [c, supervisor_container (service_of pe name) c state,
          exporter_container identity (environment_of name) (service_of pe name) (jget c ''image'')] \<and>
        volumes_of pod = volumes_of private @ supervisor_volumes (pe_configmap pe) (pe_control pe) (service_of pe name) @
          [claim_volume ''capacity-publication'' (pe_inventory pe)] \<and>
        jget pod ''automountServiceAccountToken'' = JBool False \<and> jget pod ''hostNetwork'' = jget private ''hostNetwork'' \<and>
        jget pod ''hostPID'' = jget private ''hostPID'')"

lemma add_parts_parts:
  assumes "is_obj pod"
  shows "containers_of (add_parts cs vs pod) = containers_of pod @ cs" "volumes_of (add_parts cs vs pod) = volumes_of pod @ vs"
    "is_obj (add_parts cs vs pod)"
    "k \<noteq> ''containers'' \<Longrightarrow> k \<noteq> ''volumes'' \<Longrightarrow> jget (add_parts cs vs pod) k = jget pod k"
  using assms by (auto simp: add_parts_def containers_of_def volumes_of_def jlist_def jset_other)

lemma named_container_single: "named_container n pod = Inr c \<Longrightarrow> containers_of pod = c' # cs \<Longrightarrow> name_of c' = JStr n \<Longrightarrow> c = c'"
  by (simp add: named_container_def named_in_def name_of_def)

lemma supervised_pod_parts:
  assumes "supervised_pod configmap control identity pod = Inr pod'" "containers_of pod = [c]"
  obtains state where "is_obj pod'" "name_of c = JStr ''dsh''" "containers_of pod' = [c, supervisor_container identity c state]"
    "volumes_of pod' = volumes_of pod @ supervisor_volumes configmap control identity"
    "jget pod' ''automountServiceAccountToken'' = JBool False" "jget pod' ''hostNetwork'' = jget pod ''hostNetwork''"
    "jget pod' ''hostPID'' = jget pod ''hostPID''"
proof -
  obtain c' state where o: "is_obj pod" and c': "named_container ''dsh'' pod = Inr c'" and pod': "pod' =
      jset ''automountServiceAccountToken'' (JBool False)
        (add_parts [supervisor_container identity c' state] (supervisor_volumes configmap control identity) pod)"
    using assms(1) unfolding supervised_pod_def by (auto simp: res_bind_Inr_iff split: if_splits)
  have "c' = c \<and> name_of c = JStr ''dsh''"
    using c' assms(2) by (auto simp: named_container_def named_in_def name_of_def split: if_splits)
  then show ?thesis
    using that [of state] add_parts_parts [OF o] assms(2) unfolding pod'
    by (simp add: containers_of_def volumes_of_def jset_other)
qed

lemma exported_pod_parts:
  assumes "exported_pod pe identity name pod = Inr pod'" "containers_of pod = c # cs" "name_of c = JStr ''dsh''" "is_obj pod"
  shows "containers_of pod' = c # cs @ [exporter_container identity (environment_of name) (service_of pe name) (jget c ''image'')]"
    "volumes_of pod' = volumes_of pod @ [claim_volume ''capacity-publication'' (pe_inventory pe)]"
    "k \<noteq> ''containers'' \<Longrightarrow> k \<noteq> ''volumes'' \<Longrightarrow> jget pod' k = jget pod k"
proof -
  obtain c' where "named_container ''dsh'' pod = Inr c'" and pod': "pod' =
      add_parts [exporter_container identity (environment_of name) (service_of pe name) (jget c' ''image'')]
        [claim_volume ''capacity-publication'' (pe_inventory pe)] pod"
    using assms(1) by (auto simp: exported_pod_def res_bind_Inr_iff)
  then have "c' = c" using named_container_single assms(2,3) by blast
  then show "containers_of pod' = c # cs @ [exporter_container identity (environment_of name) (service_of pe name) (jget c ''image'')]"
    "volumes_of pod' = volumes_of pod @ [claim_volume ''capacity-publication'' (pe_inventory pe)]"
    "k \<noteq> ''containers'' \<Longrightarrow> k \<noteq> ''volumes'' \<Longrightarrow> jget pod' k = jget pod k"
    using add_parts_parts [OF assms(4)] assms(2) unfolding pod' by simp_all
qed

lemma managed_keeps_pod:
  assumes "upd_template (py_upd ''metadata'' managed_metadata) d = Inr d'"
  shows "jget (pod_template d') ''spec'' = jget (pod_template d) ''spec''"
  using upd_template_Inr(1) [OF assms] by (auto simp: py_upd_Inr jset_other)

lemma published_deployment_pod:
  assumes "published_deployment pe identity name d = Inr d'" "containers_of (jget (pod_template d) ''spec'') = [c]"
  shows "published_pod pe identity name (jget (pod_template d) ''spec'') (jget (pod_template d') ''spec'')"
proof -
  obtain u v where u: "sidecar d (pe_configmap pe) (pe_control pe) (service_of pe name) = Inr u"
    and v: "upd_template (py_upd ''metadata'' managed_metadata) u = Inr v" and d': "upd_pod (exported_pod pe identity name) v = Inr d'"
    using assms(1) by (auto simp: published_deployment_def res_bind_Inr_iff)
  obtain state where s: "is_obj (jget (pod_template u) ''spec'')" "name_of c = JStr ''dsh''"
    "containers_of (jget (pod_template u) ''spec'') = [c, supervisor_container (service_of pe name) c state]"
    "volumes_of (jget (pod_template u) ''spec'') = volumes_of (jget (pod_template d) ''spec'') @
       supervisor_volumes (pe_configmap pe) (pe_control pe) (service_of pe name)"
    "jget (jget (pod_template u) ''spec'') ''automountServiceAccountToken'' = JBool False"
    "jget (jget (pod_template u) ''spec'') ''hostNetwork'' = jget (jget (pod_template d) ''spec'') ''hostNetwork''"
    "jget (jget (pod_template u) ''spec'') ''hostPID'' = jget (jget (pod_template d) ''spec'') ''hostPID''"
    using supervised_pod_parts [OF upd_pod_Inr(1) [OF u [unfolded sidecar_def]] assms(2)] by blast
  note e = exported_pod_parts [OF upd_pod_Inr(1) [OF d', unfolded managed_keeps_pod [OF v]] s(3,2,1)]
  show ?thesis
    unfolding published_pod_def using assms(2) s e by (intro exI [of _ c] exI [of _ state]) simp
qed

section \<open>A provisioned pair\<close>

lemma created_documents:
  assumes "create_documents send pe identity ds expected w = (Inr expected', w')" "map_of expected' n = Some d"
  shows "map_of expected n = Some d \<or> (\<exists>doc \<in> set ds. jget doc ''kind'' = JStr ''Deployment'' \<and>
     jget (jget doc ''metadata'') ''name'' = JStr n \<and> published_deployment pe identity n doc = Inr d) \<or>
     (\<exists>doc \<in> set ds. \<not> is_str (jget (jget doc ''metadata'') ''name''))"
  using assms
proof (induction send pe identity ds expected arbitrary: w rule: create_documents.induct)
  case (2 send pe identity doc ds expected)
  show ?case
  proof (cases "jget doc ''kind'' = JStr ''Deployment''")
    case False
    then obtain w1 where "create_documents send pe identity ds expected w1 = (Inr expected', w')"
      using 2(3) by (auto elim!: io_bindE)
    then show ?thesis using 2(1) [OF False _ 2(4)] by (auto simp: False)
  next
    case True
    let ?n = "string_of (jget (jget doc ''metadata'') ''name'')"
    obtain u w1 where u: "create_deployment send pe identity doc w = (Inr u, w1)"
      and r: "create_documents send pe identity ds (AList.update ?n u expected) w1 = (Inr expected', w')"
      using 2(3) True by (auto elim!: io_bindE)
    have p: "published_deployment pe identity ?n doc = Inr u"
      using u unfolding create_deployment_def Let_def by (auto elim!: io_bindE split: sum.splits)
    have "map_of (AList.update ?n u expected) n = Some d \<Longrightarrow> n = ?n \<and> d = u \<or> map_of expected n = Some d"
      by (auto simp: update_conv' split: if_splits)
    then show ?thesis
      using 2(2) [OF _ r 2(4)] True p by (auto simp: string_of_def split: json.splits)
  qed
qed simp

text \<open>A route whose runtime was created from a private workload of the identity, with nothing but the supervisor and the
  exporter added, and whose running pod qualified against what was created.\<close>

definition provisioned_runtime :: "pair_env \<Rightarrow> string \<Rightarrow> json list \<Rightarrow> (string \<Rightarrow> runtime_look) \<Rightarrow> string \<times> json \<Rightarrow> bool" where
  "provisioned_runtime pe slot documents look route =
     (\<exists>doc d environment. doc \<in> set documents \<and>
        private_deployment (identity_of (pe_sha pe) slot) environment (pool_of slot) doc \<and>
        route_name (snd route) = pair_runtime (identity_of (pe_sha pe) slot) environment \<and>
        published_pod pe (identity_of (pe_sha pe) slot) (route_name (snd route))
          (jget (pod_template doc) ''spec'') (jget (pod_template d) ''spec'') \<and>
        qualifies d (look (fst route)))"

lemma private_document_deployment:
  assumes "private_document identity pool d"
  shows "is_str (jget (jget d ''metadata'') ''name'')"
    "jget d ''kind'' = JStr ''Deployment'' \<Longrightarrow> \<exists>environment. private_deployment identity environment pool d"
  using assms
  by (auto simp: private_document_def list_ex_iff claim_document_def pair_service_def private_deployment_def private_metadata_def Let_def)

lemma prepared_slots:
  assumes "prepare_storage sha (res_bind generated (\<lambda>g. Inr (map fst (gn_slots g), gn_paths g))) slot w = (Inr (), w')"
  obtains g where "generated = Inr g" "map fst (gn_slots g) = [slot]"
  using assms by (cases generated) (auto simp: prepare_storage_def split: if_splits)

lemma slot_documents_private:
  assumes "generated_of pe slot = Inr g" "map fst (gn_slots g) = [slot]" "d \<in> set (gn_documents g)"
  shows "private_document (identity_of (pe_sha pe) slot) (pool_of slot) d"
proof -
  obtain s where "gn_slots g = [s]" "fst s = slot" using assms(2) by (auto simp: map_eq_Cons_conv)
  moreover have "list_ex (\<lambda>s. private_document (identity_of (pe_sha pe) (fst s)) (pool_of slot) d) (gn_slots g)"
    using generated_private [OF assms(1) [unfolded generated_of_def]] assms(3) by (auto simp: list_all_iff)
  ultimately show ?thesis by simp
qed

lemma created_runtime:
  assumes "create_documents send pe (identity_of (pe_sha pe) slot) (gn_documents g) [] w = (Inr expected, w')"
    "generated_of pe slot = Inr g" "map fst (gn_slots g) = [slot]"
    "look_qualifies (expected_of expected (route_name (snd route)), look (fst route))"
  shows "provisioned_runtime pe slot (gn_documents g) look route"
proof -
  let ?i = "identity_of (pe_sha pe) slot" and ?n = "route_name (snd route)"
  obtain d where d: "map_of expected ?n = Some d" "qualifies d (look (fst route))"
    using assms(4) by (cases "map_of expected ?n") (auto simp: expected_of_def)
  note priv = slot_documents_private [OF assms(2,3)]
  obtain doc where doc: "doc \<in> set (gn_documents g)" "jget doc ''kind'' = JStr ''Deployment''"
    "jget (jget doc ''metadata'') ''name'' = JStr ?n" "published_deployment pe ?i ?n doc = Inr d"
    using created_documents [OF assms(1) d(1)] private_document_deployment(1) [OF priv] by auto
  obtain environment where e: "private_deployment ?i environment (pool_of slot) doc"
    using private_document_deployment(2) [OF priv [OF doc(1)] doc(2)] by blast
  then obtain c where "containers_of (jget (pod_template doc) ''spec'') = [c]" and n: "?n = pair_runtime ?i environment"
    using doc(3) by (auto simp: private_deployment_def pod_private_def Let_def private_metadata_def)
  then show ?thesis
    unfolding provisioned_runtime_def using d(2) doc e published_deployment_pod [OF doc(4)] by blast
qed


section \<open>Examples\<close>

definition example_image :: string where
  "example_image = ''r/dsh@sha256:'' @ replicate 64 CHR ''a''"

definition example_agent :: json where
  "example_agent = JObj [(''name'', JStr ''dsh''), (''image'', JStr example_image),
     (''env'', JList [env_entry ''DSH_ENVIRONMENT'' ''secure'',
        JObj [(''name'', JStr ''DEEPSEEK_API_KEY''), (''valueFrom'', JObj [(''secretKeyRef'', JObj [(''name'', JStr ''old''), (''key'', JStr ''k'')])])]]),
     (''volumeMounts'', JList [mount ''state'' ''/state'' [], mount ''packages'' ''/packages/approved'' [read_only]]),
     (''securityContext'', JObj [(''runAsNonRoot'', JBool True), (''allowPrivilegeEscalation'', JBool False),
        (''capabilities'', JObj [(''drop'', JList [JStr ''ALL''])])])]"

definition example_template :: json where
  "example_template = JObj [(''kind'', JStr ''Deployment''), (''metadata'', JObj [(''name'', JStr ''reviewed'')]),
     (''spec'', JObj [(''selector'', JObj []), (''template'', JObj [(''metadata'', JObj [(''labels'', JObj [])]),
        (''spec'', JObj [(''automountServiceAccountToken'', JBool False), (''containers'', JList [example_agent]),
           (''volumes'', JList [claim_volume ''state'' ''old-state'', claim_volume ''packages'' ''dsh-package-approved'',
              JObj [(''name'', JStr ''harness-credentials''), (''secret'', JObj [(''secretName'', JStr ''old-secret'')])]])])])])]"

definition example_templates :: json where
  "example_templates = JObj [(''secure'', example_template), (''internet'', example_template)]"

definition example_claims :: json where
  "example_claims = JObj [(''old-state'', JObj [(''spec'', JObj [(''storageClassName'', JStr ''topolvm'')])])]"

definition example_sha :: "string \<Rightarrow> string" where
  "example_sha s = (if endswith ''|off'' s then replicate 64 CHR ''b'' else if endswith ''|on'' s then replicate 64 CHR ''c''
     else replicate 64 CHR ''d'')"

definition example_slot :: string where "example_slot = ''cap-0123456789abcdef-01''"

text \<open>The documents of the example, written out.\<close>

definition example_identity :: string where "example_identity = ''dddddddddddddddd''"

definition pair_pool :: string where "pair_pool = ''cap-0123456789abcdef''"

definition example_workload :: "string \<Rightarrow> string \<Rightarrow> json" where
  "example_workload environment name =
     JObj [(''kind'', JStr ''Deployment''), (''metadata'', private_metadata name pair_pool),
       (''spec'', JObj [(''selector'', JObj [(''matchLabels'', JObj [(''app'', JStr name)])]),
          (''template'', JObj [(''metadata'', JObj [(''labels'', JObj [(''app'', JStr name), (''dsh.example.com/owner'', JStr example_identity),
               (''dsh.example.com/signup-pool'', JStr pair_pool)])]),
             (''spec'', JObj [(''automountServiceAccountToken'', JBool False),
                (''containers'', JList [JObj [(''name'', JStr ''dsh''), (''image'', JStr example_image),
                   (''env'', JList [env_entry ''DSH_ENVIRONMENT'' ''secure'',
                      JObj [(''name'', JStr ''DEEPSEEK_API_KEY''), (''valueFrom'', JObj [(''secretKeyRef'',
                         JObj [(''name'', JStr (''dsh-inference-signup-'' @ example_identity)), (''key'', JStr ''k'')])])]]),
                   (''volumeMounts'', JList [mount ''state'' ''/state'' [], mount ''packages'' ''/packages/approved'' [read_only]]),
                   (''securityContext'', JObj [(''runAsNonRoot'', JBool True), (''allowPrivilegeEscalation'', JBool False),
                      (''capabilities'', JObj [(''drop'', JList [JStr ''ALL''])])]),
                   (''resources'', JObj [(''requests'', JObj [(''cpu'', JStr ''100m'')])])]]),
                (''volumes'', JList [claim_volume ''state'' (name @ ''-state''), claim_volume ''packages'' ''dsh-package-approved'',
                   JObj [(''name'', JStr ''harness-credentials''),
                     (''secret'', JObj [(''secretName'', JStr (''dsh-harness-signup-'' @ example_identity @ ''-'' @ environment))])]])])]),
          (''replicas'', JInt 1), (''revisionHistoryLimit'', JInt 2)])]"

definition example_name :: "string \<Rightarrow> string" where "example_name environment = ''dsh-u-dddddddddddddddd-'' @ environment"

definition example_documents :: "string \<Rightarrow> json list" where
  "example_documents environment =
     [new_claim pair_pool (example_name environment @ ''-state'') (JObj [(''storageClassName'', JStr ''topolvm'')]),
      example_workload environment (example_name environment), pair_service (example_name environment) pair_pool]"

definition example_slots :: "(string \<times> (string \<times> json) list) list" where
  "example_slots = [(example_slot, [(''secure'', pair_route example_identity ''secure''), (''internet'', pair_route example_identity ''internet'')])]"

definition example_generation :: generation where
  "example_generation = \<lparr> gn_documents = example_documents ''secure'' @ example_documents ''internet'', gn_slots = example_slots, gn_paths = [] \<rparr>"

lemma example_generated: "generate example_sha example_templates example_claims (pool_of example_slot) 1 = Inr example_generation"
  by code_simp

theorem generated_pairs_are_private_witness:
  "list_all (\<lambda>d. list_ex (\<lambda>s. private_document (identity_of example_sha (fst s)) (pool_of example_slot) d) (gn_slots example_generation))
     (gn_documents example_generation) \<and> length (gn_documents example_generation) = 6"
proof
  show "list_all (\<lambda>d. list_ex (\<lambda>s. private_document (identity_of example_sha (fst s)) (pool_of example_slot) d) (gn_slots example_generation))
     (gn_documents example_generation)"
    using generated_pairs_are_private [OF example_generated] by blast
  show "length (gn_documents example_generation) = 6" by code_simp
qed

definition pair_issuer :: "issuer_call \<Rightarrow> (int \<times> json) res" where
  "pair_issuer c =
     (case c of Issuer endpoint bearer bdy \<Rightarrow>
        if endpoint = ''/v1/chat/completions'' \<and> bdy = Some chat_body
        then Inr (200, JObj [(''choices'', JList [JObj [(''message'', JObj [(''content'', JStr ''CAPACITY_KEY_OK'')])]])])
        else example_issuer c)"

definition pair_ci :: credential_env where "pair_ci = example_credential\<lparr> ci_call := pair_issuer \<rparr>"

definition refusing_server :: "nat server" where
  "refusing_server req w = (if verb req = ''GET'' then (Http_Error 404, w) else (Reply (JObj []), Suc w))"

definition empty_site :: pair_env where
  "empty_site = \<lparr> pe_sha = example_sha, pe_digest = (\<lambda>_. ''f''), pe_namespace = ''llm'', pe_configmap = ''dsh-cap-source'',
     pe_control = ''dsh-app-service-control'', pe_class = ''topolvm'', pe_inventory = ''dsh-cap-inventory'',
     pe_templates = example_templates, pe_claims = example_claims, pe_issuer = (\<lambda>_. pair_ci),
     pe_temp = ''.jupyter-default-1'', pe_write = (\<lambda>_. Inr ()), pe_sync = (\<lambda>_. Inr ()), pe_rounds = [] \<rparr>"

text \<open>A running pod of a created deployment.\<close>

definition running_pod :: "json \<Rightarrow> json" where
  "running_pod d = JObj [(''metadata'', JObj []), (''spec'', jget (pod_template d) ''spec''),
     (''status'', JObj [(''containerStatuses'', JList (map (\<lambda>c. JObj [(''name'', name_of c), (''ready'', JBool True), (''imageID'', JStr example_image)])
        (containers_of (jget (pod_template d) ''spec''))))])]"

definition created_deployment :: "string \<Rightarrow> json" where
  "created_deployment environment =
     (case published_deployment empty_site example_identity (example_name environment) (example_workload environment (example_name environment)) of
        Inr x \<Rightarrow> x | Inl _ \<Rightarrow> JNull)"

definition created_look :: "string \<Rightarrow> runtime_look" where
  "created_look environment = (example_look True)\<lparr> rl_pods := Inr (JObj [(''items'', JList [running_pod (created_deployment environment)])]) \<rparr>"

definition provision_site :: pair_env where "provision_site = empty_site\<lparr> pe_rounds := [created_look] \<rparr>"

definition new_world :: "nat pair_world" where
  "new_world = \<lparr> pw_slot = \<lparr> sl_folders = [], sl_initialized = False \<rparr>, pw_credentials = \<lparr> cw_trace = [] \<rparr>, pw_server = 0, pw_services = [] \<rparr>"

definition example_created :: "(string \<times> json) list" where
  "example_created = [(example_name ''secure'', created_deployment ''secure''), (example_name ''internet'', created_deployment ''internet'')]"

definition pair_routes :: "(string \<times> json) list" where
  "pair_routes = map (site_route provision_site example_identity) (concat (map snd example_slots))"

lemma created_ready:
  "runtime_ready (Inr (created_deployment ''secure'')) (created_look ''secure'') = Inr True"
  "runtime_ready (Inr (created_deployment ''internet'')) (created_look ''internet'') = Inr True"
  by code_simp+

lemma pair_creation:
  "fst (create_documents refusing_server provision_site example_identity (gn_documents example_generation) [] (new_world\<lparr> pw_slot := s, pw_credentials := c \<rparr>)) =
     Inr example_created"
  by code_simp

lemma pair_round:
  "round_of pair_routes example_created created_look =
     [(Inr (created_deployment ''secure''), created_look ''secure''), (Inr (created_deployment ''internet''), created_look ''internet'')]"
proof -
  have "map (\<lambda>r. (fst r, route_name (snd r))) pair_routes = [(''secure'', example_name ''secure''), (''internet'', example_name ''internet'')]"
    by code_simp
  then obtain a b where r: "pair_routes = [a, b]" "fst a = ''secure''" "route_name (snd a) = example_name ''secure''"
    "fst b = ''internet''" "route_name (snd b) = example_name ''internet''"
    by (auto simp: map_eq_Cons_conv)
  then show ?thesis
    by (cases a; cases b) (simp add: r(1) round_of_def expected_of_def example_created_def example_name_def)
qed

lemma example_storage:
  "prepare_storage example_sha (Inr ([example_slot], [])) example_slot \<lparr> sl_folders = [], sl_initialized = False \<rparr> =
     (Inr (), \<lparr> sl_folders = [], sl_initialized = True \<rparr>)"
  by code_simp

subsection \<open>The example's issuer accepts every credential\<close>

lemma example_bodies: "(foreign_model_body = chat_body) = False" "(JObj [] = chat_body) = False"
  by code_simp+

lemma example_replies:
  "reply_text False (JObj [(''choices'', JList [JObj [(''message'', JObj [(''content'', JStr ''CAPACITY_KEY_OK'')])]])]) = Inr (JStr ''CAPACITY_KEY_OK'')"
  "reply_text True (JObj [(''content'', JList [JObj [(''text'', JStr ''CAPACITY_KEY_OK'')]])]) = Inr (JStr ''CAPACITY_KEY_OK'')"
  "strip ''CAPACITY_KEY_OK'' = ''CAPACITY_KEY_OK''"
  by code_simp+

lemma example_credentials_accepted: "\<exists>w'. credential pair_ci name field messages w = (Inr (), w')"
proof -
  have m: "pair_issuer (Issuer ''/key/generate'' ''master'' b) = Inr (200, JObj [(''key'', JStr ''sk-1'')])" for b
    by (simp add: pair_issuer_def example_issuer_def)
  have l: "pair_issuer (Issuer (lookup_endpoint ci t) ''master'' b) = Inr (404, JObj [])" for ci t b
    by (simp add: pair_issuer_def example_issuer_def lookup_endpoint_def)
  have r: "pair_issuer (Issuer ''/key/generate'' ''sk-1'' b) = Inr (403, JObj [])" "pair_issuer (Issuer ''/model/new'' ''sk-1'' b) = Inr (403, JObj [])"
    "pair_issuer (Issuer ''/v1/chat/completions'' ''sk-1'' (Some foreign_model_body)) = Inr (403, JObj [])" for b
    by (simp_all add: pair_issuer_def example_issuer_def example_bodies)
  have p: "pair_issuer (Issuer ''/v1/chat/completions'' ''sk-1'' (Some chat_body)) =
      Inr (200, JObj [(''choices'', JList [JObj [(''message'', JObj [(''content'', JStr ''CAPACITY_KEY_OK'')])]])])"
    "pair_issuer (Issuer ''/v1/messages'' ''sk-1'' b) = Inr (200, JObj [(''content'', JList [JObj [(''text'', JStr ''CAPACITY_KEY_OK'')]])])" for b
    by (simp_all add: pair_issuer_def example_issuer_def)
  show ?thesis
    by (cases messages) (simp_all add: credential_def planned_token_def persist_token_def issue_key_def refused_call_def probe_inference_def
      issuer_def must_def require_def io_bind_def pair_ci_def example_credential_def m l r p example_replies)
qed

lemma example_pair_credentials: "\<exists>c. pair_credentials provision_site identity w = (Inr (), c)"
proof -
  have ci: "pe_issuer provision_site n = pair_ci" for n by (simp add: provision_site_def empty_site_def)
  obtain w1 where 1: "credential pair_ci (inference_secret identity) ''litellm-api-key'' False w = (Inr (), w1)"
    using example_credentials_accepted by blast
  obtain w2 where 2: "credential pair_ci (harness_secret identity ''secure'') ''api-key'' True w1 = (Inr (), w2)"
    using example_credentials_accepted by blast
  obtain w3 where "credential pair_ci (harness_secret identity ''internet'') ''api-key'' True w2 = (Inr (), w3)"
    using example_credentials_accepted by blast
  then show ?thesis by (simp add: pair_credentials_def ci 1 2)
qed

lemma pair_provisioned: "\<exists>w'. prepare_and_qualify refusing_server provision_site example_slot new_world = (Inr pair_routes, w')"
proof -
  have sha: "pe_sha provision_site = example_sha" and rounds: "pe_rounds provision_site = [created_look]"
    by (simp_all add: provision_site_def empty_site_def)
  have identity: "identity_of example_sha example_slot = example_identity" by code_simp
  have g: "generated_of provision_site example_slot = Inr example_generation"
    using example_generated by (simp add: generated_of_def provision_site_def empty_site_def)
  have fields: "map fst (gn_slots example_generation) = [example_slot]" "gn_paths example_generation = []" "gn_slots example_generation = example_slots"
    by (simp_all add: example_generation_def example_slots_def)
  let ?s = "\<lparr> sl_folders = [], sl_initialized = True \<rparr>"
  obtain c where c: "pair_credentials provision_site example_identity \<lparr> cw_trace = [] \<rparr> = (Inr (), c)"
    using example_pair_credentials by blast
  let ?w = "new_world\<lparr> pw_slot := ?s, pw_credentials := c \<rparr>"
  obtain w' where w': "create_documents refusing_server provision_site example_identity (gn_documents example_generation) [] ?w = (Inr example_created, w')"
    using pair_creation [where s = ?s and c = c] by (metis prod.collapse)
  have a: "await_pair [round_of pair_routes example_created created_look] = Inr ()"
    unfolding pair_round by (simp add: created_ready)
  have "on_credentials (pair_credentials provision_site example_identity) (new_world\<lparr> pw_slot := ?s \<rparr>) = (Inr (), ?w)"
    using c by (simp add: on_credentials_def new_world_def)
  then have cq: "create_and_qualify refusing_server provision_site example_identity example_generation (new_world\<lparr> pw_slot := ?s \<rparr>) =
      (Inr pair_routes, w')"
    unfolding create_and_qualify_def fields(3) rounds pair_routes_def [symmetric] Let_def
    by (simp add: w' a del: await_pair.simps)
  have "on_slot (prepare_storage example_sha (Inr ([example_slot], [])) example_slot) new_world = (Inr (), new_world\<lparr> pw_slot := ?s \<rparr>)"
    using example_storage by (simp add: on_slot_def new_world_def)
  then have "prepare_and_qualify refusing_server provision_site example_slot new_world = (Inr pair_routes, w')"
    unfolding prepare_and_qualify_def sha g identity res_bind_simps fields(1,2) by (simp add: cq)
  then show ?thesis by blast
qed


end
