(* ===== verification/Package_Controller.thy ===== *)
theory Package_Controller imports Package_Task Capacity_Pair begin

text \<open>
  The package controller, \<open>scripts/package_controller.py\<close>: authorization of a request, the check of the owner's two
  runtimes, the job documents, and the reconciliation over the job folders with its global bound and revocation.
  The API server is a parameter (\<open>Capacity_Kube\<close>), so are the clock, the authorization file and the result files
  the job pods write.
\<close>

record package_site =
  pc_namespace :: string
  pc_image :: string
  pc_source :: string
  pc_queue :: string
  pc_class :: string
  pc_pull :: json
  pc_sha :: "string \<Rightarrow> string"
  pc_now :: rat
  pc_stamp :: string
  pc_authorization :: "json res"

section \<open>Authorization\<close>

definition authorization :: "package_site \<Rightarrow> package_request \<Rightarrow> json res" where
  "authorization pc request =
     res_bind (pc_authorization pc) (\<lambda>a.
     res_bind (py_idx a ''observedAt'') (\<lambda>t.
     res_bind (observed_age (pc_now pc) t) (\<lambda>age.
     if age < -5 \<or> 30 < age then Inl (ValueError ''Authorization projection is stale'')
     else
       res_bind (py_idx a ''users'') (\<lambda>users.
       res_bind (py_get users (pr_owner request)) (\<lambda>user.
       if \<not> truthy user then Inl (ValueError ''Account disabled'')
       else
         res_bind (py_idx user ''enabled'') (\<lambda>enabled.
         if \<not> truthy enabled then Inl (ValueError ''Account disabled'') else Inr user))))))"

section \<open>The owner's runtimes\<close>

definition private_host :: "package_site \<Rightarrow> string \<Rightarrow> string res" where
  "private_host pc host =
     (let suffix = ''.'' @ pc_namespace pc @ ''.svc.cluster.local''; name = removesuffix suffix host in
      if \<not> endswith suffix host \<or> \<not> fullmatch_class (lower_chars @ digit_chars @ ''-'') 3 63 name
      then Inl (ValueError ''Invalid private route'') else Inr name)"

definition check_deployment :: "package_site \<Rightarrow> string \<Rightarrow> json \<Rightarrow> (json \<times> json) res" where
  "check_deployment pc mode d =
     res_bind (py_idx d ''spec'') (\<lambda>spec. res_bind (py_idx spec ''template'') (\<lambda>template.
     res_bind (py_idx template ''spec'') (\<lambda>pod.
     res_bind (res_bind (py_idx template ''metadata'') (\<lambda>m. py_idx m ''labels'')) (\<lambda>labels.
     if jget labels ''dsh.example.com/egress-mode'' \<noteq> JStr mode then Inl (ValueError ''Route environment mismatch'')
     else
       res_bind (named_container ''dsh'' pod) (\<lambda>c.
       if jget c ''image'' \<noteq> JStr (pc_image pc) \<or> jget pod ''automountServiceAccountToken'' \<noteq> JBool False
       then Inl (ValueError ''Runtime image or containment requires review'')
       else Inr (pod, c))))))"

definition package_deployment :: "'w server \<Rightarrow> package_site \<Rightarrow> string \<Rightarrow> string \<Rightarrow> ('w, json \<times> json) io" where
  "package_deployment send pc host mode =
     io_bind (io_lift (private_host pc host)) (\<lambda>name.
     io_bind (kube_call send (pc_namespace pc) ''GET'' ''Deployment'' (Some name) None None) (\<lambda>d.
     io_lift (check_deployment pc mode d)))"

section \<open>Job documents\<close>

text \<open>The hosts of the owner's two runtimes.\<close>

record package_owner =
  po_secure :: string
  po_internet :: string

definition artifact_identity :: "package_site \<Rightarrow> package_request \<Rightarrow> package_owner \<Rightarrow> string" where
  "artifact_identity pc request owner =
     take 24 (pc_sha pc (pr_owner request @ ''|'' @ po_secure owner @ ''|'' @ po_internet owner))"

definition artifact_claim :: "string \<Rightarrow> string" where "artifact_claim identity = ''dsh-pkg-artifacts-'' @ identity"

definition job_name :: "package_request \<Rightarrow> string \<Rightarrow> string" where
  "job_name request phase = ''dsh-pkg-'' @ take 20 (pr_id request) @ ''-'' @ phase"

definition job_mounts :: "package_request \<Rightarrow> string \<Rightarrow> json list" where
  "job_mounts request phase =
     [mount ''source'' ''/task'' [read_only],
      mount ''queue'' ''/request'' [(''subPath'', JStr (''jobs/'' @ pr_id request)), read_only],
      mount ''queue'' ''/result'' [(''subPath'', JStr (''jobs/'' @ pr_id request @ ''/'' @ phase))],
      mount ''artifacts'' ''/artifacts'' [(''readOnly'', JBool (phase = ''install''))],
      mount ''tmp'' ''/tmp'' []]"

definition job_volumes :: "package_site \<Rightarrow> string \<Rightarrow> json list" where
  "job_volumes pc identity =
     [JObj [(''name'', JStr ''source''), (''configMap'', JObj [(''name'', JStr (pc_source pc))])],
      claim_volume ''queue'' (pc_queue pc), claim_volume ''artifacts'' (artifact_claim identity),
      JObj [(''name'', JStr ''tmp''), (''emptyDir'', JObj [(''sizeLimit'', JStr ''2Gi'')])]]"

definition workspace_mount :: "json \<Rightarrow> bool" where
  "workspace_mount m = (let p = string_of (jget m ''mountPath'') in p = ''/workspace'' \<or> startswith ''/workspace/'' p)"

definition notebook_state :: "json \<Rightarrow> json" where
  "notebook_state state =
     (let base = strip_slashes (string_of (get_or state ''subPath'' (JStr []))) in
      JObj [(''name'', name_of state), (''mountPath'', JStr ''/notebook''),
        (''subPath'', JStr (if base = [] then ''jupyter'' else base @ ''/jupyter''))])"

definition storage_volume :: "json \<Rightarrow> bool" where
  "storage_volume v = (jhas v ''persistentVolumeClaim'' \<or> jhas v ''emptyDir'')"

text \<open>The owner's volumes behind the mounts of the installer: every one a claim or an empty directory, none missing.\<close>

definition install_volumes :: "json \<Rightarrow> json list \<Rightarrow> json list \<Rightarrow> json list res" where
  "install_volumes pod work fixed =
     (let names = set (map name_of work); own = filter (\<lambda>v. name_of v \<in> names) (volumes_of pod) in
      if \<not> list_all storage_volume own then Inl (ValueError ''Unsupported workspace mask'')
      else if length (filter (\<lambda>v. name_of v \<in> names) (fixed @ own)) \<noteq> length (remdups (map name_of work))
      then Inl (ValueError ''Incomplete private mounts'')
      else Inr (fixed @ own))"

definition task_pod :: "package_site \<Rightarrow> string \<Rightarrow> json list \<Rightarrow> json list \<Rightarrow> json" where
  "task_pod pc phase mounts volumes =
     JObj [(''restartPolicy'', JStr ''Never''), (''automountServiceAccountToken'', JBool False),
       (''securityContext'', JObj ([(''runAsUser'', JInt 10001), (''runAsGroup'', JInt 10001),
          (''seccompProfile'', JObj [(''type'', JStr ''RuntimeDefault'')])] @
          (if phase = ''download'' then [(''fsGroup'', JInt 10001), (''fsGroupChangePolicy'', JStr ''OnRootMismatch'')] else []))),
       (''imagePullSecrets'', pc_pull pc), (''volumes'', JList volumes),
       (''containers'', JList [JObj [(''name'', JStr ''task''), (''image'', JStr (pc_image pc)),
          (''command'', JList [JStr ''python3'', JStr ''/task/package_task.py'', JStr phase]), (''securityContext'', restricted_context),
          (''env'', JList [env_entry ''PYTHONDONTWRITEBYTECODE'' ''1'']), (''volumeMounts'', JList mounts),
          (''resources'', JObj [(''requests'', JObj [(''cpu'', JStr ''100m''), (''memory'', JStr ''256Mi'')]),
             (''limits'', JObj [(''cpu'', JStr ''1''), (''memory'', JStr ''1Gi''), (''ephemeral-storage'', JStr ''2Gi'')])])]])]"

definition job_document :: "package_request \<Rightarrow> string \<Rightarrow> string \<Rightarrow> json \<Rightarrow> json" where
  "job_document request phase identity pod =
     JObj [(''apiVersion'', JStr ''batch/v1''), (''kind'', JStr ''Job''),
       (''metadata'', JObj [(''name'', JStr (job_name request phase)),
          (''labels'', JObj [(''app'', JStr ''dsh-package-task''), (''dsh.example.com/package-owner'', JStr identity)])]),
       (''spec'', JObj [(''backoffLimit'', JInt 0), (''activeDeadlineSeconds'', JInt 600), (''ttlSecondsAfterFinished'', JInt 86400),
          (''template'', JObj [(''metadata'', JObj [(''labels'', JObj [(''app'', JStr (''dsh-package-'' @ phase))])]), (''spec'', pod)])])]"

definition package_job :: "package_site \<Rightarrow> package_request \<Rightarrow> package_owner \<Rightarrow> string \<Rightarrow> json \<Rightarrow> json \<Rightarrow> json res" where
  "package_job pc request owner phase secure_pod secure_main =
     (let identity = artifact_identity pc request owner; fixed = job_volumes pc identity in
      if phase = ''install'' then
        res_bind (state_mount secure_main) (\<lambda>state.
        let work = filter workspace_mount (mounts_of secure_main) @ [notebook_state state] in
        res_bind (install_volumes secure_pod work fixed) (\<lambda>volumes.
        Inr (job_document request phase identity (task_pod pc phase (job_mounts request phase @ work) volumes))))
      else Inr (job_document request phase identity (task_pod pc phase (job_mounts request phase) fixed)))"

section \<open>Creating resources\<close>

definition package_label :: string where "package_label = ''dsh.example.com/package-managed''"

definition labelled :: "json \<Rightarrow> json res" where
  "labelled bdy = py_upd ''metadata'' (\<lambda>m. py_upd ''labels'' (py_set package_label (JStr ''true'')) (py_setdefault ''labels'' (JObj []) m)) bdy"

definition ensure :: "'w server \<Rightarrow> package_site \<Rightarrow> string \<Rightarrow> string \<Rightarrow> json \<Rightarrow> ('w, json) io" where
  "ensure send pc kind name bdy =
     io_bind (kube_call send (pc_namespace pc) ''GET'' kind (Some name) None None) (\<lambda>old.
     if truthy old then
       (if jget (jget (jget old ''metadata'') ''labels'') package_label \<noteq> JStr ''true''
        then io_raise (ValueError ''Package resource collision'') else io_return old)
     else
       io_bind (io_lift (labelled bdy)) (\<lambda>b. kube_call send (pc_namespace pc) ''POST'' kind None (Some b) None))"

definition artifact_document :: "package_site \<Rightarrow> string \<Rightarrow> json" where
  "artifact_document pc identity =
     JObj [(''apiVersion'', JStr ''v1''), (''kind'', JStr ''PersistentVolumeClaim''), (''metadata'', JObj [(''name'', JStr (artifact_claim identity))]),
       (''spec'', JObj [(''storageClassName'', JStr (pc_class pc)), (''accessModes'', JList [JStr ''ReadWriteOnce'']),
          (''resources'', JObj [(''requests'', JObj [(''storage'', JStr ''1Gi'')])])])]"


section \<open>Reconciliation\<close>

text \<open>A job folder: the gateway's request, the public state, the recorded download and the result files the pods wrote.
  Writing a file replaces it; entries that are not folders are left out.\<close>

record job_folder =
  jb_request :: "json res"
  jb_public :: "json res"
  jb_download :: "json option"
  jb_results :: "(string \<times> json res) list"

record 'w package_world =
  pk_folders :: "(string \<times> job_folder) list"
  pk_server :: 'w

definition no_folder :: job_folder where
  "no_folder = \<lparr> jb_request = Inl (OSError ''request.json''), jb_public = Inl (OSError ''public.json''), jb_download = None, jb_results = [] \<rparr>"

definition folder_of :: "'w package_world \<Rightarrow> string \<Rightarrow> job_folder" where
  "folder_of w name = (case map_of (pk_folders w) name of Some f \<Rightarrow> f | None \<Rightarrow> no_folder)"

definition set_folder :: "string \<Rightarrow> (job_folder \<Rightarrow> job_folder) \<Rightarrow> ('w package_world, unit) io" where
  "set_folder name f w = (Inr (), w\<lparr> pk_folders := AList.update name (f (folder_of w name)) (pk_folders w) \<rparr>)"

definition write_public :: "string \<Rightarrow> json \<Rightarrow> ('w package_world, unit) io" where
  "write_public name v = set_folder name (\<lambda>f. f\<lparr> jb_public := Inr v \<rparr>)"

definition public_state :: "job_folder \<Rightarrow> json res" where
  "public_state f = res_bind (jb_public f) (\<lambda>p. py_idx p ''state'')"

definition on_cluster :: "('w, 'a) io \<Rightarrow> ('w package_world, 'a) io" where
  "on_cluster m w = (case m (pk_server w) of (r, s) \<Rightarrow> (r, w\<lparr> pk_server := s \<rparr>))"

definition active_states :: "json set" where "active_states = {JStr ''downloading'', JStr ''installing''}"
definition final_states :: "json set" where "final_states = {JStr ''complete'', JStr ''failed'', JStr ''cancelled''}"

definition count_active :: "(string \<times> job_folder) list \<Rightarrow> nat res" where
  "count_active fs =
     res_bind (res_map (\<lambda>(n, f). public_state f) (filter (\<lambda>(n, f). hex_id 32 n) fs)) (\<lambda>ss.
     Inr (length (filter (\<lambda>s. s \<in> active_states) ss)))"

definition admission :: "package_site \<Rightarrow> package_request \<Rightarrow> string \<Rightarrow> json res" where
  "admission pc request phase =
     res_bind (authorization pc request) (\<lambda>user.
     if phase = ''download'' then
       res_bind (py_idx user ''internetAllowed'') (\<lambda>allowed.
       if \<not> truthy allowed then Inl (ValueError ''Administrator Internet approval is required'') else Inr user)
     else Inr user)"

text \<open>\<open>dict.update\<close>, with pairs and with a dictionary.\<close>

definition state_with :: "(string \<times> json) list \<Rightarrow> json \<Rightarrow> json" where
  "state_with kvs state = foldl (\<lambda>d (k, v). jset k v d) state kvs"

definition updated_by :: "json \<Rightarrow> json \<Rightarrow> json" where
  "updated_by r d = foldl (\<lambda>d k. jset k (jget r k) d) d (jkeys r)"

definition started :: "package_site \<Rightarrow> json \<Rightarrow> json" where
  "started pc state = state_with [(''state'', JStr ''downloading''), (''startedAt'', JStr (pc_stamp pc))] state"

definition begin_download :: "package_site \<Rightarrow> string \<Rightarrow> json \<Rightarrow> ('w package_world, json) io" where
  "begin_download pc name state =
     (if jget state ''state'' = JStr ''queued''
      then io_bind (write_public name (started pc state)) (\<lambda>_. io_return (started pc state))
      else io_return state)"

definition wheel_count :: "json \<Rightarrow> json res" where
  "wheel_count result =
     res_bind (py_idx result ''wheels'') (\<lambda>ws. case ws of JList xs \<Rightarrow> Inr (JInt (int (length xs))) | _ \<Rightarrow> Inl (TypeError ''len''))"

definition install_next :: "string \<Rightarrow> json \<Rightarrow> json \<Rightarrow> ('w package_world, unit) io" where
  "install_next name state result =
     io_bind (io_lift (wheel_count result)) (\<lambda>n.
     io_bind (io_lift (py_idx result ''bytes'')) (\<lambda>b.
     write_public name (state_with [(''state'', JStr ''installing''), (''wheelCount'', n), (''downloadBytes'', b)] state)))"

text \<open>The result of the phase, when the job has written it.\<close>

definition accept_result :: "package_site \<Rightarrow> string \<Rightarrow> string \<Rightarrow> json \<Rightarrow> json \<Rightarrow> ('w package_world, unit) io" where
  "accept_result pc name phase state result =
     io_bind (io_lift (py_idx result ''state'')) (\<lambda>s.
     if s = JStr ''failed'' then io_raise (ValueError (string_of (get_or result ''reason'' (JStr ''Package task failed''))))
     else if phase = ''download'' \<and> s = JStr ''downloaded'' then
       io_bind (set_folder name (\<lambda>f. f\<lparr> jb_download := Some result \<rparr>)) (\<lambda>_. install_next name state result)
     else if phase = ''install'' \<and> s = JStr ''complete'' then
       write_public name (state_with [(''finishedAt'', JStr (pc_stamp pc))] (updated_by result state))
     else io_raise (ValueError ''Unexpected package result''))"

definition settle :: "package_site \<Rightarrow> string \<Rightarrow> string \<Rightarrow> json \<Rightarrow> json \<Rightarrow> ('w package_world, unit) io" where
  "settle pc name phase current state w =
     (case map_of (jb_results (folder_of w name)) phase of
        Some r \<Rightarrow> io_bind (io_lift r) (accept_result pc name phase state) w
      | None \<Rightarrow>
          (if truthy (jget (jget current ''status'') ''failed'')
           then io_raise (ValueError ''Package job failed or exceeded its execution limit'') w
           else io_return () w))"

definition owner_route :: "json \<Rightarrow> string \<Rightarrow> string res" where
  "owner_route user environment = res_bind (py_idx user environment) as_text"

definition create_job :: "'w server \<Rightarrow> package_site \<Rightarrow> package_request \<Rightarrow> package_owner \<Rightarrow> string \<Rightarrow> json \<Rightarrow> json \<Rightarrow> ('w, json) io" where
  "create_job send pc request owner phase pod c =
     (let identity = artifact_identity pc request owner in
      io_bind (ensure send pc ''PersistentVolumeClaim'' (artifact_claim identity) (artifact_document pc identity)) (\<lambda>_.
      io_bind (io_lift (package_job pc request owner phase pod c)) (\<lambda>document.
      ensure send pc ''Job'' (job_name request phase) document)))"

text \<open>The two result directories are not part of the folder's record.\<close>

definition prepare_job :: "'w server \<Rightarrow> package_site \<Rightarrow> package_request \<Rightarrow> json \<Rightarrow> string \<Rightarrow> ('w, json) io" where
  "prepare_job send pc request user phase =
     io_bind (io_lift (owner_route user ''secure'')) (\<lambda>secure.
     io_bind (package_deployment send pc secure ''offline'') (\<lambda>(pod, c).
     io_bind (io_lift (owner_route user ''internet'')) (\<lambda>internet.
     io_bind (package_deployment send pc internet ''online'') (\<lambda>_.
     create_job send pc request \<lparr> po_secure = secure, po_internet = internet \<rparr> phase pod c))))"

definition work_on :: "'w server \<Rightarrow> package_site \<Rightarrow> string \<Rightarrow> package_request \<Rightarrow> json \<Rightarrow> string \<Rightarrow> json \<Rightarrow>
    ('w package_world, unit) io" where
  "work_on send pc name request user phase state =
     io_bind (on_cluster (prepare_job send pc request user phase)) (\<lambda>current.
     io_bind (begin_download pc name state) (settle pc name phase current))"

definition revocations :: "string set" where
  "revocations = {''Account disabled'', ''Administrator Internet approval is required'', ''Authorization projection is stale''}"

definition delete_options :: json where
  "delete_options = JObj [(''apiVersion'', JStr ''v1''), (''kind'', JStr ''DeleteOptions''), (''propagationPolicy'', JStr ''Foreground'')]"

definition delete_job :: "'w server \<Rightarrow> package_site \<Rightarrow> package_request \<Rightarrow> string \<Rightarrow> ('w, unit) io" where
  "delete_job send pc request phase =
     io_bind (kube_call send (pc_namespace pc) ''GET'' ''Job'' (Some (job_name request phase)) None None) (\<lambda>found.
     if truthy found
     then io_bind (kube_call send (pc_namespace pc) ''DELETE'' ''Job'' (Some (job_name request phase)) (Some delete_options) None) (\<lambda>_. io_return ())
     else io_return ())"

text \<open>A \<open>ValueError\<close>: a revoked request loses its jobs first; then the state becomes failed.  At this point the state in
  memory is the one in the file.\<close>

definition failed_state :: "package_site \<Rightarrow> string \<Rightarrow> json \<Rightarrow> json" where
  "failed_state pc m state =
     state_with [(''state'', JStr ''failed''), (''reason'', JStr (take 180 m)), (''finishedAt'', JStr (pc_stamp pc))] state"

definition fail_request :: "'w server \<Rightarrow> package_site \<Rightarrow> string \<Rightarrow> package_request \<Rightarrow> string \<Rightarrow> ('w package_world, unit) io" where
  "fail_request send pc name request m =
     io_bind (if m \<in> revocations
        then on_cluster (io_bind (delete_job send pc request ''download'') (\<lambda>_. delete_job send pc request ''install''))
        else io_return ()) (\<lambda>_.
     set_folder name (\<lambda>f. f\<lparr> jb_public := res_bind (jb_public f) (\<lambda>state. Inr (failed_state pc m state)) \<rparr>))"

definition on_value_error :: "('w, unit) io \<Rightarrow> (string \<Rightarrow> ('w, unit) io) \<Rightarrow> ('w, unit) io" where
  "on_value_error m h w = (case m w of (Inl (ValueError e), w') \<Rightarrow> h e w' | x \<Rightarrow> x)"

definition phase_of :: "json \<Rightarrow> string" where
  "phase_of s = (if s = JStr ''installing'' then ''install'' else ''download'')"

definition process :: "'w server \<Rightarrow> package_site \<Rightarrow> string \<Rightarrow> package_request \<Rightarrow> json \<Rightarrow> json \<Rightarrow> nat \<Rightarrow> ('w package_world, nat) io" where
  "process send pc name request state s active =
     (case admission pc request (phase_of s) of
        Inl (ValueError m) \<Rightarrow> io_bind (fail_request send pc name request m) (\<lambda>_. io_return active)
      | Inl e \<Rightarrow> io_raise e
      | Inr user \<Rightarrow>
          (if s = JStr ''queued'' \<and> 2 \<le> active then io_return active
           else
             io_bind (on_value_error (work_on send pc name request user (phase_of s) state) (fail_request send pc name request)) (\<lambda>_.
             io_return (if s = JStr ''queued'' then Suc active else active))))"

definition reconcile_folder :: "'w server \<Rightarrow> package_site \<Rightarrow> string \<Rightarrow> nat \<Rightarrow> ('w package_world, nat) io" where
  "reconcile_folder send pc name active w =
     (let f = folder_of w name in
      io_bind (io_lift (res_bind (jb_request f) validate_request)) (\<lambda>request.
      if pr_id request \<noteq> name then io_raise (ValueError ''Request identity differs'')
      else
        io_bind (io_lift (jb_public f)) (\<lambda>state.
        io_bind (io_lift (py_idx state ''state'')) (\<lambda>s.
        if s \<in> final_states then io_return active else process send pc name request state s active))) w)"

fun reconcile_folders :: "'w server \<Rightarrow> package_site \<Rightarrow> string list \<Rightarrow> nat \<Rightarrow> ('w package_world, nat) io" where
  "reconcile_folders send pc [] active = io_return active"
| "reconcile_folders send pc (n # ns) active =
     io_bind (reconcile_folder send pc n active) (\<lambda>active'. reconcile_folders send pc ns active')"

definition tick :: "'w server \<Rightarrow> package_site \<Rightarrow> ('w package_world, nat) io" where
  "tick send pc w =
     io_bind (io_lift (count_active (pk_folders w)))
       (reconcile_folders send pc (sort (filter (hex_id 32) (map fst (pk_folders w))))) w"

text \<open>The loop of \<open>main\<close>: an exception only changes what the status file says.\<close>

definition controller_status :: "package_site \<Rightarrow> string \<Rightarrow> nat res \<Rightarrow> json" where
  "controller_status pc pod_uid r =
     JObj ([(''available'', JBool (is_ok r)), (''observedAt'', JStr (pc_stamp pc))] @
       (case r of Inl e \<Rightarrow> [(''error'', JStr (exn_name e))] | Inr _ \<Rightarrow> []) @ [(''instance'', JStr pod_uid)])"


section \<open>One folder of the round\<close>

definition job_states :: "string list" where
  "job_states = [''queued'', ''downloading'', ''installing'', ''complete'', ''failed'', ''cancelled'']"

text \<open>A well-formed job: its public state is an object with a known state, and an installation has a recorded download.\<close>

definition well_formed :: "job_folder \<Rightarrow> bool" where
  "well_formed f =
     (case jb_public f of
        Inl _ \<Rightarrow> False
      | Inr d \<Rightarrow> is_obj d \<and> jget d ''state'' \<in> JStr ` set job_states \<and>
          (jget d ''state'' = JStr ''installing'' \<longrightarrow> jb_download f \<noteq> None))"

definition job_state :: "job_folder \<Rightarrow> string" where
  "job_state f = (case jb_public f of Inr d \<Rightarrow> string_of (jget d ''state'') | Inl _ \<Rightarrow> [])"

definition may_follow :: "string \<Rightarrow> string \<Rightarrow> bool" where
  "may_follow s t =
     (s = t \<or> s = ''queued'' \<and> t \<in> {''downloading'', ''installing'', ''failed''} \<or>
      s = ''downloading'' \<and> t \<in> {''installing'', ''failed''} \<or> s = ''installing'' \<and> t \<in> {''complete'', ''failed''})"

definition active_job :: "job_folder \<Rightarrow> bool" where
  "active_job f = (job_state f \<in> {''downloading'', ''installing''})"

text \<open>\<open>holds_folder name f w0 w\<close>: of the folders of \<open>w0\<close> only \<open>name\<close> changed, to \<open>f\<close>.\<close>

definition holds_folder :: "string \<Rightarrow> job_folder \<Rightarrow> 'w package_world \<Rightarrow> 'w package_world \<Rightarrow> bool" where
  "holds_folder name f w0 w = (pk_folders w = AList.update name f (pk_folders w0))"

definition becomes :: "string \<Rightarrow> (job_folder \<Rightarrow> bool) \<Rightarrow> 'w package_world \<Rightarrow> 'w package_world \<Rightarrow> bool" where
  "becomes name P w0 w = (\<exists>f. P f \<and> holds_folder name f w0 w)"

lemma becomes_self: "holds_folder name f w0 w \<Longrightarrow> P f \<Longrightarrow> becomes name P w0 w"
  by (auto simp: becomes_def)

lemma becomes_mono: "becomes name P w0 w \<Longrightarrow> (\<And>f. P f \<Longrightarrow> Q f) \<Longrightarrow> becomes name Q w0 w"
  by (auto simp: becomes_def)

lemma update_same: "map_of xs k = Some v \<Longrightarrow> AList.update k v xs = xs"
  by (induction xs) (auto split: if_splits)

lemma update_twice: "AList.update k v (AList.update k u xs) = AList.update k v xs"
  by (induction xs) auto

lemma holds_unchanged: "map_of (pk_folders w) name = Some f \<Longrightarrow> holds_folder name f w w"
  by (simp add: holds_folder_def update_same)

lemma holds_current: "holds_folder name f w0 w \<Longrightarrow> folder_of w name = f"
  by (simp add: holds_folder_def folder_of_def update_conv')

lemma set_folder_wp:
  assumes "holds_folder name f w0 w" "P (g f)"
  shows "io_wp (set_folder name g) (\<lambda>_. becomes name P w0) E w"
  using assms holds_current [OF assms(1)]
  by (auto simp: io_wp_def set_folder_def becomes_def holds_folder_def update_twice)

lemma set_folder_then_wp:
  assumes "holds_folder name f w0 w" "\<And>w'. holds_folder name (g f) w0 w' \<Longrightarrow> Q w'"
  shows "io_wp (set_folder name g) (\<lambda>_. Q) E w"
  using assms(1) holds_current [OF assms(1)]
  by (auto simp: io_wp_def set_folder_def holds_folder_def update_twice intro!: assms(2))

lemma on_cluster_wp:
  assumes "holds_folder name f w0 w" "\<And>x w'. holds_folder name f w0 w' \<Longrightarrow> Q x w'" "\<And>w'. holds_folder name f w0 w' \<Longrightarrow> E w'"
  shows "io_wp (on_cluster m) Q E w"
  using assms by (auto simp: io_wp_def on_cluster_def holds_folder_def split: prod.splits sum.splits)

lemma on_value_error_wp:
  assumes "io_wp m Q E' w" "\<And>w. E' w \<Longrightarrow> E w" "\<And>e w. E' w \<Longrightarrow> io_wp (h e) Q E w"
  shows "io_wp (on_value_error m h) Q E w"
proof (cases "\<exists>e w'. m w = (Inl (ValueError e), w')")
  case True
  then obtain e w' where m: "m w = (Inl (ValueError e), w')" by blast
  then have "on_value_error m h w = h e w'" by (simp add: on_value_error_def)
  moreover have "E' w'" using assms(1) m by (simp add: io_wp_def)
  ultimately show ?thesis using assms(3) [of w' e] by (simp add: io_wp_def)
next
  case False
  then have "on_value_error m h w = m w"
    by (auto simp: on_value_error_def split: prod.splits sum.splits exn.splits)
  then show ?thesis using assms(1,2) by (auto simp: io_wp_def split: prod.splits sum.splits)
qed

lemma folded_update: "is_obj d \<Longrightarrow> is_obj (foldl (\<lambda>d k. jset k (jget r k) d) d ks) \<and>
    jget (foldl (\<lambda>d k. jset k (jget r k) d) d ks) k = (if k \<in> set ks then jget r k else jget d k)"
  by (induction ks arbitrary: d) auto

lemma updated_by_obj: "is_obj d \<Longrightarrow> is_obj (updated_by r d)"
  using folded_update by (simp add: updated_by_def)

lemma jhas_keys: "jhas r k \<longleftrightarrow> k \<in> set (jkeys r)"
  by (cases r) (auto simp: map_of_eq_None_iff)

lemma updated_by_get: "is_obj d \<Longrightarrow> jhas r k \<Longrightarrow> jget (updated_by r d) k = jget r k"
  using folded_update by (simp add: updated_by_def jhas_keys)

text \<open>What the work on a folder can do to it while the state in memory is \<open>state\<close>.\<close>

definition in_state :: "string \<Rightarrow> job_folder \<Rightarrow> bool" where
  "in_state s f = (\<exists>d. jb_public f = Inr d \<and> is_obj d \<and> jget d ''state'' = JStr s)"

definition keeps_download :: "job_folder \<Rightarrow> job_folder \<Rightarrow> bool" where
  "keeps_download f g = (jb_download f \<noteq> None \<longrightarrow> jb_download g \<noteq> None)"

definition worked :: "string \<Rightarrow> job_folder \<Rightarrow> job_folder \<Rightarrow> bool" where
  "worked phase f g =
     (keeps_download f g \<and>
      (jb_public g = jb_public f \<or> phase = ''download'' \<and> in_state ''installing'' g \<and> jb_download g \<noteq> None \<or>
       phase = ''install'' \<and> in_state ''complete'' g))"

definition same_public :: "job_folder \<Rightarrow> job_folder \<Rightarrow> bool" where
  "same_public f g = (jb_public g = jb_public f \<and> keeps_download f g)"

lemma same_public_refl: "same_public f f" by (simp add: same_public_def keeps_download_def)

lemma worked_refl: "worked phase f f" by (simp add: worked_def keeps_download_def)

lemma accept_result_wp:
  assumes h: "holds_folder name f w0 w" and p: "jb_public f = Inr state" "is_obj state"
  shows "io_wp (accept_result pc name phase state result) (\<lambda>_. becomes name (worked phase f) w0) (becomes name (same_public f) w0) w"
proof -
  have stay: "becomes name (worked phase f) w0 w" "becomes name (same_public f) w0 w"
    by (rule becomes_self [OF h], simp add: worked_refl same_public_refl)+
  have next_phase: "io_wp (install_next name state result) (\<lambda>_. becomes name (worked phase f) w0) (becomes name (same_public f) w0) w'"
    if "phase = ''download''" "holds_folder name (f\<lparr> jb_download := Some result \<rparr>) w0 w'" for w'
  proof -
    have "becomes name (same_public f) w0 w'"
      by (rule becomes_self [OF that(2)]) (simp add: same_public_def keeps_download_def)
    then show ?thesis
      using that p(2) unfolding install_next_def
      by (auto simp: wp_rules write_public_def worked_def keeps_download_def in_state_def state_with_def
          intro!: set_folder_wp [OF that(2)] split: sum.splits)
  qed
  have installs: "io_wp (set_folder name (\<lambda>f. f\<lparr> jb_download := Some result \<rparr>))
      (\<lambda>_. io_wp (install_next name state result) (\<lambda>_. becomes name (worked phase f) w0) (becomes name (same_public f) w0)) E w"
    if "phase = ''download''" for E
    by (rule set_folder_then_wp [OF h]) (rule next_phase [OF that])
  have completes: "io_wp (write_public name (state_with [(''finishedAt'', JStr (pc_stamp pc))] (updated_by result state)))
      (\<lambda>_. becomes name (worked phase f) w0) (becomes name (same_public f) w0) w"
    if "phase = ''install''" "py_idx result ''state'' = Inr (JStr ''complete'')"
    unfolding write_public_def
    using that p(2) updated_by_get [OF p(2), of result "''state''"] updated_by_obj [OF p(2)]
    by (auto intro!: set_folder_wp [OF h] simp: worked_def keeps_download_def in_state_def state_with_def py_idx_Inr)
  show ?thesis
    unfolding accept_result_def
    using stay installs completes by (auto simp: wp_rules split: sum.splits)
qed

lemma settle_wp:
  assumes h: "holds_folder name f w0 w" and p: "jb_public f = Inr state" "is_obj state"
  shows "io_wp (settle pc name phase current state) (\<lambda>_. becomes name (worked phase f) w0) (becomes name (same_public f) w0) w"
proof -
  have stay: "becomes name (worked phase f) w0 w" "becomes name (same_public f) w0 w"
    by (rule becomes_self [OF h], simp add: worked_refl same_public_refl)+
  note accepts = accept_result_wp [OF h p]
  show ?thesis
  proof (cases "map_of (jb_results (folder_of w name)) phase")
    case None
    then have "settle pc name phase current state w =
      (if truthy (jget (jget current ''status'') ''failed'') then (Inl (ValueError ''Package job failed or exceeded its execution limit''), w)
       else (Inr (), w))" by (simp add: settle_def)
    then show ?thesis using stay by (simp add: io_wp_def)
  next
    case (Some r)
    then have "settle pc name phase current state w = io_bind (io_lift r) (accept_result pc name phase state) w"
      by (simp add: settle_def)
    then have "io_wp (settle pc name phase current state) Q E w = io_wp (io_bind (io_lift r) (accept_result pc name phase state)) Q E w" for Q E
      by (simp add: io_wp_def)
    then show ?thesis using stay accepts by (auto simp: wp_rules split: sum.splits)
  qed
qed

lemma in_state_D: "in_state s f \<Longrightarrow> job_state f = s"
  by (auto simp: in_state_def job_state_def string_of_def)

lemma well_formedE:
  assumes "well_formed f"
  obtains d s where "jb_public f = Inr d" "is_obj d" "jget d ''state'' = JStr s" "s \<in> set job_states" "in_state s f"
    "s = ''installing'' \<longrightarrow> jb_download f \<noteq> None"
proof (cases "jb_public f")
  case (Inl e)
  then show ?thesis using assms by (simp add: well_formed_def)
next
  case (Inr d)
  then obtain s where "is_obj d" "s \<in> set job_states" "jget d ''state'' = JStr s" "s = ''installing'' \<longrightarrow> jb_download f \<noteq> None"
    using assms by (auto simp: well_formed_def)
  then show ?thesis using that [of d s] Inr by (simp add: in_state_def)
qed

lemma well_formedI: "in_state s f \<Longrightarrow> s \<in> set job_states \<Longrightarrow> (s = ''installing'' \<Longrightarrow> jb_download f \<noteq> None) \<Longrightarrow> well_formed f"
  by (auto simp: well_formed_def in_state_def)

definition advances :: "job_folder \<Rightarrow> job_folder \<Rightarrow> bool" where
  "advances f g = (well_formed g \<and> may_follow (job_state f) (job_state g))"

definition open_state :: "string \<Rightarrow> bool" where
  "open_state s = (s \<in> {''queued'', ''downloading'', ''installing''})"

text \<open>After an exception the job is still open.\<close>

definition still_open :: "job_folder \<Rightarrow> job_folder \<Rightarrow> bool" where
  "still_open f g = (advances f g \<and> open_state (job_state g))"

lemma may_follow_begin: "may_follow (if s = ''queued'' then ''downloading'' else s) t \<Longrightarrow> may_follow s t"
  by (auto simp: may_follow_def split: if_splits)

lemma advances_refl: "well_formed f \<Longrightarrow> advances f f"
  by (simp add: advances_def may_follow_def)

lemma same_public_advances:
  assumes "same_public f g" "well_formed f"
  shows "advances f g"
proof -
  have "jb_public g = jb_public f" "jb_download f \<noteq> None \<longrightarrow> jb_download g \<noteq> None"
    using assms(1) by (simp_all add: same_public_def keeps_download_def)
  then have "well_formed g" "job_state g = job_state f"
    using assms(2) by (simp_all add: well_formed_def job_state_def split: sum.splits)
  then show ?thesis by (simp add: advances_def may_follow_def)
qed

lemma same_public_state: "same_public f g \<Longrightarrow> job_state g = job_state f"
  by (simp add: same_public_def job_state_def)

lemma worked_advances:
  assumes "worked phase f g" "well_formed f" "in_state s f" "phase = phase_of (JStr s)" "open_state s" "s \<noteq> ''queued''"
  shows "advances f g"
proof -
  consider "same_public f g" | "phase = ''download''" "in_state ''installing'' g" "jb_download g \<noteq> None"
    | "phase = ''install''" "in_state ''complete'' g"
    using assms(1) by (auto simp: worked_def same_public_def)
  then show ?thesis
  proof cases
    case 1
    then show ?thesis using assms(2) by (rule same_public_advances)
  next
    case 2
    then have "s = ''downloading''" using assms(4-6) by (auto simp: phase_of_def open_state_def split: if_splits)
    then show ?thesis using 2 in_state_D [OF assms(3)] in_state_D [OF 2(2)] well_formedI [OF 2(2)]
      by (simp add: advances_def may_follow_def job_states_def)
  next
    case 3
    then have "s = ''installing''" using assms(4-6) by (auto simp: phase_of_def open_state_def split: if_splits)
    then show ?thesis using 3 in_state_D [OF assms(3)] in_state_D [OF 3(2)] well_formedI [OF 3(2)]
      by (simp add: advances_def may_follow_def job_states_def)
  qed
qed

lemma begin_download_wp:
  assumes "holds_folder name f w0 w" "in_state s f" "jb_public f = Inr state"
    and "\<And>state' g w'. holds_folder name g w0 w' \<Longrightarrow> jb_public g = Inr state' \<Longrightarrow> is_obj state' \<Longrightarrow> jb_download g = jb_download f \<Longrightarrow>
      in_state (if s = ''queued'' then ''downloading'' else s) g \<Longrightarrow> Q state' w'"
  shows "io_wp (begin_download pc name state) Q E w"
proof (cases "s = ''queued''")
  case False
  then have "begin_download pc name state w = (Inr state, w)" using assms(2,3) by (auto simp: begin_download_def in_state_def)
  then show ?thesis using assms False by (auto simp: io_wp_def in_state_def)
next
  case True
  have "is_obj state" "jget state ''state'' = JStr ''queued''" using assms(2,3) True by (auto simp: in_state_def)
  then have b: "begin_download pc name state = io_bind (write_public name (started pc state)) (\<lambda>_. io_return (started pc state))"
    and s: "is_obj (started pc state)" "jget (started pc state) ''state'' = JStr ''downloading''"
    by (simp_all add: begin_download_def started_def state_with_def)
  show ?thesis
    unfolding b io_wp_bind write_public_def
    by (rule set_folder_then_wp [OF assms(1)])
       (auto simp: io_wp_basic True s in_state_def intro!: assms(4))
qed

lemma work_on_wp:
  assumes h: "holds_folder name f w0 w" and wf: "well_formed f" and st: "in_state s f" "open_state s" and p: "jb_public f = Inr state"
  shows "io_wp (work_on send pc name request user (phase_of (JStr s)) state) (\<lambda>_. becomes name (advances f) w0) (becomes name (still_open f) w0) w"
proof -
  have stay: "becomes name (still_open f) w0 w'" if "holds_folder name f w0 w'" for w'
    by (rule becomes_self [OF that]) (simp add: still_open_def advances_refl [OF wf] in_state_D [OF st(1)] st(2))
  let ?s = "if s = ''queued'' then ''downloading'' else s"
  have phases: "phase_of (JStr s) = phase_of (JStr ?s)" "open_state ?s" "?s \<noteq> ''queued''"
    using st(2) by (auto simp: phase_of_def open_state_def)
  have settles: "io_wp (settle pc name (phase_of (JStr s)) current state') (\<lambda>_. becomes name (advances f) w0) (becomes name (still_open f) w0) w'"
    if g: "holds_folder name g w0 w'" "jb_public g = Inr state'" "is_obj state'" "jb_download g = jb_download f" "in_state ?s g"
    for current state' g w'
  proof (rule io_wp_mono [OF settle_wp [OF g(1-3)]])
    have "?s \<in> set job_states" using phases(2) by (auto simp: open_state_def job_states_def)
    moreover have "?s = ''installing'' \<Longrightarrow> jb_download g \<noteq> None" using wf st(1) g(4)
      by (auto simp: well_formed_def in_state_def split: if_splits)
    ultimately have wg: "well_formed g" using well_formedI [OF g(5)] by blast
    have m: "may_follow (job_state f) t" if "may_follow (job_state g) t" for t
      using that may_follow_begin [of s t] in_state_D [OF st(1)] in_state_D [OF g(5)] by simp
    fix w1
    show "becomes name (advances f) w0 w1" if "becomes name (worked (phase_of (JStr s)) g) w0 w1"
    proof (rule becomes_mono [OF that])
      fix k assume "worked (phase_of (JStr s)) g k"
      then have "advances g k" unfolding phases(1) using wg g(5) refl phases(2,3) by (rule worked_advances)
      then show "advances f k" using m by (auto simp: advances_def)
    qed
    show "becomes name (still_open f) w0 w1" if "becomes name (same_public g) w0 w1"
    proof (rule becomes_mono [OF that])
      fix k assume k: "same_public g k"
      have "advances g k" using k wg by (rule same_public_advances)
      moreover have "job_state k = ?s" using same_public_state [OF k] in_state_D [OF g(5)] by simp
      ultimately show "still_open f k" using m phases(2) by (auto simp: advances_def still_open_def)
    qed
  qed
  show ?thesis
    unfolding work_on_def io_wp_bind
    by (rule on_cluster_wp [OF h _ stay])
       (auto intro: begin_download_wp [OF _ st(1) p] settles)
qed

lemma fail_request_wp:
  assumes h: "holds_folder name g w0 w" and s: "still_open f g"
  shows "io_wp (fail_request send pc name request m) (\<lambda>_. becomes name (\<lambda>k. advances f k \<and> job_state k = ''failed'') w0) (becomes name (\<lambda>k. k = g) w0) w"
proof -
  have wf: "well_formed g" using s by (simp add: still_open_def advances_def)
  obtain d t where g: "jb_public g = Inr d" "is_obj d" by (rule well_formedE [OF wf])
  let ?k = "g\<lparr> jb_public := res_bind (jb_public g) (\<lambda>state. Inr (failed_state pc m state)) \<rparr>"
  have k: "in_state ''failed'' ?k" using g by (auto simp: in_state_def failed_state_def state_with_def)
  have "may_follow (job_state f) (job_state g)" "open_state (job_state g)" using s by (auto simp: still_open_def advances_def)
  then have "may_follow (job_state f) ''failed''" by (auto simp: may_follow_def open_state_def)
  then have "advances f ?k \<and> job_state ?k = ''failed''"
    using in_state_D [OF k] well_formedI [OF k] by (simp add: advances_def job_states_def)
  then have sets: "io_wp (set_folder name (\<lambda>f. f\<lparr> jb_public := res_bind (jb_public f) (\<lambda>state. Inr (failed_state pc m state)) \<rparr>))
      (\<lambda>_. becomes name (\<lambda>k. advances f k \<and> job_state k = ''failed'') w0) E w'" if "holds_folder name g w0 w'" for E w'
    by (rule set_folder_wp [OF that])
  have stay: "becomes name (\<lambda>k. k = g) w0 w'" if "holds_folder name g w0 w'" for w'
    by (rule becomes_self [OF that]) (rule refl)
  show ?thesis
    unfolding fail_request_def io_wp_bind io_wp_if
    using sets stay h by (auto intro!: on_cluster_wp [OF h] simp: io_wp_basic)
qed

section \<open>One round\<close>

text \<open>What one round may do to a job: an ended job is not touched, and a job becomes active only below the bound.\<close>

definition round_step :: "nat \<Rightarrow> nat \<Rightarrow> job_folder \<Rightarrow> job_folder \<Rightarrow> bool" where
  "round_step active active' f g =
     (advances f g \<and> (\<not> open_state (job_state f) \<longrightarrow> g = f) \<and>
      (active' = active \<and> (active_job g \<longrightarrow> active_job f) \<or> active' = Suc active \<and> active < 2))"

definition stays :: "nat \<Rightarrow> job_folder \<Rightarrow> job_folder \<Rightarrow> bool" where
  "stays active f g = (round_step active active f g \<or> round_step active (Suc active) f g)"

lemma process_wp:
  assumes h: "holds_folder name f w0 w" and wf: "well_formed f" and st: "in_state s f" "open_state s" and p: "jb_public f = Inr state"
  shows "io_wp (process send pc name request state (JStr s) active) (\<lambda>a. becomes name (round_step active a f) w0) (becomes name (stays active f) w0) w"
proof -
  have js: "job_state f = s" by (rule in_state_D [OF st(1)])
  have self: "round_step active active f f" by (simp add: round_step_def advances_refl [OF wf])
  have open_f: "still_open f f" using advances_refl [OF wf] st(2) js by (simp add: still_open_def)
  have failed: "round_step active active f k" if "advances f k" "job_state k = ''failed''" for k
    using that js st(2) by (simp add: round_step_def active_job_def)
  let ?a = "if s = ''queued'' then Suc active else active"
  have begun: "round_step active ?a f k" if "advances f k" "s = ''queued'' \<longrightarrow> active < 2" for k
    using that js st(2) by (auto simp: round_step_def active_job_def open_state_def)
  have stays_if: "stays active f k" if "still_open f k" "s = ''queued'' \<longrightarrow> active < 2" for k
    using begun [of k] that by (auto simp: stays_def still_open_def split: if_splits)
  show ?thesis
  proof (cases "admission pc request (phase_of (JStr s))")
    case (Inl e)
    have "io_wp (io_bind (fail_request send pc name request m) (\<lambda>_. io_return active)) (\<lambda>a. becomes name (round_step active a f) w0)
        (becomes name (stays active f) w0) w" for m
      unfolding io_wp_bind io_wp_basic
      by (rule io_wp_mono [OF fail_request_wp [OF h open_f]]) (auto elim!: becomes_mono simp: failed stays_def self)
    moreover have "becomes name (stays active f) w0 w" by (rule becomes_self [OF h]) (simp add: stays_def self)
    ultimately show ?thesis using Inl by (cases e) (auto simp: process_def io_wp_basic)
  next
    case (Inr user)
    have retries: "io_wp (fail_request send pc name request e) (\<lambda>_. becomes name (advances f) w0) (becomes name (still_open f) w0) w'"
      if "becomes name (still_open f) w0 w'" for e w'
    proof -
      obtain g where g: "still_open f g" "holds_folder name g w0 w'" using \<open>becomes name (still_open f) w0 w'\<close> by (auto simp: becomes_def)
      show ?thesis
        by (rule io_wp_mono [OF fail_request_wp [OF g(2,1)]]) (auto elim!: becomes_mono simp: g(1))
    qed
    have works: "io_wp (on_value_error (work_on send pc name request user (phase_of (JStr s)) state) (fail_request send pc name request))
        (\<lambda>_. becomes name (advances f) w0) (becomes name (still_open f) w0) w"
      by (rule on_value_error_wp [OF work_on_wp [OF h wf st p] _ retries])
    have "io_wp (io_bind (on_value_error (work_on send pc name request user (phase_of (JStr s)) state) (fail_request send pc name request))
        (\<lambda>_. io_return ?a)) (\<lambda>a. becomes name (round_step active a f) w0) (becomes name (stays active f) w0) w"
      if "s = ''queued'' \<longrightarrow> active < 2"
      unfolding io_wp_bind io_wp_basic
    proof (rule io_wp_mono [OF works])
      fix w'
      show "becomes name (round_step active ?a f) w0 w'" if "becomes name (advances f) w0 w'"
        by (rule becomes_mono [OF that]) (rule begun [OF _ \<open>s = ''queued'' \<longrightarrow> active < 2\<close>])
      show "becomes name (stays active f) w0 w'" if "becomes name (still_open f) w0 w'"
        by (rule becomes_mono [OF that]) (rule stays_if [OF _ \<open>s = ''queued'' \<longrightarrow> active < 2\<close>])
    qed
    moreover have "becomes name (round_step active active f) w0 w" by (rule becomes_self [OF h]) (rule self)
    ultimately show ?thesis using Inr by (auto simp: process_def io_wp_if io_wp_basic not_le)
  qed
qed

lemma reconcile_folder_wp:
  assumes m: "map_of (pk_folders w) name = Some f" and wf: "well_formed f"
  shows "io_wp (reconcile_folder send pc name active) (\<lambda>a. becomes name (round_step active a f) w) (becomes name (stays active f) w) w"
proof -
  have h: "holds_folder name f w w" by (rule holds_unchanged [OF m])
  have self: "round_step active active f f" by (simp add: round_step_def advances_refl [OF wf])
  have here: "becomes name (stays active f) w w" "becomes name (round_step active active f) w w"
    by (rule becomes_self [OF h], simp add: stays_def self)+
  obtain d s where d: "jb_public f = Inr d" "is_obj d" "jget d ''state'' = JStr s" "s \<in> set job_states" "in_state s f"
    by (rule well_formedE [OF wf])
  have idx: "py_idx d ''state'' = Inr (JStr s)" using d(2,3) jget_not_JNull_jhas [of d "''state''"] by (simp add: py_idx_def)
  have "open_state s" if "JStr s \<notin> final_states" using that d(4) by (auto simp: open_state_def final_states_def job_states_def)
  note processes = process_wp [OF h wf d(5) this d(1)]
  have "reconcile_folder send pc name active w = (case res_bind (jb_request f) validate_request of Inl e \<Rightarrow> (Inl e, w)
      | Inr request \<Rightarrow> if pr_id request \<noteq> name then (Inl (ValueError ''Request identity differs''), w)
          else if JStr s \<in> final_states then (Inr active, w) else process send pc name request d (JStr s) active w)"
    using m by (simp add: reconcile_folder_def folder_of_def d(1) idx split: sum.split)
  then show ?thesis using here processes
    by (auto simp: io_wp_def split: sum.splits if_splits)
qed

lemma reconcile_folder_becomes:
  assumes "map_of (pk_folders w) name = Some f" "well_formed f" "reconcile_folder send pc name active w = (r, w')"
  obtains g where "pk_folders w' = AList.update name g (pk_folders w)" "case r of Inl e \<Rightarrow> stays active f g | Inr a \<Rightarrow> round_step active a f g"
proof -
  have "case r of Inl e \<Rightarrow> becomes name (stays active f) w w' | Inr a \<Rightarrow> becomes name (round_step active a f) w w'"
    using reconcile_folder_wp [OF assms(1,2), of send pc active] assms(3) by (simp add: io_wp_def split: sum.splits)
  then show ?thesis using that by (cases r) (auto simp: becomes_def holds_folder_def)
qed

definition well_formed_jobs :: "'w package_world \<Rightarrow> bool" where
  "well_formed_jobs w = (distinct (map fst (pk_folders w)) \<and> list_all (\<lambda>(n, f). well_formed f) (pk_folders w))"

definition active_count :: "'w package_world \<Rightarrow> nat" where
  "active_count w = length (filter (\<lambda>(n, f). hex_id 32 n \<and> active_job f) (pk_folders w))"

lemma filter_update:
  assumes "distinct (map fst xs)" "map_of xs k = Some f"
  shows "length (filter (\<lambda>(n, f). P n f) (AList.update k g xs)) + (if P k f then 1 else 0) =
    length (filter (\<lambda>(n, f). P n f) xs) + (if P k g then 1 else 0)"
  using assms
proof (induction xs)
  case (Cons x xs)
  show ?case
  proof (cases "fst x = k")
    case True
    then show ?thesis using Cons.prems by (cases x) auto
  next
    case False
    then show ?thesis using Cons by (cases x) auto
  qed
qed simp

lemma active_count_update:
  assumes "distinct (map fst (pk_folders w))" "map_of (pk_folders w) k = Some f" "hex_id 32 k" "pk_folders w' = AList.update k g (pk_folders w)"
  shows "active_count w' + (if active_job f then 1 else 0) = active_count w + (if active_job g then 1 else 0)"
  using filter_update [OF assms(1,2), of "\<lambda>n f. hex_id 32 n \<and> active_job f" g] assms(3,4) by (simp add: active_count_def)

lemma counted:
  assumes "well_formed_jobs w" "count_active (pk_folders w) = Inr n"
  shows "n = active_count w"
proof -
  have "\<exists>ss. res_map (\<lambda>(n, f). public_state f) (filter (\<lambda>(n, f). hex_id 32 n) fs) = Inr ss \<and>
      length (filter (\<lambda>s. s \<in> active_states) ss) = length (filter (\<lambda>(n, f). hex_id 32 n \<and> active_job f) fs)"
    if "list_all (\<lambda>(n, f). well_formed f) fs" for fs
    using that
  proof (induction fs)
    case (Cons e fs)
    obtain name f where e: "e = (name, f)" by (cases e)
    have wf: "well_formed f" using Cons.prems e by simp
    obtain d s where d: "jb_public f = Inr d" "is_obj d" "jget d ''state'' = JStr s" "in_state s f"
      by (rule well_formedE [OF wf])
    then have "public_state f = Inr (JStr s)" using jget_not_JNull_jhas [of d "''state''"] by (simp add: public_state_def py_idx_def)
    moreover have "JStr s \<in> active_states \<longleftrightarrow> active_job f" by (simp add: in_state_D [OF d(4)] active_job_def active_states_def)
    ultimately show ?case using Cons e by (auto split: sum.splits)
  qed simp
  then show ?thesis using assms by (fastforce simp: well_formed_jobs_def count_active_def active_count_def res_bind_Inr_iff)
qed

text \<open>What a round has done to the folders, when it worked on the names \<open>ns\<close>.\<close>

definition job_step :: "job_folder \<Rightarrow> job_folder \<Rightarrow> bool" where
  "job_step f g = (advances f g \<and> (\<not> open_state (job_state f) \<longrightarrow> g = f))"

definition jobs_step :: "'w package_world \<Rightarrow> 'w package_world \<Rightarrow> bool" where
  "jobs_step w w' = list_all2 (\<lambda>(n, f) (m, g). m = n \<and> job_step f g) (pk_folders w) (pk_folders w')"

definition touched :: "string set \<Rightarrow> 'w package_world \<Rightarrow> 'w package_world \<Rightarrow> bool" where
  "touched S w w' = list_all2 (\<lambda>(n, f) (m, g). m = n \<and> (if n \<in> S then job_step f g else g = f)) (pk_folders w) (pk_folders w')"

lemma touched_update:
  assumes "touched S w w1" "k \<notin> S" "distinct (map fst (pk_folders w))" "map_of (pk_folders w1) k = Some f" "job_step f g"
    "pk_folders w' = AList.update k g (pk_folders w1)"
  shows "touched (insert k S) w w'"
proof -
  have "list_all2 (\<lambda>(n, f) (m, g). m = n \<and> (if n \<in> insert k S then job_step f g else g = f)) xs (AList.update k g ys)"
    if "list_all2 (\<lambda>(n, f) (m, g). m = n \<and> (if n \<in> S then job_step f g else g = f)) xs ys" "distinct (map fst xs)" "map_of ys k = Some f" for xs ys
    using that
  proof (induction rule: list_all2_induct)
    case (Cons x xs y ys)
    obtain n a m b where xy: "x = (n, a)" "y = (m, b)" by (cases x, cases y)
    have same: "list_all2 (\<lambda>(n, f) (m, g). m = n \<and> (if n \<in> insert k S then job_step f g else g = f)) xs ys" if "n = k"
      by (rule list.rel_mono_strong [OF Cons.hyps(2)]) (use Cons.prems(1) that xy in \<open>force split: if_splits\<close>)
    show ?case
    proof (cases "n = k")
      case True
      then show ?thesis using Cons.hyps Cons.prems xy same assms(2,5) by auto
    next
      case False
      then show ?thesis using Cons xy by auto
    qed
  qed simp
  then show ?thesis using assms unfolding touched_def by simp
qed

lemma touched_keys: "touched S w w' \<Longrightarrow> map fst (pk_folders w') = map fst (pk_folders w)"
  unfolding touched_def by (induction rule: list_all2_induct) auto

lemma well_formed_at: "well_formed_jobs w \<Longrightarrow> map_of (pk_folders w) k = Some f \<Longrightarrow> well_formed f"
  using map_of_SomeD by (fastforce simp: well_formed_jobs_def list_all_iff)

lemma well_formed_update:
  assumes "well_formed_jobs w" "map_of (pk_folders w) k = Some f" "well_formed g" "pk_folders w' = AList.update k g (pk_folders w)"
  shows "well_formed_jobs w'"
proof -
  have "k \<in> fst ` set (pk_folders w)" using assms(2) by (force dest: map_of_SomeD)
  then have "map fst (AList.update k g (pk_folders w)) = map fst (pk_folders w)" by (simp add: update_keys)
  moreover have "well_formed v" if "(n, v) \<in> set (AList.update k g (pk_folders w))" for n v
  proof -
    have "distinct (map fst (AList.update k g (pk_folders w)))" using calculation assms(1) by (simp add: well_formed_jobs_def)
    then have "map_of (AList.update k g (pk_folders w)) n = Some v" using that by (rule map_of_is_SomeI)
    then show ?thesis using assms(1,3) well_formed_at [OF assms(1), of n v] by (auto simp: update_conv' split: if_splits)
  qed
  ultimately show ?thesis using assms(1,4) by (auto simp: well_formed_jobs_def list_all_iff)
qed

text \<open>The names of a round are worked on once each; the count of active jobs never overtakes the counter.\<close>

lemma reconcile_folders_steps:
  assumes "reconcile_folders send pc ns active w = (r, w')" "well_formed_jobs w" "touched S w0 w" "distinct (map fst (pk_folders w0))"
    and "distinct ns" "set ns \<inter> S = {}" "set ns \<subseteq> fst ` set (pk_folders w0)" "list_all (hex_id 32) ns" "active_count w \<le> active"
  shows "well_formed_jobs w' \<and> (\<exists>T. touched T w0 w') \<and> active_count w' \<le> max 2 active"
  using assms(1-3,5-9)
proof (induction ns arbitrary: w S active)
  case Nil
  then show ?case by auto
next
  case (Cons n ns)
  note keys = touched_keys [OF Cons.prems(3)]
  have "n \<in> fst ` set (pk_folders w)" using Cons.prems(6) keys by (metis insert_subset list.set(2) set_map)
  then obtain f where f: "map_of (pk_folders w) n = Some f" by (metis map_of_eq_None_iff not_Some_eq)
  have wf: "well_formed f" by (rule well_formed_at [OF Cons.prems(2) f])
  obtain r1 w1 where m: "reconcile_folder send pc n active w = (r1, w1)" by fastforce
  obtain g where g: "pk_folders w1 = AList.update n g (pk_folders w)" "case r1 of Inl e \<Rightarrow> stays active f g | Inr a \<Rightarrow> round_step active a f g"
    by (rule reconcile_folder_becomes [OF f wf m])
  then obtain a where a: "round_step active a f g" "r1 = Inr a \<or> (\<exists>e. r1 = Inl e)"
    by (cases r1) (auto simp: stays_def)
  have step: "job_step f g" using a(1) by (simp add: round_step_def job_step_def)
  have dist: "distinct (map fst (pk_folders w))" using Cons.prems(2) by (simp add: well_formed_jobs_def)
  have wf1: "well_formed_jobs w1" using Cons.prems(2) f _ g(1) by (rule well_formed_update) (use step in \<open>simp add: job_step_def advances_def\<close>)
  have t1: "touched (insert n S) w0 w1"
    by (rule touched_update [OF Cons.prems(3) _ assms(4) f step g(1)]) (use Cons.prems(5) in auto)
  have hex: "hex_id 32 n" using Cons.prems(7) by simp
  have count: "active_count w1 \<le> a" "a \<le> max 2 active"
    using active_count_update [OF dist f hex g(1)] a(1) Cons.prems(8) by (auto simp: round_step_def split: if_splits)
  show ?case
  proof (cases r1)
    case (Inl e)
    then have "w' = w1" using Cons.prems(1) m by (simp add: io_bind_def)
    then show ?thesis using wf1 t1 count by auto
  next
    case (Inr b)
    then have b: "b = a" using a(2) g(2) by auto
    then have "reconcile_folders send pc ns a w1 = (r, w')" using Cons.prems(1) m Inr by (simp add: io_bind_def)
    then have "well_formed_jobs w' \<and> (\<exists>T. touched T w0 w') \<and> active_count w' \<le> max 2 a"
      by (rule Cons.IH [OF _ wf1 t1]) (use Cons.prems count in auto)
    then show ?thesis using count(2) by auto
  qed
qed

lemma touched_jobs_step: "touched S w w' \<Longrightarrow> well_formed_jobs w \<Longrightarrow> jobs_step w w'"
  unfolding touched_def jobs_step_def
  by (erule list.rel_mono_strong) (auto simp: well_formed_jobs_def list_all_iff job_step_def advances_refl split: if_splits)

lemma touched_refl: "touched {} w w"
  unfolding touched_def by (auto simp: list_all2_same split: prod.splits)

lemma tick_steps:
  assumes "tick send pc w = (r, w')" "well_formed_jobs w"
  shows "well_formed_jobs w' \<and> jobs_step w w' \<and> active_count w' \<le> max 2 (active_count w)"
proof (cases "count_active (pk_folders w)")
  case (Inl e)
  then have "w' = w" using assms(1) by (simp add: tick_def)
  then show ?thesis using assms(2) touched_jobs_step [OF touched_refl] by simp
next
  case (Inr n)
  have n: "n = active_count w" by (rule counted [OF assms(2) Inr])
  let ?ns = "sort (filter (hex_id 32) (map fst (pk_folders w)))"
  have d: "distinct (map fst (pk_folders w))" using assms(2) by (simp add: well_formed_jobs_def)
  have run: "reconcile_folders send pc ?ns n w = (r, w')" using assms(1) Inr by (simp add: tick_def)
  have "well_formed_jobs w' \<and> (\<exists>T. touched T w w') \<and> active_count w' \<le> max 2 n"
    by (rule reconcile_folders_steps [OF run assms(2) touched_refl d]) (use d n in \<open>auto simp: list_all_iff\<close>)
  then show ?thesis using n touched_jobs_step assms(2) by blast
qed

section \<open>Calls\<close>

text \<open>A predicate on the requests of a \<open>logged\<close> server.\<close>

definition calls_all :: "(request \<Rightarrow> bool) \<Rightarrow> request list \<times> 'w \<Rightarrow> bool" where
  "calls_all P w = list_all P (fst w)"

lemma kube_call_wp:
  assumes "calls_all P w" "\<And>url. P \<lparr> verb = meth, path = url, media = json_media, body = bdy \<rparr>"
    and "\<And>x w'. calls_all P w' \<Longrightarrow> Q x w'" "\<And>w'. calls_all P w' \<Longrightarrow> E w'"
  shows "io_wp (kube_call (logged send) ns meth kind name bdy selector) Q E w"
proof -
  obtain l s where w: "w = (l, s)" by (cases w)
  show ?thesis
  proof (cases "kube_path ns kind name selector")
    case (Inl e)
    then show ?thesis using assms(1,4) by (simp add: io_wp_def kube_call_bad_path)
  next
    case (Inr url)
    obtain rep s' where s: "send \<lparr> verb = meth, path = url, media = json_media, body = bdy \<rparr> s = (rep, s')" by fastforce
    have "calls_all P (l @ [\<lparr> verb = meth, path = url, media = json_media, body = bdy \<rparr>], s')"
      using assms(1,2) w by (simp add: calls_all_def)
    then show ?thesis using assms(3,4) kube_call_logged [where send = send and w = s, OF Inr s, of l] w by (cases rep) (auto simp: io_wp_def)
  qed
qed

definition job_pod :: "json \<Rightarrow> json" where
  "job_pod d = jget (jget (jget d ''spec'') ''template'') ''spec''"

text \<open>A confined job: no API token, one container that runs the fixed program, and besides the fixed volumes and mounts
  only the owner's storage behind \<open>/workspace\<close> and the notebook state, and these only in the offline phase.\<close>

definition confined_volume :: "package_site \<Rightarrow> string \<Rightarrow> string \<Rightarrow> json \<Rightarrow> json \<Rightarrow> bool" where
  "confined_volume pc identity phase pod v =
     (v \<in> set (job_volumes pc identity) \<or> phase = ''install'' \<and> v \<in> set (volumes_of pod) \<and> storage_volume v)"

definition confined_mount :: "package_request \<Rightarrow> string \<Rightarrow> json \<Rightarrow> json \<Rightarrow> bool" where
  "confined_mount request phase c m =
     (m \<in> set (job_mounts request phase) \<or>
      phase = ''install'' \<and> (m \<in> set (mounts_of c) \<and> workspace_mount m \<or> (\<exists>state. state_mount c = Inr state \<and> m = notebook_state state)))"

definition confined_job :: "package_site \<Rightarrow> package_request \<Rightarrow> package_owner \<Rightarrow> string \<Rightarrow> json \<Rightarrow> json \<Rightarrow> json \<Rightarrow> bool" where
  "confined_job pc request owner phase pod c d =
     (jget (jget d ''metadata'') ''name'' = JStr (job_name request phase) \<and>
      jget (job_pod d) ''automountServiceAccountToken'' = JBool False \<and>
      list_all (confined_volume pc (artifact_identity pc request owner) phase pod) (volumes_of (job_pod d)) \<and>
      (\<exists>task. jget (job_pod d) ''containers'' = JList [task] \<and> jget task ''securityContext'' = restricted_context \<and>
        jget task ''command'' = JList [JStr ''python3'', JStr ''/task/package_task.py'', JStr phase] \<and>
        list_all (confined_mount request phase c) (mounts_of task)))"

lemma install_volumes_confined:
  "install_volumes pod work fixed = Inr vs \<Longrightarrow> list_all (\<lambda>v. v \<in> set fixed \<or> v \<in> set (volumes_of pod) \<and> storage_volume v) vs"
  by (auto simp: install_volumes_def Let_def list_all_iff split: if_splits)

lemma labelled_keeps:
  assumes "labelled d = Inr b"
  shows "jget b ''spec'' = jget d ''spec'' \<and> jget (jget b ''metadata'') ''name'' = jget (jget d ''metadata'') ''name''"
proof -
  obtain m m' where m: "py_idx d ''metadata'' = Inr m"
    "py_upd ''labels'' (py_set package_label (JStr ''true'')) (py_setdefault ''labels'' (JObj []) m) = Inr m'" "py_set ''metadata'' m' d = Inr b"
    using assms unfolding labelled_def py_upd_def [of "''metadata''"] by (auto simp: res_bind_Inr_iff)
  have b: "b = jset ''metadata'' m' d" "is_obj d" using m(3) by (auto simp: py_set_def split: if_splits)
  obtain x where x: "m' = jset ''labels'' x (py_setdefault ''labels'' (JObj []) m)"
    using m(2) by (auto simp: py_upd_def res_bind_Inr_iff py_set_def split: if_splits)
  have "jget m' ''name'' = jget m ''name''" unfolding x by (simp add: jset_other py_setdefault_def)
  moreover have "m = jget d ''metadata''" using m(1) by (simp add: py_idx_Inr)
  ultimately show ?thesis using b by (simp add: jset_other)
qed

lemma package_job_confined:
  assumes "package_job pc request owner phase pod c = Inr d" "labelled d = Inr b"
  shows "confined_job pc request owner phase pod c b"
proof -
  let ?i = "artifact_identity pc request owner"
  obtain mounts volumes where d: "d = job_document request phase ?i (task_pod pc phase mounts volumes)"
    and m: "list_all (confined_mount request phase c) mounts" and v: "list_all (confined_volume pc ?i phase pod) volumes"
  proof (cases "phase = ''install''")
    case True
    let ?mounts = "\<lambda>state. job_mounts request phase @ filter workspace_mount (mounts_of c) @ [notebook_state state]"
    obtain state volumes where s: "state_mount c = Inr state"
      and v: "install_volumes pod (filter workspace_mount (mounts_of c) @ [notebook_state state]) (job_volumes pc ?i) = Inr volumes"
      and d: "d = job_document request phase ?i (task_pod pc phase (?mounts state) volumes)"
      using assms(1) True by (auto simp: package_job_def Let_def res_bind_Inr_iff)
    have "list_all (confined_mount request phase c) (?mounts state)" using s True by (auto simp: list_all_iff confined_mount_def)
    moreover have "list_all (confined_volume pc ?i phase pod) volumes"
      using install_volumes_confined [OF v] True by (auto simp: list_all_iff confined_volume_def)
    ultimately show ?thesis by (rule that [OF d])
  next
    case False
    then show ?thesis using assms(1) that [of "job_mounts request phase" "job_volumes pc ?i"]
      by (auto simp: package_job_def Let_def list_all_iff confined_mount_def confined_volume_def)
  qed
  have "jget b ''spec'' = jget d ''spec''" "jget (jget b ''metadata'') ''name'' = JStr (job_name request phase)"
    using labelled_keeps [OF assms(2)] by (simp_all add: d job_document_def)
  moreover have "job_pod b = task_pod pc phase mounts volumes"
    using calculation(1) by (simp add: job_pod_def d job_document_def)
  moreover have "volumes_of (task_pod pc phase mounts volumes) = volumes" by (simp add: task_pod_def volumes_of_def jlist_def)
  moreover have "\<exists>task. jget (task_pod pc phase mounts volumes) ''containers'' = JList [task] \<and> jget task ''securityContext'' = restricted_context \<and>
      jget task ''command'' = JList [JStr ''python3'', JStr ''/task/package_task.py'', JStr phase] \<and> mounts_of task = mounts"
    by (simp add: task_pod_def mounts_of_def jlist_def)
  moreover have "jget (task_pod pc phase mounts volumes) ''automountServiceAccountToken'' = JBool False" by (simp add: task_pod_def)
  ultimately show ?thesis using m v unfolding confined_job_def by auto
qed

text \<open>What the work on a request may send: reads, the labelled claim of the owner's artifacts, and a confined job built
  from a runtime that passed the check.\<close>

definition owner_call :: "package_site \<Rightarrow> package_request \<Rightarrow> json \<Rightarrow> string \<Rightarrow> request \<Rightarrow> bool" where
  "owner_call pc request user phase e =
     (verb e = ''GET'' \<or>
      verb e = ''POST'' \<and>
      (\<exists>secure internet. owner_route user ''secure'' = Inr secure \<and> owner_route user ''internet'' = Inr internet \<and>
        (let owner = \<lparr> po_secure = secure, po_internet = internet \<rparr>; identity = artifact_identity pc request owner in
         labelled (artifact_document pc identity) = (case body e of Some b \<Rightarrow> Inr b | None \<Rightarrow> Inl StopIteration) \<or>
         (\<exists>d pod c b. check_deployment pc ''offline'' d = Inr (pod, c) \<and> body e = Some b \<and> confined_job pc request owner phase pod c b))))"

lemma ensure_wp:
  assumes "calls_all P w" "\<And>e. verb e = ''GET'' \<Longrightarrow> P e" "\<And>e b. verb e = ''POST'' \<Longrightarrow> labelled bdy = Inr b \<Longrightarrow> body e = Some b \<Longrightarrow> P e"
  shows "io_wp (ensure (logged send) pc kind name bdy) (\<lambda>_. calls_all P) (calls_all P) w"
  unfolding ensure_def io_wp_bind
  by (rule kube_call_wp [OF assms(1)])
     (auto simp: wp_rules assms(2) split: sum.splits intro!: kube_call_wp intro: assms(3))

lemma package_deployment_wp:
  assumes "calls_all P w" "\<And>e. verb e = ''GET'' \<Longrightarrow> P e"
    and "\<And>d x w'. calls_all P w' \<Longrightarrow> check_deployment pc mode d = Inr x \<Longrightarrow> Q x w'" "\<And>w'. calls_all P w' \<Longrightarrow> E w'"
  shows "io_wp (package_deployment (logged send) pc host mode) Q E w"
  unfolding package_deployment_def io_wp_bind io_wp_basic
  using assms by (auto split: sum.splits intro!: kube_call_wp simp: io_wp_basic)

lemma prepare_job_calls:
  assumes "calls_all (owner_call pc request user phase) w"
  shows "io_wp (prepare_job (logged send) pc request user phase) (\<lambda>_. calls_all (owner_call pc request user phase))
    (calls_all (owner_call pc request user phase)) w"
proof -
  let ?P = "owner_call pc request user phase"
  have get: "?P e" if "verb e = ''GET''" for e using that by (simp add: owner_call_def)
  have creates: "io_wp (create_job (logged send) pc request \<lparr> po_secure = secure, po_internet = internet \<rparr> phase pod c)
      (\<lambda>_. calls_all ?P) (calls_all ?P) w'"
    if "calls_all ?P w'" "owner_route user ''secure'' = Inr secure" "owner_route user ''internet'' = Inr internet"
      "check_deployment pc ''offline'' d = Inr (pod, c)" for secure internet pod c d w'
  proof -
    let ?o = "\<lparr> po_secure = secure, po_internet = internet \<rparr>"
    have artifact: "?P e" if "verb e = ''POST''" "labelled (artifact_document pc (artifact_identity pc request ?o)) = Inr b" "body e = Some b" for e b
      using that \<open>owner_route user ''secure'' = Inr secure\<close> \<open>owner_route user ''internet'' = Inr internet\<close>
      by (simp add: owner_call_def Let_def)
    have job: "?P e" if "verb e = ''POST''" "package_job pc request ?o phase pod c = Inr doc" "labelled doc = Inr b" "body e = Some b" for e b doc
    proof -
      have "confined_job pc request ?o phase pod c b" using that(2,3) by (rule package_job_confined)
      then show ?thesis
        using that(1,4) \<open>owner_route user ''secure'' = Inr secure\<close> \<open>owner_route user ''internet'' = Inr internet\<close>
          \<open>check_deployment pc ''offline'' d = Inr (pod, c)\<close>
        unfolding owner_call_def Let_def by blast
    qed
    have last: "io_wp (ensure (logged send) pc ''Job'' (job_name request phase) doc) (\<lambda>_. calls_all ?P) (calls_all ?P) w1"
      if "calls_all ?P w1" "package_job pc request ?o phase pod c = Inr doc" for doc w1
      by (rule ensure_wp [OF that(1) get job]) (use that(2) in auto)
    show ?thesis
      unfolding create_job_def Let_def io_wp_bind io_wp_basic
      by (rule io_wp_mono [OF ensure_wp [OF that(1) get artifact]]) (auto split: sum.splits intro: last)
  qed
  show ?thesis
    unfolding prepare_job_def io_wp_bind io_wp_basic
    using assms
    by (auto split: sum.splits simp: io_wp_bind io_wp_basic intro!: package_deployment_wp get intro: creates)
qed

definition delete_request :: "string \<Rightarrow> request" where
  "delete_request url = \<lparr> verb = ''DELETE'', path = url, media = json_media, body = Some delete_options \<rparr>"

text \<open>The job of a phase is looked up and, when there is one, deleted; the server accepted both.\<close>

definition deletion :: "'w server \<Rightarrow> package_site \<Rightarrow> package_request \<Rightarrow> string \<Rightarrow> 'w \<Rightarrow> request list \<Rightarrow> 'w \<Rightarrow> bool" where
  "deletion send pc request phase s es s' =
     (\<exists>url rep s1. kube_path (pc_namespace pc) ''Job'' (Some (job_name request phase)) None = Inr url \<and>
        send (get_request url) s = (rep, s1) \<and>
        (case rep of
           Reply found \<Rightarrow>
             (if truthy found then (\<exists>j. send (delete_request url) s1 = (Reply j, s')) \<and> es = [get_request url, delete_request url]
              else s' = s1 \<and> es = [get_request url])
         | Http_Error code \<Rightarrow> code = 404 \<and> s' = s1 \<and> es = [get_request url]))"

lemma delete_job_deletion:
  assumes "delete_job (logged send) pc request phase (l, s) = (Inr u, (l', s'))"
  obtains es where "l' = l @ es" "deletion send pc request phase s es s'"
proof -
  let ?name = "Some (job_name request phase)" and ?ns = "pc_namespace pc"
  obtain found w1 where g: "kube_call (logged send) ?ns ''GET'' ''Job'' ?name None None (l, s) = (Inr found, w1)"
    and d: "(if truthy found then io_bind (kube_call (logged send) ?ns ''DELETE'' ''Job'' ?name (Some delete_options) None) (\<lambda>_. io_return ())
        else io_return ()) w1 = (Inr u, (l', s'))"
    using assms unfolding delete_job_def by (blast dest: io_bind_InrD)
  obtain url where url: "kube_path ?ns ''Job'' ?name None = Inr url"
    using g by (cases "kube_path ?ns ''Job'' ?name None") (auto simp: kube_call_bad_path)
  obtain rep s1 where rep: "send (get_request url) s = (rep, s1)" by fastforce
  note get = kube_call_logged [where send = send and w = s, OF url rep [unfolded get_request_def], of l, folded get_request_def]
  have w1: "w1 = (l @ [get_request url], s1)" using g get by (auto split: reply.splits if_splits)
  show ?thesis
  proof (cases "truthy found")
    case False
    then have "l' = l @ [get_request url]" "s' = s1" using d w1 by auto
    moreover have "case rep of Reply j \<Rightarrow> j = found | Http_Error c \<Rightarrow> c = 404" using g get by (auto split: reply.splits if_splits)
    ultimately show ?thesis using that url rep False by (auto simp: deletion_def split: reply.splits)
  next
    case True
    then have j: "rep = Reply found" using g get by (auto split: reply.splits if_splits)
    obtain rep' s2 where rep': "send (delete_request url) s1 = (rep', s2)" by fastforce
    note del = kube_call_logged [where send = send and w = s1, OF url rep' [unfolded delete_request_def], of "l @ [get_request url]", folded delete_request_def]
    obtain x where x: "kube_call (logged send) ?ns ''DELETE'' ''Job'' ?name (Some delete_options) None w1 = (Inr x, (l', s'))"
      using d True by (auto dest: io_bind_InrD)
    then have "rep' = Reply x" "l' = l @ [get_request url, delete_request url]" "s' = s2"
      using del unfolding w1 by (auto split: reply.splits if_splits)
    then show ?thesis using that [of "[get_request url, delete_request url]"] url rep rep' j True by (simp add: deletion_def)
  qed
qed

lemma revocation_deletes:
  assumes "fail_request (logged send) pc name request m w = (Inr u, w')" "m \<in> revocations" "pk_server w = ([], s)"
    and "map_of (pk_folders w) name = Some f" "in_state t f"
  shows "in_state ''failed'' (folder_of w' name) \<and>
    (\<exists>es es' s1 s2. pk_server w' = (es @ es', s2) \<and> deletion send pc request ''download'' s es s1 \<and> deletion send pc request ''install'' s1 es' s2)"
proof -
  let ?set = "set_folder name (\<lambda>f. f\<lparr> jb_public := res_bind (jb_public f) (\<lambda>state. Inr (failed_state pc m state)) \<rparr>)"
  obtain x w1 where w1: "on_cluster (io_bind (delete_job (logged send) pc request ''download'') (\<lambda>_. delete_job (logged send) pc request ''install'')) w = (Inr x, w1)"
    and w': "?set w1 = (Inr u, w')"
    using assms(1,2) unfolding fail_request_def by (auto dest: io_bind_InrD)
  obtain v where v: "io_bind (delete_job (logged send) pc request ''download'') (\<lambda>_. delete_job (logged send) pc request ''install'') ([], s) = (Inr x, v)"
    and w1v: "w1 = w\<lparr> pk_server := v \<rparr>"
    using w1 assms(3) by (auto simp: on_cluster_def split: prod.splits)
  obtain y l s1 where first: "delete_job (logged send) pc request ''download'' ([], s) = (Inr y, (l, s1))"
    and second: "delete_job (logged send) pc request ''install'' (l, s1) = (Inr x, v)"
    using io_bind_InrD [OF v] by fastforce
  obtain es where es: "l = es" "deletion send pc request ''download'' s es s1" using delete_job_deletion [OF first] by auto
  obtain l2 s2 where v2: "v = (l2, s2)" by fastforce
  obtain es' where es': "l2 = l @ es'" "deletion send pc request ''install'' s1 es' s2" using delete_job_deletion [OF second [unfolded v2]] by auto
  have server: "pk_server w' = v" using w' w1v by (auto simp: set_folder_def)
  obtain d where d: "jb_public f = Inr d" "is_obj d" using assms(5) by (auto simp: in_state_def)
  have "folder_of w' name = f\<lparr> jb_public := Inr (failed_state pc m d) \<rparr>"
    using w' w1v assms(4) d by (auto simp: set_folder_def folder_of_def update_conv')
  then have "in_state ''failed'' (folder_of w' name)" using d(2) by (simp add: in_state_def failed_state_def state_with_def)
  then show ?thesis using server v2 es es' by blast
qed

section \<open>Properties\<close>

text \<open>C37: One round of the controller keeps every job well formed, whatever the API server, the authorization file and the
  result files hold and however the round ends: the folders are the same, a job moves only from queued over downloading
  and installing to complete, or to failed, and an ended job is not touched.\<close>

theorem jobs_only_advance:
  assumes "tick send pc w = (r, w')" "well_formed_jobs w"
  shows "well_formed_jobs w' \<and>
    list_all2 (\<lambda>(n, f) (m, g). m = n \<and> may_follow (job_state f) (job_state g) \<and> (\<not> open_state (job_state f) \<longrightarrow> g = f))
      (pk_folders w) (pk_folders w')"
proof -
  have "well_formed_jobs w'" and s: "jobs_step w w'" using tick_steps [OF assms] by simp_all
  moreover have "list_all2 (\<lambda>(n, f) (m, g). m = n \<and> may_follow (job_state f) (job_state g) \<and> (\<not> open_state (job_state f) \<longrightarrow> g = f))
      (pk_folders w) (pk_folders w')"
    using s unfolding jobs_step_def by (rule list.rel_mono_strong) (auto simp: job_step_def advances_def)
  ultimately show ?thesis by blast
qed

text \<open>C38: The global cap holds: one round never raises the number of downloading and installing jobs above two, or above
  their number before when it was already higher, even when a job fails, the API server errs or the round stops early.\<close>

theorem active_jobs_bounded:
  assumes "tick send pc w = (r, w')" "well_formed_jobs w"
  shows "active_count w' \<le> max 2 (active_count w)"
  using tick_steps [OF assms] by simp


text \<open>Whatever the API server answers, the work on an authorized request sends only reads, the labelled claim of the
  owner's artifacts and confined jobs: without API token, running the fixed program, with the fixed volumes and, in the
  offline phase only, the owner's own storage, taken from a runtime whose image and containment passed the check.\<close>

theorem package_calls_are_confined:
  assumes "prepare_job (logged send) pc request user phase ([], s) = (r, (es, s'))"
  shows "list_all (owner_call pc request user phase) es"
  using prepare_job_calls [of pc request user phase "([], s)" send] assms
  by (cases r) (simp_all add: io_wp_def calls_all_def)

section \<open>Examples\<close>

definition example_deployment :: "string \<Rightarrow> json" where
  "example_deployment mode =
     JObj [(''spec'', JObj [(''template'', JObj [
       (''metadata'', JObj [(''labels'', JObj [(''dsh.example.com/egress-mode'', JStr mode)])]),
       (''spec'', JObj [(''automountServiceAccountToken'', JBool False), (''volumes'', JList []),
          (''containers'', JList [JObj [(''name'', JStr ''dsh''), (''image'', JStr ''image''), (''volumeMounts'', JList [])]])])])])]"

text \<open>A server with the owner's two runtimes; it accepts every document and counts them.\<close>

definition package_server :: "nat server" where
  "package_server req w =
     (if verb req = ''GET'' then
        (if endswith ''/off-secure'' (path req) then (Reply (example_deployment ''offline''), w)
         else if endswith ''/off-internet'' (path req) then (Reply (example_deployment ''online''), w)
         else (Http_Error 404, w))
      else (Reply (JObj [(''kind'', JStr ''Status'')]), Suc w))"

definition example_user :: "bool \<Rightarrow> json" where
  "example_user enabled =
     JObj [(''enabled'', JBool enabled), (''internetAllowed'', JBool True),
       (''secure'', JStr ''off-secure.llm.svc.cluster.local''), (''internet'', JStr ''off-internet.llm.svc.cluster.local'')]"

definition package_example :: package_site where
  "package_example = \<lparr> pc_namespace = ''llm'', pc_image = ''image'', pc_source = ''src'', pc_queue = ''queue'', pc_class = ''class'',
     pc_pull = JList [], pc_sha = (\<lambda>s. replicate 64 CHR ''a''), pc_now = 1767225605, pc_stamp = ''2026-01-01T00:00:05+00:00'',
     pc_authorization = Inr (JObj [(''observedAt'', JStr ''2026-01-01T00:00:00+00:00''),
       (''users'', JObj [(''alice'', example_user True), (''bob'', example_user False)])]) \<rparr>"

definition job_request :: "string \<Rightarrow> string \<Rightarrow> json" where
  "job_request i owner = JObj [(''id'', JStr i), (''owner'', JStr owner), (''specs'', JList [JStr ''six==1.17.0'']), (''environment'', JStr ''data'')]"

definition job_at :: "string \<Rightarrow> string \<Rightarrow> string \<Rightarrow> job_folder" where
  "job_at i owner s = \<lparr> jb_request = Inr (job_request i owner), jb_public = Inr (JObj [(''state'', JStr s)]), jb_download = None, jb_results = [] \<rparr>"

definition id_a :: string where "id_a = ''aaaaaaaaaaaaaaaaaaaaaaaaaaaaaaaa''"
definition id_b :: string where "id_b = ''bbbbbbbbbbbbbbbbbbbbbbbbbbbbbbbb''"

definition example_jobs :: "nat package_world" where
  "example_jobs = \<lparr> pk_folders = [(id_b, job_at id_b ''bob'' ''downloading''), (id_a, job_at id_a ''alice'' ''queued'')], pk_server = 0 \<rparr>"

definition example_after :: "nat package_world" where
  "example_after = \<lparr> pk_folders =
      [(id_b, (job_at id_b ''bob'' ''downloading'')\<lparr> jb_public := Inr (JObj [(''state'', JStr ''failed''), (''reason'', JStr ''Account disabled''),
          (''finishedAt'', JStr ''2026-01-01T00:00:05+00:00'')]) \<rparr>),
       (id_a, (job_at id_a ''alice'' ''queued'')\<lparr> jb_public := Inr (JObj [(''state'', JStr ''downloading''),
          (''startedAt'', JStr ''2026-01-01T00:00:05+00:00'')]) \<rparr>)], pk_server = 2 \<rparr>"

lemma package_round_example: "tick package_server package_example example_jobs = (Inr 2, example_after)"
  by code_simp

lemma example_jobs_well_formed: "well_formed_jobs example_jobs"
  by code_simp

definition revoked_world :: "(request list \<times> nat) package_world" where
  "revoked_world = \<lparr> pk_folders = pk_folders example_jobs, pk_server = ([], 0) \<rparr>"

definition revoked_after :: "(request list \<times> nat) package_world" where
  "revoked_after = \<lparr> pk_folders = [(id_b, (job_at id_b ''bob'' ''downloading'')\<lparr> jb_public := Inr (JObj [(''state'', JStr ''failed''),
        (''reason'', JStr ''Account disabled''), (''finishedAt'', JStr ''2026-01-01T00:00:05+00:00'')]) \<rparr>), (id_a, job_at id_a ''alice'' ''queued'')],
     pk_server = ([get_request ''/apis/batch/v1/namespaces/llm/jobs/dsh-pkg-bbbbbbbbbbbbbbbbbbbb-download'',
        get_request ''/apis/batch/v1/namespaces/llm/jobs/dsh-pkg-bbbbbbbbbbbbbbbbbbbb-install''], 0) \<rparr>"

lemma example_revoked: "reconcile_folder (logged package_server) package_example id_b 1 revoked_world = (Inr 1, revoked_after)"
  by code_simp

definition alice_request :: package_request where
  "alice_request = \<lparr> pr_id = id_a, pr_owner = ''alice'', pr_specs = [''six==1.17.0''], pr_environment = ''data'' \<rparr>"

definition bob_request :: package_request where
  "bob_request = \<lparr> pr_id = id_b, pr_owner = ''bob'', pr_specs = [''six==1.17.0''], pr_environment = ''data'' \<rparr>"

definition example_calls :: "json res \<times> (request list \<times> nat)" where
  "example_calls = prepare_job (logged package_server) package_example alice_request (example_user True) ''download'' ([], 0)"

lemma example_verbs: "map verb (fst (snd example_calls)) = [''GET'', ''GET'', ''GET'', ''POST'', ''GET'', ''POST'']"
  by code_simp

theorem jobs_only_advance_witness:
  "well_formed_jobs example_after \<and> list_all2 (\<lambda>(n, f) (m, g). m = n) (pk_folders example_jobs) (pk_folders example_after)"
  using jobs_only_advance [OF package_round_example example_jobs_well_formed]
  by (auto elim!: list.rel_mono_strong)

theorem active_jobs_bounded_witness: "active_count example_after \<le> max 2 (active_count example_jobs)"
  by (rule active_jobs_bounded [OF package_round_example example_jobs_well_formed])


theorem package_calls_are_confined_witness:
  "list_all (owner_call package_example alice_request (example_user True) ''download'') (fst (snd example_calls)) \<and>
   map verb (fst (snd example_calls)) = [''GET'', ''GET'', ''GET'', ''POST'', ''GET'', ''POST'']"
  using package_calls_are_confined [of package_server package_example alice_request "example_user True" "''download''" 0
      "fst example_calls" "fst (snd example_calls)" "snd (snd example_calls)"] example_verbs
  by (simp add: example_calls_def [symmetric])


end
