(* ===== verification/Task_Types.thy ===== *)
theory Task_Types imports Prelude begin

text \<open>
  The broker's task record, shared by the task broker (\<open>container/dsh-task-broker.py\<close>) and the
  native SDK bridge (\<open>scripts/official_sdk_approval.py\<close>): its state, the native SDK section, the
  event log and the journal file \<open>task.json\<close>.  A journal write replaces the file in one step;
  time stamps are left out.  The protected functions hold the persistence lock, so each is one
  step of the model.
\<close>

section \<open>States\<close>

datatype tstate = Queued | Running | Handoff | Finalizing | Cancelling | Awaiting_Approval
  | Completed | Failed | Cancelled | Interrupted

fun tstate_text :: "tstate \<Rightarrow> string" where
  "tstate_text Queued = ''queued''"
| "tstate_text Running = ''running''"
| "tstate_text Handoff = ''handoff''"
| "tstate_text Finalizing = ''finalizing''"
| "tstate_text Cancelling = ''cancelling''"
| "tstate_text Awaiting_Approval = ''awaiting_approval''"
| "tstate_text Completed = ''completed''"
| "tstate_text Failed = ''failed''"
| "tstate_text Cancelled = ''cancelled''"
| "tstate_text Interrupted = ''interrupted''"

definition terminal :: "tstate \<Rightarrow> bool" where
  "terminal s = (s \<in> {Completed, Failed, Cancelled})"

datatype phase = P_Running | P_Awaiting | P_Reserved | P_Decision_Uncertain | P_Fenced
  | P_Stop_Reserved | P_Stop_Uncertain | P_Stopped | P_Fenced_After_Recovery
  | P_Launch_Reserved | P_Recovery_Reserved | P_Recovery_Uncertain | P_Recovery_Unverified
  | P_Observer_Uncertain

fun phase_text :: "phase \<Rightarrow> string" where
  "phase_text P_Running = ''running''"
| "phase_text P_Awaiting = ''awaiting-approval''"
| "phase_text P_Reserved = ''decision-reserved''"
| "phase_text P_Decision_Uncertain = ''decision-uncertain''"
| "phase_text P_Fenced = ''fenced''"
| "phase_text P_Stop_Reserved = ''stop-reserved''"
| "phase_text P_Stop_Uncertain = ''stop-uncertain''"
| "phase_text P_Stopped = ''stopped''"
| "phase_text P_Fenced_After_Recovery = ''fenced-after-recovery''"
| "phase_text P_Launch_Reserved = ''launch-reserved''"
| "phase_text P_Recovery_Reserved = ''recovery-read-reserved''"
| "phase_text P_Recovery_Uncertain = ''recovery-read-uncertain''"
| "phase_text P_Recovery_Unverified = ''recovery-unverified''"
| "phase_text P_Observer_Uncertain = ''observer-cleanup-uncertain''"

lemma tstate_text_inj [simp]: "tstate_text a = tstate_text b \<longleftrightarrow> a = b"
  by (cases a; cases b; simp)

lemma phase_text_inj [simp]: "phase_text a = phase_text b \<longleftrightarrow> a = b"
  by (cases a; cases b; simp)

section \<open>The native SDK section\<close>

record pending =
  p_approval :: string
  p_request_id :: json
  p_call :: string
  p_tool :: string
  p_decision :: "string option"
  p_operation :: "string option"

record native =
  n_subject :: string
  n_generation :: string
  n_task :: string
  n_project :: string
  n_correlation :: string
  n_session :: string
  n_phase :: phase
  n_pending :: "pending option"
  n_used :: "string list"
  n_stop_operation :: "string option"
  n_desired :: "tstate option"
  n_receipt :: "json option"
  n_launch :: "string option"
  n_managed :: bool
  n_identity :: "json option"
  n_never_started :: bool

text \<open>A key that was never assigned is absent from the dictionary.\<close>

definition optional_key :: "string \<Rightarrow> ('a \<Rightarrow> json) \<Rightarrow> 'a option \<Rightarrow> (string \<times> json) list" where
  "optional_key k enc v = (case v of None \<Rightarrow> [] | Some x \<Rightarrow> [(k, enc x)])"

lemma map_of_optional [simp]:
  "map_of (optional_key k enc v) k' = (if k' = k then map_option enc v else None)"
  by (simp add: optional_key_def split: option.split)

definition pending_json :: "pending \<Rightarrow> json" where
  "pending_json p = JObj ([(''approvalId'', JStr (p_approval p)), (''requestId'', p_request_id p),
     (''callId'', JStr (p_call p)), (''toolName'', JStr (p_tool p)),
     (''decision'', case p_decision p of None \<Rightarrow> JNull | Some d \<Rightarrow> JStr d)]
     @ optional_key ''decisionOperationId'' JStr (p_operation p))"

definition native_json :: "native \<Rightarrow> json" where
  "native_json n = JObj ([(''subject'', JStr (n_subject n)), (''generation'', JStr (n_generation n)),
     (''taskId'', JStr (n_task n)), (''project'', JStr (n_project n)),
     (''correlationId'', JStr (n_correlation n)), (''sessionId'', JStr (n_session n)),
     (''phase'', JStr (phase_text (n_phase n))),
     (''pending'', case n_pending n of None \<Rightarrow> JNull | Some p \<Rightarrow> pending_json p),
     (''usedCallIds'', JList (map JStr (n_used n)))]
     @ optional_key ''stopOperationId'' JStr (n_stop_operation n)
     @ optional_key ''desiredTerminalState'' (JStr \<circ> tstate_text) (n_desired n)
     @ optional_key ''stopReceipt'' id (n_receipt n)
     @ optional_key ''launchOperationId'' JStr (n_launch n)
     @ (if n_managed n then [(''managedSession'', JBool True)] else [])
     @ optional_key ''runtimeIdentity'' id (n_identity n)
     @ (if n_never_started n then [(''nativeNeverStarted'', JBool True)] else []))"

section \<open>The task\<close>

record event =
  e_sequence :: nat
  e_type :: string
  e_data :: json

text \<open>What \<open>Task.save\<close> writes.\<close>

record snapshot =
  s_id :: string
  s_runtime :: string
  s_project :: string
  s_correlation :: string
  s_openshell :: json
  s_stage :: json
  s_stages :: "json list"
  s_native :: "native option"
  s_backend :: string
  s_writes :: bool
  s_handoff :: "string option"
  s_state :: tstate
  s_sequence :: nat

record task =
  t_id :: string
  t_runtime :: string
  t_project :: string
  t_writes :: bool
  t_backend :: string
  t_handoff :: "string option"
  t_prompt :: string
  t_handoff_prompt :: string
  t_correlation :: string
  t_state :: tstate
  t_native :: "native option"
  t_openshell :: json
  t_stage :: json
  t_stages :: "json list"
  t_finished :: bool
  t_sequence :: nat
  t_events :: "event list"
  t_event_bytes :: int
  t_saved :: "snapshot option"

definition snapshot_of :: "task \<Rightarrow> snapshot" where
  "snapshot_of t = \<lparr> s_id = t_id t, s_runtime = t_runtime t, s_project = t_project t,
     s_correlation = t_correlation t, s_openshell = t_openshell t, s_stage = t_stage t,
     s_stages = t_stages t, s_native = t_native t, s_backend = t_backend t, s_writes = t_writes t,
     s_handoff = t_handoff t, s_state = t_state t, s_sequence = t_sequence t \<rparr>"

definition save :: "task \<Rightarrow> task" where
  "save t = t\<lparr> t_saved := Some (snapshot_of t) \<rparr>"

definition snapshot_json :: "snapshot \<Rightarrow> json" where
  "snapshot_json s = JObj [(''id'', JStr (s_id s)), (''runtime'', JStr (s_runtime s)),
     (''project'', JStr (s_project s)), (''correlationId'', JStr (s_correlation s)),
     (''openshell'', s_openshell s), (''executionStage'', s_stage s), (''nativeStages'', JList (s_stages s)),
     (''nativeSdk'', case s_native s of None \<Rightarrow> JNull | Some n \<Rightarrow> native_json n),
     (''backend'', JStr (s_backend s)), (''writes'', JBool (s_writes s)),
     (''handoffRuntime'', case s_handoff s of None \<Rightarrow> JNull | Some h \<Rightarrow> JStr h),
     (''state'', JStr (tstate_text (s_state s))), (''sequence'', JInt (int (s_sequence s)))]"

definition MAX_EVENT_BYTES :: int where "MAX_EVENT_BYTES = 8388608"

text \<open>\<open>Task.emit\<close>: \<open>width\<close> is the number of bytes of the written line.  Only output is dropped once
  the log is full.\<close>

definition emit :: "(event \<Rightarrow> int) \<Rightarrow> string \<Rightarrow> json \<Rightarrow> task \<Rightarrow> task" where
  "emit width kind dat t =
     (if kind = ''output'' \<and> t_event_bytes t \<ge> MAX_EVENT_BYTES then t
      else (let e = \<lparr> e_sequence = Suc (t_sequence t), e_type = kind, e_data = dat \<rparr> in
            t\<lparr> t_sequence := Suc (t_sequence t), t_events := t_events t @ [e],
               t_event_bytes := t_event_bytes t + width e \<rparr>))"

lemma emit_keeps [simp]:
  "t_state (emit w k d t) = t_state t" "t_native (emit w k d t) = t_native t"
  "t_saved (emit w k d t) = t_saved t" "t_id (emit w k d t) = t_id t"
  "t_project (emit w k d t) = t_project t" "t_correlation (emit w k d t) = t_correlation t"
  "t_writes (emit w k d t) = t_writes t" "t_runtime (emit w k d t) = t_runtime t"
  "t_backend (emit w k d t) = t_backend t" "t_finished (emit w k d t) = t_finished t"
  "t_openshell (emit w k d t) = t_openshell t" "t_handoff (emit w k d t) = t_handoff t"
  by (simp_all add: emit_def Let_def)

lemma save_keeps [simp]:
  "t_state (save t) = t_state t" "t_native (save t) = t_native t" "t_id (save t) = t_id t"
  "t_project (save t) = t_project t" "t_correlation (save t) = t_correlation t"
  "t_writes (save t) = t_writes t" "t_runtime (save t) = t_runtime t" "t_backend (save t) = t_backend t"
  "t_saved (save t) = Some (snapshot_of t)" "t_events (save t) = t_events t"
  "t_sequence (save t) = t_sequence t" "t_finished (save t) = t_finished t"
  "t_openshell (save t) = t_openshell t" "t_handoff (save t) = t_handoff t"
  by (simp_all add: save_def)

lemma snapshot_of_simps [simp]:
  "s_state (snapshot_of t) = t_state t" "s_native (snapshot_of t) = t_native t"
  "s_id (snapshot_of t) = t_id t" "s_project (snapshot_of t) = t_project t"
  "s_correlation (snapshot_of t) = t_correlation t"
  by (simp_all add: snapshot_of_def)

text \<open>The event log is numbered from one without gaps.\<close>

definition log_numbered :: "task \<Rightarrow> bool" where
  "log_numbered t = (map e_sequence (t_events t) = [1..<Suc (t_sequence t)])"

lemma emit_numbered: "log_numbered t \<Longrightarrow> log_numbered (emit w k d t)"
  by (simp add: log_numbered_def emit_def Let_def upt_Suc_append del: upt_Suc)

lemma save_numbered [simp]: "log_numbered (save t) = log_numbered t"
  by (simp add: log_numbered_def)

end
