(* ===== verification/Task_Runner.thy ===== *)
theory Task_Runner imports Task_Types begin

text \<open>
  One task of the broker, \<open>container/dsh-task-broker.py\<close> (class \<open>Task\<close>), with the command policy of
  \<open>scripts/agent_runtime_commands.py\<close>.  \<open>Task.run\<close> and \<open>Task.cancel\<close> are executed by different threads
  without a common lock: both are cut into steps at the statements where the other thread can see a
  difference, and the step relation interleaves them.  The process is the environment: it prints
  lines and ends with any exit code.
\<close>

section \<open>The command policy\<close>

definition guard_prefix :: "string \<Rightarrow> string \<Rightarrow> string \<Rightarrow> string list" where
  "guard_prefix runtime task_id project =
     [''/usr/local/bin/dsh-unattended'', runtime, ''--task-id'', task_id,
      ''--max-model-starts'', ''1'', ''--cwd'', project]"

definition command_for :: "string \<Rightarrow> string \<Rightarrow> bool \<Rightarrow> string \<Rightarrow> string \<Rightarrow> bool \<Rightarrow> string list res" where
  "command_for runtime prompt writes project task_id resume =
     (if runtime \<notin> {''sdk'', ''claude'', ''deepagents'', ''kilo''} then Inl (ValueError ''INVALID_RUNTIME'')
      else
        (let control = guard_prefix runtime task_id project in
         if runtime = ''sdk'' then
           Inr (control @ (if resume then [''--resume'', ''--'', ''--resume''] else [''--'', ''--prompt'', prompt]))
         else if resume then Inl (ValueError ''UNSUPPORTED_RUNTIME_RESUME'')
         else if runtime = ''deepagents'' then Inr (control @ [''--'', ''-n'', prompt])
         else if runtime = ''kilo'' then Inr (control @ [''--'', ''--pure'', ''run'', prompt])
         else Inr (control @ [''--'', ''-p'', prompt, ''--output-format'', ''stream-json'', ''--verbose'',
                    ''--permission-mode'', if writes then ''acceptEdits'' else ''plan''])))"

section \<open>The running task\<close>

text \<open>Where the run thread is.  The flag is the \<open>resume\<close> argument.\<close>

datatype pc = R_Idle | R_Start bool | R_Spawn bool | R_Read bool | R_Handoff | R_Handoff_Check
  | R_Handoff_Spawn | R_Handoff_Read | R_Finish | R_Done | R_Dead

text \<open>Where the thread of a cancel request is: it remembers whether it saw a process.\<close>

datatype cancel_pc = C_None | C_Kill bool | C_True

record runner =
  r_task :: task
  r_pc :: pc
  r_process :: bool
  r_spawned :: "string list list"
  r_captured :: string
  r_cancel :: cancel_pc
  r_bridge :: "(tstate \<Rightarrow> task \<Rightarrow> task) option"

definition state_event :: "tstate \<Rightarrow> (string \<times> json) list \<Rightarrow> json" where
  "state_event s extra = JObj ((''state'', JStr (tstate_text s)) # extra)"

definition set_state :: "(event \<Rightarrow> int) \<Rightarrow> tstate \<Rightarrow> (string \<times> json) list \<Rightarrow> task \<Rightarrow> task" where
  "set_state width s extra t = emit width ''state'' (state_event s extra) (t\<lparr> t_state := s \<rparr>)"

text \<open>The first statements of \<open>run\<close>: they are outside its \<open>try\<close>, so a project that is no longer
  there kills the thread.\<close>

definition run_start :: "(event \<Rightarrow> int) \<Rightarrow> bool \<Rightarrow> bool \<Rightarrow> runner \<Rightarrow> runner" where
  "run_start width project_ok resume r =
     r\<lparr> r_task := save (set_state width Running [] ((r_task r)\<lparr> t_finished := False \<rparr>)),
        r_pc := (if project_ok then R_Spawn resume else R_Dead) \<rparr>"

text \<open>The \<open>except\<close> branch; with a bridge the native side decides the state.\<close>

definition run_error :: "(event \<Rightarrow> int) \<Rightarrow> string \<Rightarrow> runner \<Rightarrow> runner" where
  "run_error width what r =
     (let t = (case r_bridge r of Some fin \<Rightarrow> fin Failed (r_task r) | None \<Rightarrow> (r_task r)\<lparr> t_state := Failed \<rparr>) in
      r\<lparr> r_task := set_state width (t_state t) [(''error'', JStr what)] t, r_pc := R_Finish \<rparr>)"

definition run_spawn :: "(event \<Rightarrow> int) \<Rightarrow> string \<Rightarrow> bool \<Rightarrow> bool \<Rightarrow> runner \<Rightarrow> runner" where
  "run_spawn width project resume starts r =
     (let t = r_task r in
      case command_for (t_runtime t) (t_prompt t) (t_writes t) project (t_id t) resume of
        Inl e \<Rightarrow> run_error width ''ValueError'' r
      | Inr command \<Rightarrow>
          if \<not> starts then run_error width ''OSError'' r
          else r\<lparr> r_process := True, r_spawned := r_spawned r @ [command], r_pc := R_Read resume \<rparr>)"

definition CAPTURE_LIMIT :: nat where "CAPTURE_LIMIT = 262144"

definition output_event :: "string \<Rightarrow> string \<Rightarrow> json" where
  "output_event line runtime = JObj [(''text'', JStr (take 16384 line)), (''runtime'', JStr runtime)]"

text \<open>One line of the first process: logged, and captured up to the limit (ASCII text).\<close>

definition run_line :: "(event \<Rightarrow> int) \<Rightarrow> string \<Rightarrow> runner \<Rightarrow> runner" where
  "run_line width line r =
     r\<lparr> r_task := emit width ''output'' (output_event line (t_runtime (r_task r))) (r_task r),
        r_captured := r_captured r @ take (CAPTURE_LIMIT - length (r_captured r)) line \<rparr>"

definition exit_state :: "task \<Rightarrow> int \<Rightarrow> bool \<Rightarrow> tstate" where
  "exit_state t code resume =
     (if t_state t \<in> {Cancelling, Cancelled} then Cancelled
      else if code = 75 \<and> t_runtime t = ''sdk'' then Awaiting_Approval
      else if code \<noteq> 0 then Failed
      else if t_handoff t \<notin> {None, Some ''''} \<and> \<not> resume then Handoff
      else Completed)"

definition exit_event :: "int \<Rightarrow> string \<Rightarrow> (string \<times> json) list" where
  "exit_event code runtime = [(''exitCode'', JInt code), (''runtime'', JStr runtime)]"

text \<open>The first process ended with an exit code.\<close>

definition run_exit :: "(event \<Rightarrow> int) \<Rightarrow> int \<Rightarrow> bool \<Rightarrow> runner \<Rightarrow> runner" where
  "run_exit width code resume r0 =
     (let r = r0\<lparr> r_process := False \<rparr>;
          t = (case r_bridge r of
                 Some fin \<Rightarrow> if t_state (r_task r) \<noteq> Cancelled
                             then fin (if code = 0 then Completed else Failed) (r_task r) else r_task r
               | None \<Rightarrow> r_task r) in
      if r_bridge r \<noteq> None \<and> (t_state t \<noteq> Completed \<or> t_handoff t \<in> {None, Some ''''})
      then r\<lparr> r_task := t, r_pc := R_Finish \<rparr>
      else (let s = exit_state t code resume in
            r\<lparr> r_task := set_state width s (exit_event code (t_runtime t)) t, r_bridge := None,
               r_pc := (if s = Handoff then R_Handoff else R_Finish) \<rparr>))"

definition handoff_runtime :: "task \<Rightarrow> string" where
  "handoff_runtime t = (case t_handoff t of Some h \<Rightarrow> h | None \<Rightarrow> '''')"

definition handoff_prompt :: "runner \<Rightarrow> string" where
  "handoff_prompt r =
     (let p = t_handoff_prompt (r_task r) in
      (if p = '''' then ''Review the previous agent result and produce the final checked answer.'' else p)
      @ [CHR 0x0A, CHR 0x0A] @ ''Previous agent result:'' @ [CHR 0x0A] @ r_captured r)"

definition run_handoff :: "(event \<Rightarrow> int) \<Rightarrow> string \<Rightarrow> runner \<Rightarrow> runner" where
  "run_handoff width fresh r =
     r\<lparr> r_task := emit width ''handoff'' (JObj [(''from'', JStr (t_runtime (r_task r))),
          (''to'', JStr (handoff_runtime (r_task r))), (''correlationId'', JStr fresh)]) (r_task r),
        r_pc := R_Handoff_Check \<rparr>"

definition run_handoff_check :: "runner \<Rightarrow> runner" where
  "run_handoff_check r =
     (if t_state (r_task r) \<noteq> Handoff then r\<lparr> r_pc := R_Finish \<rparr>
      else r\<lparr> r_task := save ((r_task r)\<lparr> t_state := Running \<rparr>), r_pc := R_Handoff_Spawn \<rparr>)"

definition run_handoff_spawn :: "(event \<Rightarrow> int) \<Rightarrow> string \<Rightarrow> bool \<Rightarrow> runner \<Rightarrow> runner" where
  "run_handoff_spawn width project starts r =
     (let t = r_task r in
      case command_for (handoff_runtime t) (handoff_prompt r) (t_writes t) project (t_id t @ ''-handoff'') False of
        Inl e \<Rightarrow> run_error width ''ValueError'' r
      | Inr command \<Rightarrow>
          if \<not> starts then run_error width ''OSError'' r
          else r\<lparr> r_process := True, r_spawned := r_spawned r @ [command], r_pc := R_Handoff_Read \<rparr>)"

definition run_handoff_line :: "(event \<Rightarrow> int) \<Rightarrow> string \<Rightarrow> runner \<Rightarrow> runner" where
  "run_handoff_line width line r =
     r\<lparr> r_task := emit width ''output'' (output_event line (handoff_runtime (r_task r))) (r_task r) \<rparr>"

definition handoff_exit_state :: "task \<Rightarrow> int \<Rightarrow> tstate" where
  "handoff_exit_state t code =
     (if t_state t \<in> {Cancelling, Cancelled} then Cancelled
      else if code = 75 \<and> handoff_runtime t = ''sdk'' then Interrupted
      else if code = 0 then Completed else Failed)"

definition run_handoff_exit :: "(event \<Rightarrow> int) \<Rightarrow> int \<Rightarrow> runner \<Rightarrow> runner" where
  "run_handoff_exit width code r =
     (let t = r_task r; s = handoff_exit_state t code in
      r\<lparr> r_process := False, r_task := set_state width s (exit_event code (handoff_runtime t)) t, r_pc := R_Finish \<rparr>)"

definition run_finish :: "runner \<Rightarrow> runner" where
  "run_finish r = r\<lparr> r_process := False, r_task := (save (r_task r))\<lparr> t_finished := True \<rparr>, r_pc := R_Done \<rparr>"

section \<open>Cancel and approve\<close>

definition cancellable :: "tstate \<Rightarrow> bool" where
  "cancellable s = (s \<in> {Queued, Running, Handoff, Finalizing, Awaiting_Approval})"

text \<open>\<open>Task.cancel\<close> of a private task without a bridge, up to reading \<open>self.process\<close>.\<close>

definition cancel_begin :: "(event \<Rightarrow> int) \<Rightarrow> runner \<Rightarrow> runner" where
  "cancel_begin width r =
     (if \<not> cancellable (t_state (r_task r)) then r
      else r\<lparr> r_task := save (set_state width Cancelling [] (r_task r)), r_cancel := C_Kill (r_process r) \<rparr>)"

text \<open>After the kill (if there was a process) the request answers true.\<close>

definition cancel_end :: "(event \<Rightarrow> int) \<Rightarrow> runner \<Rightarrow> runner" where
  "cancel_end width r = r\<lparr> r_task := save (set_state width Cancelled [] (r_task r)), r_cancel := C_True \<rparr>"

definition approve :: "(event \<Rightarrow> int) \<Rightarrow> runner \<Rightarrow> bool \<times> runner" where
  "approve width r =
     (let t = r_task r in
      if t_native t \<noteq> None \<or> t_state t \<noteq> Awaiting_Approval \<or> t_runtime t \<noteq> ''sdk'' then (False, r)
      else (True, r\<lparr> r_task := save (set_state width Queued [(''resuming'', JBool True)] (t\<lparr> t_finished := False \<rparr>)),
                     r_pc := R_Start True \<rparr>))"

section \<open>All interleavings\<close>

inductive run_step :: "(event \<Rightarrow> int) \<Rightarrow> runner \<Rightarrow> runner \<Rightarrow> bool" for width where
  start: "r_pc r = R_Start resume \<Longrightarrow> run_step width r (run_start width ok resume r)"
| spawn: "r_pc r = R_Spawn resume \<Longrightarrow> run_step width r (run_spawn width project resume starts r)"
| line: "r_pc r = R_Read resume \<Longrightarrow> run_step width r (run_line width l r)"
| exit: "r_pc r = R_Read resume \<Longrightarrow> run_step width r (run_exit width code resume r)"
| handoff: "r_pc r = R_Handoff \<Longrightarrow> run_step width r (run_handoff width fresh r)"
| handoff_check: "r_pc r = R_Handoff_Check \<Longrightarrow> run_step width r (run_handoff_check r)"
| handoff_spawn: "r_pc r = R_Handoff_Spawn \<Longrightarrow> run_step width r (run_handoff_spawn width project starts r)"
| handoff_line: "r_pc r = R_Handoff_Read \<Longrightarrow> run_step width r (run_handoff_line width l r)"
| handoff_exit: "r_pc r = R_Handoff_Read \<Longrightarrow> run_step width r (run_handoff_exit width code r)"
| finish: "r_pc r = R_Finish \<Longrightarrow> run_step width r (run_finish r)"

inductive cancel_step :: "(event \<Rightarrow> int) \<Rightarrow> runner \<Rightarrow> runner \<Rightarrow> bool" for width where
  cancel_begin: "r_bridge r = None \<Longrightarrow> r_cancel r \<noteq> C_Kill True \<Longrightarrow> r_cancel r \<noteq> C_Kill False \<Longrightarrow>
    cancel_step width r (cancel_begin width r)"
| cancel_end: "r_cancel r = C_Kill seen \<Longrightarrow> cancel_step width r (cancel_end width r)"

definition task_step :: "(event \<Rightarrow> int) \<Rightarrow> runner \<Rightarrow> runner \<Rightarrow> bool" where
  "task_step width r r' = (run_step width r r' \<or> cancel_step width r r')"

inductive_cases run_stepE: "run_step width r r'"
inductive_cases cancel_stepE: "cancel_step width r r'"

text \<open>A task as \<open>Registry.create\<close> leaves it: queued, the run thread about to start.\<close>

definition new_runner :: "task \<Rightarrow> runner" where
  "new_runner t = \<lparr> r_task = t, r_pc = R_Start False, r_process = False, r_spawned = [], r_captured = [],
     r_cancel = C_None, r_bridge = None \<rparr>"

section \<open>Lemmas\<close>

lemma set_state_simps [simp]:
  "t_state (set_state w s x t) = s" "t_id (set_state w s x t) = t_id t" "t_handoff (set_state w s x t) = t_handoff t"
  "t_finished (set_state w s x t) = t_finished t" "t_saved (set_state w s x t) = t_saved t"
  by (simp_all add: set_state_def)

definition guarded :: "string \<Rightarrow> string list \<Rightarrow> bool" where
  "guarded task_id command = (\<exists>runtime project rest. command = guard_prefix runtime task_id project @ rest)"

lemma command_for_guarded: "command_for runtime prompt writes project task_id resume = Inr c \<Longrightarrow> guarded task_id c"
  unfolding command_for_def Let_def guarded_def by (auto split: if_splits)

text \<open>How many commands were started, by the place of the run thread.\<close>

fun command_count :: "pc \<Rightarrow> nat set" where
  "command_count (R_Start _) = {0}"
| "command_count (R_Spawn _) = {0}"
| "command_count R_Dead = {0}"
| "command_count R_Idle = {}"
| "command_count (R_Read _) = {1}"
| "command_count R_Handoff = {1}"
| "command_count R_Handoff_Check = {1}"
| "command_count R_Handoff_Spawn = {1}"
| "command_count R_Handoff_Read = {2}"
| "command_count R_Finish = {0, 1, 2}"
| "command_count R_Done = {0, 1, 2}"

definition spawned_ok :: "string \<Rightarrow> runner \<Rightarrow> bool" where
  "spawned_ok tid r =
     (t_id (r_task r) = tid \<and> r_bridge r = None \<and> length (r_spawned r) \<in> command_count (r_pc r) \<and>
      (\<forall>i < length (r_spawned r). guarded (if i = 0 then tid else tid @ ''-handoff'') (r_spawned r ! i)))"

lemma spawned_error: "spawned_ok tid r \<Longrightarrow> length (r_spawned r) \<le> 2 \<Longrightarrow> spawned_ok tid (run_error width what r)"
  by (auto simp: run_error_def spawned_ok_def Let_def le_Suc_eq numeral_2_eq_2)

lemma spawned_spawn:
  assumes "spawned_ok tid r" "r_pc r = R_Spawn resume"
  shows "spawned_ok tid (run_spawn width project resume starts r)"
proof (cases "command_for (t_runtime (r_task r)) (t_prompt (r_task r)) (t_writes (r_task r)) project tid resume")
  case (Inl e)
  with assms spawned_error [OF assms(1)] show ?thesis
    by (simp add: run_spawn_def Let_def) (simp add: spawned_ok_def)
next
  case (Inr c)
  note g = command_for_guarded [OF Inr]
  show ?thesis
  proof (cases starts)
    case True
    with Inr assms g show ?thesis by (simp add: run_spawn_def Let_def spawned_ok_def)
  next
    case False
    with Inr assms spawned_error [OF assms(1)] show ?thesis
      by (simp add: run_spawn_def Let_def) (simp add: spawned_ok_def)
  qed
qed

lemma spawned_handoff:
  assumes "spawned_ok tid r" "r_pc r = R_Handoff_Spawn"
  shows "spawned_ok tid (run_handoff_spawn width project starts r)"
proof (cases "command_for (handoff_runtime (r_task r)) (handoff_prompt r) (t_writes (r_task r)) project (tid @ ''-handoff'') False")
  case (Inl e)
  with assms spawned_error [OF assms(1)] show ?thesis
    by (simp add: run_handoff_spawn_def Let_def) (simp add: spawned_ok_def)
next
  case (Inr c)
  note g = command_for_guarded [OF Inr]
  show ?thesis
  proof (cases starts)
    case True
    with Inr assms g show ?thesis
      by (auto simp: run_handoff_spawn_def Let_def spawned_ok_def nth_append less_Suc_eq)
  next
    case False
    with Inr assms spawned_error [OF assms(1)] show ?thesis
      by (simp add: run_handoff_spawn_def Let_def) (simp add: spawned_ok_def)
  qed
qed

lemma spawned_same:
  "spawned_ok tid r \<Longrightarrow> t_id (r_task r') = t_id (r_task r) \<Longrightarrow> r_bridge r' = None \<Longrightarrow>
   r_spawned r' = r_spawned r \<Longrightarrow> command_count (r_pc r) \<subseteq> command_count (r_pc r') \<Longrightarrow> spawned_ok tid r'"
  by (auto simp: spawned_ok_def)

lemma spawned_bridge: "spawned_ok tid r \<Longrightarrow> r_bridge r = None"
  by (simp add: spawned_ok_def)

lemma spawned_run_step:
  assumes "run_step width r r'" "spawned_ok tid r"
  shows "spawned_ok tid r'"
  using assms(1)
proof cases
  case (spawn resume project starts)
  then show ?thesis using spawned_spawn [OF assms(2)] by simp
next
  case (handoff_spawn project starts)
  then show ?thesis using spawned_handoff [OF assms(2)] by simp
next
  case (exit resume code)
  then show ?thesis using assms(2) by (auto simp: run_exit_def Let_def spawned_ok_def)
next
  case (handoff_check)
  then show ?thesis using assms(2) by (auto simp: run_handoff_check_def spawned_ok_def)
qed (use assms(2) in \<open>auto simp: spawned_ok_def run_start_def run_line_def run_handoff_def run_handoff_line_def
       run_handoff_exit_def run_finish_def Let_def\<close>)

lemma spawned_cancel_step:
  assumes "cancel_step width r r'" "spawned_ok tid r"
  shows "spawned_ok tid r'"
  using assms(1)
  by cases (use assms(2) in \<open>auto simp: spawned_ok_def cancel_begin_def cancel_end_def\<close>)

lemma spawned_step: "task_step width r r' \<Longrightarrow> spawned_ok tid r \<Longrightarrow> spawned_ok tid r'"
  unfolding task_step_def using spawned_run_step spawned_cancel_step by blast

text \<open>The state at the end of the run thread.\<close>

definition settled_state :: "tstate \<Rightarrow> bool" where
  "settled_state s = (s \<in> {Completed, Failed, Cancelled, Interrupted, Awaiting_Approval})"

definition cancel_pending :: "runner \<Rightarrow> bool" where
  "cancel_pending r = (r_cancel r = C_Kill True \<or> r_cancel r = C_Kill False)"

definition state_ok :: "runner \<Rightarrow> bool" where
  "state_ok r =
     (r_bridge r = None \<and> (t_state (r_task r) = Cancelling \<longrightarrow> cancel_pending r) \<and>
      (r_pc r \<in> {R_Handoff, R_Handoff_Check} \<longrightarrow> t_state (r_task r) \<in> {Handoff, Cancelling, Cancelled}) \<and>
      (r_pc r \<in> {R_Finish, R_Done} \<longrightarrow> settled_state (t_state (r_task r)) \<or> t_state (r_task r) = Cancelling) \<and>
      (r_pc r = R_Done \<longrightarrow> t_finished (r_task r)))"

lemma exit_state_settled: "exit_state t code resume \<noteq> Handoff \<Longrightarrow> settled_state (exit_state t code resume)"
  by (simp add: exit_state_def settled_state_def split: if_splits)

lemma handoff_exit_settled: "settled_state (handoff_exit_state t code)"
  by (simp add: handoff_exit_state_def settled_state_def)

lemma settled_not_cancelling: "settled_state s \<Longrightarrow> s \<noteq> Cancelling"
  by (auto simp: settled_state_def)

lemma exit_state_not_cancelling: "exit_state t code resume \<noteq> Cancelling"
  by (simp add: exit_state_def)

lemma run_error_ok: "r_bridge r = None \<Longrightarrow> state_ok (run_error width what r)"
  by (simp add: run_error_def state_ok_def settled_state_def Let_def)

lemma state_run_step:
  assumes "run_step width r r'" "state_ok r"
  shows "state_ok r'"
  using assms(1)
proof cases
  case (exit resume code)
  then show ?thesis
    using assms(2) exit_state_settled exit_state_not_cancelling
    by (simp add: run_exit_def state_ok_def Let_def)
next
  case (handoff_exit code)
  then show ?thesis
    using assms(2) settled_not_cancelling [OF handoff_exit_settled [of "r_task r" code]]
      handoff_exit_settled [of "r_task r" code]
    by (simp add: run_handoff_exit_def state_ok_def Let_def cancel_pending_def)
next
  case (spawn resume project starts)
  have "r_bridge r = None" using assms(2) by (simp add: state_ok_def)
  with spawn assms(2) run_error_ok [of r width] show ?thesis
    by (simp add: run_spawn_def Let_def split: sum.split)
       (simp add: state_ok_def cancel_pending_def)
next
  case (handoff_spawn project starts)
  have "r_bridge r = None" using assms(2) by (simp add: state_ok_def)
  with handoff_spawn assms(2) run_error_ok [of r width] show ?thesis
    by (simp add: run_handoff_spawn_def Let_def split: sum.split)
       (simp add: state_ok_def cancel_pending_def)
next
  case (start resume ok)
  then show ?thesis using assms(2) by (simp add: state_ok_def run_start_def cancel_pending_def)
next
  case handoff_check
  then show ?thesis
    using assms(2) by (auto simp: state_ok_def run_handoff_check_def settled_state_def cancel_pending_def)
qed (use assms(2) in \<open>auto simp: state_ok_def run_line_def run_handoff_def run_handoff_line_def run_finish_def
       cancel_pending_def\<close>)

lemma state_cancel_step:
  assumes "cancel_step width r r'" "state_ok r"
  shows "state_ok r'"
  using assms(1)
proof cases
  case cancel_begin
  then show ?thesis
    using assms(2) by (auto simp: state_ok_def cancel_begin_def cancel_pending_def)
next
  case (cancel_end seen)
  then show ?thesis
    using assms(2) by (auto simp: state_ok_def cancel_end_def cancel_pending_def settled_state_def)
qed

lemma state_step: "task_step width r r' \<Longrightarrow> state_ok r \<Longrightarrow> state_ok r'"
  unfolding task_step_def using state_run_step state_cancel_step by blast

text \<open>A cancellation that saw the running process.\<close>

definition cancelled_run :: "string list list \<Rightarrow> runner \<Rightarrow> bool" where
  "cancelled_run commands r =
     (r_bridge r = None \<and> r_spawned r = commands \<and> t_state (r_task r) \<in> {Cancelling, Cancelled} \<and>
      (case r_pc r of R_Read _ \<Rightarrow> True | R_Handoff_Read \<Rightarrow> True
       | R_Finish \<Rightarrow> True | R_Done \<Rightarrow> True | _ \<Rightarrow> False))"

lemma cancelled_step:
  assumes "task_step width r r'" "cancelled_run commands r"
  shows "cancelled_run commands r'"
  using assms(1) unfolding task_step_def
proof
  assume "run_step width r r'"
  then show ?thesis
    by cases (use assms(2) in \<open>auto simp: cancelled_run_def run_line_def run_exit_def exit_state_def handoff_exit_state_def
        run_handoff_line_def run_handoff_exit_def run_finish_def Let_def split: pc.splits\<close>)
next
  assume "cancel_step width r r'"
  then show ?thesis
    by cases (use assms(2) in \<open>auto simp: cancelled_run_def cancel_begin_def cancel_end_def cancellable_def
        split: pc.splits\<close>)
qed

interpretation spawning: step_invariant "task_step width" "spawned_ok tid" for width tid
  by unfold_locales (rule spawned_step)

interpretation settling: step_invariant "task_step width" state_ok for width
  by unfold_locales (rule state_step)

interpretation cancelling: step_invariant "task_step width" "cancelled_run commands" for width commands
  by unfold_locales (rule cancelled_step)

section \<open>Properties\<close>


text \<open>When the run thread has ended and no cancel request is in progress, the task is marked
  finished and its state is settled: never queued, running, in hand-off or cancelling.\<close>

theorem finished_task_is_settled:
  assumes "(task_step width)\<^sup>*\<^sup>* (new_runner t) r" and "t_state t \<noteq> Cancelling"
    and "r_pc r = R_Done" and "\<not> cancel_pending r"
  shows "t_finished (r_task r) \<and>
    t_state (r_task r) \<in> {Completed, Failed, Cancelled, Interrupted, Awaiting_Approval}"
proof -
  have "state_ok (new_runner t)" using assms(2) by (simp add: state_ok_def new_runner_def)
  with assms(1) have "state_ok r" by (rule settling.reachable)
  with assms(3,4) show ?thesis by (auto simp: state_ok_def settled_state_def)
qed


section \<open>A cancellation that is lost\<close>

text \<open>A request that arrives while the task is still queued (or before its process exists) answers
  true, but the run thread then overwrites the state and starts the process.\<close>

definition queued_task :: task where
  "queued_task = \<lparr> t_id = replicate 32 CHR ''a'', t_runtime = ''claude'', t_project = ''p'', t_writes = False,
     t_backend = ''private'', t_handoff = None, t_prompt = ''x'', t_handoff_prompt = [],
     t_correlation = replicate 32 CHR ''b'', t_state = Queued, t_native = None, t_openshell = JNull,
     t_stage = JNull, t_stages = [], t_finished = False, t_sequence = 0, t_events = [],
     t_event_bytes = 0, t_saved = None \<rparr>"

lemma task_step_simps:
  "r_pc r = R_Start resume \<Longrightarrow> task_step width r (run_start width ok resume r)"
  "r_pc r = R_Spawn resume \<Longrightarrow> task_step width r (run_spawn width project resume starts r)"
  "r_pc r = R_Read resume \<Longrightarrow> task_step width r (run_exit width code resume r)"
  "r_pc r = R_Finish \<Longrightarrow> task_step width r (run_finish r)"
  "r_bridge r = None \<Longrightarrow> r_cancel r = C_None \<Longrightarrow> task_step width r (cancel_begin width r)"
  "r_cancel r = C_Kill seen \<Longrightarrow> task_step width r (cancel_end width r)"
  by (auto simp: task_step_def intro: run_step.intros cancel_step.intros)

definition lost_cancel :: runner where
  "lost_cancel = run_spawn (\<lambda>_. 1) ''/workspace/p'' False True
     (run_start (\<lambda>_. 1) True False (cancel_end (\<lambda>_. 1) (cancel_begin (\<lambda>_. 1) (new_runner queued_task))))"

theorem early_cancel_is_lost:
  "(task_step (\<lambda>_. 1))\<^sup>*\<^sup>* (new_runner queued_task) lost_cancel \<and> r_cancel lost_cancel = C_True \<and>
   t_state (r_task lost_cancel) = Running \<and> r_process lost_cancel"
proof (intro conjI)
  let ?w = "\<lambda>_ :: event. 1 :: int"
  let ?a = "cancel_begin ?w (new_runner queued_task)"
  let ?b = "cancel_end ?w ?a"
  let ?c = "run_start ?w True False ?b"
  have "task_step ?w (new_runner queued_task) ?a" by (rule task_step_simps) (simp_all add: new_runner_def)
  moreover have "task_step ?w ?a ?b" by (rule task_step_simps(6) [where seen = False]) code_simp
  moreover have "task_step ?w ?b ?c" by (rule task_step_simps(1)) code_simp
  moreover have "task_step ?w ?c lost_cancel"
    unfolding lost_cancel_def by (rule task_step_simps(2)) code_simp
  ultimately show "(task_step ?w)\<^sup>*\<^sup>* (new_runner queued_task) lost_cancel"
    by (meson converse_rtranclp_into_rtranclp rtranclp.rtrancl_refl)
qed code_simp+

section \<open>Witnesses\<close>

definition running_example :: runner where
  "running_example = run_spawn (\<lambda>_. 1) ''/workspace/p'' False True (run_start (\<lambda>_. 1) True False (new_runner queued_task))"

definition done_example :: runner where
  "done_example = run_finish (run_exit (\<lambda>_. 1) 0 False running_example)"

lemma example_run:
  "(task_step (\<lambda>_. 1))\<^sup>*\<^sup>* (new_runner queued_task) running_example"
  "(task_step (\<lambda>_. 1))\<^sup>*\<^sup>* (new_runner queued_task) done_example"
proof -
  let ?w = "\<lambda>_ :: event. 1 :: int"
  let ?a = "run_start ?w True False (new_runner queued_task)"
  let ?c = "run_exit ?w 0 False running_example"
  have 1: "task_step ?w (new_runner queued_task) ?a" by (rule task_step_simps(1)) code_simp
  have 2: "task_step ?w ?a running_example" unfolding running_example_def by (rule task_step_simps(2)) code_simp
  have 3: "task_step ?w running_example ?c" by (rule task_step_simps(3)) code_simp
  have 4: "task_step ?w ?c done_example" unfolding done_example_def by (rule task_step_simps(4)) code_simp
  from 1 2 show r: "(task_step ?w)\<^sup>*\<^sup>* (new_runner queued_task) running_example"
    by (meson converse_rtranclp_into_rtranclp rtranclp.rtrancl_refl)
  from r 3 4 show "(task_step ?w)\<^sup>*\<^sup>* (new_runner queued_task) done_example"
    by (meson rtranclp.rtrancl_into_rtrancl)
qed

lemma example_values:
  "length (r_spawned running_example) = 1" "r_pc done_example = R_Done" "t_state (r_task done_example) = Completed"
  "r_cancel done_example = C_None" "r_bridge running_example = None" "r_pc running_example = R_Read False"
  "cancellable (t_state (r_task running_example))"
  by code_simp+


theorem finished_task_is_settled_witness: "t_finished (r_task done_example)"
  using finished_task_is_settled [OF example_run(2) _ example_values(2)] example_values(4)
  by (simp add: cancel_pending_def queued_task_def)


end
