(* ===== verification/Sdk_Approval.thy ===== *)
theory Sdk_Approval imports Task_Types begin

text \<open>
  The native SDK approval bridge, \<open>scripts/official_sdk_approval.py\<close>.  Every block under the
  persistence lock is one step of the model; the two external calls (\<open>client.respond\<close> and
  \<open>stop_and_verify\<close>) run in their own threads and end at any later time, or never.  The model keeps
  the calls that were started, so that theorems can speak of what the native process was sent.
\<close>

section \<open>Saved exit proofs\<close>

definition nonempty_text :: "json \<Rightarrow> bool" where
  "nonempty_text v = (case v of JStr s \<Rightarrow> s \<noteq> [] | _ \<Rightarrow> False)"

text \<open>The identity a stop receipt has to repeat.\<close>

definition stop_context :: "json \<Rightarrow> json \<Rightarrow> json \<Rightarrow> json \<Rightarrow> json \<Rightarrow> (string \<times> json) list" where
  "stop_context tid session subject generation operation =
     [(''taskId'', tid), (''sessionId'', session), (''subject'', subject),
      (''generation'', generation), (''operationId'', operation)]"

definition stop_proof :: "(string \<times> json) list \<Rightarrow> json" where
  "stop_proof ctx = JObj (ctx @ [(''stopped'', JBool True), (''processExitVerified'', JBool True)])"

definition verified_terminal_stop :: "json \<Rightarrow> bool" where
  "verified_terminal_stop rec =
     (let n = jget rec ''nativeSdk''; op = jget n ''stopOperationId'' in
      jget rec ''state'' \<in> {JStr ''completed'', JStr ''failed'', JStr ''cancelled''} \<and> is_obj n \<and>
      jget n ''phase'' = JStr ''stopped'' \<and>
      (case op of JStr s \<Rightarrow> hex_id 32 s | _ \<Rightarrow> False) \<and>
      py_eq (jget n ''taskId'') (jget rec ''id'') \<and> py_eq (jget n ''project'') (jget rec ''project'') \<and>
      py_eq (jget n ''correlationId'') (jget rec ''correlationId'') \<and>
      (let ctx = stop_context (jget rec ''id'') (jget n ''sessionId'') (jget n ''subject'')
                   (jget n ''generation'') op in
       list_all (\<lambda>(k, v). nonempty_text v) ctx \<and>
       is_obj (jget n ''stopReceipt'') \<and> jget (jget n ''stopReceipt'') ''stopped'' = JBool True \<and>
       jget (jget n ''stopReceipt'') ''processExitVerified'' = JBool True \<and>
       py_eq (jget n ''stopReceipt'') (stop_proof ctx)))"

section \<open>The bridge\<close>

text \<open>A started external call: its operation and, once it ended, the value or the exception.\<close>

record 'a call =
  c_operation :: string
  c_outcome :: "'a res option"

record reply_call =
  r_operation :: string
  r_request_id :: json
  r_outcome :: string
  r_approval :: string
  r_call :: string

record bridge =
  b_task :: task
  b_subject :: string
  b_generation :: string
  b_session :: string
  b_can_stop :: bool
  b_stop :: "json call option"
  b_settled :: bool
  b_replies :: "reply_call list"
  b_ended :: "(string \<times> unit res) list"
  b_waiting :: "string list"
  b_stops :: "string list"
  b_retiring :: bool

definition id_chars :: string where "id_chars = alnum_chars @ ''_.@:-''"

definition valid_identity :: "string \<Rightarrow> bool" where
  "valid_identity s = fullmatch_class id_chars 1 128 s"

text \<open>\<open>NativeSDKApprovalBridge.__init__\<close>\<close>

definition new_native :: "string \<Rightarrow> string \<Rightarrow> string \<Rightarrow> task \<Rightarrow> native" where
  "new_native subject generation session t =
     \<lparr> n_subject = subject, n_generation = generation, n_task = t_id t, n_project = t_project t,
       n_correlation = t_correlation t, n_session = session, n_phase = P_Running, n_pending = None,
       n_used = [], n_stop_operation = None, n_desired = None, n_receipt = None,
       n_launch = None, n_managed = False, n_identity = None, n_never_started = False \<rparr>"

definition new_bridge :: "task \<Rightarrow> string \<Rightarrow> string \<Rightarrow> string \<Rightarrow> bool \<Rightarrow> json \<Rightarrow> bridge res" where
  "new_bridge t subject generation session can_stop timeout =
     (if \<not> (valid_identity subject \<and> valid_identity generation \<and> valid_identity session)
      then Inl (ValueError ''INVALID_NATIVE_SDK_IDENTITY'')
      else if (case finite_number timeout of Some r \<Rightarrow> \<not> (0 < r \<and> r \<le> 5) | None \<Rightarrow> True)
      then Inl (ValueError ''INVALID_NATIVE_OPERATION_TIMEOUT'')
      else if t_runtime t \<noteq> ''sdk'' \<or> t_state t \<noteq> Running
      then Inl (ValueError ''NATIVE_SDK_TASK_NOT_RUNNING'')
      else if t_native t \<noteq> None then Inl (ValueError ''NATIVE_SDK_ALREADY_BOUND'')
      else if t_backend t \<noteq> ''private'' then Inl (ValueError ''NATIVE_SDK_BACKEND_NOT_BOUND'')
      else Inr \<lparr> b_task = save (t\<lparr> t_native := Some (new_native subject generation session t) \<rparr>),
                 b_subject = subject, b_generation = generation, b_session = session,
                 b_can_stop = can_stop, b_stop = None, b_settled = True, b_replies = [], b_ended = [],
                 b_waiting = [], b_stops = [], b_retiring = False \<rparr>)"

definition stale :: "'a res" where
  "stale = Inl (ValueError ''STALE_OR_FOREIGN_NATIVE_SDK_IDENTITY'')"

definition current :: "bridge \<Rightarrow> string \<Rightarrow> string \<Rightarrow> native res" where
  "current b subject generation =
     (case t_native (b_task b) of
        None \<Rightarrow> stale
      | Some n \<Rightarrow>
          if subject = b_subject b \<and> generation = b_generation b \<and> n_subject n = subject \<and>
             n_generation n = generation \<and> n_session n = b_session b \<and> n_task n = t_id (b_task b) \<and>
             n_project n = t_project (b_task b) \<and> n_correlation n = t_correlation (b_task b)
          then Inr n else stale)"

text \<open>Write the section and the state, then the journal.\<close>

definition put :: "native \<Rightarrow> tstate \<Rightarrow> bridge \<Rightarrow> bridge" where
  "put n s b = b\<lparr> b_task := save (b_task b\<lparr> t_native := Some n, t_state := s \<rparr>) \<rparr>"

section \<open>Approval requests\<close>

record native_request =
  q_method :: string
  q_id :: json
  q_payload :: json

definition tool_chars :: string where "tool_chars = alnum_chars @ ''_.:/-''"
definition call_chars :: string where "call_chars = alnum_chars @ ''_.:-''"

text \<open>\<open>str(request.id)\<close>: an integer always has between 1 and 256 digits here unless it is huge;
  \<open>digits\<close> of an integer is its decimal length including the sign.\<close>

definition valid_request_id :: "json \<Rightarrow> bool" where
  "valid_request_id v =
     (case v of JStr s \<Rightarrow> s \<noteq> [] \<and> length s \<le> 256
      | JInt n \<Rightarrow> - (10 ^ 255) < n \<and> n < 10 ^ 256
      | _ \<Rightarrow> False)"

definition text_matches :: "string \<Rightarrow> nat \<Rightarrow> json \<Rightarrow> bool" where
  "text_matches cs hi v = (case v of JStr s \<Rightarrow> fullmatch_class cs 1 hi s | _ \<Rightarrow> False)"

definition valid_reason :: "json \<Rightarrow> bool" where
  "valid_reason v = (case v of JNull \<Rightarrow> True | JStr s \<Rightarrow> length s \<le> 8192 | _ \<Rightarrow> False)"

definition valid_approval_request :: "string \<Rightarrow> native_request \<Rightarrow> bool" where
  "valid_approval_request session q =
     (let p = q_payload q in
      q_method q = ''approval/request'' \<and> is_obj p \<and>
      set (jkeys p) \<subseteq> {''sessionId'', ''toolName'', ''callId'', ''reason''} \<and>
      jget p ''sessionId'' = JStr session \<and> text_matches tool_chars 128 (jget p ''toolName'') \<and>
      text_matches call_chars 256 (jget p ''callId'') \<and> valid_request_id (q_id q) \<and>
      valid_reason (jget p ''reason''))"

definition str_of :: "json \<Rightarrow> string" where
  "str_of v = (case v of JStr s \<Rightarrow> s | _ \<Rightarrow> [])"

definition replay_or_fenced :: "'a res" where
  "replay_or_fenced = Inl (ValueError ''NATIVE_APPROVAL_REPLAY_OR_FENCED'')"

definition receive :: "(event \<Rightarrow> int) \<Rightarrow> native_request \<Rightarrow> string \<Rightarrow> bridge \<Rightarrow> string res \<times> bridge" where
  "receive width q fresh b =
     (if \<not> valid_approval_request (b_session b) q
      then (Inl (ValueError ''INVALID_NATIVE_APPROVAL_REQUEST''), b)
      else
        (case current b (b_subject b) (b_generation b) of
           Inl e \<Rightarrow> (Inl e, b)
         | Inr n \<Rightarrow>
             (let cid = str_of (jget (q_payload q) ''callId'') in
              if t_state (b_task b) \<noteq> Running \<or> n_phase n \<noteq> P_Running \<or> n_pending n \<noteq> None \<or>
                 length (n_used n) \<ge> 256 \<or> cid \<in> set (n_used n)
              then (replay_or_fenced, b)
              else
                (let p = \<lparr> p_approval = fresh, p_request_id = q_id q, p_call = cid,
                           p_tool = str_of (jget (q_payload q) ''toolName''), p_decision = None, p_operation = None \<rparr>;
                     b1 = put (n\<lparr> n_phase := P_Awaiting, n_pending := Some p \<rparr>) Awaiting_Approval b in
                 (Inr fresh, b1\<lparr> b_task := emit width ''native_approval_required''
                    (JObj [(''approvalId'', JStr fresh), (''generation'', JStr (b_generation b)),
                       (''sessionId'', JStr (b_session b)), (''toolName'', JStr (p_tool p)),
                       (''callId'', JStr cid)]) (b_task b1) \<rparr>)))))"

section \<open>Decisions\<close>

definition outcomes :: "string list" where
  "outcomes = [''allowed-once'', ''rejected'', ''cancelled'']"

text \<open>\<open>decide\<close>, first block: the reservation is journaled, then the response thread is started;
  \<open>starts\<close> tells whether the operating system could start it.\<close>

definition decide_reserve :: "string \<Rightarrow> string \<Rightarrow> string \<Rightarrow> json \<Rightarrow> string \<Rightarrow> bool \<Rightarrow> bridge \<Rightarrow> unit res \<times> bridge" where
  "decide_reserve subject generation approval outcome op starts b =
     (case outcome of
        JStr out \<Rightarrow>
          if out \<notin> set outcomes then (Inl (ValueError ''INVALID_NATIVE_APPROVAL_OUTCOME''), b)
          else
            (case current b subject generation of
               Inl e \<Rightarrow> (Inl e, b)
             | Inr n \<Rightarrow>
                 if out = ''allowed-once'' \<and> \<not> t_writes (b_task b)
                 then (Inl (ValueError ''NATIVE_ESCALATION_NOT_ADMITTED_FOR_READ_ONLY_TASK''), b)
                 else
                   (case n_pending n of
                      None \<Rightarrow> (replay_or_fenced, b)
                    | Some p \<Rightarrow>
                        if n_phase n \<noteq> P_Awaiting \<or> t_state (b_task b) \<noteq> Awaiting_Approval \<or> p_approval p \<noteq> approval
                        then (replay_or_fenced, b)
                        else
                          (let p1 = p\<lparr> p_decision := Some out, p_operation := Some op \<rparr>;
                               n1 = n\<lparr> n_pending := Some p1, n_phase := P_Reserved \<rparr>;
                               b1 = (put n1 (t_state (b_task b)) b)\<lparr> b_settled := False \<rparr> in
                           if starts
                           then (Inr (), b1\<lparr> b_replies := b_replies b1 @
                                    [\<lparr> r_operation = op, r_request_id = p_request_id p, r_outcome = out,
                                       r_approval = approval, r_call = p_call p \<rparr>],
                                    b_waiting := op # b_waiting b1 \<rparr>)
                           else (Inl (RuntimeError ''thread''),
                                 (put (n1\<lparr> n_phase := P_Decision_Uncertain \<rparr>) Interrupted b1)\<lparr> b_settled := True \<rparr>))))
      | _ \<Rightarrow> (Inl (ValueError ''INVALID_NATIVE_APPROVAL_OUTCOME''), b))"

text \<open>The response thread ends, at any time.\<close>

definition reply_ends :: "string \<Rightarrow> unit res \<Rightarrow> bridge \<Rightarrow> bridge" where
  "reply_ends op r b = b\<lparr> b_ended := (op, r) # b_ended b \<rparr>"

definition reserved_by :: "native \<Rightarrow> string \<Rightarrow> bool" where
  "reserved_by n op = (n_phase n = P_Reserved \<and>
     (case n_pending n of None \<Rightarrow> False | Some p \<Rightarrow> p_operation p = Some op))"

text \<open>Second block after a timeout or an error of the response.\<close>

definition decide_fail :: "string \<Rightarrow> string \<Rightarrow> string \<Rightarrow> bridge \<Rightarrow> bridge" where
  "decide_fail subject generation op b =
     (case current b subject generation of
        Inl e \<Rightarrow> b\<lparr> b_waiting := remove1 op (b_waiting b) \<rparr>
      | Inr n \<Rightarrow>
          (let b1 = (if reserved_by n op then put (n\<lparr> n_phase := P_Decision_Uncertain \<rparr>) Interrupted b else b) in
           b1\<lparr> b_settled := True, b_waiting := remove1 op (b_waiting b1) \<rparr>))"

text \<open>Second block after a response that was accepted in time.\<close>

definition decide_settle :: "(event \<Rightarrow> int) \<Rightarrow> string \<Rightarrow> string \<Rightarrow> string \<Rightarrow> string \<Rightarrow> string \<Rightarrow> bridge \<Rightarrow> unit res \<times> bridge" where
  "decide_settle width subject generation approval outcome op b =
     (case current b subject generation of
        Inl e \<Rightarrow> (Inl e, b\<lparr> b_waiting := remove1 op (b_waiting b) \<rparr>)
      | Inr n \<Rightarrow>
          (case n_pending n of
             Some p \<Rightarrow>
               if reserved_by n op then
                 (let b1 = put (n\<lparr> n_used := n_used n @ [p_call p], n_phase := P_Running, n_pending := None \<rparr>) Running b in
                  (Inr (), b1\<lparr> b_settled := True, b_waiting := remove1 op (b_waiting b1),
                               b_task := emit width ''native_approval_decision''
                     (JObj [(''approvalId'', JStr approval), (''outcome'', JStr outcome),
                            (''generation'', JStr generation)]) (b_task b1) \<rparr>))
               else (Inl (ValueError ''NATIVE_DECISION_COMPLETED_AFTER_FENCE''),
                     b\<lparr> b_settled := True, b_waiting := remove1 op (b_waiting b) \<rparr>)
           | None \<Rightarrow> (Inl (ValueError ''NATIVE_DECISION_COMPLETED_AFTER_FENCE''),
                     b\<lparr> b_settled := True, b_waiting := remove1 op (b_waiting b) \<rparr>)))"

section \<open>Fencing and stopping\<close>

definition fence :: "bridge \<Rightarrow> bool res \<times> bridge" where
  "fence b =
     (case current b (b_subject b) (b_generation b) of
        Inl e \<Rightarrow> (Inl e, b)
      | Inr n \<Rightarrow>
          if n_phase n = P_Stopped \<or> n_stop_operation n \<noteq> None then (Inr False, b)
          else (Inr True, (put (n\<lparr> n_phase := P_Fenced \<rparr>) (t_state (b_task b)) b)\<lparr> b_settled := True \<rparr>))"

text \<open>\<open>_retire\<close>, first block.  \<open>Inr True\<close>: the stop call was started and its result is awaited.\<close>

definition retire_begin :: "tstate \<Rightarrow> string \<Rightarrow> bool \<Rightarrow> bridge \<Rightarrow> bool res \<times> bridge" where
  "retire_begin goal op starts b =
     (case current b (b_subject b) (b_generation b) of
        Inl e \<Rightarrow> (Inl e, b)
      | Inr n \<Rightarrow>
          if n_phase n = P_Stopped then (Inr False, b)
          else if n_stop_operation n \<noteq> None then
            (if goal = Cancelled
             then (Inr False, put (n\<lparr> n_desired := Some Cancelled \<rparr>) (t_state (b_task b)) b)
             else (Inr False, b))
          else
            (let goal1 = (if goal = Completed \<and> (n_phase n \<noteq> P_Running \<or> n_pending n \<noteq> None) then Failed else goal);
                 b1 = (put (n\<lparr> n_phase := P_Fenced \<rparr>) Interrupted b)\<lparr> b_settled := True \<rparr> in
             if \<not> b_can_stop b then (Inr False, b1)
             else
               (let n2 = n\<lparr> n_phase := P_Stop_Reserved, n_stop_operation := Some op, n_desired := Some goal1 \<rparr>;
                    b2 = put n2 (if goal1 = Cancelled then Cancelling else Finalizing) b1 in
                if starts
                then (Inr True, b2\<lparr> b_stop := Some \<lparr> c_operation = op, c_outcome = None \<rparr>,
                                    b_stops := b_stops b2 @ [op], b_retiring := True \<rparr>)
                else (Inr False, (put (n2\<lparr> n_phase := P_Stop_Uncertain \<rparr>) Interrupted b2)
                                  \<lparr> b_stop := Some \<lparr> c_operation = op, c_outcome = None \<rparr> \<rparr>))))"

definition cancel :: "string \<Rightarrow> bool \<Rightarrow> bridge \<Rightarrow> bool res \<times> bridge" where
  "cancel = retire_begin Cancelled"

definition finalize :: "tstate \<Rightarrow> string \<Rightarrow> bool \<Rightarrow> bridge \<Rightarrow> bool res \<times> bridge" where
  "finalize goal op starts b =
     (if goal \<notin> {Completed, Failed} then (Inl (ValueError ''INVALID_NATIVE_TERMINAL_STATE''), b)
      else retire_begin goal op starts b)"

text \<open>The stop thread ends with a receipt or an exception.\<close>

definition stop_ends :: "json res \<Rightarrow> bridge \<Rightarrow> bridge" where
  "stop_ends r b =
     (case b_stop b of
        None \<Rightarrow> b
      | Some c \<Rightarrow> (if c_outcome c = None \<and> c_operation c \<in> set (b_stops b)
                  then b\<lparr> b_stop := Some (c\<lparr> c_outcome := Some r \<rparr>) \<rparr> else b))"

text \<open>\<open>_retire\<close> after a timeout or an error of the stop call.\<close>

definition retire_fail :: "string \<Rightarrow> bridge \<Rightarrow> bridge" where
  "retire_fail op b =
     (case current b (b_subject b) (b_generation b) of
        Inl e \<Rightarrow> b\<lparr> b_retiring := False \<rparr>
      | Inr n \<Rightarrow>
          (if n_stop_operation n = Some op \<and> n_phase n \<noteq> P_Stopped
           then put (n\<lparr> n_phase := P_Stop_Uncertain \<rparr>) Interrupted b else b)\<lparr> b_retiring := False \<rparr>)"

definition stop_ids :: "bridge \<Rightarrow> string \<Rightarrow> (string \<times> json) list" where
  "stop_ids b op = stop_context (JStr (t_id (b_task b))) (JStr (b_session b)) (JStr (b_subject b))
     (JStr (b_generation b)) (JStr op)"

definition receipt_accepted :: "(string \<times> json) list \<Rightarrow> json \<Rightarrow> bool" where
  "receipt_accepted ctx receipt =
     (is_obj receipt \<and> list_all (\<lambda>(k, v). py_eq (jget receipt k) v) ctx \<and>
      jget receipt ''stopped'' = JBool True \<and> jget receipt ''processExitVerified'' = JBool True)"

definition accept_stop :: "(event \<Rightarrow> int) \<Rightarrow> json \<Rightarrow> string \<Rightarrow> bridge \<Rightarrow> bool res \<times> bridge" where
  "accept_stop width receipt op b =
     (case current b (b_subject b) (b_generation b) of
        Inl e \<Rightarrow> (Inl e, b)
      | Inr n \<Rightarrow>
          if n_stop_operation n \<noteq> Some op \<or> n_phase n = P_Stopped then (Inr False, b)
          else if \<not> receipt_accepted (stop_ids b op) receipt
          then (Inr False, put (n\<lparr> n_phase := P_Stop_Uncertain \<rparr>) Interrupted b)
          else
            (case n_desired n of
               None \<Rightarrow> (Inl (KeyError ''desiredTerminalState''), b\<lparr> b_task := (b_task b)\<lparr> t_native := Some
                  (n\<lparr> n_phase := P_Stopped, n_receipt := Some (stop_proof (stop_ids b op)) \<rparr>) \<rparr> \<rparr>)
             | Some goal \<Rightarrow>
                 (let b1 = put (n\<lparr> n_phase := P_Stopped, n_receipt := Some (stop_proof (stop_ids b op)) \<rparr>) goal b in
                  (Inr True, b1\<lparr> b_task := emit width ''state''
                     (JObj [(''state'', JStr (tstate_text goal)), (''nativeExitVerified'', JBool True)]) (b_task b1) \<rparr>))))"

text \<open>\<open>resolve_stop\<close>: only the finished call itself is read, and only in the uncertain phase.\<close>

definition resolve_stop :: "(event \<Rightarrow> int) \<Rightarrow> bridge \<Rightarrow> bool res \<times> bridge" where
  "resolve_stop width b =
     (case current b (b_subject b) (b_generation b) of
        Inl e \<Rightarrow> (Inl e, b)
      | Inr n \<Rightarrow>
          (case (b_stop b, n_stop_operation n) of
             (Some c, Some op) \<Rightarrow>
               (case c_outcome c of
                  Some (Inr receipt) \<Rightarrow>
                    if n_phase n = P_Stop_Uncertain then accept_stop width receipt op b else (Inr False, b)
                | _ \<Rightarrow> (Inr False, b))
           | _ \<Rightarrow> (Inr False, b)))"

text \<open>\<open>_retire\<close> after the stop call returned in time.\<close>

definition retire_end :: "(event \<Rightarrow> int) \<Rightarrow> bridge \<Rightarrow> bridge" where
  "retire_end width b =
     (case b_stop b of
        None \<Rightarrow> b
      | Some c \<Rightarrow>
          (case c_outcome c of
             Some (Inr receipt) \<Rightarrow> (snd (accept_stop width receipt (c_operation c) b))\<lparr> b_retiring := False \<rparr>
           | _ \<Rightarrow> b))"

section \<open>All interleavings\<close>

text \<open>Identities come from \<open>uuid.uuid4().hex\<close>: 32 hexadecimal digits, not used before.\<close>

definition fresh_operation :: "bridge \<Rightarrow> string \<Rightarrow> bool" where
  "fresh_operation b op = (hex_id 32 op \<and> op \<notin> r_operation ` set (b_replies b) \<and> op \<notin> set (b_stops b))"

inductive bridge_step :: "(event \<Rightarrow> int) \<Rightarrow> bridge \<Rightarrow> bridge \<Rightarrow> bool" for width where
  receive: "bridge_step width b (snd (receive width q fresh b))"
| decide: "fresh_operation b op \<Longrightarrow>
    bridge_step width b (snd (decide_reserve subject generation approval outcome op starts b))"
| reply_ends: "op \<in> r_operation ` set (b_replies b) \<Longrightarrow> op \<notin> fst ` set (b_ended b) \<Longrightarrow>
    bridge_step width b (reply_ends op r b)"
| decide_fail: "op \<in> set (b_waiting b) \<Longrightarrow> bridge_step width b (decide_fail (b_subject b) (b_generation b) op b)"
| decide_settle: "op \<in> set (b_waiting b) \<Longrightarrow> (op, Inr ()) \<in> set (b_ended b) \<Longrightarrow>
    bridge_step width b (snd (decide_settle width (b_subject b) (b_generation b) approval outcome op b))"
| fence: "bridge_step width b (snd (fence b))"
| cancel: "fresh_operation b op \<Longrightarrow> bridge_step width b (snd (cancel op starts b))"
| finalize: "fresh_operation b op \<Longrightarrow> bridge_step width b (snd (finalize goal op starts b))"
| stop_ends: "bridge_step width b (stop_ends r b)"
| retire_fail: "b_retiring b \<Longrightarrow> b_stop b = Some c \<Longrightarrow> bridge_step width b (retire_fail (c_operation c) b)"
| retire_end: "b_retiring b \<Longrightarrow> bridge_step width b (retire_end width b)"
| resolve_stop: "bridge_step width b (snd (resolve_stop width b))"

definition start_state :: "bridge \<Rightarrow> bool" where
  "start_state b = (\<exists>t subject generation session can_stop timeout.
     hex_id 32 (t_id t) \<and> new_bridge t subject generation session can_stop timeout = Inr b)"

inductive bridge_reachable :: "(event \<Rightarrow> int) \<Rightarrow> bridge \<Rightarrow> bool" for width where
  start: "start_state b \<Longrightarrow> bridge_reachable width b"
| step: "bridge_reachable width b \<Longrightarrow> bridge_step width b b' \<Longrightarrow> bridge_reachable width b'"

section \<open>The invariant\<close>

definition stopping :: "phase \<Rightarrow> bool" where
  "stopping p = (p \<in> {P_Stop_Reserved, P_Stop_Uncertain, P_Stopped})"

definition closed_phase :: "phase \<Rightarrow> bool" where
  "closed_phase p = (p \<in> {P_Decision_Uncertain, P_Fenced, P_Stop_Reserved, P_Stop_Uncertain, P_Stopped})"

text \<open>Phase and task state belong together.\<close>

definition phase_state :: "native \<Rightarrow> tstate \<Rightarrow> bool" where
  "phase_state n s =
     (case n_phase n of
        P_Running \<Rightarrow> s = Running \<and> n_pending n = None
      | P_Awaiting \<Rightarrow> s = Awaiting_Approval \<and> (\<exists>p. n_pending n = Some p \<and> p_call p \<notin> set (n_used n))
      | P_Reserved \<Rightarrow> s = Awaiting_Approval \<and> (\<exists>p. n_pending n = Some p \<and> p_operation p \<noteq> None)
      | P_Decision_Uncertain \<Rightarrow> s = Interrupted
      | P_Fenced \<Rightarrow> s \<in> {Running, Awaiting_Approval, Interrupted}
      | P_Stop_Reserved \<Rightarrow> s \<in> {Cancelling, Finalizing}
      | P_Stop_Uncertain \<Rightarrow> s = Interrupted
      | P_Stopped \<Rightarrow> terminal s \<and> n_desired n = Some s
      | _ \<Rightarrow> False)"

text \<open>The one stop operation.\<close>

definition stop_part :: "native \<Rightarrow> string list \<Rightarrow> bridge \<Rightarrow> bool" where
  "stop_part n stops b =
     ((n_stop_operation n \<noteq> None \<longleftrightarrow> stopping (n_phase n)) \<and>
      (\<forall>op. n_stop_operation n = Some op \<longrightarrow> hex_id 32 op \<and> stops \<in> {[], [op]} \<and>
             (\<exists>goal. n_desired n = Some goal \<and> terminal goal)) \<and>
      (n_stop_operation n = None \<longrightarrow> stops = [] \<and> b_stop b = None) \<and>
      (\<forall>c. b_stop b = Some c \<longrightarrow> n_stop_operation n = Some (c_operation c) \<and>
            (c_outcome c \<noteq> None \<longrightarrow> c_operation c \<in> set stops)))"

definition receipt_part :: "native \<Rightarrow> bridge \<Rightarrow> bool" where
  "receipt_part n b =
     (n_phase n = P_Stopped \<longrightarrow>
        (\<exists>op receipt. n_stop_operation n = Some op \<and> n_receipt n = Some (stop_proof (stop_ids b op)) \<and>
           b_stop b = Some \<lparr> c_operation = op, c_outcome = Some (Inr receipt) \<rparr> \<and>
           receipt_accepted (stop_ids b op) receipt))"

text \<open>Responses: every call was answered at most once, with what the task admits.\<close>

definition reply_part :: "native \<Rightarrow> bool \<Rightarrow> reply_call list \<Rightarrow> bool" where
  "reply_part n writes replies =
     (distinct (n_used n) \<and> distinct (map r_call replies) \<and>
      (n_phase n \<in> {P_Running, P_Awaiting} \<longrightarrow> r_call ` set replies \<subseteq> set (n_used n)) \<and>
      (\<forall>p. n_phase n = P_Reserved \<longrightarrow> n_pending n = Some p \<longrightarrow>
             p_call p \<notin> set (n_used n) \<and> r_call ` set replies \<subseteq> insert (p_call p) (set (n_used n))) \<and>
      (\<forall>r \<in> set replies. r_outcome r = ''allowed-once'' \<longrightarrow> writes))"

definition identity_part :: "native \<Rightarrow> bridge \<Rightarrow> bool" where
  "identity_part n b =
     (n_subject n = b_subject b \<and> n_generation n = b_generation b \<and> n_session n = b_session b \<and>
      n_task n = t_id (b_task b) \<and> n_project n = t_project (b_task b) \<and>
      n_correlation n = t_correlation (b_task b) \<and> hex_id 32 (t_id (b_task b)) \<and>
      b_subject b \<noteq> [] \<and> b_generation b \<noteq> [] \<and> b_session b \<noteq> [])"

definition journal_part :: "task \<Rightarrow> bool" where
  "journal_part t = (\<exists>s. t_saved t = Some s \<and> s_native s = t_native t \<and> s_state s = t_state t \<and>
     s_id s = t_id t \<and> s_project s = t_project t \<and> s_correlation s = t_correlation t)"

definition bridge_inv :: "bridge \<Rightarrow> bool" where
  "bridge_inv b = (\<exists>n. t_native (b_task b) = Some n \<and> identity_part n b \<and> journal_part (b_task b) \<and>
     phase_state n (t_state (b_task b)) \<and> stop_part n (b_stops b) b \<and> receipt_part n b \<and>
     reply_part n (t_writes (b_task b)) (b_replies b))"

lemma bridge_invI:
  assumes "t_native (b_task b) = Some n" "identity_part n b" "journal_part (b_task b)"
    "phase_state n (t_state (b_task b))" "stop_part n (b_stops b) b" "receipt_part n b"
    "reply_part n (t_writes (b_task b)) (b_replies b)"
  shows "bridge_inv b"
  using assms unfolding bridge_inv_def by blast

lemma bridge_invE:
  assumes "bridge_inv b"
  obtains n where "t_native (b_task b) = Some n" "identity_part n b" "journal_part (b_task b)"
    "phase_state n (t_state (b_task b))" "stop_part n (b_stops b) b" "receipt_part n b"
    "reply_part n (t_writes (b_task b)) (b_replies b)"
  using assms unfolding bridge_inv_def by blast

lemma current_own:
  "t_native (b_task b) = Some n \<Longrightarrow> identity_part n b \<Longrightarrow> current b (b_subject b) (b_generation b) = Inr n"
  by (simp add: current_def identity_part_def)

lemma current_Inr:
  "current b subject generation = Inr n \<Longrightarrow>
   t_native (b_task b) = Some n \<and> subject = b_subject b \<and> generation = b_generation b"
  by (auto simp: current_def stale_def split: option.splits if_splits)

lemma put_simps [simp]:
  "t_native (b_task (put n s b)) = Some n" "t_state (b_task (put n s b)) = s"
  "b_subject (put n s b) = b_subject b" "b_generation (put n s b) = b_generation b"
  "b_session (put n s b) = b_session b" "b_can_stop (put n s b) = b_can_stop b"
  "b_stop (put n s b) = b_stop b" "b_replies (put n s b) = b_replies b" "b_ended (put n s b) = b_ended b"
  "b_waiting (put n s b) = b_waiting b" "b_stops (put n s b) = b_stops b" "b_retiring (put n s b) = b_retiring b"
  "t_id (b_task (put n s b)) = t_id (b_task b)" "t_project (b_task (put n s b)) = t_project (b_task b)"
  "t_correlation (b_task (put n s b)) = t_correlation (b_task b)"
  "t_writes (b_task (put n s b)) = t_writes (b_task b)"
  by (simp_all add: put_def)

lemma journal_put: "journal_part (b_task (put n s b))"
  by (simp add: journal_part_def put_def)

lemma journal_emit: "journal_part (emit w k d t) = journal_part t"
  by (simp add: journal_part_def)

lemma ids_put [simp]: "stop_ids (put n s b) op = stop_ids b op"
  by (simp add: stop_ids_def)

lemma identity_put: "identity_part n b \<Longrightarrow> n_subject n' = n_subject n \<Longrightarrow> n_generation n' = n_generation n \<Longrightarrow>
    n_session n' = n_session n \<Longrightarrow> n_task n' = n_task n \<Longrightarrow> n_project n' = n_project n \<Longrightarrow>
    n_correlation n' = n_correlation n \<Longrightarrow> identity_part n' (put n' s b)"
  by (simp add: identity_part_def)

lemmas part_defs = identity_part_def phase_state_def stop_part_def receipt_part_def reply_part_def
  stopping_def terminal_def stop_ids_def

text \<open>The parts read the bridge only through a few fields.\<close>

lemma parts_cong:
  assumes "b_stop b' = b_stop b" "b_subject b' = b_subject b" "b_generation b' = b_generation b"
    "b_session b' = b_session b" "t_id (b_task b') = t_id (b_task b)"
    "t_project (b_task b') = t_project (b_task b)" "t_correlation (b_task b') = t_correlation (b_task b)"
  shows "identity_part n b' = identity_part n b" "stop_part n stops b' = stop_part n stops b"
    "receipt_part n b' = receipt_part n b"
  using assms by (simp_all add: identity_part_def stop_part_def receipt_part_def stop_ids_def)

lemma inv_same_task:
  assumes "bridge_inv b" "b_task b' = b_task b" "b_stop b' = b_stop b" "b_subject b' = b_subject b"
    "b_generation b' = b_generation b" "b_session b' = b_session b" "b_replies b' = b_replies b"
    "b_stops b' = b_stops b"
  shows "bridge_inv b'"
  using assms parts_cong [of b' b] by (simp add: bridge_inv_def)

lemma inv_emit:
  "bridge_inv b \<Longrightarrow> bridge_inv (b\<lparr> b_task := emit width kind dat (b_task b) \<rparr>)"
  using parts_cong [of "b\<lparr> b_task := emit width kind dat (b_task b) \<rparr>" b]
  by (simp add: bridge_inv_def journal_emit)

lemma inv_put:
  assumes "t_native (b_task b) = Some n" "identity_part n b"
    "n_subject n' = n_subject n" "n_generation n' = n_generation n" "n_session n' = n_session n"
    "n_task n' = n_task n" "n_project n' = n_project n" "n_correlation n' = n_correlation n"
    and "phase_state n' s" "stop_part n' (b_stops b) b" "receipt_part n' b"
    "reply_part n' (t_writes (b_task b)) (b_replies b)"
  shows "bridge_inv (put n' s b)"
proof (rule bridge_invI)
  show "identity_part n' (put n' s b)" by (rule identity_put [OF assms(2-8)])
qed (use assms journal_put parts_cong [of "put n' s b" b] in simp_all)

lemma receive_inv: "bridge_inv b \<Longrightarrow> bridge_inv (snd (receive width q fresh b))"
proof (elim bridge_invE)
  fix n assume n: "t_native (b_task b) = Some n" and i: "identity_part n b" and j: "journal_part (b_task b)"
    and p: "phase_state n (t_state (b_task b))" and st: "stop_part n (b_stops b) b"
    and rc: "receipt_part n b" and rp: "reply_part n (t_writes (b_task b)) (b_replies b)"
  have inv: "bridge_inv b" by (rule bridge_invI [OF n i j p st rc rp])
  let ?cid = "str_of (jget (q_payload q) ''callId'')"
  define refused where "refused = (t_state (b_task b) \<noteq> Running \<or> n_phase n \<noteq> P_Running \<or> n_pending n \<noteq> None \<or>
      length (n_used n) \<ge> 256 \<or> ?cid \<in> set (n_used n))"
  let ?p = "\<lparr> p_approval = fresh, p_request_id = q_id q, p_call = ?cid,
        p_tool = str_of (jget (q_payload q) ''toolName''), p_decision = None, p_operation = None \<rparr>"
  let ?b1 = "put (n\<lparr> n_phase := P_Awaiting, n_pending := Some ?p \<rparr>) Awaiting_Approval b"
  have run: "snd (receive width q fresh b) = (if \<not> valid_approval_request (b_session b) q \<or> refused then b
     else ?b1\<lparr> b_task := emit width ''native_approval_required''
                    (JObj [(''approvalId'', JStr fresh), (''generation'', JStr (b_generation b)),
                       (''sessionId'', JStr (b_session b)), (''toolName'', JStr (p_tool ?p)),
                       (''callId'', JStr ?cid)]) (b_task ?b1) \<rparr>)"
    unfolding receive_def current_own [OF n i] Let_def sum.case refused_def [symmetric]
    by (simp add: replay_or_fenced_def)
  have "bridge_inv ?b1" if "\<not> refused"
    by (rule inv_put [OF n i]) (use that st rp in \<open>simp_all add: part_defs refused_def\<close>)
  from inv_emit [OF this] show ?thesis using inv unfolding run by auto
qed

lemma decide_reserve_refused:
  assumes n: "t_native (b_task b) = Some n"
  shows "snd (decide_reserve subject generation approval outcome op starts b) = b \<or>
    (\<exists>out q. outcome = JStr out \<and> current b subject generation = Inr n \<and> n_pending n = Some q \<and>
      (out = ''allowed-once'' \<longrightarrow> t_writes (b_task b)) \<and>
      n_phase n = P_Awaiting \<and> t_state (b_task b) = Awaiting_Approval \<and> out \<in> set outcomes \<and> p_approval q = approval)"
proof (cases outcome)
  case (JStr out)
  show ?thesis
  proof (cases "current b subject generation")
    case (Inl e)
    with JStr show ?thesis by (simp add: decide_reserve_def)
  next
    case (Inr m)
    with n have m: "m = n" using current_Inr [OF Inr] by simp
    show ?thesis
    proof (cases "n_pending n")
      case None
      with JStr Inr m show ?thesis by (simp add: decide_reserve_def replay_or_fenced_def)
    next
      case (Some q)
      show ?thesis
      proof (cases "n_phase n \<noteq> P_Awaiting \<or> t_state (b_task b) \<noteq> Awaiting_Approval \<or> p_approval q \<noteq> approval")
        case True
        with JStr Inr m Some show ?thesis by (simp add: decide_reserve_def replay_or_fenced_def)
      next
        case False
        with JStr Inr m Some show ?thesis
          by (cases "out \<in> set outcomes"; cases "out = ''allowed-once'' \<and> \<not> t_writes (b_task b)")
            (auto simp: decide_reserve_def)
      qed
    qed
  qed
qed (simp_all add: decide_reserve_def)

lemma decide_reserve_inv:
  assumes "bridge_inv b"
  shows "bridge_inv (snd (decide_reserve subject generation approval outcome op starts b))"
proof -
  from assms obtain n where n: "t_native (b_task b) = Some n" and i: "identity_part n b"
    and p: "phase_state n (t_state (b_task b))" and st: "stop_part n (b_stops b) b"
    and rc: "receipt_part n b" and rp: "reply_part n (t_writes (b_task b)) (b_replies b)"
    by (rule bridge_invE)
  show ?thesis
  proof (cases "\<exists>out q. outcome = JStr out \<and> current b subject generation = Inr n \<and> n_pending n = Some q \<and>
      (out = ''allowed-once'' \<longrightarrow> t_writes (b_task b)) \<and>
      n_phase n = P_Awaiting \<and> t_state (b_task b) = Awaiting_Approval \<and> out \<in> set outcomes \<and> p_approval q = approval")
    case False
    then have "snd (decide_reserve subject generation approval outcome op starts b) = b"
      using decide_reserve_refused [OF n, of subject generation approval outcome op starts] by blast
    with assms show ?thesis by simp
  next
    case True
    then obtain out q where c: "outcome = JStr out" "current b subject generation = Inr n" "n_pending n = Some q"
      "out = ''allowed-once'' \<longrightarrow> t_writes (b_task b)"
      "n_phase n = P_Awaiting" "t_state (b_task b) = Awaiting_Approval" "out \<in> set outcomes" "p_approval q = approval"
      by blast
    let ?n1 = "n\<lparr> n_pending := Some (q\<lparr> p_decision := Some out, p_operation := Some op \<rparr>), n_phase := P_Reserved \<rparr>"
    let ?b1 = "(put ?n1 Awaiting_Approval b)\<lparr> b_settled := False \<rparr>"
    have call: "p_call q \<notin> set (n_used n)" "r_call ` set (b_replies b) \<subseteq> set (n_used n)"
      using p c rp by (auto simp: phase_state_def reply_part_def)
    show ?thesis
    proof (cases starts)
      case False
      have "bridge_inv (put (?n1\<lparr> n_phase := P_Decision_Uncertain \<rparr>) Interrupted ?b1)"
        by (rule inv_put [where n = ?n1])
          (use c st rp i in \<open>simp_all add: part_defs\<close>)
      then show ?thesis
        using False c by (auto simp: decide_reserve_def Let_def intro: inv_same_task)
    next
      case True
      let ?r = "\<lparr> r_operation = op, r_request_id = p_request_id q, r_outcome = out, r_approval = approval, r_call = p_call q \<rparr>"
      let ?b2 = "?b1\<lparr> b_replies := b_replies ?b1 @ [?r], b_waiting := op # b_waiting ?b1 \<rparr>"
      have same: "identity_part m ?b2 = identity_part m b" "stop_part m stops ?b2 = stop_part m stops b"
        "receipt_part m ?b2 = receipt_part m b" for m stops
        by (rule parts_cong; simp)+
      have "bridge_inv ?b2"
      proof (rule bridge_invI)
        show "t_native (b_task ?b2) = Some ?n1" by simp
        show "identity_part ?n1 ?b2" unfolding same using i by (simp add: identity_part_def)
        show "journal_part (b_task ?b2)" using journal_put [of ?n1 Awaiting_Approval b] by simp
        show "phase_state ?n1 (t_state (b_task ?b2))" by (simp add: phase_state_def)
        show "stop_part ?n1 (b_stops ?b2) ?b2"
          unfolding same using st c(5) by (simp add: stop_part_def stopping_def)
        show "receipt_part ?n1 ?b2" unfolding same by (simp add: receipt_part_def)
        show "reply_part ?n1 (t_writes (b_task ?b2)) (b_replies ?b2)"
          using rp call c(3,4) by (auto simp: reply_part_def)
      qed
      then show ?thesis using True c by (auto simp: decide_reserve_def Let_def)
    qed
  qed
qed

lemma reserved_by_pending: "reserved_by n op \<Longrightarrow> \<exists>p. n_pending n = Some p \<and> n_phase n = P_Reserved \<and> p_operation p = Some op"
  by (auto simp: reserved_by_def split: option.splits)

lemma decide_fail_inv:
  assumes "bridge_inv b" shows "bridge_inv (decide_fail subject generation op b)"
proof -
  from assms obtain n where n: "t_native (b_task b) = Some n" and i: "identity_part n b"
    and p: "phase_state n (t_state (b_task b))" and st: "stop_part n (b_stops b) b"
    and rc: "receipt_part n b" and rp: "reply_part n (t_writes (b_task b)) (b_replies b)"
    by (rule bridge_invE)
  have "bridge_inv (put (n\<lparr> n_phase := P_Decision_Uncertain \<rparr>) Interrupted b)" if "n_phase n = P_Reserved"
    by (rule inv_put [OF n i]) (use that st rp in \<open>simp_all add: part_defs\<close>)
  then have "bridge_inv (if reserved_by n op then put (n\<lparr> n_phase := P_Decision_Uncertain \<rparr>) Interrupted b else b)"
    using assms reserved_by_pending [of n op] by auto
  then show ?thesis
    using assms current_Inr [of b subject generation] n
    by (auto simp: decide_fail_def Let_def intro: inv_same_task split: sum.split)
qed

lemma decide_settle_inv:
  assumes "bridge_inv b" shows "bridge_inv (snd (decide_settle width subject generation approval outcome op b))"
proof -
  from assms obtain n where n: "t_native (b_task b) = Some n" and i: "identity_part n b"
    and p: "phase_state n (t_state (b_task b))" and st: "stop_part n (b_stops b) b"
    and rc: "receipt_part n b" and rp: "reply_part n (t_writes (b_task b)) (b_replies b)"
    by (rule bridge_invE)
  show ?thesis
  proof (cases "\<exists>q. current b subject generation = Inr n \<and> n_pending n = Some q \<and> reserved_by n op")
    case True
    then obtain q where c: "current b subject generation = Inr n" "n_pending n = Some q" "reserved_by n op" by blast
    let ?n1 = "n\<lparr> n_used := n_used n @ [p_call q], n_phase := P_Running, n_pending := None \<rparr>"
    have "bridge_inv (put ?n1 Running b)"
    proof (rule inv_put [OF n i])
      show "reply_part ?n1 (t_writes (b_task b)) (b_replies b)"
        using rp reserved_by_pending [OF c(3)] c(2) by (auto simp: reply_part_def)
    qed (use st reserved_by_pending [OF c(3)] in \<open>auto simp: part_defs\<close>)
    from inv_same_task [OF inv_emit [OF this]] show ?thesis
      using c by (simp add: decide_settle_def Let_def)
  next
    case False
    have "snd (decide_settle width subject generation approval outcome op b) \<in>
        {b\<lparr> b_waiting := remove1 op (b_waiting b) \<rparr>, b\<lparr> b_settled := True, b_waiting := remove1 op (b_waiting b) \<rparr>}"
    proof (cases "current b subject generation")
      case (Inl e)
      then show ?thesis by (simp add: decide_settle_def)
    next
      case (Inr m)
      with n have "m = n" using current_Inr [OF Inr] by simp
      with Inr False show ?thesis by (cases "n_pending n") (auto simp: decide_settle_def)
    qed
    then show ?thesis using assms by (auto intro: inv_same_task)
  qed
qed

lemma fence_inv:
  assumes "bridge_inv b" shows "bridge_inv (snd (fence b))"
proof -
  from assms obtain n where n: "t_native (b_task b) = Some n" and i: "identity_part n b"
    and p: "phase_state n (t_state (b_task b))" and st: "stop_part n (b_stops b) b"
    and rp: "reply_part n (t_writes (b_task b)) (b_replies b)"
    by (rule bridge_invE)
  have "bridge_inv (put (n\<lparr> n_phase := P_Fenced \<rparr>) (t_state (b_task b)) b)" if none: "n_stop_operation n = None"
    by (rule inv_put [OF n i])
      (use p st rp none in \<open>auto simp: part_defs split: phase.splits\<close>)
  then show ?thesis
    using assms current_own [OF n i] by (auto simp: fence_def intro: inv_same_task)
qed

lemma retire_begin_inv:
  assumes inv: "bridge_inv b" and op: "fresh_operation b op" and goal: "terminal goal"
  shows "bridge_inv (snd (retire_begin goal op starts b))"
proof -
  from inv obtain n where n: "t_native (b_task b) = Some n" and i: "identity_part n b"
    and p: "phase_state n (t_state (b_task b))" and st: "stop_part n (b_stops b) b"
    and rc: "receipt_part n b" and rp: "reply_part n (t_writes (b_task b)) (b_replies b)"
    by (rule bridge_invE)
  have hex: "hex_id 32 op" using op by (simp add: fresh_operation_def)
  note run = retire_begin_def [of goal op starts b, unfolded current_own [OF n i] sum.case]
  consider (stopped) "n_phase n = P_Stopped"
    | (again) "n_phase n \<noteq> P_Stopped" "n_stop_operation n \<noteq> None"
    | (first) "n_phase n \<noteq> P_Stopped" "n_stop_operation n = None"
    by blast
  then show ?thesis
  proof cases
    case stopped
    with inv show ?thesis by (simp add: run)
  next
    case again
    have "bridge_inv (put (n\<lparr> n_desired := Some Cancelled \<rparr>) (t_state (b_task b)) b)"
      by (rule inv_put [OF n i])
        (use p st rc rp again in \<open>auto simp: part_defs split: phase.splits\<close>)
    with again inv show ?thesis by (simp add: run)
  next
    case first
    define goal1 where "goal1 = (if goal = Completed \<and> (n_phase n \<noteq> P_Running \<or> n_pending n \<noteq> None) then Failed else goal)"
    have g1: "terminal goal1" using goal by (simp add: goal1_def terminal_def)
    let ?b1 = "(put (n\<lparr> n_phase := P_Fenced \<rparr>) Interrupted b)\<lparr> b_settled := True \<rparr>"
    let ?n2 = "n\<lparr> n_phase := P_Stop_Reserved, n_stop_operation := Some op, n_desired := Some goal1 \<rparr>"
    let ?b2 = "put ?n2 (if goal1 = Cancelled then Cancelling else Finalizing) ?b1"
    have stops: "b_stops b = []" "b_stop b = None" using st first by (auto simp: stop_part_def)
    have "bridge_inv (put (n\<lparr> n_phase := P_Fenced \<rparr>) Interrupted b)"
      by (rule inv_put [OF n i])
        (use st rp first in \<open>auto simp: part_defs\<close>)
    then have b1: "bridge_inv ?b1" by (rule inv_same_task) simp_all
    have i1: "identity_part ?n2 ?b1" using i by (simp add: identity_part_def)
    have ok: "bridge_inv (?b2\<lparr> b_stop := Some \<lparr> c_operation = op, c_outcome = None \<rparr>,
        b_stops := b_stops ?b2 @ [op], b_retiring := True \<rparr>)"
    proof (rule bridge_invI [where n = ?n2])
      show "journal_part (b_task (?b2\<lparr> b_stop := Some \<lparr> c_operation = op, c_outcome = None \<rparr>,
          b_stops := b_stops ?b2 @ [op], b_retiring := True \<rparr>))"
        using journal_put [of ?n2 "if goal1 = Cancelled then Cancelling else Finalizing" ?b1] by simp
    qed (use i1 rp hex g1 stops in \<open>simp_all add: part_defs\<close>)
    have failed: "bridge_inv ((put (?n2\<lparr> n_phase := P_Stop_Uncertain \<rparr>) Interrupted ?b2)
        \<lparr> b_stop := Some \<lparr> c_operation = op, c_outcome = None \<rparr> \<rparr>)"
    proof (rule bridge_invI [where n = "?n2\<lparr> n_phase := P_Stop_Uncertain \<rparr>"])
      show "journal_part (b_task ((put (?n2\<lparr> n_phase := P_Stop_Uncertain \<rparr>) Interrupted ?b2)
          \<lparr> b_stop := Some \<lparr> c_operation = op, c_outcome = None \<rparr> \<rparr>))"
        using journal_put [of "?n2\<lparr> n_phase := P_Stop_Uncertain \<rparr>" Interrupted ?b2] by simp
    qed (use i1 rp hex g1 stops in \<open>simp_all add: part_defs\<close>)
    show ?thesis
      using first b1 ok failed unfolding run Let_def goal1_def [symmetric] by simp
  qed
qed

lemma stop_ends_inv:
  assumes "bridge_inv b" shows "bridge_inv (stop_ends r b)"
proof (cases "\<exists>c. b_stop b = Some c \<and> c_outcome c = None \<and> c_operation c \<in> set (b_stops b)")
  case False
  then have "stop_ends r b = b" by (auto simp: stop_ends_def split: option.split)
  with assms show ?thesis by simp
next
  case True
  then obtain c where c: "b_stop b = Some c" "c_outcome c = None" "c_operation c \<in> set (b_stops b)" by blast
  from assms obtain n where n: "t_native (b_task b) = Some n" and i: "identity_part n b"
    and j: "journal_part (b_task b)"
    and p: "phase_state n (t_state (b_task b))" and st: "stop_part n (b_stops b) b"
    and rc: "receipt_part n b" and rp: "reply_part n (t_writes (b_task b)) (b_replies b)"
    by (rule bridge_invE)
  have not_stopped: "n_phase n \<noteq> P_Stopped" using rc c by (auto simp: receipt_part_def)
  have "bridge_inv (b\<lparr> b_stop := Some (c\<lparr> c_outcome := Some r \<rparr>) \<rparr>)"
    by (rule bridge_invI)
      (use n i j p st rp c not_stopped in \<open>auto simp: identity_part_def stop_part_def receipt_part_def\<close>)
  with c show ?thesis by (simp add: stop_ends_def)
qed

lemma retire_fail_inv:
  assumes "bridge_inv b" shows "bridge_inv (retire_fail op b)"
proof -
  from assms obtain n where n: "t_native (b_task b) = Some n" and i: "identity_part n b"
    and p: "phase_state n (t_state (b_task b))" and st: "stop_part n (b_stops b) b"
    and rc: "receipt_part n b" and rp: "reply_part n (t_writes (b_task b)) (b_replies b)"
    by (rule bridge_invE)
  have "bridge_inv (put (n\<lparr> n_phase := P_Stop_Uncertain \<rparr>) Interrupted b)" if "n_stop_operation n = Some op"
    by (rule inv_put [OF n i]) (use that st rp in \<open>auto simp: part_defs\<close>)
  then show ?thesis
    using assms current_own [OF n i] by (auto simp: retire_fail_def intro: inv_same_task)
qed

lemma accept_stop_inv:
  assumes inv: "bridge_inv b"
    and call: "b_stop b = Some \<lparr> c_operation = op, c_outcome = Some (Inr receipt) \<rparr>"
  shows "bridge_inv (snd (accept_stop width receipt op b))"
proof -
  from inv obtain n where n: "t_native (b_task b) = Some n" and i: "identity_part n b"
    and p: "phase_state n (t_state (b_task b))" and st: "stop_part n (b_stops b) b"
    and rc: "receipt_part n b" and rp: "reply_part n (t_writes (b_task b)) (b_replies b)"
    by (rule bridge_invE)
  have nop: "n_stop_operation n = Some op" using st call by (auto simp: stop_part_def)
  then obtain goal where goal: "n_desired n = Some goal" "terminal goal" using st by (auto simp: stop_part_def)
  note run = accept_stop_def [of width receipt op b, unfolded current_own [OF n i] sum.case goal option.case Let_def]
  have uncertain: "bridge_inv (put (n\<lparr> n_phase := P_Stop_Uncertain \<rparr>) Interrupted b)"
    by (rule inv_put [OF n i]) (use nop st rp in \<open>auto simp: part_defs\<close>)
  let ?n1 = "n\<lparr> n_phase := P_Stopped, n_receipt := Some (stop_proof (stop_ids b op)) \<rparr>"
  have "bridge_inv (put ?n1 goal b)" if acc: "receipt_accepted (stop_ids b op) receipt"
  proof (rule inv_put [OF n i])
    show "phase_state ?n1 goal" using goal by (simp add: phase_state_def)
    show "stop_part ?n1 (b_stops b) b" using st nop by (simp add: stop_part_def stopping_def)
    show "receipt_part ?n1 b" using nop call acc by (simp add: receipt_part_def)
    show "reply_part ?n1 (t_writes (b_task b)) (b_replies b)" using rp by (simp add: reply_part_def)
  qed simp_all
  from inv_emit [OF this] inv uncertain show ?thesis
    unfolding run by simp
qed

lemma retire_end_inv:
  assumes "bridge_inv b" shows "bridge_inv (retire_end width b)"
proof (cases "\<exists>c receipt. b_stop b = Some c \<and> c_outcome c = Some (Inr receipt)")
  case True
  then obtain c receipt where c: "b_stop b = Some c" "c_outcome c = Some (Inr receipt)" by blast
  then have "b_stop b = Some \<lparr> c_operation = c_operation c, c_outcome = Some (Inr receipt) \<rparr>" by (cases c) simp
  from accept_stop_inv [OF assms this, of width] c show ?thesis
    by (auto simp: retire_end_def intro: inv_same_task)
next
  case False
  then have "retire_end width b = b"
    by (auto simp: retire_end_def split: option.split sum.split)
  with assms show ?thesis by simp
qed

lemma resolve_stop_inv:
  assumes "bridge_inv b" shows "bridge_inv (snd (resolve_stop width b))"
proof -
  from assms obtain n where n: "t_native (b_task b) = Some n" and i: "identity_part n b"
    and st: "stop_part n (b_stops b) b" by (rule bridge_invE)
  note run = resolve_stop_def [of width b, unfolded current_own [OF n i] sum.case]
  show ?thesis
  proof (cases "\<exists>c receipt. b_stop b = Some c \<and> c_outcome c = Some (Inr receipt)")
    case True
    then obtain c receipt where c: "b_stop b = Some c" "c_outcome c = Some (Inr receipt)" by blast
    then have call: "b_stop b = Some \<lparr> c_operation = c_operation c, c_outcome = Some (Inr receipt) \<rparr>" by (cases c) simp
    have "n_stop_operation n = Some (c_operation c)" using st c by (auto simp: stop_part_def)
    with accept_stop_inv [OF assms call, of width] c assms show ?thesis unfolding run by simp
  next
    case False
    then have "snd (resolve_stop width b) = b"
      unfolding run by (auto split: option.split sum.split)
    with assms show ?thesis by simp
  qed
qed

lemma bridge_step_inv: "bridge_step width b b' \<Longrightarrow> bridge_inv b \<Longrightarrow> bridge_inv b'"
proof (induction rule: bridge_step.induct)
  case (reply_ends op b r)
  then show ?case by (simp add: reply_ends_def inv_same_task)
next
  case (cancel b op starts)
  then show ?case unfolding cancel_def by (simp add: retire_begin_inv terminal_def)
next
  case (finalize b op goal starts)
  then show ?case unfolding finalize_def by (auto intro: retire_begin_inv simp: terminal_def)
qed (simp_all add: receive_inv decide_reserve_inv decide_fail_inv decide_settle_inv fence_inv stop_ends_inv
      retire_fail_inv retire_end_inv resolve_stop_inv)

lemma start_inv: "start_state b \<Longrightarrow> bridge_inv b"
proof -
  assume "start_state b"
  then obtain t subject generation session can_stop timeout where hex: "hex_id 32 (t_id t)"
    and b: "new_bridge t subject generation session can_stop timeout = Inr b"
    unfolding start_state_def by blast
  let ?n = "new_native subject generation session t"
  from b have ids: "valid_identity subject" "valid_identity generation" "valid_identity session" "t_state t = Running"
    and b': "b = \<lparr> b_task = save (t\<lparr> t_native := Some ?n \<rparr>), b_subject = subject, b_generation = generation,
        b_session = session, b_can_stop = can_stop, b_stop = None, b_settled = True, b_replies = [], b_ended = [],
        b_waiting = [], b_stops = [], b_retiring = False \<rparr>"
    by (auto simp: new_bridge_def split: if_splits)
  have "subject \<noteq> []" "generation \<noteq> []" "session \<noteq> []"
    using ids by (auto simp: valid_identity_def fullmatch_class_def)
  then show "bridge_inv b"
    unfolding b' using hex ids(4)
    by (intro bridge_invI [of _ ?n]) (simp_all add: part_defs new_native_def journal_part_def)
qed

lemma reachable_inv: "bridge_reachable width b \<Longrightarrow> bridge_inv b"
  by (induction rule: bridge_reachable.induct) (auto intro: start_inv bridge_step_inv)

section \<open>The saved proof\<close>

lemma native_json_fields:
  "is_obj (native_json n)"
  "jget (native_json n) ''phase'' = JStr (phase_text (n_phase n))"
  "jget (native_json n) ''stopOperationId'' = (case n_stop_operation n of None \<Rightarrow> JNull | Some s \<Rightarrow> JStr s)"
  "jget (native_json n) ''taskId'' = JStr (n_task n)" "jget (native_json n) ''project'' = JStr (n_project n)"
  "jget (native_json n) ''correlationId'' = JStr (n_correlation n)"
  "jget (native_json n) ''sessionId'' = JStr (n_session n)" "jget (native_json n) ''subject'' = JStr (n_subject n)"
  "jget (native_json n) ''generation'' = JStr (n_generation n)"
  "jget (native_json n) ''stopReceipt'' = (case n_receipt n of None \<Rightarrow> JNull | Some r \<Rightarrow> r)"
  by (simp_all add: native_json_def map_add_def split: option.split)

lemma snapshot_json_fields:
  "jget (snapshot_json s) ''nativeSdk'' = (case s_native s of None \<Rightarrow> JNull | Some n \<Rightarrow> native_json n)"
  "jget (snapshot_json s) ''state'' = JStr (tstate_text (s_state s))"
  "jget (snapshot_json s) ''id'' = JStr (s_id s)" "jget (snapshot_json s) ''project'' = JStr (s_project s)"
  "jget (snapshot_json s) ''correlationId'' = JStr (s_correlation s)"
  by (simp_all add: snapshot_json_def)

lemma stop_proof_eq: "py_eq (stop_proof (stop_context (JStr a) (JStr b) (JStr c) (JStr d) (JStr e)))
    (stop_proof (stop_context (JStr a) (JStr b) (JStr c) (JStr d) (JStr e)))"
  by (simp add: stop_proof_def stop_context_def)

lemma stop_proof_flags: "is_obj (stop_proof ctx)"
  "jget (stop_proof (stop_context a b c d e)) ''stopped'' = JBool True"
  "jget (stop_proof (stop_context a b c d e)) ''processExitVerified'' = JBool True"
  by (simp_all add: stop_proof_def stop_context_def)

lemma terminal_text: "JStr (tstate_text s) \<in> {JStr ''completed'', JStr ''failed'', JStr ''cancelled''} \<longleftrightarrow> terminal s"
  by (cases s) (simp_all add: terminal_def)

lemma verified_snapshot:
  assumes inv: "bridge_inv b" and saved: "t_saved (b_task b) = Some s"
  shows "verified_terminal_stop (snapshot_json s) \<longleftrightarrow> terminal (t_state (b_task b))"
proof -
  from inv obtain n where n: "t_native (b_task b) = Some n" and i: "identity_part n b"
    and j: "journal_part (b_task b)" and p: "phase_state n (t_state (b_task b))"
    and rc: "receipt_part n b" and st: "stop_part n (b_stops b) b" by (rule bridge_invE)
  from j saved n have s: "s_native s = Some n" "s_state s = t_state (b_task b)" "s_id s = t_id (b_task b)"
    "s_project s = t_project (b_task b)" "s_correlation s = t_correlation (b_task b)"
    by (auto simp: journal_part_def)
  show ?thesis
  proof (cases "terminal (t_state (b_task b))")
    case False
    then show ?thesis
      by (simp add: verified_terminal_stop_def Let_def snapshot_json_fields s terminal_text del: insert_iff)
  next
    case True
    then have "n_phase n = P_Stopped" using p by (auto simp: phase_state_def terminal_def split: phase.splits)
    with rc st obtain op where op: "n_stop_operation n = Some op" "n_receipt n = Some (stop_proof (stop_ids b op))"
      "n_phase n = P_Stopped" "hex_id 32 op"
      by (auto simp: receipt_part_def stop_part_def)
    have ne: "op \<noteq> []" "t_id (b_task b) \<noteq> []" using op(4) i by (auto simp: hex_id_def fullmatch_class_def identity_part_def)
    show ?thesis
      using True op i ne
      unfolding verified_terminal_stop_def Let_def snapshot_json_fields s terminal_text native_json_fields
      by (simp add: identity_part_def stop_ids_def stop_proof_flags stop_proof_eq native_json_fields)
        (simp add: stop_context_def nonempty_text_def)
  qed
qed

section \<open>Closed phases\<close>

lemma closed_put: "closed_phase (n_phase n') \<Longrightarrow> closed_phase (n_phase (the (t_native (b_task (put n' s b)))))"
  by simp

definition closed_bridge :: "bridge \<Rightarrow> bool" where
  "closed_bridge b = (\<exists>n. t_native (b_task b) = Some n \<and> closed_phase (n_phase n))"

lemma closed_phase_simps [simp]:
  "closed_phase P_Decision_Uncertain" "closed_phase P_Fenced" "closed_phase P_Stop_Reserved"
  "closed_phase P_Stop_Uncertain" "closed_phase P_Stopped" "\<not> closed_phase P_Running"
  "\<not> closed_phase P_Awaiting" "\<not> closed_phase P_Reserved"
  by (simp_all add: closed_phase_def)

lemma closed_stop: "bridge_inv b \<Longrightarrow> closed_bridge b \<Longrightarrow>
    closed_bridge (snd (accept_stop width receipt op b)) \<and> b_replies (snd (accept_stop width receipt op b)) = b_replies b"
  by (auto simp: closed_bridge_def accept_stop_def Let_def split: sum.split option.split)

lemma closed_retire: "closed_bridge b \<Longrightarrow>
    closed_bridge (snd (retire_begin goal op starts b)) \<and> b_replies (snd (retire_begin goal op starts b)) = b_replies b"
  by (auto simp: closed_bridge_def retire_begin_def Let_def dest!: current_Inr split: sum.split)

lemma closed_step:
  assumes "bridge_step width b b'" "bridge_inv b" "closed_bridge b"
  shows "closed_bridge b' \<and> b_replies b' = b_replies b"
  using assms
proof (induction rule: bridge_step.induct)
  case (receive b q fresh)
  then show ?case
    by (auto simp: receive_def closed_bridge_def Let_def replay_or_fenced_def dest!: current_Inr split: sum.split)
next
  case (decide b op subject generation approval outcome starts)
  then obtain n where n: "t_native (b_task b) = Some n" "closed_phase (n_phase n)" by (auto simp: closed_bridge_def)
  from decide_reserve_refused [OF n(1), of subject generation approval outcome op starts] n(2) decide(3)
  show ?case by auto
next
  case (decide_fail op b)
  then show ?case by (auto simp: decide_fail_def closed_bridge_def Let_def dest!: current_Inr split: sum.split)
next
  case (decide_settle op b approval outcome)
  then show ?case
    by (auto simp: decide_settle_def closed_bridge_def Let_def reserved_by_def dest!: current_Inr
        split: sum.split option.splits)
next
  case (fence b)
  then show ?case by (auto simp: fence_def closed_bridge_def dest!: current_Inr split: sum.split)
next
  case (cancel b op starts)
  then show ?case unfolding cancel_def by (simp add: closed_retire)
next
  case (finalize b op goal starts)
  then show ?case unfolding finalize_def by (auto simp: closed_retire)
next
  case (stop_ends b r)
  then show ?case by (auto simp: stop_ends_def closed_bridge_def split: option.split)
next
  case (retire_fail b c)
  then show ?case by (auto simp: retire_fail_def closed_bridge_def dest!: current_Inr split: sum.split)
next
  case (retire_end b)
  then show ?case using closed_stop [of b]
    by (auto simp: retire_end_def closed_bridge_def split: option.split sum.split)
next
  case (resolve_stop b)
  then show ?case using closed_stop [of b]
    by (auto simp: resolve_stop_def split: sum.split option.split)
qed (simp_all add: reply_ends_def closed_bridge_def)

section \<open>A requested cancellation\<close>

definition cancel_wanted :: "bridge \<Rightarrow> bool" where
  "cancel_wanted b = (\<exists>n. t_native (b_task b) = Some n \<and>
     (n_desired n = Some Cancelled \<and> n_stop_operation n \<noteq> None \<or> \<not> b_can_stop b \<and> n_stop_operation n = None))"

lemma wanted_accept: "cancel_wanted b \<Longrightarrow> cancel_wanted (snd (accept_stop width receipt op b))"
  by (auto simp: cancel_wanted_def accept_stop_def Let_def dest!: current_Inr split: sum.split option.split)

lemma wanted_retire: "cancel_wanted b \<Longrightarrow> cancel_wanted (snd (retire_begin goal op starts b))"
  by (auto simp: cancel_wanted_def retire_begin_def Let_def dest!: current_Inr split: sum.split)

lemma wanted_retiring [simp]: "cancel_wanted (b\<lparr> b_retiring := r \<rparr>) = cancel_wanted b"
  by (simp add: cancel_wanted_def)

lemma wanted_step: "bridge_step width b b' \<Longrightarrow> cancel_wanted b \<Longrightarrow> cancel_wanted b'"
proof (induction rule: bridge_step.induct)
  case (receive b q fresh)
  then show ?case
    by (auto simp: receive_def cancel_wanted_def Let_def replay_or_fenced_def dest!: current_Inr split: sum.split)
next
  case (decide b op subject generation approval outcome starts)
  then show ?case
    by (auto simp: decide_reserve_def cancel_wanted_def Let_def replay_or_fenced_def dest!: current_Inr
        split: sum.split json.split option.split)
next
  case (decide_fail op b)
  then show ?case by (auto simp: decide_fail_def cancel_wanted_def Let_def dest!: current_Inr split: sum.split)
next
  case (decide_settle op b approval outcome)
  then show ?case
    by (auto simp: decide_settle_def cancel_wanted_def Let_def dest!: current_Inr split: sum.split option.splits)
next
  case (fence b)
  then show ?case by (auto simp: fence_def cancel_wanted_def dest!: current_Inr split: sum.split)
next
  case (cancel b op starts)
  then show ?case unfolding cancel_def by (simp add: wanted_retire)
next
  case (finalize b op goal starts)
  then show ?case unfolding finalize_def by (auto simp: wanted_retire)
next
  case (stop_ends b r)
  then show ?case by (auto simp: stop_ends_def cancel_wanted_def split: option.split)
next
  case (retire_fail b c)
  then show ?case by (auto simp: retire_fail_def cancel_wanted_def dest!: current_Inr split: sum.split)
next
  case (retire_end b)
  then show ?case using wanted_accept [of b]
    by (auto simp: retire_end_def split: option.split sum.split)
next
  case (resolve_stop b)
  then show ?case using wanted_accept [of b]
    by (auto simp: resolve_stop_def split: sum.split option.split)
qed (simp_all add: reply_ends_def cancel_wanted_def)

lemma cancel_makes_wanted:
  assumes "bridge_inv b" "t_state (b_task b) \<notin> {Completed, Failed, Cancelled}"
  shows "cancel_wanted (snd (cancel op starts b))"
proof -
  from assms(1) obtain n where n: "t_native (b_task b) = Some n" and i: "identity_part n b"
    and p: "phase_state n (t_state (b_task b))" by (rule bridge_invE)
  have "n_phase n \<noteq> P_Stopped" using p assms(2) by (auto simp: phase_state_def terminal_def)
  then show ?thesis
    unfolding cancel_def retire_begin_def current_own [OF n i]
    by (auto simp: cancel_wanted_def Let_def)
qed

interpretation bridged: step_invariant "bridge_step width" bridge_inv for width
  by unfold_locales (rule bridge_step_inv)

interpretation wanted: step_invariant "bridge_step width" cancel_wanted for width
  by unfold_locales (rule wanted_step)

lemma steps_closed: "(bridge_step width)\<^sup>*\<^sup>* b b' \<Longrightarrow> bridge_inv b \<Longrightarrow> closed_bridge b \<Longrightarrow>
    bridge_inv b' \<and> closed_bridge b' \<and> b_replies b' = b_replies b"
  by (induction rule: rtranclp_induct) (auto dest: bridge_step_inv closed_step)

section \<open>Properties\<close>

text \<open>C2: However requests, decisions, timeouts and cancellations interleave, each native tool call is
  answered at most once, and \<open>allowed-once\<close> is sent only for a task that admits writes.\<close>

theorem one_answer_per_call:
  assumes "bridge_reachable width b"
  shows "distinct (map r_call (b_replies b)) \<and>
    (\<forall>r \<in> set (b_replies b). r_outcome r = ''allowed-once'' \<longrightarrow> t_writes (b_task b))"
  using reachable_inv [OF assms] by (auto simp: bridge_inv_def reply_part_def)


text \<open>The native process is asked to stop at most once, and only after the journal holds the
  operation of that very request.\<close>

theorem stop_asked_once:
  assumes "bridge_reachable width b"
  shows "length (b_stops b) \<le> 1 \<and>
    (\<forall>op \<in> set (b_stops b). \<exists>s n. t_saved (b_task b) = Some s \<and> s_native s = Some n \<and>
       n_stop_operation n = Some op)"
proof -
  from reachable_inv [OF assms] obtain n where n: "t_native (b_task b) = Some n"
    and j: "journal_part (b_task b)" and st: "stop_part n (b_stops b) b" by (rule bridge_invE)
  from j n obtain s where "t_saved (b_task b) = Some s" "s_native s = Some n" by (auto simp: journal_part_def)
  with st show ?thesis unfolding stop_part_def by (cases "n_stop_operation n") auto
qed


text \<open>C3: A cancellation wins: once \<open>cancel\<close> was called on a task that has not ended, the only terminal
  state it can reach is cancelled, whatever finalisation was already under way.\<close>

theorem cancellation_wins:
  assumes "bridge_reachable width b" and "\<not> terminal (t_state (b_task b))" and "fresh_operation b op"
    and "(bridge_step width)\<^sup>*\<^sup>* (snd (cancel op starts b)) b'" and "terminal (t_state (b_task b'))"
  shows "t_state (b_task b') = Cancelled"
proof -
  note inv = reachable_inv [OF assms(1)]
  have "cancel_wanted (snd (cancel op starts b))"
    using cancel_makes_wanted [OF inv] assms(2) by (auto simp: terminal_def)
  then have w: "cancel_wanted b'" by (rule wanted.reachable [OF assms(4)])
  have "bridge_inv (snd (cancel op starts b))"
    by (rule bridge_step_inv [OF bridge_step.cancel [OF assms(3)] inv])
  then have "bridge_inv b'" by (rule bridged.reachable [OF assms(4)])
  then obtain n where n: "t_native (b_task b') = Some n" and p: "phase_state n (t_state (b_task b'))"
    and st: "stop_part n (b_stops b') b'" by (rule bridge_invE)
  have "n_phase n = P_Stopped" using p assms(5) by (auto simp: phase_state_def terminal_def split: phase.splits)
  with p st w n show ?thesis by (auto simp: phase_state_def stop_part_def stopping_def cancel_wanted_def)
qed

text \<open>A decision is written ahead: whenever \<open>decide\<close> starts a response, the journal already holds
  the reservation with that operation, call and outcome.\<close>

theorem decision_written_ahead:
  assumes "b_replies (snd (decide_reserve subject generation approval outcome op starts b)) \<noteq> b_replies b"
  shows "\<exists>s n p r. t_saved (b_task (snd (decide_reserve subject generation approval outcome op starts b))) = Some s \<and>
    s_native s = Some n \<and> n_phase n = P_Reserved \<and> n_pending n = Some p \<and>
    b_replies (snd (decide_reserve subject generation approval outcome op starts b)) = b_replies b @ [r] \<and>
    p_operation p = Some (r_operation r) \<and> p_decision p = Some (r_outcome r) \<and> p_call p = r_call r \<and>
    subject = b_subject b \<and> generation = b_generation b"
proof (cases "t_native (b_task b)")
  case None
  with assms show ?thesis by (simp add: decide_reserve_def current_def stale_def split: json.splits if_splits)
next
  case (Some n)
  from decide_reserve_refused [OF this, of subject generation approval outcome op starts] assms
  obtain out q where c: "outcome = JStr out" "current b subject generation = Inr n" "n_pending n = Some q"
      "out = ''allowed-once'' \<longrightarrow> t_writes (b_task b)"
      "n_phase n = P_Awaiting" "t_state (b_task b) = Awaiting_Approval" "out \<in> set outcomes" "p_approval q = approval"
    by auto
  have starts: "starts" using assms c by (auto simp: decide_reserve_def Let_def split: if_splits)
  then show ?thesis
    using c current_Inr [OF c(2)] by (auto simp: decide_reserve_def Let_def put_def)
qed

section \<open>Witnesses\<close>

definition zero_id :: "char \<Rightarrow> string" where "zero_id c = replicate 31 CHR ''0'' @ [c]"

definition example_task :: task where
  "example_task = \<lparr> t_id = zero_id CHR ''1'', t_runtime = ''sdk'', t_project = ''p'', t_writes = True,
     t_backend = ''private'', t_handoff = None, t_prompt = ''x'', t_handoff_prompt = [],
     t_correlation = zero_id CHR ''2'', t_state = Running, t_native = None, t_openshell = JNull,
     t_stage = JNull, t_stages = [], t_finished = False, t_sequence = 0, t_events = [],
     t_event_bytes = 0, t_saved = None \<rparr>"

definition example_start :: bridge where
  "example_start = (case new_bridge example_task ''owner'' ''g1'' ''s1'' True (JInt 5) of Inr b \<Rightarrow> b | Inl _ \<Rightarrow> undefined)"

lemma example_start: "new_bridge example_task ''owner'' ''g1'' ''s1'' True (JInt 5) = Inr example_start"
  "hex_id 32 (t_id example_task)"
  by code_simp+

definition example_request :: native_request where
  "example_request = \<lparr> q_method = ''approval/request'', q_id = JInt 7,
     q_payload = JObj [(''sessionId'', JStr ''s1''), (''toolName'', JStr ''write''), (''callId'', JStr ''c1'')] \<rparr>"

definition example_asked :: bridge where
  "example_asked = snd (receive (\<lambda>_. 10) example_request ''a1'' example_start)"

definition example_reserved :: bridge where
  "example_reserved = snd (decide_reserve ''owner'' ''g1'' ''a1'' (JStr ''allowed-once'') (zero_id CHR ''3'') True example_asked)"

definition example_cancelled :: bridge where
  "example_cancelled = snd (cancel (zero_id CHR ''4'') True example_reserved)"

definition example_receipt :: json where
  "example_receipt = stop_proof (stop_ids example_start (zero_id CHR ''4''))"

definition example_stopped :: bridge where
  "example_stopped = retire_end (\<lambda>_. 10) (stop_ends (Inr example_receipt) example_cancelled)"

lemma example_facts:
  "fresh_operation example_asked (zero_id CHR ''3'')" "fresh_operation example_reserved (zero_id CHR ''4'')"
  "map r_call (b_replies example_reserved) = [''c1'']" "b_stops example_stopped = [zero_id CHR ''4'']"
  "t_state (b_task example_stopped) = Cancelled" "t_state (b_task example_reserved) = Awaiting_Approval"
  "b_retiring (stop_ends (Inr example_receipt) example_cancelled)"
  "b_replies example_asked = []"
  by code_simp+

lemma example_reachable:
  "bridge_reachable (\<lambda>_. 10) example_reserved" "bridge_reachable (\<lambda>_. 10) example_cancelled"
  "bridge_reachable (\<lambda>_. 10) example_stopped"
  "(bridge_step (\<lambda>_. 10))\<^sup>*\<^sup>* example_cancelled example_stopped"
proof -
  have "bridge_reachable (\<lambda>_. 10) example_start"
    using example_start by (intro bridge_reachable.start) (unfold start_state_def, blast)
  from bridge_reachable.step [OF this bridge_step.receive] have "bridge_reachable (\<lambda>_. 10) example_asked"
    unfolding example_asked_def .
  from bridge_reachable.step [OF this bridge_step.decide [OF example_facts(1)]]
  show r: "bridge_reachable (\<lambda>_. 10) example_reserved" unfolding example_reserved_def .
  from bridge_reachable.step [OF this bridge_step.cancel [OF example_facts(2)]]
  show c: "bridge_reachable (\<lambda>_. 10) example_cancelled" unfolding example_cancelled_def .
  note s1 = bridge_step.stop_ends [of "\<lambda>_. 10" example_cancelled "Inr example_receipt"]
  note s2 = bridge_step.retire_end [of _ "\<lambda>_. 10", OF example_facts(7), folded example_stopped_def]
  show "bridge_reachable (\<lambda>_. 10) example_stopped"
    by (rule bridge_reachable.step [OF bridge_reachable.step [OF c s1] s2])
  show "(bridge_step (\<lambda>_. 10))\<^sup>*\<^sup>* example_cancelled example_stopped"
    using s1 s2 by (rule converse_rtranclp_into_rtranclp [OF _ r_into_rtranclp])
qed

theorem one_answer_per_call_witness:
  "map r_call (b_replies example_reserved) = [''c1''] \<and> distinct (map r_call (b_replies example_reserved))"
  using one_answer_per_call [OF example_reachable(1)] example_facts(3) by blast


theorem stop_asked_once_witness:
  "b_stops example_stopped = [zero_id CHR ''4''] \<and>
   (\<exists>s n. t_saved (b_task example_stopped) = Some s \<and> s_native s = Some n \<and> n_stop_operation n = Some (zero_id CHR ''4''))"
  using stop_asked_once [OF example_reachable(3)] example_facts(4) by simp

lemma example_closed:
  "closed_phase (n_phase (the (t_native (b_task example_cancelled))))"
  "t_native (b_task example_cancelled) = Some (the (t_native (b_task example_cancelled)))"
  by code_simp+


theorem cancellation_wins_witness: "t_state (b_task example_stopped) = Cancelled"
  using cancellation_wins [OF example_reachable(1) _ example_facts(2)
      example_reachable(4) [unfolded example_cancelled_def]] example_facts(5,6)
  by (simp add: terminal_def)

theorem decision_written_ahead_witness:
  "\<exists>s n. t_saved (b_task example_reserved) = Some s \<and> s_native s = Some n \<and> n_phase n = P_Reserved"
proof -
  have "b_replies example_reserved \<noteq> b_replies example_asked" using example_facts(3,8) by auto
  from decision_written_ahead [OF this [unfolded example_reserved_def]] show ?thesis
    unfolding example_reserved_def [symmetric] by blast
qed

end
