(* ===== verification/Task_Broker.thy ===== *)
theory Task_Broker imports Task_Runner Sdk_Approval begin

text \<open>
  The task broker's registry and HTTP interface, \<open>container/dsh-task-broker.py\<close>: confinement of
  project paths, recovery of the journals left by an earlier process (\<open>Task.recover\<close>,
  \<open>Registry.__init__\<close>), admission of a new task (\<open>Registry.create\<close>) and the request handler.
  The file system's \<open>resolve\<close> and \<open>is_dir\<close>, the fresh identifiers and the OpenShell and native SDK
  services are parameters.  Time stamps are left out.
\<close>

section \<open>Project confinement\<close>

text \<open>A path is the list of its parts; \<open>resolve\<close> stands for \<open>(WORKSPACE / value).resolve()\<close>.\<close>

record files =
  fs_workspace :: "string list"
  fs_resolve :: "string \<Rightarrow> string list"
  fs_is_dir :: "string list \<Rightarrow> bool"

definition path_parents :: "string list \<Rightarrow> string list list" where
  "path_parents p = map (\<lambda>n. take n p) [0..<length p]"

definition confined_project :: "files \<Rightarrow> json \<Rightarrow> string list res" where
  "confined_project fs v =
     (case v of
        JStr s \<Rightarrow>
          if s = [] \<or> 512 < int (length s) \<or> CHR 0x00 \<in> set s then Inl (ValueError ''INVALID_PROJECT'')
          else (let candidate = fs_resolve fs s in
                if candidate \<noteq> fs_workspace fs \<and> fs_workspace fs \<notin> set (path_parents candidate)
                then Inl (ValueError ''INVALID_PROJECT'')
                else if \<not> fs_is_dir fs candidate then Inl (ValueError ''PROJECT_NOT_FOUND'')
                else Inr candidate)
      | _ \<Rightarrow> Inl (ValueError ''INVALID_PROJECT''))"

section \<open>Recovery of a journal\<close>

text \<open>A journal is JSON; \<open>Task.save\<close> is its only writer.  A field of a type that \<open>save\<close> never
  writes ends in an error here.\<close>

definition want_str :: "json \<Rightarrow> string res" where
  "want_str v = (case v of JStr s \<Rightarrow> Inr s | _ \<Rightarrow> Inl (TypeError ''str''))"

definition want_bool :: "json \<Rightarrow> bool res" where
  "want_bool v = (case v of JBool b \<Rightarrow> Inr b | _ \<Rightarrow> Inl (TypeError ''bool''))"

definition want_nat :: "json \<Rightarrow> nat res" where
  "want_nat v = (case v of JInt n \<Rightarrow> if 0 \<le> n then Inr (nat n) else Inl (TypeError ''int'') | _ \<Rightarrow> Inl (TypeError ''int''))"

definition want_list :: "json \<Rightarrow> json list res" where
  "want_list v = (case v of JList xs \<Rightarrow> Inr xs | _ \<Rightarrow> Inl (TypeError ''list''))"

definition want_opt :: "(json \<Rightarrow> 'a res) \<Rightarrow> json \<Rightarrow> 'a option res" where
  "want_opt f v = (case v of JNull \<Rightarrow> Inr None | _ \<Rightarrow> res_bind (f v) (\<lambda>x. Inr (Some x)))"

definition named :: "('a \<Rightarrow> string) \<Rightarrow> 'a list \<Rightarrow> json \<Rightarrow> 'a res" where
  "named show all v =
     (case v of JStr s \<Rightarrow> (case map_of (map (\<lambda>x. (show x, x)) all) s of Some x \<Rightarrow> Inr x | None \<Rightarrow> Inl (ValueError s))
      | _ \<Rightarrow> Inl (TypeError ''str''))"

definition all_states :: "tstate list" where
  "all_states = [Queued, Running, Handoff, Finalizing, Cancelling, Awaiting_Approval, Completed, Failed, Cancelled, Interrupted]"

definition all_phases :: "phase list" where
  "all_phases = [P_Running, P_Awaiting, P_Reserved, P_Decision_Uncertain, P_Fenced, P_Stop_Reserved, P_Stop_Uncertain,
     P_Stopped, P_Fenced_After_Recovery, P_Launch_Reserved, P_Recovery_Reserved, P_Recovery_Uncertain,
     P_Recovery_Unverified, P_Observer_Uncertain]"

definition read_pending :: "json \<Rightarrow> pending res" where
  "read_pending v =
     res_bind (want_str (jget v ''approvalId'')) (\<lambda>approval.
     res_bind (want_str (jget v ''callId'')) (\<lambda>call_id.
     res_bind (want_str (jget v ''toolName'')) (\<lambda>tool.
     res_bind (want_opt want_str (jget v ''decision'')) (\<lambda>decision.
     res_bind (want_opt want_str (jget v ''decisionOperationId'')) (\<lambda>operation.
     Inr \<lparr> p_approval = approval, p_request_id = jget v ''requestId'', p_call = call_id, p_tool = tool,
           p_decision = decision, p_operation = operation \<rparr>)))))"

definition read_native_identity :: "json \<Rightarrow> native res" where
  "read_native_identity v =
     res_bind (want_str (jget v ''subject'')) (\<lambda>subject.
     res_bind (want_str (jget v ''generation'')) (\<lambda>generation.
     res_bind (want_str (jget v ''taskId'')) (\<lambda>tid.
     res_bind (want_str (jget v ''project'')) (\<lambda>project.
     res_bind (want_str (jget v ''correlationId'')) (\<lambda>correlation.
     res_bind (want_str (jget v ''sessionId'')) (\<lambda>session.
     Inr \<lparr> n_subject = subject, n_generation = generation, n_task = tid, n_project = project,
       n_correlation = correlation, n_session = session, n_phase = P_Running, n_pending = None,
       n_used = [], n_stop_operation = None, n_desired = None, n_receipt = None,
       n_launch = None, n_managed = False, n_identity = None, n_never_started = False \<rparr>))))))"

definition present :: "json \<Rightarrow> json option" where
  "present v = (if v = JNull then None else Some v)"

definition read_native :: "json \<Rightarrow> native res" where
  "read_native v =
     res_bind (read_native_identity v) (\<lambda>n.
     res_bind (named phase_text all_phases (jget v ''phase'')) (\<lambda>ph.
     res_bind (want_opt read_pending (jget v ''pending'')) (\<lambda>p.
     res_bind (res_bind (want_list (jget v ''usedCallIds'')) (res_map want_str)) (\<lambda>used.
     res_bind (want_opt want_str (jget v ''stopOperationId'')) (\<lambda>stop_op.
     res_bind (want_opt (named tstate_text all_states) (jget v ''desiredTerminalState'')) (\<lambda>desired.
     res_bind (want_opt want_str (jget v ''launchOperationId'')) (\<lambda>launch.
     Inr (n\<lparr> n_phase := ph, n_pending := p, n_used := used, n_stop_operation := stop_op, n_desired := desired,
            n_receipt := present (jget v ''stopReceipt''), n_launch := launch,
            n_managed := truthy (jget v ''managedSession''), n_identity := present (jget v ''runtimeIdentity''),
            n_never_started := truthy (jget v ''nativeNeverStarted'') \<rparr>))))))))"

text \<open>The record of \<open>Task.recover\<close> before the native section is looked at.  The event log is the
  file beside the journal; the prompt was never saved.\<close>

definition journal_task :: "json \<Rightarrow> event list \<Rightarrow> int \<Rightarrow> task res" where
  "journal_task v events bytes =
     res_bind (res_bind (py_idx v ''id'') want_str) (\<lambda>tid.
     res_bind (res_bind (py_idx v ''runtime'') want_str) (\<lambda>runtime.
     res_bind (res_bind (py_idx v ''project'') want_str) (\<lambda>project.
     res_bind (res_bind (py_get_or v ''writes'' (JBool False)) want_bool) (\<lambda>writes.
     res_bind (want_opt want_str (jget v ''handoffRuntime'')) (\<lambda>handoff.
     res_bind (res_bind (py_get_or v ''correlationId'' (JStr tid)) want_str) (\<lambda>correlation.
     res_bind (res_bind (py_get_or v ''nativeStages'' (JList [])) want_list) (\<lambda>stages.
     res_bind (want_opt read_native (jget v ''nativeSdk'')) (\<lambda>nat_sdk.
     res_bind (res_bind (py_get_or v ''backend'' (JStr ''private'')) want_str) (\<lambda>backend.
     res_bind (res_bind (py_get_or v ''sequence'' (JInt 0)) want_nat) (\<lambda>sq.
     res_bind (res_bind (py_idx v ''state'') (named tstate_text all_states)) (\<lambda>state.
     Inr \<lparr> t_id = tid, t_runtime = runtime, t_project = project, t_writes = writes, t_backend = backend,
       t_handoff = handoff, t_prompt = [], t_handoff_prompt = [], t_correlation = correlation, t_state = state,
       t_native = nat_sdk, t_openshell = jget v ''openshell'', t_stage = jget v ''executionStage'',
       t_stages = stages, t_finished = True, t_sequence = sq, t_events = events, t_event_bytes = bytes,
       t_saved = None \<rparr>)))))))))))"

definition fence_recovered :: "json \<Rightarrow> task \<Rightarrow> task" where
  "fence_recovered v t =
     (case t_native t of
        None \<Rightarrow> t
      | Some n \<Rightarrow>
          if verified_terminal_stop v then t
          else t\<lparr> t_native := Some (n\<lparr> n_phase := P_Fenced_After_Recovery \<rparr>),
                  t_state := if terminal (t_state t) then t_state t else Interrupted \<rparr>)"

definition recover :: "json \<Rightarrow> event list \<Rightarrow> int \<Rightarrow> task res" where
  "recover v events bytes =
     res_bind (journal_task v events bytes) (\<lambda>t.
     let t' = fence_recovered v t in Inr (if t_native t' \<noteq> None then save t' else t'))"

section \<open>The registry\<close>

record journal_file =
  j_value :: "json option"
  j_events :: "event list"
  j_bytes :: int

record registry =
  g_tasks :: "(string \<times> runner) list"
  g_threads :: "(string \<times> string) list"

definition unfinished_states :: "json list" where
  "unfinished_states = map JStr [''queued'', ''running'', ''handoff'', ''finalizing'', ''cancelling'']"

definition settled_states :: "json list" where
  "settled_states = map JStr [''completed'', ''failed'', ''cancelled'', ''interrupted'', ''awaiting_approval'']"

text \<open>First part of the loop body: the file of a task that was under way is rewritten.\<close>

definition settle_file :: "journal_file \<Rightarrow> journal_file" where
  "settle_file f =
     (case j_value f of
        None \<Rightarrow> f
      | Some v \<Rightarrow> if is_obj v \<and> jget v ''state'' \<in> set unfinished_states
                 then f\<lparr> j_value := Some (jset ''state'' (JStr ''interrupted'') v) \<rparr> else f)"

text \<open>A task without a thread of its own.\<close>

definition idle_runner :: "task \<Rightarrow> runner" where
  "idle_runner t = (new_runner t)\<lparr> r_pc := R_Idle \<rparr>"

definition load_file :: "journal_file \<Rightarrow> registry \<Rightarrow> registry" where
  "load_file f g =
     (case j_value f of
        None \<Rightarrow> g
      | Some v \<Rightarrow>
          (case jget v ''id'' of
             JStr tid \<Rightarrow>
               if is_obj v \<and> hex_id 32 tid \<and> jget v ''state'' \<in> set settled_states
               then (case recover v (j_events f) (j_bytes f) of
                       Inl e \<Rightarrow> g
                     | Inr t \<Rightarrow> g\<lparr> g_tasks := AList.update tid (idle_runner t) (g_tasks g) \<rparr>)
               else g
           | _ \<Rightarrow> g))"

definition init_registry :: "journal_file list \<Rightarrow> registry" where
  "init_registry fs = fold load_file (map settle_file fs) \<lparr> g_tasks = [], g_threads = [] \<rparr>"

record task_request =
  rq_runtime :: string
  rq_backend :: string
  rq_project :: string
  rq_prompt :: string
  rq_writes :: bool
  rq_handoff :: "string option"
  rq_handoff_prompt :: string

record service =
  sv_subject :: string
  sv_qualified :: bool

text \<open>\<open>Task.__init__\<close>\<close>

definition new_task :: "(event \<Rightarrow> int) \<Rightarrow> string \<Rightarrow> string \<Rightarrow> task_request \<Rightarrow> task" where
  "new_task width tid correlation q =
     save (emit width ''queued'' (JObj [(''runtime'', JStr (rq_runtime q)), (''project'', JStr (rq_project q))])
       \<lparr> t_id = tid, t_runtime = rq_runtime q, t_project = rq_project q, t_writes = rq_writes q,
         t_backend = rq_backend q, t_handoff = rq_handoff q, t_prompt = rq_prompt q,
         t_handoff_prompt = rq_handoff_prompt q, t_correlation = correlation, t_state = Queued, t_native = None,
         t_openshell = JNull, t_stage = JNull, t_stages = [], t_finished = False, t_sequence = 0, t_events = [],
         t_event_bytes = 0, t_saved = None \<rparr>)"

text \<open>The condition under which an existing task keeps a new one out.\<close>

definition busy_task :: "task \<Rightarrow> bool" where
  "busy_task t =
     (t_state t \<in> {Queued, Running, Handoff, Finalizing, Cancelling, Awaiting_Approval} \<or>
      (case t_native t of None \<Rightarrow> False | Some n \<Rightarrow> n_phase n \<noteq> P_Stopped) \<or>
      (case t_native t of None \<Rightarrow> False | Some n \<Rightarrow> n_managed n \<and> \<not> t_finished t) \<or>
      (t_backend t = ''openshell'' \<and> truthy (t_openshell t) \<and> jget (t_openshell t) ''phase'' \<noteq> JStr ''stopped''))"

definition create :: "(event \<Rightarrow> int) \<Rightarrow> string \<Rightarrow> string \<Rightarrow> task_request \<Rightarrow> service option \<Rightarrow> service option \<Rightarrow>
    registry \<Rightarrow> task res \<times> registry" where
  "create width tid correlation q execution sdk g =
     (if list_ex (\<lambda>(k, r). busy_task (r_task r)) (g_tasks g) then (Inl (RuntimeError ''TASK_ALREADY_ACTIVE''), g)
      else if rq_backend q = ''private'' \<and> rq_runtime q = ''sdk'' \<and> (case sdk of None \<Rightarrow> True | Some s \<Rightarrow> \<not> sv_qualified s)
      then (Inl (RuntimeError ''OFFICIAL_SDK_NOT_QUALIFIED''), g)
      else
        (let t = new_task width tid correlation q in
         if rq_backend q = ''openshell'' then
           (case execution of
              None \<Rightarrow> (Inl (RuntimeError ''OPENSHELL_NOT_QUALIFIED''), g\<lparr> g_tasks := AList.delete tid (g_tasks g) \<rparr>)
            | Some s \<Rightarrow> (Inr t, g\<lparr> g_tasks := AList.update tid (idle_runner t) (g_tasks g),
                                 g_threads := g_threads g @ [(''openshell'', tid)] \<rparr>))
         else if rq_runtime q = ''sdk'' then
           (Inr t, g\<lparr> g_tasks := AList.update tid (idle_runner t) (g_tasks g),
                     g_threads := g_threads g @ [(''sdk'', tid)] \<rparr>)
         else (Inr t, g\<lparr> g_tasks := AList.update tid (new_runner t) (g_tasks g),
                        g_threads := g_threads g @ [(''run'', tid)] \<rparr>)))"

definition get_task :: "registry \<Rightarrow> string \<Rightarrow> runner option" where
  "get_task g tid = (if hex_id 32 tid then map_of (g_tasks g) tid else None)"

section \<open>Requests\<close>

record http =
  h_path :: string
  h_query :: string
  h_auth :: string
  h_subject :: string
  h_length :: "int option"
  h_body :: "json res"

record server =
  sr_registry :: registry
  sr_token :: "string option"
  sr_openshell :: "service option"
  sr_sdk :: "service option"
  sr_bridges :: "string list"
  sr_files :: files

datatype answer = Answer int json | Crash exn

definition error_json :: "string \<Rightarrow> json" where
  "error_json e = JObj [(''error'', JStr e)]"

definition ascii :: "string \<Rightarrow> bool" where
  "ascii s = list_all (\<lambda>c. (of_char c :: int) < 128) s"

text \<open>\<open>hmac.compare_digest\<close> refuses text that is not ASCII.\<close>

definition authorized :: "server \<Rightarrow> http \<Rightarrow> bool res" where
  "authorized s h =
     (case sr_token s of
        None \<Rightarrow> Inr False
      | Some content \<Rightarrow>
          let expected = strip content in
          if length expected < 20 then Inr False
          else if \<not> ascii (h_auth h) \<or> \<not> ascii expected then Inl (TypeError ''compare_digest'')
          else Inr (h_auth h = ''Bearer '' @ expected))"

definition MAX_BODY :: int where "MAX_BODY = 131072"

definition body_of :: "http \<Rightarrow> json res" where
  "body_of h =
     (case h_length h of
        None \<Rightarrow> Inl (ValueError ''INVALID_LENGTH'')
      | Some n \<Rightarrow> if n < 2 \<or> n > MAX_BODY then Inl (ValueError ''INVALID_LENGTH'') else h_body h)"

text \<open>\<open>/v1/tasks/<id><suffix>\<close>\<close>

definition task_path :: "string \<Rightarrow> string \<Rightarrow> string option" where
  "task_path suffix p =
     (let tid = take 32 (drop 10 p) in
      if startswith ''/v1/tasks/'' p \<and> hex_id 32 tid \<and> drop 42 p = suffix then Some tid else None)"

text \<open>\<open>int(s)\<close>: white space around, one sign, digits with single underscores between them.\<close>

fun digits_of :: "string \<Rightarrow> string option" where
  "digits_of [] = None"
| "digits_of [c] = (if c \<in> set digit_chars then Some [c] else None)"
| "digits_of (c # d # ds) =
     (if c \<notin> set digit_chars then None
      else map_option ((#) c) (digits_of (if d = CHR ''_'' then ds else d # ds)))"

definition py_int :: "string \<Rightarrow> int res" where
  "py_int s0 =
     (let s = strip s0;
          neg = (s \<noteq> [] \<and> hd s = CHR ''-'');
          rest = (if s \<noteq> [] \<and> hd s \<in> {CHR ''-'', CHR ''+''} then tl s else s) in
      case digits_of rest of
        None \<Rightarrow> Inl (ValueError s0)
      | Some ds \<Rightarrow> Inr (if neg then - int_of_digits ds else int_of_digits ds))"

definition query_pairs :: "string \<Rightarrow> (string \<times> string) list" where
  "query_pairs q = map (\<lambda>x. (before_char CHR ''='' x, drop (Suc (length (before_char CHR ''='' x))) x))
     (filter (\<lambda>x. CHR ''='' \<in> set x) (split_char CHR ''&'' q))"

definition cursor :: "string \<Rightarrow> int res" where
  "cursor q =
     res_bind (py_int (case map_of (rev (query_pairs q)) ''after'' of Some v \<Rightarrow> v | None \<Rightarrow> ''0''))
       (\<lambda>n. Inr (max 0 n))"

definition event_json :: "event \<Rightarrow> json" where
  "event_json e = JObj [(''sequence'', JInt (int (e_sequence e))), (''type'', JStr (e_type e)), (''data'', e_data e)]"

text \<open>\<open>rows[-200:]\<close> of the events after the cursor.\<close>

definition event_page :: "task \<Rightarrow> int \<Rightarrow> event list" where
  "event_page t after =
     (let rows = filter (\<lambda>e. int (e_sequence e) > after) (t_events t) in drop (length rows - 200) rows)"

definition approval_ticket :: "task \<Rightarrow> json" where
  "approval_ticket t =
     (case t_native t of
        None \<Rightarrow> JNull
      | Some n \<Rightarrow>
          if n_phase n = P_Awaiting \<and> t_state t = Awaiting_Approval then
            (case n_pending n of
               None \<Rightarrow> JNull
             | Some p \<Rightarrow> JObj [(''approvalId'', JStr (p_approval p)), (''generation'', JStr (n_generation n)),
                 (''toolName'', JStr (p_tool p)), (''callId'', JStr (p_call p)),
                 (''allowOnceAdmitted'', JBool (t_writes t))])
          else JNull)"

definition foreign_native :: "task \<Rightarrow> http \<Rightarrow> bool" where
  "foreign_native t h = (case t_native t of None \<Rightarrow> False | Some n \<Rightarrow> h_subject h \<noteq> n_subject n)"

definition events_answer :: "http \<Rightarrow> task \<Rightarrow> answer" where
  "events_answer h t =
     (if foreign_native t h then Answer 403 (error_json ''FOREIGN_NATIVE_SDK_SUBJECT'')
      else
        (case cursor (h_query h) of
           Inl e \<Rightarrow> Answer 400 (error_json ''INVALID_CURSOR'')
         | Inr after \<Rightarrow>
             Answer 200 (JObj [(''taskId'', JStr (t_id t)), (''state'', JStr (tstate_text (t_state t))),
               (''events'', JList (map event_json (event_page t after))), (''next'', JInt (int (t_sequence t))),
               (''nativeApproval'', approval_ticket t)])))"

definition enabled :: "service option \<Rightarrow> bool" where
  "enabled s = (case s of None \<Rightarrow> False | Some v \<Rightarrow> sv_qualified v)"

definition capabilities :: "server \<Rightarrow> json" where
  "capabilities s =
     JObj [(''runtimes'', JList (map JStr [''claude'', ''deepagents'', ''kilo'', ''sdk''])),
       (''runtimeDetails'', JObj [(''sdk'', JObj [(''enabled'', JBool (enabled (sr_sdk s))),
          (''implementation'', JStr ''official-native''), (''handoffEnabled'', JBool False),
          (''reason'', JStr (if enabled (sr_sdk s) then ''Qualified native runner configured''
                            else ''Official SDK native runtime qualification pending''))])]),
       (''backends'', JList [
          JObj [(''id'', JStr ''private''), (''enabled'', JBool True)],
          JObj [(''id'', JStr ''openshell''), (''enabled'', JBool (enabled (sr_openshell s))),
            (''reason'', JStr (if enabled (sr_openshell s) then ''Qualified native transport''
                              else ''OpenShell requires 25-gate Test and rollback qualification''))]])]"

definition with_auth :: "server \<Rightarrow> http \<Rightarrow> (answer \<times> server) \<Rightarrow> answer \<times> server" where
  "with_auth s h k =
     (case authorized s h of
        Inl e \<Rightarrow> (Crash e, s)
      | Inr ok \<Rightarrow> if ok then k else (Answer 401 (error_json ''UNAUTHORIZED''), s))"

definition do_GET :: "server \<Rightarrow> http \<Rightarrow> answer \<times> server" where
  "do_GET s h = with_auth s h
     ((if h_path h = ''/health'' then Answer 200 (JObj [(''status'', JStr ''ok'')])
       else if h_path h = ''/v1/capabilities'' then Answer 200 (capabilities s)
       else
         (case task_path ''/events'' (h_path h) of
            None \<Rightarrow> Answer 404 (error_json ''NOT_FOUND'')
          | Some tid \<Rightarrow>
              (case get_task (sr_registry s) tid of
                 None \<Rightarrow> Answer 404 (error_json ''TASK_NOT_FOUND'')
               | Some r \<Rightarrow> events_answer h (r_task r)))), s)"

section \<open>Creating a task\<close>

text \<open>\<open>x in {...}\<close> of text members: lists and dictionaries are not hashable.\<close>

definition py_in :: "json \<Rightarrow> string list \<Rightarrow> bool res" where
  "py_in v xs = (case v of JStr s \<Rightarrow> Inr (s \<in> set xs) | JList _ \<Rightarrow> Inl (TypeError ''unhashable'')
     | JObj _ \<Rightarrow> Inl (TypeError ''unhashable'') | _ \<Rightarrow> Inr False)"

definition RUNTIMES :: "string list" where "RUNTIMES = [''sdk'', ''claude'', ''deepagents'', ''kilo'']"

definition required_keys :: "string list" where
  "required_keys = [''runtime'', ''backend'', ''project'', ''prompt'', ''writes'', ''approved'']"

definition valid_keys :: "json \<Rightarrow> bool" where
  "valid_keys v =
     (is_obj v \<and> list_all (jhas v) required_keys \<and>
      list_all (\<lambda>k. k \<in> set (required_keys @ [''handoffRuntime'', ''handoffPrompt''])) (jkeys v))"

text \<open>The service that will run the task, with the server-assigned subject checked.\<close>

definition select_service :: "server \<Rightarrow> http \<Rightarrow> json \<Rightarrow> unit res" where
  "select_service s h v =
     (if jget v ''runtime'' = JStr ''sdk'' \<and> jget v ''backend'' = JStr ''openshell''
      then Inl (ValueError ''OFFICIAL_SDK_NATIVE_WORKER_NOT_QUALIFIED'')
      else if jget v ''backend'' = JStr ''openshell'' then
        (case sr_openshell s of
           None \<Rightarrow> Inl (ValueError ''UNAVAILABLE_SELECTION'')
         | Some sv \<Rightarrow>
             if \<not> sv_qualified sv then Inl (ValueError ''UNAVAILABLE_SELECTION'')
             else if h_subject h \<noteq> sv_subject sv then Inl (ValueError ''FOREIGN_SUBJECT'') else Inr ())
      else if jget v ''runtime'' = JStr ''sdk'' then
        (case sr_sdk s of
           None \<Rightarrow> Inl (HTTPException 503 ''OFFICIAL_SDK_NOT_QUALIFIED'')
         | Some sv \<Rightarrow>
             if \<not> sv_qualified sv then Inl (HTTPException 503 ''OFFICIAL_SDK_NOT_QUALIFIED'')
             else if h_subject h \<noteq> sv_subject sv then Inl (ValueError ''FOREIGN_NATIVE_SDK_SUBJECT'')
             else if truthy (jget v ''handoffRuntime'') then Inl (ValueError ''NATIVE_SDK_HANDOFF_NOT_YET_QUALIFIED'')
             else Inr ())
      else Inr ())"

definition handoff_prompt_of :: "json \<Rightarrow> json" where
  "handoff_prompt_of v = (if jhas v ''handoffPrompt'' then jget v ''handoffPrompt'' else JStr '''')"

definition check_handoff :: "json \<Rightarrow> unit res" where
  "check_handoff v =
     (let ho = jget v ''handoffRuntime'' in
      if ho = JNull then Inr ()
      else if ho = JStr ''sdk'' then Inl (ValueError ''NATIVE_SDK_HANDOFF_NOT_YET_QUALIFIED'')
      else res_bind (py_in ho RUNTIMES) (\<lambda>known.
        res_bind (require (known \<and> ho \<noteq> jget v ''runtime'') (ValueError ''INVALID_HANDOFF_RUNTIME'')) (\<lambda>_.
        require (case handoff_prompt_of v of JStr p \<Rightarrow> int (length p) \<le> 65536 | _ \<Rightarrow> False)
          (ValueError ''INVALID_HANDOFF_PROMPT''))))"

definition valid_prompt :: "json \<Rightarrow> bool" where
  "valid_prompt v = (case v of JStr p \<Rightarrow> 1 \<le> length p \<and> int (length p) \<le> 65536 | _ \<Rightarrow> False)"

fun str_value :: "json \<Rightarrow> string" where
  "str_value (JStr s) = s"
| "str_value _ = []"

definition request_of :: "json \<Rightarrow> task_request" where
  "request_of v =
     \<lparr> rq_runtime = str_value (jget v ''runtime''), rq_backend = str_value (jget v ''backend''),
       rq_project = str_value (jget v ''project''), rq_prompt = str_value (jget v ''prompt''),
       rq_writes = (jget v ''writes'' = JBool True),
       rq_handoff = (case jget v ''handoffRuntime'' of JStr r \<Rightarrow> Some r | _ \<Rightarrow> None),
       rq_handoff_prompt = str_value (handoff_prompt_of v) \<rparr>"

definition validate :: "server \<Rightarrow> http \<Rightarrow> json \<Rightarrow> task_request res" where
  "validate s h v =
     res_bind (require (valid_keys v) (ValueError ''INVALID_REQUEST'')) (\<lambda>_.
     res_bind (py_in (jget v ''runtime'') RUNTIMES) (\<lambda>known.
     res_bind (require known (ValueError ''UNAVAILABLE_SELECTION'')) (\<lambda>_.
     res_bind (py_in (jget v ''backend'') [''private'', ''openshell'']) (\<lambda>backend.
     res_bind (require backend (ValueError ''UNAVAILABLE_SELECTION'')) (\<lambda>_.
     res_bind (select_service s h v) (\<lambda>_.
     res_bind (check_handoff v) (\<lambda>_.
     res_bind (require (jget v ''approved'' = JBool True \<and> jget v ''writes'' \<in> {JBool True, JBool False})
       (ValueError ''APPROVAL_REQUIRED'')) (\<lambda>_.
     res_bind (require (valid_prompt (jget v ''prompt'')) (ValueError ''INVALID_PROMPT'')) (\<lambda>_.
     res_bind (confined_project (sr_files s) (jget v ''project'')) (\<lambda>_.
     Inr (request_of v)))))))))))"

definition error_answer :: "exn \<Rightarrow> answer" where
  "error_answer e =
     (case e of ValueError m \<Rightarrow> Answer 400 (error_json m)
      | RuntimeError m \<Rightarrow> Answer 409 (error_json m)
      | HTTPException c m \<Rightarrow> if c = 503 then Answer 503 (error_json m) else Crash e
      | _ \<Rightarrow> Crash e)"

text \<open>The services handed to \<open>create\<close>: only the one the selection looked up.\<close>

definition services_of :: "server \<Rightarrow> task_request \<Rightarrow> service option \<times> service option" where
  "services_of s q =
     (if rq_backend q = ''openshell'' then (sr_openshell s, None)
      else if rq_runtime q = ''sdk'' then (None, sr_sdk s) else (None, None))"

definition post_task :: "(event \<Rightarrow> int) \<Rightarrow> string \<Rightarrow> string \<Rightarrow> server \<Rightarrow> http \<Rightarrow> answer \<times> server" where
  "post_task width tid correlation s h =
     (case res_bind (body_of h) (validate s h) of
        Inl e \<Rightarrow> (error_answer e, s)
      | Inr q \<Rightarrow>
          (case create width tid correlation q (fst (services_of s q)) (snd (services_of s q)) (sr_registry s) of
             (Inl e, g) \<Rightarrow> (error_answer e, s\<lparr> sr_registry := g \<rparr>)
           | (Inr t, g) \<Rightarrow> (Answer 202 (JObj [(''taskId'', JStr (t_id t)), (''state'', JStr (tstate_text (t_state t))),
                              (''correlationId'', JStr (t_correlation t))]), s\<lparr> sr_registry := g \<rparr>)))"

section \<open>Approving and cancelling\<close>

definition task_state_json :: "task \<Rightarrow> json" where
  "task_state_json t = JObj [(''taskId'', JStr (t_id t)), (''state'', JStr (tstate_text (t_state t)))]"

definition put_task :: "string \<Rightarrow> runner \<Rightarrow> server \<Rightarrow> server" where
  "put_task tid r s =
     s\<lparr> sr_registry := (sr_registry s)\<lparr> g_tasks := AList.update tid r (g_tasks (sr_registry s)) \<rparr> \<rparr>"

text \<open>\<open>decide\<close> is the native bridge of the task (\<open>NativeSDKApprovalBridge.decide\<close>).\<close>

type_synonym decide_call = "string \<Rightarrow> json \<Rightarrow> json \<Rightarrow> json \<Rightarrow> runner \<Rightarrow> unit res \<times> runner"

definition approve_native :: "decide_call \<Rightarrow> string \<Rightarrow> runner \<Rightarrow> json \<Rightarrow> server \<Rightarrow> http \<Rightarrow> answer \<times> server" where
  "approve_native decide tid r v s h =
     (if set (jkeys v) \<noteq> {''approvalId'', ''generation'', ''outcome''} \<or> tid \<notin> set (sr_bridges s)
      then (Answer 409 (error_json ''NATIVE_APPROVAL_TICKET_REQUIRED''), s)
      else
        (case decide (h_subject h) (jget v ''generation'') (jget v ''approvalId'') (jget v ''outcome'') r of
           (Inr _, r') \<Rightarrow> (Answer 202 (task_state_json (r_task r')), put_task tid r' s)
         | (Inl (ValueError m), r') \<Rightarrow> (Answer 409 (error_json m), put_task tid r' s)
         | (Inl _, r') \<Rightarrow> (Answer 503 (error_json ''NATIVE_APPROVAL_UNCERTAIN''), put_task tid r' s)))"

definition post_approve :: "(event \<Rightarrow> int) \<Rightarrow> decide_call \<Rightarrow> string \<Rightarrow> server \<Rightarrow> http \<Rightarrow> answer \<times> server" where
  "post_approve width decide tid s h =
     (case res_bind (body_of h) (\<lambda>v. res_bind (require (is_obj v) (ValueError ''APPROVAL_REQUIRED'')) (\<lambda>_. Inr v)) of
        Inl (ValueError m) \<Rightarrow> (Answer 400 (error_json m), s)
      | Inl e \<Rightarrow> (Crash e, s)
      | Inr v \<Rightarrow>
          (case get_task (sr_registry s) tid of
             None \<Rightarrow> (Answer 404 (error_json ''TASK_NOT_FOUND''), s)
           | Some r \<Rightarrow>
               if t_native (r_task r) \<noteq> None then approve_native decide tid r v s h
               else if \<not> py_eq v (JObj [(''approved'', JBool True)]) then (Answer 400 (error_json ''APPROVAL_REQUIRED''), s)
               else (case approve width r of (ok, r') \<Rightarrow>
                       (Answer (if ok then 202 else 409) (task_state_json (r_task r')), put_task tid r' s))))"

text \<open>The OpenShell service's \<open>operate\<close> changes the tasks of the registry.\<close>

type_synonym operate_call = "string \<Rightarrow> string \<Rightarrow> string \<Rightarrow> json \<Rightarrow> registry \<Rightarrow> json res \<times> registry"

definition post_openshell :: "operate_call \<Rightarrow> string \<Rightarrow> string \<Rightarrow> server \<Rightarrow> http \<Rightarrow> answer \<times> server" where
  "post_openshell operate tid operation s h =
     (case sr_openshell s of
        None \<Rightarrow> (Answer 503 (error_json ''OPENSHELL_NOT_QUALIFIED''), s)
      | Some _ \<Rightarrow>
          (case body_of h of
             Inl (ValueError m) \<Rightarrow> (Answer 400 (error_json m), s)
           | Inl _ \<Rightarrow> (Answer 503 (error_json ''OPENSHELL_OPERATION_UNCERTAIN''), s)
           | Inr v \<Rightarrow>
               (case operate (h_subject h) tid operation v (sr_registry s) of
                  (Inr out, g) \<Rightarrow> (Answer 200 out, s\<lparr> sr_registry := g \<rparr>)
                | (Inl (ValueError m), g) \<Rightarrow> (Answer 400 (error_json m), s\<lparr> sr_registry := g \<rparr>)
                | (Inl _, g) \<Rightarrow> (Answer 503 (error_json ''OPENSHELL_OPERATION_UNCERTAIN''), s\<lparr> sr_registry := g \<rparr>))))"

definition openshell_operations :: "string list" where
  "openshell_operations = [''bind'', ''resolve'', ''dispatch'', ''revoke'', ''stop'']"

definition openshell_path :: "string \<Rightarrow> (string \<times> string) option" where
  "openshell_path p =
     (case filter (\<lambda>operation. task_path (''/openshell/'' @ operation) p \<noteq> None) openshell_operations of
        [] \<Rightarrow> None
      | operation # _ \<Rightarrow> Some (the (task_path (''/openshell/'' @ operation) p), operation))"

definition do_POST :: "(event \<Rightarrow> int) \<Rightarrow> operate_call \<Rightarrow> decide_call \<Rightarrow> string \<Rightarrow> string \<Rightarrow> server \<Rightarrow> http \<Rightarrow> answer \<times> server" where
  "do_POST width operate decide tid correlation s h = with_auth s h
     (case openshell_path (h_path h) of
        Some (t, operation) \<Rightarrow> post_openshell operate t operation s h
      | None \<Rightarrow>
          (case task_path ''/approve'' (h_path h) of
             Some t \<Rightarrow> post_approve width decide t s h
           | None \<Rightarrow> if h_path h \<noteq> ''/v1/tasks'' then (Answer 404 (error_json ''NOT_FOUND''), s)
                     else post_task width tid correlation s h))"

text \<open>\<open>Task.cancel\<close>, here without an interleaved run thread; \<open>native\<close> and \<open>shell\<close> are the
  cancellations of the native bridge and of the OpenShell service.\<close>

definition cancel_task :: "(event \<Rightarrow> int) \<Rightarrow> (runner \<Rightarrow> bool \<times> runner) \<Rightarrow> (runner \<Rightarrow> bool \<times> runner) \<Rightarrow> bool \<Rightarrow> bool \<Rightarrow>
    runner \<Rightarrow> bool \<times> runner" where
  "cancel_task width native_cancel shell has_bridge has_service r =
     (if has_bridge then native_cancel r
      else if \<not> cancellable (t_state (r_task r)) then (False, r)
      else if t_backend (r_task r) = ''openshell'' then (if has_service then shell r else (False, r))
      else (True, cancel_end width (cancel_begin width r)))"

definition do_DELETE :: "(event \<Rightarrow> int) \<Rightarrow> (runner \<Rightarrow> bool \<times> runner) \<Rightarrow> (runner \<Rightarrow> bool \<times> runner) \<Rightarrow> (string \<Rightarrow> bool) \<Rightarrow>
    server \<Rightarrow> http \<Rightarrow> answer \<times> server" where
  "do_DELETE width native_cancel shell has_service s h = with_auth s h
     (case task_path '''' (h_path h) of
        None \<Rightarrow> (Answer 404 (error_json ''NOT_FOUND''), s)
      | Some tid \<Rightarrow>
          (case get_task (sr_registry s) tid of
             None \<Rightarrow> (Answer 404 (error_json ''TASK_NOT_FOUND''), s)
           | Some r \<Rightarrow>
               if foreign_native (r_task r) h then (Answer 403 (error_json ''FOREIGN_NATIVE_SDK_SUBJECT''), s)
               else (case cancel_task width native_cancel shell (tid \<in> set (sr_bridges s)) (has_service tid) r of
                       (ok, r') \<Rightarrow> (Answer (if ok then 202 else 409) (task_state_json (r_task r')), put_task tid r' s))))"


section \<open>Lemmas\<close>

lemma want_simps [simp]:
  "want_str (JStr s) = Inr s" "want_bool (JBool b) = Inr b" "want_nat (JInt (int n)) = Inr n" "want_list (JList xs) = Inr xs"
  "want_opt f JNull = Inr None" "want_opt want_str (JStr s) = Inr (Some s)"
  by (simp_all add: want_str_def want_bool_def want_nat_def want_list_def want_opt_def)

lemma named_phase [simp]: "named phase_text all_phases (JStr (phase_text p)) = Inr p"
  by (cases p) (simp_all add: named_def all_phases_def)

lemma named_state [simp]: "named tstate_text all_states (JStr (tstate_text s)) = Inr s"
  by (cases s) (simp_all add: named_def all_states_def)

lemma res_map_JStr [simp]: "res_map want_str (map JStr xs) = Inr xs"
  by (induction xs) simp_all

lemma read_pending_json [simp]: "read_pending (pending_json p) = Inr p"
  by (cases p) (simp add: read_pending_def pending_json_def map_add_def split: option.split)

lemma want_opt_some: "v \<noteq> JNull \<Longrightarrow> want_opt f v = res_bind (f v) (\<lambda>x. Inr (Some x))"
  by (cases v) (simp_all add: want_opt_def)

lemma want_opt_read [simp]: "want_opt read_pending (pending_json p) = Inr (Some p)"
  by (subst want_opt_some) (simp add: pending_json_def, simp)

lemma want_opt_state [simp]:
  "want_opt (named tstate_text all_states) (JStr (tstate_text s)) = Inr (Some s)"
  by (simp add: want_opt_def)

lemma native_json_keys:
  "jget (native_json n) ''subject'' = JStr (n_subject n)" "jget (native_json n) ''generation'' = JStr (n_generation n)"
  "jget (native_json n) ''taskId'' = JStr (n_task n)" "jget (native_json n) ''project'' = JStr (n_project n)"
  "jget (native_json n) ''correlationId'' = JStr (n_correlation n)" "jget (native_json n) ''sessionId'' = JStr (n_session n)"
  "jget (native_json n) ''phase'' = JStr (phase_text (n_phase n))"
  "jget (native_json n) ''pending'' = (case n_pending n of None \<Rightarrow> JNull | Some p \<Rightarrow> pending_json p)"
  "jget (native_json n) ''usedCallIds'' = JList (map JStr (n_used n))"
  by (simp_all add: native_json_def)

lemma native_json_options:
  "jget (native_json n) ''stopOperationId'' = (case n_stop_operation n of None \<Rightarrow> JNull | Some s \<Rightarrow> JStr s)"
  "jget (native_json n) ''desiredTerminalState'' = (case n_desired n of None \<Rightarrow> JNull | Some s \<Rightarrow> JStr (tstate_text s))"
  "jget (native_json n) ''stopReceipt'' = (case n_receipt n of None \<Rightarrow> JNull | Some r \<Rightarrow> r)"
  "jget (native_json n) ''launchOperationId'' = (case n_launch n of None \<Rightarrow> JNull | Some s \<Rightarrow> JStr s)"
  "jget (native_json n) ''managedSession'' = (if n_managed n then JBool True else JNull)"
  "jget (native_json n) ''runtimeIdentity'' = (case n_identity n of None \<Rightarrow> JNull | Some r \<Rightarrow> r)"
  "jget (native_json n) ''nativeNeverStarted'' = (if n_never_started n then JBool True else JNull)"
  by (simp_all add: native_json_def map_add_def split: option.split)

text \<open>An assigned receipt or identity is a dictionary, never \<open>None\<close>.\<close>

definition native_assigned :: "native \<Rightarrow> bool" where
  "native_assigned n = (n_receipt n \<noteq> Some JNull \<and> n_identity n \<noteq> Some JNull)"

lemma read_native_identity_json:
  "read_native_identity (native_json n) =
     Inr (n\<lparr> n_phase := P_Running, n_pending := None, n_used := [], n_stop_operation := None, n_desired := None,
            n_receipt := None, n_launch := None, n_managed := False, n_identity := None, n_never_started := False \<rparr>)"
  by (simp add: read_native_identity_def native_json_keys)

lemma read_native_json: "native_assigned n \<Longrightarrow> read_native (native_json n) = Inr n"
  unfolding read_native_def read_native_identity_json native_json_keys native_json_options
  by (cases n) (auto simp: native_assigned_def present_def split: option.split)

lemma want_opt_native: "native_assigned n \<Longrightarrow> want_opt read_native (native_json n) = Inr (Some n)"
  by (subst want_opt_some) (simp add: native_json_def, simp add: read_native_json)

lemma journal_task_snapshot:
  assumes "\<And>n. t_native t = Some n \<Longrightarrow> native_assigned n"
  shows "journal_task (snapshot_json (snapshot_of t)) events bytes =
    Inr (t\<lparr> t_prompt := [], t_handoff_prompt := [], t_finished := True, t_events := events,
            t_event_bytes := bytes, t_saved := None \<rparr>)"
proof -
  have nat_part: "want_opt read_native (case t_native t of None \<Rightarrow> JNull | Some n \<Rightarrow> native_json n) = Inr (t_native t)"
    using assms by (simp add: want_opt_native split: option.split)
  have handoff_part: "want_opt want_str (case t_handoff t of None \<Rightarrow> JNull | Some h \<Rightarrow> JStr h) = Inr (t_handoff t)"
    by (simp split: option.split)
  show ?thesis
    by (cases t) (use nat_part handoff_part in \<open>simp add: journal_task_def snapshot_json_def snapshot_of_def py_idx_def py_get_or_def\<close>)
qed

lemma fence_verified: "verified_terminal_stop v \<Longrightarrow> fence_recovered v t = t"
  by (simp add: fence_recovered_def split: option.split)

text \<open>What a recovered task looks like.\<close>

definition recovered :: "task \<Rightarrow> bool" where
  "recovered t =
     (t_finished t \<and> t_state t \<in> {Completed, Failed, Cancelled, Interrupted, Awaiting_Approval} \<and>
      (\<forall>n. t_native t = Some n \<longrightarrow>
         n_phase n = P_Fenced_After_Recovery \<and> t_state t \<in> {Completed, Failed, Cancelled, Interrupted} \<or>
         n_phase n = P_Stopped \<and> terminal (t_state t) \<and> (\<exists>op. n_stop_operation n = Some op \<and> hex_id 32 op)))"

lemma named_state_of: "named tstate_text all_states v = Inr s \<Longrightarrow> v = JStr (tstate_text s)"
  by (auto simp: named_def all_states_def split: json.splits if_splits)

lemma named_phase_of: "named phase_text all_phases v = Inr p \<Longrightarrow> v = JStr (phase_text p)"
  by (auto simp: named_def all_phases_def split: json.splits if_splits)

lemma settled_state_text:
  "JStr (tstate_text s) \<in> set settled_states \<longleftrightarrow> s \<in> {Completed, Failed, Cancelled, Interrupted, Awaiting_Approval}"
  by (cases s) (simp_all add: settled_states_def)

lemma terminal_state_text:
  "JStr (tstate_text s) \<in> {JStr ''completed'', JStr ''failed'', JStr ''cancelled''} \<longleftrightarrow> terminal s"
  by (cases s) (simp_all add: terminal_def)

lemma want_opt_str: "want_opt want_str (JStr s) = Inr r \<Longrightarrow> r = Some s"
  by (auto simp: want_opt_def)

lemma want_str_Inr: "want_str v = Inr s \<longleftrightarrow> v = JStr s"
  by (cases v) (auto simp: want_str_def)

lemma journal_task_parts:
  assumes "journal_task v events bytes = Inr t"
  shows "t_finished t" "jget v ''id'' = JStr (t_id t)" "named tstate_text all_states (jget v ''state'') = Inr (t_state t)"
    "want_opt read_native (jget v ''nativeSdk'') = Inr (t_native t)"
  using assms unfolding journal_task_def
  by (auto simp: res_bind_Inr_iff py_access want_str_Inr)

lemma read_native_parts:
  assumes "read_native v = Inr n"
  shows "named phase_text all_phases (jget v ''phase'') = Inr (n_phase n)"
    "want_opt want_str (jget v ''stopOperationId'') = Inr (n_stop_operation n)"
  using assms unfolding read_native_def by (auto simp: res_bind_Inr_iff)

lemma recover_recovered:
  assumes "recover v events bytes = Inr t" and "jget v ''state'' \<in> set settled_states"
  shows "recovered t \<and> jget v ''id'' = JStr (t_id t)"
proof -
  from assms(1) obtain t0 where t0: "journal_task v events bytes = Inr t0"
    and t: "t = (let t' = fence_recovered v t0 in if t_native t' \<noteq> None then save t' else t')"
    unfolding recover_def res_bind_Inr_iff by (auto simp: Let_def)
  note parts = journal_task_parts [OF t0]
  have state: "t_state t0 \<in> {Completed, Failed, Cancelled, Interrupted, Awaiting_Approval}"
    using assms(2) settled_state_text unfolding named_state_of [OF parts(3)] by blast
  have tid: "t_id t = t_id t0" "t_finished t = t_finished t0" "t_state t = t_state (fence_recovered v t0)"
    "t_native t = t_native (fence_recovered v t0)"
    by (auto simp: t Let_def fence_recovered_def split: option.splits)
  have "recovered t"
  proof (cases "t_native t0")
    case None
    then show ?thesis using state parts(1) tid by (simp add: recovered_def fence_recovered_def)
  next
    case (Some n)
    show ?thesis
    proof (cases "verified_terminal_stop v")
      case True
      have rn: "read_native (jget v ''nativeSdk'') = Inr n"
        using parts(4) Some by (auto simp: want_opt_def res_bind_Inr_iff split: json.splits)
      note np = read_native_parts [OF rn]
      from True have "jget (jget v ''nativeSdk'') ''phase'' = JStr ''stopped''"
        and st: "jget v ''state'' \<in> {JStr ''completed'', JStr ''failed'', JStr ''cancelled''}"
        by (simp_all add: verified_terminal_stop_def Let_def)
      with named_phase_of [OF np(1)] have "phase_text (n_phase n) = phase_text P_Stopped" by simp
      then have "n_phase n = P_Stopped" by (simp only: phase_text_inj)
      moreover obtain op where "jget (jget v ''nativeSdk'') ''stopOperationId'' = JStr op" "hex_id 32 op"
        using True by (auto simp: verified_terminal_stop_def Let_def split: json.splits)
      with np(2) have "n_stop_operation n = Some op \<and> hex_id 32 op" by (auto dest!: want_opt_str)
      moreover have "terminal (t_state t0)"
        using st terminal_state_text unfolding named_state_of [OF parts(3)] by blast
      ultimately show ?thesis
        using state parts(1) tid Some by (auto simp: recovered_def fence_verified [OF True])
    next
      case False
      then show ?thesis
        using state parts(1) tid Some by (auto simp: recovered_def fence_recovered_def terminal_def)
    qed
  qed
  with parts(2) tid show ?thesis by simp
qed

definition loaded_ok :: "registry \<Rightarrow> bool" where
  "loaded_ok g = (\<forall>(tid, r) \<in> set (g_tasks g). hex_id 32 tid \<and> t_id (r_task r) = tid \<and> recovered (r_task r) \<and> r_pc r = R_Idle)"

lemma load_file_ok: "loaded_ok g \<Longrightarrow> loaded_ok (load_file f g)"
  unfolding load_file_def
  by (auto simp: loaded_ok_def idle_runner_def new_runner_def split: option.split json.split sum.split
      dest!: update_set recover_recovered)

lemma fold_load_ok: "loaded_ok g \<Longrightarrow> loaded_ok (fold load_file fs g)"
  by (induction fs arbitrary: g) (auto intro: load_file_ok)

text \<open>Project paths.\<close>

lemma confined_inside:
  assumes "confined_project fs v = Inr p"
  shows "take (length (fs_workspace fs)) p = fs_workspace fs \<and> fs_is_dir fs p"
  using assms unfolding confined_project_def
  by (auto simp: path_parents_def Let_def split: json.splits if_splits)

text \<open>Creation.\<close>

definition added :: "(event \<Rightarrow> int) \<Rightarrow> string \<Rightarrow> string \<Rightarrow> task_request \<Rightarrow> registry \<Rightarrow> registry \<Rightarrow> bool" where
  "added width tid correlation q g g' =
     (\<exists>r kind. r \<in> {idle_runner (new_task width tid correlation q), new_runner (new_task width tid correlation q)} \<and> g_tasks g' = AList.update tid r (g_tasks g) \<and>
        g_threads g' = g_threads g @ [(kind, tid)])"

lemma create_ok:
  assumes "create width tid correlation q execution sdk g = (Inr t, g')"
  shows "\<not> list_ex (\<lambda>(k, r). busy_task (r_task r)) (g_tasks g) \<and> t = new_task width tid correlation q \<and>
    added width tid correlation q g g'"
  using assms unfolding create_def added_def Let_def
  by (auto split: if_splits option.splits)

lemma create_refused:
  assumes "create width tid correlation q execution sdk g = (Inl e, g')" and "rq_backend q = ''openshell'' \<Longrightarrow> execution \<noteq> None"
  shows "g' = g \<and> (\<exists>m. e = RuntimeError m)"
  using assms unfolding create_def Let_def by (auto split: if_splits option.splits)

lemma validate_parts:
  assumes "validate s h v = Inr q"
  shows "q = request_of v" "select_service s h v = Inr ()" "jget v ''approved'' = JBool True"
    "\<exists>p. confined_project (sr_files s) (jget v ''project'') = Inr p"
    "jget v ''backend'' \<in> {JStr ''private'', JStr ''openshell''}" "valid_prompt (jget v ''prompt'')"
  using assms unfolding validate_def
  by (auto simp: res_bind_Inr_iff py_in_def split: json.splits)

lemma validate_service:
  assumes "validate s h v = Inr q" and "rq_backend q = ''openshell''"
  shows "fst (services_of s q) \<noteq> None"
  using validate_parts [OF assms(1)] assms(2)
  by (auto simp: services_of_def request_of_def select_service_def split: if_splits option.splits)

lemma post_task_accepted:
  assumes "post_task width tid correlation s h = (Answer 202 j, s')"
  shows "\<exists>v. body_of h = Inr v \<and> validate s h v = Inr (request_of v) \<and>
    \<not> list_ex (\<lambda>(k, r). busy_task (r_task r)) (g_tasks (sr_registry s)) \<and>
    added width tid correlation (request_of v) (sr_registry s) (sr_registry s') \<and> s' = s\<lparr> sr_registry := sr_registry s' \<rparr>"
proof -
  show ?thesis
  proof (cases "res_bind (body_of h) (validate s h)")
    case (Inl e)
    with assms show ?thesis by (simp add: post_task_def error_answer_def split: exn.splits if_splits)
  next
    case (Inr q)
    then obtain v where v: "body_of h = Inr v" "validate s h v = Inr q" by (auto simp: res_bind_Inr_iff)
    note parts = validate_parts [OF v(2)]
    obtain o1 g where c: "create width tid correlation q (fst (services_of s q)) (snd (services_of s q)) (sr_registry s) = (o1, g)"
      by fastforce
    show ?thesis
    proof (cases o1)
      case (Inl e)
      with create_refused c validate_service [OF v(2)] have "\<exists>m. e = RuntimeError m" by blast
      with assms Inr c Inl show ?thesis by (auto simp: post_task_def error_answer_def)
    next
      case (Inr t)
      with assms \<open>res_bind _ _ = Inr q\<close> c have "s' = s\<lparr> sr_registry := g \<rparr>" by (simp add: post_task_def)
      with create_ok c Inr v parts(1) show ?thesis by auto
    qed
  qed
qed

lemma post_task_refused:
  assumes "post_task width tid correlation s h = (a, s')" and "\<And>j. a \<noteq> Answer 202 j"
  shows "s' = s"
proof (cases "res_bind (body_of h) (validate s h)")
  case (Inl e)
  with assms(1) show ?thesis by (simp add: post_task_def)
next
  case (Inr q)
  then obtain v where v: "validate s h v = Inr q" by (auto simp: res_bind_Inr_iff)
  obtain o1 g where c: "create width tid correlation q (fst (services_of s q)) (snd (services_of s q)) (sr_registry s) = (o1, g)"
    by fastforce
  show ?thesis
  proof (cases o1)
    case Inl
    with create_refused c validate_service [OF v] have "g = sr_registry s" by blast
    with assms(1) Inr c Inl show ?thesis by (simp add: post_task_def)
  next
    case (Inr t)
    with assms(1) \<open>res_bind _ _ = Inr q\<close> c have "\<exists>j. a = Answer 202 j" by (auto simp: post_task_def)
    with assms(2) show ?thesis by blast
  qed
qed

lemma runner_tasks [simp]: "r_task (idle_runner t) = t" "r_task (new_runner t) = t"
  by (simp_all add: idle_runner_def new_runner_def)

lemma with_auth_cases:
  assumes "with_auth s h k = (a, s')"
  shows "authorized s h = Inr True \<and> k = (a, s') \<or>
    authorized s h \<noteq> Inr True \<and> s' = s \<and> a \<in> {Answer 401 (error_json ''UNAUTHORIZED''), Crash (TypeError ''compare_digest'')}"
  using assms unfolding with_auth_def authorized_def
  by (auto simp: Let_def split: option.splits if_splits)

lemma with_auth_refused:
  "authorized s h \<noteq> Inr True \<Longrightarrow> snd (with_auth s h k) = s \<and>
     fst (with_auth s h k) \<in> {Answer 401 (error_json ''UNAUTHORIZED''), Crash (TypeError ''compare_digest'')}"
  using with_auth_cases [of s h k "fst (with_auth s h k)" "snd (with_auth s h k)"] by simp

lemma create_path: "openshell_path ''/v1/tasks'' = None" "task_path ''/approve'' ''/v1/tasks'' = None"
  by code_simp+

lemma do_POST_create:
  assumes "h_path h = ''/v1/tasks''"
  shows "do_POST width operate decide tid correlation s h = with_auth s h (post_task width tid correlation s h)"
  using assms by (simp add: do_POST_def create_path)

lemma filter_upt_above: "0 \<le> a \<Longrightarrow> filter (\<lambda>n. a < int n) [1..<Suc k] = [Suc (nat a)..<Suc k]"
proof (induction k)
  case (Suc k)
  have s: "[1..<Suc (Suc k)] = [1..<Suc k] @ [Suc k]" by simp
  have "filter (\<lambda>n. a < int n) [1..<Suc (Suc k)] = [Suc (nat a)..<Suc k] @ (if a < int (Suc k) then [Suc k] else [])"
    unfolding s filter_append Suc.IH [OF Suc.prems] by simp
  also have "\<dots> = [Suc (nat a)..<Suc (Suc k)]"
    using Suc.prems by (cases "a < int (Suc k)") (auto simp: upt_Suc_append nat_less_iff)
  finally show ?case .
qed simp

section \<open>Properties\<close>

text \<open>C5: A task of the broker is created only by an authenticated, explicitly approved request, for a
  project directory inside the workspace, while no other task is active; it is queued and journalled
  with the values of that request, exactly one thread is started for it and no other task changes.\<close>

theorem task_admission:
  assumes "do_POST width operate decide tid correlation s h = (Answer 202 j, s')" and "h_path h = ''/v1/tasks''"
  shows "authorized s h = Inr True \<and>
    \<not> list_ex (\<lambda>(k, r). busy_task (r_task r)) (g_tasks (sr_registry s)) \<and>
    (\<exists>v dir r kind. body_of h = Inr v \<and> jget v ''approved'' = JBool True \<and>
       confined_project (sr_files s) (jget v ''project'') = Inr dir \<and>
       take (length (fs_workspace (sr_files s))) dir = fs_workspace (sr_files s) \<and>
       r_task r = new_task width tid correlation (request_of v) \<and> t_state (r_task r) = Queued \<and>
       t_writes (r_task r) = (jget v ''writes'' = JBool True) \<and>
       t_saved (r_task r) = Some (snapshot_of (r_task r)) \<and>
       g_tasks (sr_registry s') = AList.update tid r (g_tasks (sr_registry s)) \<and>
       g_threads (sr_registry s') = g_threads (sr_registry s) @ [(kind, tid)])"
proof -
  from assms have w: "with_auth s h (post_task width tid correlation s h) = (Answer 202 j, s')"
    by (simp add: do_POST_create)
  have auth: "authorized s h = Inr True" and post: "post_task width tid correlation s h = (Answer 202 j, s')"
    using with_auth_cases [OF w] by (auto simp: error_json_def)
  from post_task_accepted [OF post] obtain v where v: "body_of h = Inr v" "validate s h v = Inr (request_of v)"
    "\<not> list_ex (\<lambda>(k, r). busy_task (r_task r)) (g_tasks (sr_registry s))"
    "added width tid correlation (request_of v) (sr_registry s) (sr_registry s')" by blast
  from validate_parts [OF v(2)] obtain dir where dir: "jget v ''approved'' = JBool True"
    "confined_project (sr_files s) (jget v ''project'') = Inr dir" by blast
  from v(4) obtain r kind where r: "r_task r = new_task width tid correlation (request_of v)"
    "g_tasks (sr_registry s') = AList.update tid r (g_tasks (sr_registry s))"
    "g_threads (sr_registry s') = g_threads (sr_registry s) @ [(kind, tid)]"
    using runner_tasks unfolding added_def by blast
  have "t_state (r_task r) = Queued" "t_writes (r_task r) = (jget v ''writes'' = JBool True)"
    "t_saved (r_task r) = Some (snapshot_of (r_task r))"
    by (simp_all add: r(1) new_task_def request_of_def) (simp add: snapshot_of_def save_def)
  with auth v dir r confined_inside [OF dir(2)] show ?thesis by blast
qed

text \<open>A request without the broker's token, whatever it asks, is answered with 401 (or the
  connection is dropped when the header is not ASCII) and changes nothing.\<close>

theorem unauthorized_changes_nothing:
  assumes "authorized s h \<noteq> Inr True"
  shows "snd (do_GET s h) = s \<and> snd (do_POST width operate decide tid correlation s h) = s \<and>
    snd (do_DELETE width native_cancel shell has_service s h) = s \<and>
    {fst (do_GET s h), fst (do_POST width operate decide tid correlation s h),
     fst (do_DELETE width native_cancel shell has_service s h)}
      \<subseteq> {Answer 401 (error_json ''UNAUTHORIZED''), Crash (TypeError ''compare_digest'')}"
  using with_auth_refused [OF assms] by (simp add: do_GET_def do_POST_def do_DELETE_def)


text \<open>C11: After a restart no recovered task is under way: each is finished, settled and without a
  thread, a native section is either proved stopped or fenced, and no approval ticket of the lost
  client is shown again.\<close>

theorem restart_settles_tasks:
  assumes "(tid, r) \<in> set (g_tasks (init_registry files))"
  shows "hex_id 32 tid \<and> t_id (r_task r) = tid \<and> t_finished (r_task r) \<and> r_pc r = R_Idle \<and>
    t_state (r_task r) \<in> {Completed, Failed, Cancelled, Interrupted, Awaiting_Approval} \<and>
    (case t_native (r_task r) of
       None \<Rightarrow> True
     | Some n \<Rightarrow> t_state (r_task r) \<noteq> Awaiting_Approval \<and>
         (n_phase n = P_Fenced_After_Recovery \<or> n_phase n = P_Stopped \<and> terminal (t_state (r_task r)))) \<and>
    approval_ticket (r_task r) = JNull"
proof -
  have "loaded_ok (init_registry files)"
    unfolding init_registry_def by (rule fold_load_ok) (simp add: loaded_ok_def)
  with assms have "hex_id 32 tid \<and> t_id (r_task r) = tid \<and> recovered (r_task r) \<and> r_pc r = R_Idle"
    by (auto simp: loaded_ok_def)
  then show ?thesis
    by (auto simp: recovered_def approval_ticket_def terminal_def split: option.split)
qed


text \<open>A page of the event log holds at most 200 events, all after the cursor; of a gapless log it
  is the last part of exactly the events after the cursor.\<close>

theorem events_page_exact:
  assumes "log_numbered t" and "0 \<le> after"
  shows "length (event_page t after) \<le> 200 \<and>
    map e_sequence (event_page t after) = [max (Suc (nat after)) (t_sequence t - 199)..<Suc (t_sequence t)]"
proof -
  let ?rows = "filter (\<lambda>e. after < int (e_sequence e)) (t_events t)"
  have "map e_sequence ?rows = filter (\<lambda>n. after < int n) (map e_sequence (t_events t))"
    by (simp add: filter_map comp_def)
  also have "\<dots> = [Suc (nat after)..<Suc (t_sequence t)]"
    using assms filter_upt_above [of after "t_sequence t"] by (simp add: log_numbered_def del: upt_Suc)
  finally have m: "map e_sequence ?rows = [Suc (nat after)..<Suc (t_sequence t)]" .
  then have l: "length ?rows = t_sequence t - nat after" by (metis diff_Suc_Suc length_map length_upt)
  have "map e_sequence (event_page t after) = drop (length ?rows - 200) [Suc (nat after)..<Suc (t_sequence t)]"
    by (simp add: event_page_def Let_def drop_map m [symmetric] del: upt_Suc)
  also have "\<dots> = [max (Suc (nat after)) (t_sequence t - 199)..<Suc (t_sequence t)]"
    unfolding drop_upt l
    by (rule arg_cong2 [where f = upt]) (simp_all add: max_def, arith)
  finally show ?thesis by (simp add: event_page_def Let_def del: upt_Suc)
qed

text \<open>A native task is shown to and cancelled by its own subject only: another subject gets 403
  and nothing changes.\<close>

theorem foreign_subject_refused:
  assumes "get_task (sr_registry s) tid = Some r" and "foreign_native (r_task r) h"
    and "authorized s h = Inr True"
  shows "(task_path ''/events'' (h_path h) = Some tid \<longrightarrow>
      do_GET s h = (Answer 403 (error_json ''FOREIGN_NATIVE_SDK_SUBJECT''), s)) \<and>
    (task_path '''' (h_path h) = Some tid \<longrightarrow>
      do_DELETE width native_cancel shell has_service s h = (Answer 403 (error_json ''FOREIGN_NATIVE_SDK_SUBJECT''), s))"
proof -
  have "task_path ''/events'' ''/health'' = None" "task_path ''/events'' ''/v1/capabilities'' = None"
    by code_simp+
  with assms show ?thesis by (auto simp: do_GET_def do_DELETE_def with_auth_def events_answer_def)
qed

section \<open>Repeated event numbers\<close>

text \<open>Events are logged without saving the journal; \<open>recover\<close> takes the number of the last journal.
  An event logged after a restart then carries a number that the log already has.\<close>

definition plain_request :: task_request where
  "plain_request = \<lparr> rq_runtime = ''sdk'', rq_backend = ''private'', rq_project = ''p'', rq_prompt = ''x'',
     rq_writes = False, rq_handoff = None, rq_handoff_prompt = [] \<rparr>"

definition plain_id :: string where "plain_id = replicate 31 CHR ''0'' @ [CHR ''7'']"

definition awaiting_task :: task where
  "awaiting_task = emit (\<lambda>_. 1) ''output'' JNull
     (save ((new_task (\<lambda>_. 1) plain_id plain_id plain_request)\<lparr> t_state := Awaiting_Approval \<rparr>))"

definition restarted_task :: task where
  "restarted_task = (case recover (snapshot_json (snapshot_of (new_task (\<lambda>_. 1) plain_id plain_id plain_request)
       \<lparr> s_state := Awaiting_Approval \<rparr>)) (t_events awaiting_task) (t_event_bytes awaiting_task) of
     Inr t \<Rightarrow> t | Inl e \<Rightarrow> awaiting_task)"

theorem recovered_numbers_repeat:
  "distinct (map e_sequence (t_events awaiting_task)) \<and> r_pc (snd (approve (\<lambda>_. 1) (idle_runner restarted_task))) = R_Start True \<and>
   \<not> distinct (map e_sequence (t_events (r_task (snd (approve (\<lambda>_. 1) (idle_runner restarted_task))))))"
  by code_simp

section \<open>Witnesses\<close>

definition example_files :: files where
  "example_files = \<lparr> fs_workspace = [''workspace''], fs_resolve = (\<lambda>s. [''workspace'', s]), fs_is_dir = (\<lambda>_. True) \<rparr>"

definition example_token :: string where "example_token = replicate 20 CHR ''k''"

definition example_server :: server where
  "example_server = \<lparr> sr_registry = \<lparr> g_tasks = [], g_threads = [] \<rparr>, sr_token = Some example_token,
     sr_openshell = None, sr_sdk = None, sr_bridges = [], sr_files = example_files \<rparr>"

definition example_http :: "bool \<Rightarrow> http" where
  "example_http approved = \<lparr> h_path = ''/v1/tasks'', h_query = [], h_auth = ''Bearer '' @ example_token, h_subject = [],
     h_length = Some 100, h_body = Inr (JObj [(''runtime'', JStr ''claude''), (''backend'', JStr ''private''),
       (''project'', JStr ''p''), (''prompt'', JStr ''x''), (''writes'', JBool False), (''approved'', JBool approved)]) \<rparr>"

definition no_operate :: operate_call where "no_operate a b c d g = (Inr JNull, g)"

definition no_decide :: decide_call where "no_decide a b c d r = (Inr (), r)"

definition example_post :: "bool \<Rightarrow> answer \<times> server" where
  "example_post approved = do_POST (\<lambda>_. 1) no_operate no_decide plain_id plain_id example_server (example_http approved)"

fun answer_code :: "answer \<Rightarrow> int" where
  "answer_code (Answer c j) = c"
| "answer_code (Crash e) = 0"

lemma example_posts:
  "answer_code (fst (example_post True)) = 202" "answer_code (fst (example_post False)) = 400"
  "h_path (example_http b) = ''/v1/tasks''"
  by code_simp+

theorem task_admission_witness:
  "authorized example_server (example_http True) = Inr True \<and>
   map fst (g_tasks (sr_registry (snd (example_post True)))) = [plain_id]"
proof -
  obtain j s' where p: "example_post True = (Answer 202 j, s')"
    using example_posts(1) by (cases "example_post True"; cases "fst (example_post True)") auto
  from task_admission [OF p [unfolded example_post_def] example_posts(3)] p show ?thesis
    by (auto simp: example_server_def)
qed

theorem unauthorized_changes_nothing_witness:
  "snd (do_GET (example_server\<lparr> sr_token := Some ''short'' \<rparr>) (example_http True)) = example_server\<lparr> sr_token := Some ''short'' \<rparr>"
proof -
  have "authorized (example_server\<lparr> sr_token := Some ''short'' \<rparr>) (example_http True) \<noteq> Inr True" by code_simp
  from unauthorized_changes_nothing [OF this] show ?thesis by simp
qed


definition example_journal :: journal_file where
  "example_journal = \<lparr> j_value = Some (snapshot_json (snapshot_of (new_task (\<lambda>_. 1) plain_id plain_id plain_request))),
     j_events = [], j_bytes = 0 \<rparr>"

theorem restart_settles_tasks_witness:
  "map (\<lambda>(tid, r). (tid, t_state (r_task r))) (g_tasks (init_registry [example_journal])) = [(plain_id, Interrupted)] \<and>
   approval_ticket (r_task (snd (hd (g_tasks (init_registry [example_journal]))))) = JNull"
proof -
  have one: "map (\<lambda>(tid, r). (tid, t_state (r_task r))) (g_tasks (init_registry [example_journal])) = [(plain_id, Interrupted)]"
    by code_simp
  then obtain r where r: "g_tasks (init_registry [example_journal]) = [(plain_id, r)]" by auto
  then have "(plain_id, r) \<in> set (g_tasks (init_registry [example_journal]))" by simp
  from restart_settles_tasks [OF this] one r show ?thesis by simp
qed

definition plain_task :: task where "plain_task = new_task (\<lambda>_. 1) plain_id plain_id plain_request"


theorem events_page_exact_witness: "map e_sequence (event_page plain_task 0) = [1]"
proof -
  have "log_numbered plain_task" "t_sequence plain_task = 1" by code_simp+
  with events_page_exact [of plain_task 0] show ?thesis by simp
qed

definition native_server :: server where
  "native_server = example_server\<lparr> sr_registry := \<lparr> g_tasks = [(plain_id, idle_runner
     (plain_task\<lparr> t_native := Some (new_native ''owner'' ''g1'' ''s1'' plain_task) \<rparr>))], g_threads = [] \<rparr> \<rparr>"

definition foreign_get :: http where
  "foreign_get = (example_http True)\<lparr> h_path := ''/v1/tasks/'' @ plain_id @ ''/events'', h_subject := ''other'' \<rparr>"

theorem foreign_subject_refused_witness:
  "do_GET native_server foreign_get = (Answer 403 (error_json ''FOREIGN_NATIVE_SDK_SUBJECT''), native_server)"
proof -
  let ?r = "idle_runner (plain_task\<lparr> t_native := Some (new_native ''owner'' ''g1'' ''s1'' plain_task) \<rparr>)"
  have g: "get_task (sr_registry native_server) plain_id = Some ?r"
    by (simp add: get_task_def native_server_def) code_simp
  have f: "foreign_native (r_task ?r) foreign_get" by code_simp
  have a: "authorized native_server foreign_get = Inr True" by code_simp
  have p: "task_path ''/events'' (h_path foreign_get) = Some plain_id" by code_simp
  from foreign_subject_refused [OF g f a] p show ?thesis by blast
qed

end
