(* ===== verification/Openshell_Binding.thy ===== *)
theory Openshell_Binding imports Task_Broker begin

text \<open>
  The OpenShell backend of a broker task, \<open>scripts/openshell_task_binding.py\<close>: the binding of a task to
  one native worker, the service that owns the bindings, and the thread that runs the one or two
  stages of a task.  The transport is a parameter; what it was asked and every journal write are
  kept in a trace, in order.  Operations of the service hold its lock and are one step each; the run
  thread works between them without the lock, so it is cut into steps and interleaved with cancel.
\<close>

section \<open>The world of one task\<close>

datatype shell_event = Persist json | Allocate json string | Lookup json string | Dispatch json string
  | Stop_Exact json string | Verify_Absent json string "json res"

record shell =
  sh_task :: task
  sh_trace :: "shell_event list"

record transport =
  tp_allocate :: "json \<Rightarrow> string \<Rightarrow> json res"
  tp_lookup :: "json \<Rightarrow> string \<Rightarrow> json res"
  tp_dispatch :: "json \<Rightarrow> string \<Rightarrow> json res"
  tp_stop :: "json \<Rightarrow> string \<Rightarrow> json res"
  tp_absent :: "json \<Rightarrow> string \<Rightarrow> json res"

definition transport_call :: "shell_event \<Rightarrow> json res \<Rightarrow> (shell, json) io" where
  "transport_call e reply w = (reply, w\<lparr> sh_trace := sh_trace w @ [e] \<rparr>)"

text \<open>\<open>OpenShellBinding._persist\<close>\<close>

definition persist :: "json \<Rightarrow> (shell, unit) io" where
  "persist st w = (Inr (), \<lparr> sh_task = save ((sh_task w)\<lparr> t_openshell := st \<rparr>), sh_trace = sh_trace w @ [Persist st] \<rparr>)"

definition binding_state :: "(shell, json) io" where
  "binding_state w = (Inr (t_openshell (sh_task w)), w)"

definition with_task :: "(task \<Rightarrow> (shell, 'a) io) \<Rightarrow> (shell, 'a) io" where
  "with_task f w = f (sh_task w) w"

definition check :: "bool \<Rightarrow> string \<Rightarrow> (shell, unit) io" where
  "check b e = io_lift (require b (ValueError e))"

section \<open>The binding\<close>

definition KEYS :: "string list" where
  "KEYS = [''subject'', ''generation'', ''taskId'', ''project'', ''bindingId'', ''workerUID'']"

definition valid_context :: "json \<Rightarrow> bool" where
  "valid_context c = (is_obj c \<and> set (jkeys c) = set KEYS)"

text \<open>\<open>deadline <= time.time()\<close>\<close>

definition expired :: "rat \<Rightarrow> json \<Rightarrow> bool res" where
  "expired now v =
     (case v of JInf pos \<Rightarrow> Inr (\<not> pos) | JNaN \<Rightarrow> Inr False
      | _ \<Rightarrow> (case jnum v of Some r \<Rightarrow> Inr (r \<le> now) | None \<Rightarrow> Inl (TypeError ''<='')))"

definition current_binding :: "rat \<Rightarrow> bool \<Rightarrow> json \<Rightarrow> json \<Rightarrow> json res" where
  "current_binding now allow_fenced c st =
     (if \<not> valid_context c then Inl (ValueError ''INVALID_BINDING_CONTEXT'')
      else if \<not> truthy st then Inl (ValueError ''STALE_OR_FOREIGN_BINDING'')
      else if \<not> list_all (jhas st) KEYS then Inl (KeyError ''binding'')
      else if \<not> list_all (\<lambda>k. py_eq (jget c k) (jget st k)) KEYS then Inl (ValueError ''STALE_OR_FOREIGN_BINDING'')
      else if \<not> nonempty_text (jget st ''workerUID'') then Inl (ValueError ''ALLOCATION_IDENTITY_UNCERTAIN'')
      else if allow_fenced then Inr st
      else res_bind (py_idx st ''fenced'') (\<lambda>fenced.
           if truthy fenced then Inl (ValueError ''FENCED_OR_EXPIRED_BINDING'')
           else res_bind (res_bind (py_idx st ''expiresAt'') (expired now)) (\<lambda>late.
                if late then Inl (ValueError ''FENCED_OR_EXPIRED_BINDING'') else Inr st)))"

definition id_token :: "json \<Rightarrow> bool" where
  "id_token v = (case v of JStr s \<Rightarrow> fullmatch_class (alnum_chars @ ''_.-'') 1 128 s | _ \<Rightarrow> False)"

definition valid_expiry :: "rat \<Rightarrow> rat \<Rightarrow> json \<Rightarrow> bool" where
  "valid_expiry now now' v = (case jnum v of Some r \<Rightarrow> now < r \<and> r \<le> now' + 300 | None \<Rightarrow> False)"

definition fresh_binding :: "json \<Rightarrow> (string \<times> json) list \<Rightarrow> json" where
  "fresh_binding c extra = JObj (obj_items c @ extra)"

definition binding_bind :: "rat \<Rightarrow> rat \<Rightarrow> json \<Rightarrow> json \<Rightarrow> (shell, json) io" where
  "binding_bind now now' c expires = with_task (\<lambda>t.
      io_bind (check (valid_context c) ''INVALID_BINDING_CONTEXT'') (\<lambda>_.
      io_bind (check (list_all (\<lambda>(k, v). k = ''project'' \<or> id_token v) (obj_items c)) ''INVALID_BINDING_ID'') (\<lambda>_.
      io_bind (check (jget c ''taskId'' = JStr (t_id t) \<and> jget c ''project'' = JStr (t_project t)) ''TASK_PROJECT_MISMATCH'') (\<lambda>_.
      io_bind (check (valid_expiry now now' expires) ''INVALID_BINDING_EXPIRY'') (\<lambda>_.
      io_bind (check (\<not> truthy (t_openshell t)) ''BINDING_ALREADY_EXISTS'') (\<lambda>_.
      io_bind (persist (fresh_binding c [(''expiresAt'', expires), (''fenced'', JBool False), (''revoked'', JBool False),
                 (''phase'', JStr ''bound''), (''operationId'', JNull)])) (\<lambda>_. binding_state)))))))"

definition binding_resolve :: "rat \<Rightarrow> json \<Rightarrow> (shell, json) io" where
  "binding_resolve now c = io_bind binding_state (\<lambda>st. io_lift (current_binding now False c st))"

definition with_phase :: "string \<Rightarrow> json \<Rightarrow> json" where
  "with_phase ph st = jset ''phase'' (JStr ph) st"

definition valid_dispatch_receipt :: "json \<Rightarrow> string \<Rightarrow> json \<Rightarrow> unit res" where
  "valid_dispatch_receipt c operation receipt =
     res_bind (require (is_obj receipt \<and> list_all (\<lambda>k. py_eq (jget receipt k) (jget c k)) KEYS)
       (ValueError ''DISPATCH_IDENTITY_MISMATCH'')) (\<lambda>_.
     require (jget receipt ''operationId'' = JStr operation \<and> jget receipt ''nativeRequired'' = JBool True \<and>
              jget receipt ''unrestrictedFallback'' = JBool False) (ValueError ''DISPATCH_RECEIPT_INVALID''))"

definition binding_dispatch :: "transport \<Rightarrow> rat \<Rightarrow> json \<Rightarrow> string \<Rightarrow> (shell, json) io" where
  "binding_dispatch tp now c operation =
     io_bind binding_state (\<lambda>st0.
     io_bind (io_lift (current_binding now False c st0)) (\<lambda>st.
     io_bind (check (jget st ''phase'' = JStr ''bound'' \<and> hex_id 32 operation) ''DISPATCH_REPLAY_OR_INVALID_OPERATION'') (\<lambda>_.
     io_bind (persist (jset ''operationId'' (JStr operation) (with_phase ''dispatch-reserved'' st))) (\<lambda>_.
     io_bind (transport_call (Dispatch c operation) (tp_dispatch tp c operation)) (\<lambda>receipt.
     io_bind (io_lift (valid_dispatch_receipt c operation receipt)) (\<lambda>_.
     io_bind binding_state (\<lambda>st'.
     io_bind (persist (with_phase ''running'' st')) (\<lambda>_. io_return receipt))))))))"

definition fence_binding :: "json \<Rightarrow> json" where
  "fence_binding st = jset ''fenced'' (JBool True) (jset ''revoked'' (JBool True) st)"

definition binding_revoke :: "rat \<Rightarrow> json \<Rightarrow> (shell, json) io" where
  "binding_revoke now c =
     io_bind binding_state (\<lambda>st0.
     io_bind (io_lift (current_binding now True c st0)) (\<lambda>st.
     io_bind (persist (fence_binding st)) (\<lambda>_.
     io_return (JObj [(''bindingId'', jget st ''bindingId''), (''revoked'', JBool True), (''fenced'', JBool True)]))))"

definition stopped_receipt :: "json \<Rightarrow> string \<Rightarrow> json" where
  "stopped_receipt c operation =
     JObj [(''workerUID'', jget c ''workerUID''), (''stopped'', JBool True), (''operationId'', JStr operation)]"

definition absent_receipt :: "json \<Rightarrow> string \<Rightarrow> json" where
  "absent_receipt c operation =
     JObj [(''workerUID'', jget c ''workerUID''), (''absent'', JBool True), (''operationId'', JStr operation)]"

definition stop_reserved :: "string \<Rightarrow> json \<Rightarrow> json" where
  "stop_reserved operation st =
     jset ''stopOperationId'' (JStr operation) (with_phase ''stop-reserved'' (fence_binding st))"

text \<open>After the reservation: stop, then prove the absence of exactly this worker.\<close>

definition stop_worker :: "transport \<Rightarrow> json \<Rightarrow> string \<Rightarrow> (shell, json) io" where
  "stop_worker tp c operation =
     io_bind (transport_call (Stop_Exact c operation) (tp_stop tp c operation)) (\<lambda>receipt.
     io_bind (check (py_eq receipt (stopped_receipt c operation)) ''STOP_UNVERIFIED'') (\<lambda>_.
     io_bind (transport_call (Verify_Absent c operation (tp_absent tp c operation)) (tp_absent tp c operation)) (\<lambda>receipt.
     io_bind (check (py_eq receipt (absent_receipt c operation)) ''ABSENCE_UNVERIFIED'') (\<lambda>_.
     io_bind binding_state (\<lambda>st.
     io_bind (persist (with_phase ''stopped'' st)) (\<lambda>_. io_return receipt))))))"

definition binding_stop :: "transport \<Rightarrow> rat \<Rightarrow> json \<Rightarrow> string \<Rightarrow> (shell, json) io" where
  "binding_stop tp now c operation =
     io_bind binding_state (\<lambda>st0.
     io_bind (io_lift (current_binding now True c st0)) (\<lambda>st.
     io_bind (check (hex_id 32 operation) ''INVALID_STOP_OPERATION'') (\<lambda>_.
     io_bind (check (jget st ''stopOperationId'' \<in> {JNull, JStr operation}) ''STOP_OPERATION_CHANGED'') (\<lambda>_.
     if jget st ''phase'' = JStr ''stopped'' then io_return (absent_receipt c operation)
     else io_bind (persist (stop_reserved operation st)) (\<lambda>_. stop_worker tp c operation)))))"

section \<open>The service\<close>

record shell_service =
  os_subject :: string
  os_generation :: string
  os_qualified :: bool
  os_admission_expires :: "rat option"

text \<open>The readings of the clock during one operation, and the identifiers it may draw.\<close>

record moment =
  m_qualified :: rat
  m_expiry :: rat
  m_check :: rat
  m_binding :: string
  m_operation :: string

definition new_service :: "json \<Rightarrow> json \<Rightarrow> bool \<Rightarrow> rat option \<Rightarrow> shell_service res" where
  "new_service subject generation qualified expires =
     (if id_token subject \<and> id_token generation
      then Inr \<lparr> os_subject = str_value subject, os_generation = str_value generation,
                 os_qualified = qualified, os_admission_expires = expires \<rparr>
      else Inl (ValueError ''INVALID_SERVER_IDENTITY''))"

definition service_qualified :: "shell_service \<Rightarrow> rat \<Rightarrow> bool" where
  "service_qualified sv now =
     (os_qualified sv \<and> (case os_admission_expires sv of None \<Rightarrow> True | Some e \<Rightarrow> now < e))"

definition valid_worker :: "json \<Rightarrow> json \<Rightarrow> string \<Rightarrow> bool" where
  "valid_worker c worker operation =
     (is_obj worker \<and> set (jkeys worker) = set (jkeys c) \<union> {''workerUID'', ''operationId''} \<and>
      list_all (\<lambda>(k, v). py_eq (jget worker k) v) (obj_items c) \<and>
      jget worker ''operationId'' = JStr operation \<and> id_token (jget worker ''workerUID''))"

definition accept_allocation :: "rat \<Rightarrow> json \<Rightarrow> json \<Rightarrow> string \<Rightarrow> (shell, json) io" where
  "accept_allocation now c worker operation =
     io_bind (check (valid_worker c worker operation) ''INVALID_ALLOCATED_IDENTITY'') (\<lambda>_.
     io_bind binding_state (\<lambda>st.
     io_bind (io_lift (res_bind (py_idx st ''expiresAt'') (expired now))) (\<lambda>late.
     (let st' = jset ''workerUID'' (jget worker ''workerUID'') st in
      io_bind (persist (if late then with_phase ''expired'' st'
                        else jset ''fenced'' (JBool False) (with_phase ''bound'' st'))) (\<lambda>_. binding_state)))))"

definition allocation_context :: "shell_service \<Rightarrow> string \<Rightarrow> task \<Rightarrow> json" where
  "allocation_context sv binding t =
     JObj [(''subject'', JStr (os_subject sv)), (''generation'', JStr (os_generation sv)), (''taskId'', JStr (t_id t)),
           (''project'', JStr (t_project t)), (''bindingId'', JStr binding)]"

text \<open>\<open>self.admission_expires_at or inf\<close>: zero counts as unset.\<close>

definition allocation_expiry :: "shell_service \<Rightarrow> rat \<Rightarrow> rat" where
  "allocation_expiry sv now =
     (case os_admission_expires sv of None \<Rightarrow> now + 120 | Some e \<Rightarrow> if e = 0 then now + 120 else min (now + 120) e)"

definition allocation_reserved :: "json \<Rightarrow> rat \<Rightarrow> string \<Rightarrow> json" where
  "allocation_reserved c expires operation =
     fresh_binding c [(''workerUID'', JNull), (''expiresAt'', JFlt expires), (''phase'', JStr ''allocation-reserved''),
       (''fenced'', JBool True), (''revoked'', JBool False), (''operationId'', JNull),
       (''allocationOperationId'', JStr operation)]"

definition operate_bind :: "shell_service \<Rightarrow> transport \<Rightarrow> moment \<Rightarrow> (shell, json) io" where
  "operate_bind sv tp m = with_task (\<lambda>t.
     let c = allocation_context sv (m_binding m) t in
      io_bind (check (t_state t = Queued \<and> \<not> truthy (t_openshell t)) ''TASK_NOT_BINDABLE'') (\<lambda>_.
      io_bind (persist (allocation_reserved c (allocation_expiry sv (m_expiry m)) (m_operation m))) (\<lambda>_.
      io_bind (transport_call (Allocate c (m_operation m)) (tp_allocate tp c (m_operation m))) (\<lambda>worker.
      accept_allocation (m_check m) c worker (m_operation m)))))"

definition binding_context :: "json \<Rightarrow> json res" where
  "binding_context st =
     (if list_all (jhas st) KEYS then Inr (JObj (map (\<lambda>k. (k, jget st k)) KEYS)) else Inl (KeyError ''binding''))"

text \<open>A reserved allocation whose answer was lost: only looked up, never created again.\<close>

definition operate_lookup :: "transport \<Rightarrow> moment \<Rightarrow> json \<Rightarrow> json \<Rightarrow> (shell, json) io" where
  "operate_lookup tp m c st =
     (let a = jpop ''workerUID'' c in
      io_bind (io_lift (res_bind (py_idx st ''allocationOperationId'') want_str)) (\<lambda>operation.
      io_bind (transport_call (Lookup a operation) (tp_lookup tp a operation)) (\<lambda>worker.
      accept_allocation (m_check m) a worker operation)))"

definition stop_operation :: "moment \<Rightarrow> json \<Rightarrow> string" where
  "stop_operation m st = (if truthy (jget st ''stopOperationId'') then str_value (jget st ''stopOperationId'') else m_operation m)"

definition operate_bound :: "transport \<Rightarrow> moment \<Rightarrow> string \<Rightarrow> json \<Rightarrow> json \<Rightarrow> (shell, json) io" where
  "operate_bound tp m operation c st =
     (if operation = ''resolve'' then binding_resolve (m_check m) c
      else if operation = ''dispatch'' then binding_dispatch tp (m_check m) c (m_operation m)
      else if operation = ''revoke'' then binding_revoke (m_check m) c
      else binding_stop tp (m_check m) c (stop_operation m st))"

definition operate_existing :: "shell_service \<Rightarrow> transport \<Rightarrow> moment \<Rightarrow> string \<Rightarrow> (shell, json) io" where
  "operate_existing sv tp m operation =
     io_bind binding_state (\<lambda>st.
     io_bind (check (st \<noteq> JNull) ''BINDING_NOT_FOUND'') (\<lambda>_.
     io_bind (io_lift (binding_context st)) (\<lambda>c.
     io_bind (check (jget c ''subject'' = JStr (os_subject sv) \<and> jget c ''generation'' = JStr (os_generation sv))
       ''STALE_SERVER_IDENTITY'') (\<lambda>_.
     if jget st ''phase'' = JStr ''allocation-reserved''
     then io_bind (check (operation = ''resolve'') ''ALLOCATION_IDENTITY_UNCERTAIN'') (\<lambda>_. operate_lookup tp m c st)
     else operate_bound tp m operation c st))))"

definition approved_body :: "json \<Rightarrow> bool" where
  "approved_body body = py_eq body (JObj [(''approved'', JBool True)])"

text \<open>\<open>BrokerOpenShellService.operate\<close> on the task that the registry found.\<close>

definition operate :: "shell_service \<Rightarrow> transport \<Rightarrow> moment \<Rightarrow> string \<Rightarrow> bool \<Rightarrow> string \<Rightarrow> json \<Rightarrow> (shell, json) io" where
  "operate sv tp m subject found operation body =
     io_bind (check (os_qualified sv) ''OPENSHELL_NOT_QUALIFIED'') (\<lambda>_.
     io_bind (check (operation \<in> {''bind'', ''dispatch''} \<longrightarrow> service_qualified sv (m_qualified m)) ''NATIVE_ADMISSION_EXPIRED'') (\<lambda>_.
     io_bind (check (subject = os_subject sv) ''FOREIGN_SUBJECT'') (\<lambda>_.
     io_bind (check found ''TASK_NOT_FOUND'') (\<lambda>_.
     io_bind (check (operation \<in> set openshell_operations) ''UNKNOWN_OPERATION'') (\<lambda>_.
     io_bind (check (approved_body body) ''BOUND_APPROVAL_REQUIRED'') (\<lambda>_.
     if operation = ''bind'' then operate_bind sv tp m else operate_existing sv tp m operation))))))"

section \<open>The run thread\<close>

text \<open>Where the thread is; the numbers are the stage and the exit code.\<close>

datatype spc = S_Begin nat | S_Launch nat | S_Context nat json | S_Events nat json string "int option"
  | S_Revoke nat int | S_Stop nat int | S_After nat int | S_Finish | S_Done

record shell_run =
  sr_world :: shell
  sr_pc :: spc
  sr_captured :: string
  sr_prompt :: "string option"

definition stage_runtimes :: "task \<Rightarrow> string list" where
  "stage_runtimes t = t_runtime t # (if t_handoff t \<in> {None, Some ''''} then [] else [handoff_runtime t])"

definition on_task :: "(task \<Rightarrow> task) \<Rightarrow> shell \<Rightarrow> shell" where
  "on_task f w = w\<lparr> sh_task := f (sh_task w) \<rparr>"

definition approval_body :: json where "approval_body = JObj [(''approved'', JBool True)]"

definition run_operate :: "shell_service \<Rightarrow> transport \<Rightarrow> moment \<Rightarrow> string \<Rightarrow> (shell, json) io" where
  "run_operate sv tp m operation = operate sv tp m (os_subject sv) True operation approval_body"

text \<open>The \<open>except\<close> branch.\<close>

definition shell_failed :: "(event \<Rightarrow> int) \<Rightarrow> string \<Rightarrow> shell_run \<Rightarrow> shell_run" where
  "shell_failed width what r =
     (let t = sh_task (sr_world r) in
      if t_state t \<in> {Cancelled, Cancelling} then r\<lparr> sr_pc := S_Finish \<rparr>
      else r\<lparr> sr_world := on_task (set_state width Interrupted [(''error'', JStr what), (''backend'', JStr ''openshell'')]) (sr_world r),
              sr_pc := S_Finish \<rparr>)"

definition stage_json :: "nat \<Rightarrow> string \<Rightarrow> string \<Rightarrow> json" where
  "stage_json i runtime correlation =
     JObj [(''index'', JInt (int i)), (''runtime'', JStr runtime), (''correlationId'', JStr correlation)]"

text \<open>Enter a stage: the earlier worker must be proved absent, then allocate the next one.\<close>

definition stage_begin :: "(event \<Rightarrow> int) \<Rightarrow> shell_service \<Rightarrow> transport \<Rightarrow> moment \<Rightarrow> string \<Rightarrow> nat \<Rightarrow> shell_run \<Rightarrow> shell_run" where
  "stage_begin width sv tp m fresh i r =
     (let t = sh_task (sr_world r) in
      if t_state t \<in> {Cancelled, Cancelling} then r\<lparr> sr_pc := S_Finish \<rparr>
      else if i \<noteq> 0 \<and> (\<not> truthy (t_openshell t) \<or> jget (t_openshell t) ''phase'' \<noteq> JStr ''stopped'')
      then shell_failed width ''ValueError'' r
      else
        (let t' = save (t\<lparr> t_openshell := (if i = 0 then t_openshell t else JNull),
                     t_stage := stage_json i (stage_runtimes t ! i) (if i = 0 then t_correlation t else fresh),
                     t_state := Queued \<rparr>);
             (out, w') = run_operate sv tp m ''bind'' ((sr_world r)\<lparr> sh_task := t' \<rparr>) in
         case out of Inl e \<Rightarrow> shell_failed width (exn_name e) (r\<lparr> sr_world := w' \<rparr>)
         | Inr _ \<Rightarrow> r\<lparr> sr_world := w', sr_pc := S_Launch i, sr_captured := [] \<rparr>))"

text \<open>\<open>_cancel_task_locked\<close>\<close>

definition cancel_uncertain :: "(event \<Rightarrow> int) \<Rightarrow> string \<Rightarrow> task \<Rightarrow> task" where
  "cancel_uncertain width what t =
     save (emit width ''state'' (state_event Cancelling [(''error'', JStr ''NATIVE_STOP_UNCERTAIN''), (''errorType'', JStr what)]) t)"

definition shell_cancel_tail :: "(event \<Rightarrow> int) \<Rightarrow> (shell, json) io \<Rightarrow> (shell, bool) io" where
  "shell_cancel_tail width stops w =
     (case stops w of
        (Inr receipt, w') \<Rightarrow>
          if jget receipt ''absent'' = JBool True
          then (Inr True, on_task (save \<circ> set_state width Cancelled [(''backend'', JStr ''openshell'')]) w')
          else (Inr False, on_task (cancel_uncertain width ''ValueError'') w')
      | (Inl e, w') \<Rightarrow> (Inr False, on_task (cancel_uncertain width (exn_name e)) w'))"

definition shell_cancel :: "(event \<Rightarrow> int) \<Rightarrow> shell_service \<Rightarrow> transport \<Rightarrow> moment \<Rightarrow> moment \<Rightarrow> (shell, bool) io" where
  "shell_cancel width sv tp m m' w =
     shell_cancel_tail width (io_bind (run_operate sv tp m ''revoke'') (\<lambda>_. run_operate sv tp m' ''stop''))
       (on_task (save \<circ> set_state width Cancelling []) w)"

definition stage_launch :: "(event \<Rightarrow> int) \<Rightarrow> shell_service \<Rightarrow> transport \<Rightarrow> moment \<Rightarrow> moment \<Rightarrow> nat \<Rightarrow> shell_run \<Rightarrow> shell_run" where
  "stage_launch width sv tp m m' i r =
     (let t = sh_task (sr_world r) in
      if t_state t = Cancelled then r\<lparr> sr_pc := S_Finish \<rparr>
      else if t_state t = Cancelling then r\<lparr> sr_world := snd (shell_cancel width sv tp m m' (sr_world r)), sr_pc := S_Finish \<rparr>
      else
        (case run_operate sv tp m ''dispatch'' (on_task (save \<circ> set_state width Running
                [(''backend'', JStr ''openshell''), (''runtime'', JStr (stage_runtimes t ! i))]) (sr_world r)) of
           (Inl e, w') \<Rightarrow> shell_failed width (exn_name e) (r\<lparr> sr_world := w' \<rparr>)
         | (Inr receipt, w') \<Rightarrow> r\<lparr> sr_world := w', sr_pc := S_Context i receipt \<rparr>))"

text \<open>The context of the events call is read after the lock was given back.\<close>

definition stage_context :: "(event \<Rightarrow> int) \<Rightarrow> nat \<Rightarrow> json \<Rightarrow> shell_run \<Rightarrow> shell_run" where
  "stage_context width i receipt r =
     (case binding_context (t_openshell (sh_task (sr_world r))) of
        Inl e \<Rightarrow> shell_failed width ''KeyError'' r
      | Inr c \<Rightarrow> r\<lparr> sr_pc := S_Events i c (str_value (jget receipt ''operationId'')) None \<rparr>)"

definition output_item :: "json \<Rightarrow> string option" where
  "output_item e =
     (if is_obj e \<and> jget e ''type'' = JStr ''output'' \<and> set (jkeys e) = {''type'', ''text''}
      then (case jget e ''text'' of JStr s \<Rightarrow> Some (take 16384 s) | _ \<Rightarrow> None) else None)"

definition exit_item :: "json \<Rightarrow> string \<Rightarrow> json \<Rightarrow> int option" where
  "exit_item c operation e =
     (if is_obj e \<and> jget e ''type'' = JStr ''exit'' \<and> set (jkeys e) = {''type'', ''exitCode'', ''workerUID'', ''operationId''} \<and>
         py_eq (jget e ''workerUID'') (jget c ''workerUID'') \<and> jget e ''operationId'' = JStr operation
      then (case jget e ''exitCode'' of JInt n \<Rightarrow> Some n | _ \<Rightarrow> None) else None)"

text \<open>One event of the worker.\<close>

definition stage_event :: "(event \<Rightarrow> int) \<Rightarrow> nat \<Rightarrow> json \<Rightarrow> string \<Rightarrow> int option \<Rightarrow> json \<Rightarrow> shell_run \<Rightarrow> shell_run" where
  "stage_event width i c operation ended e r =
     (let t = sh_task (sr_world r) in
      if ended \<noteq> None then shell_failed width ''ValueError'' r
      else if t_state t \<in> {Cancelling, Cancelled} then r\<lparr> sr_pc := S_Finish \<rparr>
      else
        (case output_item e of
           Some line \<Rightarrow>
             r\<lparr> sr_world := on_task (emit width ''output'' (output_event line (stage_runtimes t ! i))) (sr_world r),
                sr_captured := sr_captured r @ take (CAPTURE_LIMIT - length (sr_captured r)) line \<rparr>
         | None \<Rightarrow>
             (case exit_item c operation e of
                Some code \<Rightarrow>
                  r\<lparr> sr_world := on_task (set_state width Finalizing [(''exitCode'', JInt code), (''backend'', JStr ''openshell'')]) (sr_world r),
                     sr_pc := S_Events i c operation (Some code) \<rparr>
              | None \<Rightarrow> shell_failed width ''ValueError'' r)))"

text \<open>The end of the stream of events.\<close>

definition stage_events_end :: "(event \<Rightarrow> int) \<Rightarrow> nat \<Rightarrow> int option \<Rightarrow> shell_run \<Rightarrow> shell_run" where
  "stage_events_end width i ended r =
     (case ended of
        None \<Rightarrow> shell_failed width ''ValueError'' r
      | Some code \<Rightarrow>
          if t_state (sh_task (sr_world r)) \<in> {Cancelled, Cancelling} then r\<lparr> sr_pc := S_Finish \<rparr>
          else r\<lparr> sr_pc := S_Revoke i code \<rparr>)"

definition stage_revoke :: "(event \<Rightarrow> int) \<Rightarrow> shell_service \<Rightarrow> transport \<Rightarrow> moment \<Rightarrow> nat \<Rightarrow> int \<Rightarrow> shell_run \<Rightarrow> shell_run" where
  "stage_revoke width sv tp m i code r =
     (case run_operate sv tp m ''revoke'' (sr_world r) of
        (Inl e, w') \<Rightarrow> shell_failed width (exn_name e) (r\<lparr> sr_world := w' \<rparr>)
      | (Inr _, w') \<Rightarrow> r\<lparr> sr_world := w', sr_pc := S_Stop i code \<rparr>)"

definition stage_stop :: "(event \<Rightarrow> int) \<Rightarrow> shell_service \<Rightarrow> transport \<Rightarrow> moment \<Rightarrow> nat \<Rightarrow> int \<Rightarrow> shell_run \<Rightarrow> shell_run" where
  "stage_stop width sv tp m i code r =
     (case run_operate sv tp m ''stop'' (sr_world r) of
        (Inl e, w') \<Rightarrow> shell_failed width (exn_name e) (r\<lparr> sr_world := w' \<rparr>)
      | (Inr receipt, w') \<Rightarrow>
          if jget receipt ''absent'' = JBool True then r\<lparr> sr_world := w', sr_pc := S_After i code \<rparr>
          else shell_failed width ''ValueError'' (r\<lparr> sr_world := w' \<rparr>))"

definition stage_record :: "int \<Rightarrow> task \<Rightarrow> task" where
  "stage_record code t =
     t\<lparr> t_stages := t_stages t @ [JObj (obj_items (t_stage t) @ [(''binding'', t_openshell t), (''exitCode'', JInt code)])] \<rparr>"

definition shell_handoff_prompt :: "task \<Rightarrow> string \<Rightarrow> string" where
  "shell_handoff_prompt t captured =
     (if t_handoff_prompt t = '''' then ''Review the previous agent result and produce the final checked answer.''
      else t_handoff_prompt t) @ [CHR 0x0A, CHR 0x0A] @ ''Previous agent result:'' @ [CHR 0x0A] @ captured"

text \<open>After the worker is absent: fail, hand off or complete.\<close>

definition stage_after :: "(event \<Rightarrow> int) \<Rightarrow> nat \<Rightarrow> int \<Rightarrow> shell_run \<Rightarrow> shell_run" where
  "stage_after width i code r =
     (let t = stage_record code (sh_task (sr_world r));
          info = [(''exitCode'', JInt code), (''backend'', JStr ''openshell'')];
          put_t = (\<lambda>t'. (sr_world r)\<lparr> sh_task := t' \<rparr>) in
      if code \<noteq> 0 then r\<lparr> sr_world := put_t (set_state width (if code = 75 then Interrupted else Failed) info t), sr_pc := S_Finish \<rparr>
      else if Suc i < length (stage_runtimes t) then
        r\<lparr> sr_world := put_t (save (emit width ''handoff'' (JObj [(''from'', JStr (stage_runtimes t ! i)),
               (''to'', JStr (stage_runtimes t ! Suc i))]) (t\<lparr> t_state := Handoff \<rparr>))),
           sr_prompt := Some (shell_handoff_prompt t (sr_captured r)), sr_pc := S_Begin (Suc i) \<rparr>
      else r\<lparr> sr_world := put_t (set_state width Completed info t), sr_pc := S_Finish \<rparr>)"

definition stage_finish :: "shell_run \<Rightarrow> shell_run" where
  "stage_finish r =
     r\<lparr> sr_world := on_task (\<lambda>t. (save t)\<lparr> t_finished := True \<rparr>) (sr_world r), sr_prompt := None, sr_pc := S_Done \<rparr>"

definition new_shell_run :: "task \<Rightarrow> shell_run" where
  "new_shell_run t = \<lparr> sr_world = \<lparr> sh_task = t\<lparr> t_finished := False \<rparr>, sh_trace = [] \<rparr>, sr_pc = S_Begin 0,
     sr_captured = [], sr_prompt = Some (t_prompt t) \<rparr>"

text \<open>\<open>Task.cancel\<close> of an OpenShell task: only while it is under way.\<close>

definition shell_cancel_request :: "(event \<Rightarrow> int) \<Rightarrow> shell_service \<Rightarrow> transport \<Rightarrow> moment \<Rightarrow> moment \<Rightarrow> shell_run \<Rightarrow> bool \<times> shell_run" where
  "shell_cancel_request width sv tp m m' r =
     (if \<not> cancellable (t_state (sh_task (sr_world r))) then (False, r)
      else (case shell_cancel width sv tp m m' (sr_world r) of
              (Inr ok, w') \<Rightarrow> (ok, r\<lparr> sr_world := w' \<rparr>)
            | (Inl e, w') \<Rightarrow> (False, r\<lparr> sr_world := w' \<rparr>)))"

inductive shell_step :: "(event \<Rightarrow> int) \<Rightarrow> shell_service \<Rightarrow> shell_run \<Rightarrow> shell_run \<Rightarrow> bool" for width sv where
  begin_stage: "sr_pc r = S_Begin i \<Longrightarrow> shell_step width sv r (stage_begin width sv tp m fresh i r)"
| launch_stage: "sr_pc r = S_Launch i \<Longrightarrow> shell_step width sv r (stage_launch width sv tp m m' i r)"
| read_context: "sr_pc r = S_Context i receipt \<Longrightarrow> shell_step width sv r (stage_context width i receipt r)"
| one_event: "sr_pc r = S_Events i c operation ended \<Longrightarrow> shell_step width sv r (stage_event width i c operation ended e r)"
| stream_error: "sr_pc r = S_Events i c operation ended \<Longrightarrow> shell_step width sv r (shell_failed width what r)"
| stream_end: "sr_pc r = S_Events i c operation ended \<Longrightarrow> shell_step width sv r (stage_events_end width i ended r)"
| revoke_stage: "sr_pc r = S_Revoke i code \<Longrightarrow> shell_step width sv r (stage_revoke width sv tp m i code r)"
| stop_stage: "sr_pc r = S_Stop i code \<Longrightarrow> shell_step width sv r (stage_stop width sv tp m i code r)"
| after_stage: "sr_pc r = S_After i code \<Longrightarrow> shell_step width sv r (stage_after width i code r)"
| finish_run: "sr_pc r = S_Finish \<Longrightarrow> shell_step width sv r (stage_finish r)"
| cancel_request: "shell_step width sv r (snd (shell_cancel_request width sv tp m m' r))"
| client_operation: "shell_step width sv r (r\<lparr> sr_world := snd (operate sv tp m subject True operation body (sr_world r)) \<rparr>)"

section \<open>Recovery of a lost generation\<close>

definition recover_binding :: "transport \<Rightarrow> moment \<Rightarrow> json \<Rightarrow> (shell, json) io" where
  "recover_binding tp m st =
     io_bind (io_lift (binding_context st)) (\<lambda>c0.
     io_bind (if jget st ''phase'' = JStr ''allocation-reserved''
              then io_bind (operate_lookup tp m c0 st) (\<lambda>st'. io_lift (binding_context st'))
              else io_return c0) (\<lambda>c.
     io_bind (binding_revoke (m_check m) c) (\<lambda>_.
     io_bind binding_state (\<lambda>st'.
     binding_stop tp (m_check m) c (stop_operation m st')))))"

definition needs_recovery :: "task \<Rightarrow> bool" where
  "needs_recovery t =
     (t_backend t = ''openshell'' \<and> truthy (t_openshell t) \<and> jget (t_openshell t) ''phase'' \<noteq> JStr ''stopped'')"

definition recover_one :: "(event \<Rightarrow> int) \<Rightarrow> shell_service \<Rightarrow> transport \<Rightarrow> moment \<Rightarrow> (shell, json list) io" where
  "recover_one width sv tp m w =
     (let t = sh_task w; st = t_openshell t in
      if \<not> needs_recovery t then (Inr [], w)
      else if jget st ''subject'' \<noteq> JStr (os_subject sv) then (Inl (ValueError ''FOREIGN_RECOVERY_SUBJECT''), w)
      else
        (case recover_binding tp m st (on_task (\<lambda>t. save (t\<lparr> t_state := Cancelling \<rparr>)) w) of
           (Inl e, w') \<Rightarrow> (Inl e, on_task save w')
         | (Inr receipt, w') \<Rightarrow>
             (Inr [receipt], on_task (\<lambda>t. emit width ''recovery'' (JObj [(''workerUID'', jget (t_openshell t) ''workerUID''),
                 (''absent'', JBool True), (''modelReplay'', JBool False)]) (save (t\<lparr> t_state := Interrupted \<rparr>))) w')))"

text \<open>\<open>recover_pending\<close>: the first failure ends the round.\<close>

fun recover_all :: "(event \<Rightarrow> int) \<Rightarrow> shell_service \<Rightarrow> transport \<Rightarrow> moment list \<Rightarrow> shell list \<Rightarrow> json list res \<times> shell list" where
  "recover_all width sv tp (m # ms) (w # ws) =
     (case recover_one width sv tp m w of
        (Inl e, w') \<Rightarrow> (Inl e, w' # ws)
      | (Inr rs, w') \<Rightarrow>
          (case recover_all width sv tp ms ws of
             (Inl e, ws') \<Rightarrow> (Inl e, w' # ws')
           | (Inr rs', ws') \<Rightarrow> (Inr (rs @ rs'), w' # ws')))"
| "recover_all width sv tp ms ws = (Inr [], ws)"

definition recover_pending :: "(event \<Rightarrow> int) \<Rightarrow> shell_service \<Rightarrow> transport \<Rightarrow> moment list \<Rightarrow> shell list \<Rightarrow> json list res \<times> shell list" where
  "recover_pending width sv tp ms ws =
     (if os_qualified sv then recover_all width sv tp ms ws else (Inl (ValueError ''OPENSHELL_NOT_QUALIFIED''), ws))"

section \<open>Specification: the life of a worker\<close>

text \<open>What the service may ask of the transport, given what it asked before and the last journal.  A
  call is made only after its reservation was journalled, a dispatch at most once per allocation, a
  stop always under one operation, and a new worker only when the earlier one is proved absent.\<close>

datatype worker = No_Worker | Asked | Dispatched | Stopping string | Absent

definition reserved :: "string \<Rightarrow> string \<Rightarrow> string \<Rightarrow> json \<Rightarrow> bool" where
  "reserved ph key operation st = (jget st ''phase'' = JStr ph \<and> jget st key = JStr operation)"

definition proves_absence :: "json \<Rightarrow> string \<Rightarrow> json res \<Rightarrow> bool" where
  "proves_absence c operation reply = (case reply of Inr v \<Rightarrow> py_eq v (absent_receipt c operation) | Inl e \<Rightarrow> False)"

fun life :: "worker \<times> json \<Rightarrow> shell_event \<Rightarrow> (worker \<times> json) option" where
  "life (wk, st) (Persist st') = Some (wk, st')"
| "life (wk, st) (Allocate c operation) =
     (if wk \<in> {No_Worker, Absent} \<and> reserved ''allocation-reserved'' ''allocationOperationId'' operation st
      then Some (Asked, st) else None)"
| "life (wk, st) (Lookup c operation) = (if wk = Asked then Some (Asked, st) else None)"
| "life (wk, st) (Dispatch c operation) =
     (if wk = Asked \<and> reserved ''dispatch-reserved'' ''operationId'' operation st then Some (Dispatched, st) else None)"
| "life (wk, st) (Stop_Exact c operation) =
     (if wk \<in> {Asked, Dispatched, Stopping operation} \<and> reserved ''stop-reserved'' ''stopOperationId'' operation st
      then Some (Stopping operation, st) else None)"
| "life (wk, st) (Verify_Absent c operation reply) =
     (if wk = Stopping operation then Some (if proves_absence c operation reply then Absent else wk, st) else None)"

fun life_run :: "(worker \<times> json) option \<Rightarrow> shell_event list \<Rightarrow> (worker \<times> json) option" where
  "life_run s [] = s"
| "life_run s (e # es) = life_run (case s of None \<Rightarrow> None | Some x \<Rightarrow> life x e) es"

lemma life_run_append: "life_run s (es @ es') = life_run (life_run s es) es'"
  by (induction es arbitrary: s) simp_all

text \<open>How the stored binding represents the life of the worker.\<close>

definition represents :: "worker \<Rightarrow> json \<Rightarrow> bool" where
  "represents wk st =
     (case wk of
        No_Worker \<Rightarrow> st = JNull
      | Asked \<Rightarrow> is_obj st \<and> jget st ''phase'' \<in> {JStr ''allocation-reserved'', JStr ''bound'', JStr ''expired''} \<and>
          jget st ''stopOperationId'' = JNull
      | Dispatched \<Rightarrow> is_obj st \<and> jget st ''phase'' \<in> {JStr ''dispatch-reserved'', JStr ''running''} \<and>
          jget st ''stopOperationId'' = JNull
      | Stopping operation \<Rightarrow> is_obj st \<and> jget st ''phase'' = JStr ''stop-reserved'' \<and>
          jget st ''stopOperationId'' = JStr operation \<and> operation \<noteq> []
      | Absent \<Rightarrow> st = JNull \<or> is_obj st \<and> jget st ''phase'' = JStr ''stopped'')"

definition alive :: "worker \<times> json \<Rightarrow> shell_event list \<Rightarrow> json \<Rightarrow> worker \<Rightarrow> bool" where
  "alive s tr st wk = (\<exists>last_st. life_run (Some s) tr = Some (wk, last_st) \<and> represents wk st)"

definition living :: "worker \<times> json \<Rightarrow> shell \<Rightarrow> bool" where
  "living s w = (\<exists>wk. alive s (sh_trace w) (t_openshell (sh_task w)) wk)"

lemma aliveI: "life_run (Some s) tr = Some (wk, x) \<Longrightarrow> represents wk st \<Longrightarrow> alive s tr st wk"
  by (auto simp: alive_def)

text \<open>One operation extends the trace.\<close>

lemma alive_step:
  assumes "alive s tr st wk" and "\<And>x. \<exists>st'. life_run (Some (wk, x)) es = Some (wk', st')" and "represents wk' st''"
  shows "alive s (tr @ es) st'' wk'"
  using assms unfolding alive_def life_run_append by fastforce

lemma alive_same: "alive s tr st wk \<Longrightarrow> represents wk st' \<Longrightarrow> alive s (tr @ [Persist st'']) st' wk"
  by (erule alive_step) simp_all

lemma alive_represents: "alive s tr st wk \<Longrightarrow> represents wk st"
  by (auto simp: alive_def)

lemma phase_simps [simp]:
  "is_obj (with_phase ph st) = is_obj st" "is_obj (fence_binding st) = is_obj st" "is_obj (stop_reserved operation st) = is_obj st"
  by (simp_all add: with_phase_def fence_binding_def stop_reserved_def)

lemma jget_with_phase [simp]: "is_obj st \<Longrightarrow> jget (with_phase ph st) k = (if k = ''phase'' then JStr ph else jget st k)"
  by (simp add: with_phase_def)

lemma jget_fence [simp]: "is_obj st \<Longrightarrow> jget (fence_binding st) k = (if k \<in> {''fenced'', ''revoked''} then JBool True else jget st k)"
  by (simp add: fence_binding_def)

lemma jget_stop_reserved [simp]: "is_obj st \<Longrightarrow> jget (stop_reserved operation st) k =
    (if k = ''stopOperationId'' then JStr operation else if k = ''phase'' then JStr ''stop-reserved''
     else if k \<in> {''fenced'', ''revoked''} then JBool True else jget st k)"
  by (simp add: stop_reserved_def)

section \<open>Effects\<close>

lemma wp_persist [wp_rules]:
  "io_wp (persist st) Q E w = Q () \<lparr> sh_task = save ((sh_task w)\<lparr> t_openshell := st \<rparr>), sh_trace = sh_trace w @ [Persist st] \<rparr>"
  by (simp add: io_wp_def persist_def)

lemma wp_state [wp_rules]: "io_wp binding_state Q E w = Q (t_openshell (sh_task w)) w"
  by (simp add: io_wp_def binding_state_def)

lemma wp_with_task [wp_rules]: "io_wp (with_task f) Q E w = io_wp (f (sh_task w)) Q E w"
  by (simp add: io_wp_def with_task_def)

lemma wp_check [wp_rules]: "io_wp (check b e) Q E w = (if b then Q () w else E w)"
  by (simp add: io_wp_def check_def require_def)

lemma wp_call [wp_rules]:
  "io_wp (transport_call e reply) Q E w =
     (case reply of Inl x \<Rightarrow> E (w\<lparr> sh_trace := sh_trace w @ [e] \<rparr>) | Inr v \<Rightarrow> Q v (w\<lparr> sh_trace := sh_trace w @ [e] \<rparr>))"
  by (simp add: io_wp_def transport_call_def split: sum.split)

lemma current_binding_Inr: "current_binding now f c st = Inr st' \<Longrightarrow> st' = st \<and> list_all (jhas st) KEYS \<and> truthy st"
  by (auto simp: current_binding_def res_bind_Inr_iff split: if_splits)

lemma jhas_obj: "jhas st k \<Longrightarrow> is_obj st"
  by (cases st) auto

lemma current_binding_obj: "current_binding now f c st = Inr st' \<Longrightarrow> st' = st \<and> is_obj st"
  using current_binding_Inr [of now f c st st'] by (auto simp: KEYS_def dest: jhas_obj)

lemma dispatch_wp:
  assumes "living s w"
  shows "io_wp (binding_dispatch tp now c operation) (\<lambda>_. living s) (living s) w"
proof (cases "current_binding now False c (t_openshell (sh_task w))")
  case (Inl e)
  with assms show ?thesis by (simp add: binding_dispatch_def wp_rules)
next
  case (Inr st)
  note st = current_binding_obj [OF Inr]
  obtain wk where wk: "alive s (sh_trace w) st wk" using assms st by (auto simp: living_def)
  show ?thesis
  proof (cases "jget st ''phase'' = JStr ''bound'' \<and> hex_id 32 operation")
    case False
    with assms Inr show ?thesis by (auto simp: binding_dispatch_def wp_rules)
  next
    case True
    let ?r = "jset ''operationId'' (JStr operation) (with_phase ''dispatch-reserved'' st)"
    let ?tr = "sh_trace w @ [Persist ?r, Dispatch c operation]"
    have "wk = Asked" and none: "jget st ''stopOperationId'' = JNull"
      using alive_represents [OF wk] True by (auto simp: represents_def split: worker.splits)
    with wk st True have a: "alive s ?tr ?r Dispatched"
      by (auto intro!: alive_step [OF wk] simp: reserved_def represents_def)
    moreover have "alive s (?tr @ [Persist (with_phase ''running'' ?r)]) (with_phase ''running'' ?r) Dispatched"
      by (rule alive_same [OF a]) (use st none in \<open>simp add: represents_def\<close>)
    ultimately show ?thesis
      using Inr True by (auto simp: binding_dispatch_def wp_rules living_def split: sum.split)
  qed
qed

lemma revoke_wp:
  assumes "living s w"
  shows "io_wp (binding_revoke now c) (\<lambda>_. living s) (living s) w"
proof (cases "current_binding now True c (t_openshell (sh_task w))")
  case (Inl e)
  with assms show ?thesis by (simp add: binding_revoke_def wp_rules)
next
  case (Inr st)
  note st = current_binding_obj [OF Inr]
  obtain wk where wk: "alive s (sh_trace w) st wk" using assms st by (auto simp: living_def)
  have "represents wk (fence_binding st)"
    using alive_represents [OF wk] st by (cases wk) (auto simp: represents_def)
  from alive_same [OF wk this] have "alive s (sh_trace w @ [Persist (fence_binding st)]) (fence_binding st) wk" .
  with Inr show ?thesis by (auto simp: binding_revoke_def wp_rules living_def)
qed

text \<open>A stop either proves the absence or leaves the reservation.\<close>

definition stop_done :: "worker \<times> json \<Rightarrow> shell \<Rightarrow> bool" where
  "stop_done s w = (alive s (sh_trace w) (t_openshell (sh_task w)) Absent \<and> is_obj (t_openshell (sh_task w)))"

lemma stop_done_living: "stop_done s w \<Longrightarrow> living s w"
  by (auto simp: stop_done_def living_def)

lemma stop_wp:
  assumes "living s w"
  shows "io_wp (binding_stop tp now c operation) (\<lambda>_. stop_done s) (living s) w"
proof (cases "current_binding now True c (t_openshell (sh_task w))")
  case (Inl e)
  with assms show ?thesis by (simp add: binding_stop_def wp_rules)
next
  case (Inr st)
  note st = current_binding_obj [OF Inr]
  obtain wk where wk: "alive s (sh_trace w) st wk" using assms st by (auto simp: living_def)
  note rep = alive_represents [OF wk]
  show ?thesis
  proof (cases "hex_id 32 operation \<and> jget st ''stopOperationId'' \<in> {JNull, JStr operation}")
    case False
    with assms Inr show ?thesis by (auto simp: binding_stop_def wp_rules)
  next
    case ok: True
    show ?thesis
    proof (cases "jget st ''phase'' = JStr ''stopped''")
      case True
      then have "wk = Absent" using rep by (auto simp: represents_def split: worker.splits)
      with wk st True ok Inr show ?thesis by (auto simp: binding_stop_def wp_rules stop_done_def)
    next
      case False
      let ?r = "stop_reserved operation st"
      let ?tr = "sh_trace w @ [Persist ?r, Stop_Exact c operation]"
      have "wk \<in> {Asked, Dispatched, Stopping operation}"
        using rep ok False st by (cases wk) (auto simp: represents_def)
      moreover have "operation \<noteq> []" using ok by (auto dest: hex_id_length)
      ultimately have a: "alive s ?tr ?r (Stopping operation)"
        using st by (auto intro!: alive_step [OF wk] simp: reserved_def represents_def)
      have b: "alive s (?tr @ [Verify_Absent c operation reply]) ?r (Stopping operation)"
        if "\<not> proves_absence c operation reply" for reply
        by (rule alive_step [OF a]) (use that alive_represents [OF a] in simp_all)
      have d: "alive s (?tr @ [Verify_Absent c operation reply, Persist (with_phase ''stopped'' ?r)]) (with_phase ''stopped'' ?r) Absent"
        if "proves_absence c operation reply" for reply
        by (rule alive_step [OF a]) (use that st in \<open>simp_all add: represents_def\<close>)
      note opened = binding_stop_def stop_worker_def wp_rules
      have aL: "living s \<lparr> sh_task = save ((sh_task w)\<lparr> t_openshell := ?r \<rparr>), sh_trace = ?tr \<rparr>"
        using a by (auto simp: living_def save_def)
      have bL: "living s \<lparr> sh_task = save ((sh_task w)\<lparr> t_openshell := ?r \<rparr>), sh_trace = ?tr @ [Verify_Absent c operation reply] \<rparr>"
        if "\<not> proves_absence c operation reply" for reply
        using b [OF that] by (auto simp: living_def save_def)
      show ?thesis
      proof (cases "tp_stop tp c operation")
        case (Inl e)
        with aL \<open>current_binding _ _ _ _ = _\<close> ok False st show ?thesis by (auto simp: opened)
      next
        case stopped: (Inr v)
        show ?thesis
        proof (cases "py_eq v (stopped_receipt c operation)")
          case False
          with aL stopped Inr ok \<open>jget st ''phase'' \<noteq> _\<close> st show ?thesis by (auto simp: opened)
        next
          case pv: True
          show ?thesis
          proof (cases "proves_absence c operation (tp_absent tp c operation)")
            case no: False
            show ?thesis
              using bL [OF no] no stopped pv Inr ok False st
              by (auto simp: opened proves_absence_def split: sum.split)
          next
            case yes: True
            then obtain x where "tp_absent tp c operation = Inr x" "py_eq x (absent_receipt c operation)"
              by (auto simp: proves_absence_def split: sum.splits)
            with d [OF yes] stopped pv Inr ok False st show ?thesis
              by (auto simp: opened stop_done_def)
          qed
        qed
      qed
    qed
  qed
qed

lemma accept_wp:
  assumes "alive s (sh_trace w) (t_openshell (sh_task w)) Asked"
  shows "io_wp (accept_allocation now c worker operation) (\<lambda>_. living s) (living s) w"
proof -
  let ?st = "t_openshell (sh_task w)"
  let ?w = "jset ''workerUID'' (jget worker ''workerUID'') ?st"
  have st: "is_obj ?st" "jget ?st ''stopOperationId'' = JNull"
    using alive_represents [OF assms] by (simp_all add: represents_def)
  have "alive s (sh_trace w @ [Persist (with_phase ''expired'' ?w)]) (with_phase ''expired'' ?w) Asked"
    by (rule alive_same [OF assms]) (use st in \<open>simp add: represents_def\<close>)
  moreover have "alive s (sh_trace w @ [Persist (jset ''fenced'' (JBool False) (with_phase ''bound'' ?w))])
      (jset ''fenced'' (JBool False) (with_phase ''bound'' ?w)) Asked"
    by (rule alive_same [OF assms]) (use st in \<open>simp add: represents_def\<close>)
  ultimately show ?thesis
    using assms by (auto simp: accept_allocation_def wp_rules living_def Let_def split: sum.split)
qed

lemma bind_wp:
  assumes "living s w"
  shows "io_wp (operate_bind sv tp m) (\<lambda>_. living s) (living s) w"
proof (cases "t_state (sh_task w) = Queued \<and> \<not> truthy (t_openshell (sh_task w))")
  case False
  with assms show ?thesis by (auto simp: operate_bind_def wp_rules Let_def)
next
  case True
  obtain wk where wk: "alive s (sh_trace w) (t_openshell (sh_task w)) wk" using assms by (auto simp: living_def)
  let ?c = "allocation_context sv (m_binding m) (sh_task w)"
  let ?r = "allocation_reserved ?c (allocation_expiry sv (m_expiry m)) (m_operation m)"
  let ?w = "\<lparr> sh_task = save ((sh_task w)\<lparr> t_openshell := ?r \<rparr>), sh_trace = sh_trace w @ [Persist ?r, Allocate ?c (m_operation m)] \<rparr>"
  have r: "represents Asked ?r" "reserved ''allocation-reserved'' ''allocationOperationId'' (m_operation m) ?r"
    by (simp_all add: represents_def reserved_def allocation_reserved_def fresh_binding_def allocation_context_def)
  have "wk \<in> {No_Worker, Absent}"
    using alive_represents [OF wk] True by (cases "t_openshell (sh_task w)"; cases wk) (auto simp: represents_def)
  with r have a: "alive s (sh_trace ?w) (t_openshell (sh_task ?w)) Asked"
    by (auto intro!: alive_step [OF wk])
  have l: "living s ?w" using a by (auto simp: living_def)
  show ?thesis
    using True l accept_wp [OF a] by (simp add: operate_bind_def wp_rules Let_def split: sum.split)
qed

lemma lookup_wp:
  assumes "living s w" and "jget (t_openshell (sh_task w)) ''phase'' = JStr ''allocation-reserved''"
  shows "io_wp (operate_lookup tp m c st) (\<lambda>_. living s) (living s) w"
proof -
  obtain wk where wk: "alive s (sh_trace w) (t_openshell (sh_task w)) wk" using assms by (auto simp: living_def)
  have asked: "wk = Asked" using alive_represents [OF wk] assms(2) by (cases wk) (auto simp: represents_def)
  have a: "alive s (sh_trace w @ [Lookup c' operation]) (t_openshell (sh_task w)) Asked" for c' operation
    using alive_represents [OF wk] asked by (intro alive_step [OF wk]) simp_all
  have "living s (w\<lparr> sh_trace := sh_trace w @ [Lookup c' operation] \<rparr>)" for c' operation
    using a by (auto simp: living_def)
  moreover have "io_wp (accept_allocation (m_check m) c' worker operation) (\<lambda>_. living s) (living s)
      (w\<lparr> sh_trace := sh_trace w @ [Lookup c'' operation'] \<rparr>)" for c' c'' worker operation operation'
    by (rule accept_wp) (simp add: a)
  ultimately show ?thesis
    using assms(1) by (simp add: operate_lookup_def wp_rules Let_def split: sum.split)
qed

text \<open>Every operation keeps the life of the worker; a successful stop proves the absence.\<close>

definition after_operation :: "worker \<times> json \<Rightarrow> string \<Rightarrow> shell \<Rightarrow> bool" where
  "after_operation s operation w = (if operation = ''stop'' then stop_done s w else living s w)"

lemma after_operation_simps [simp]:
  "operation \<noteq> ''stop'' \<Longrightarrow> after_operation s operation = living s" "after_operation s ''stop'' = stop_done s"
  by (simp_all add: after_operation_def fun_eq_iff)

lemma after_living: "after_operation s operation w \<Longrightarrow> living s w"
  by (auto simp: after_operation_def stop_done_living split: if_splits)

lemma bound_wp:
  assumes "living s w" and "operation \<in> set openshell_operations" and "operation \<noteq> ''bind''"
  shows "io_wp (operate_bound tp m operation c st) (\<lambda>_. after_operation s operation) (living s) w"
proof -
  have op: "operation \<in> {''resolve'', ''dispatch'', ''revoke'', ''stop''}"
    using assms(2,3) by (auto simp: openshell_operations_def)
  have resolve: "io_wp (binding_resolve (m_check m) c) (\<lambda>_. living s) (living s) w"
    using assms(1) by (simp add: binding_resolve_def wp_rules split: sum.split)
  consider "operation = ''resolve''" | "operation = ''dispatch''" | "operation = ''revoke''" | "operation = ''stop''"
    using op by blast
  then show ?thesis
  proof cases
    case 1
    then show ?thesis using resolve by (simp add: operate_bound_def)
  next
    case 2
    then show ?thesis using dispatch_wp [OF assms(1)] by (simp add: operate_bound_def)
  next
    case 3
    then show ?thesis using revoke_wp [OF assms(1)] by (simp add: operate_bound_def)
  next
    case 4
    then show ?thesis using stop_wp [OF assms(1)] by (simp add: operate_bound_def)
  qed
qed

lemma operate_wp:
  assumes "living s w"
  shows "io_wp (operate sv tp m subject found operation body) (\<lambda>_. after_operation s operation) (living s) w"
proof (cases "operation = ''bind''")
  case True
  with assms bind_wp [OF assms] show ?thesis by (simp add: operate_def wp_rules)
next
  case False
  have look: "io_wp (operate_lookup tp m c st) (\<lambda>_. after_operation s operation) (living s) w"
    if "jget (t_openshell (sh_task w)) ''phase'' = JStr ''allocation-reserved''" "operation = ''resolve''" for c st
    using lookup_wp [OF assms that(1)] that(2) by simp
  have "io_wp (operate_existing sv tp m operation) (\<lambda>_. after_operation s operation) (living s) w"
    if "operation \<in> set openshell_operations"
    using assms look bound_wp [OF assms that False]
    by (auto simp: operate_existing_def wp_rules split: sum.split)
  with False assms show ?thesis by (auto simp: operate_def wp_rules)
qed

section \<open>What no operation changes\<close>

definition same_state :: "shell \<Rightarrow> shell \<Rightarrow> bool" where
  "same_state w w' = (t_state (sh_task w') = t_state (sh_task w) \<and> t_runtime (sh_task w') = t_runtime (sh_task w) \<and>
     t_handoff (sh_task w') = t_handoff (sh_task w))"

lemma keeps_bind: "io_keeps same_state m \<Longrightarrow> (\<And>x. io_keeps same_state (f x)) \<Longrightarrow> io_keeps same_state (io_bind m f)"
  by (erule io_keeps_bind) (auto simp: same_state_def)

lemma keeps_basic:
  "io_keeps same_state (persist st)" "io_keeps same_state binding_state" "io_keeps same_state (check b e)"
  "io_keeps same_state (transport_call e' reply)" "io_keeps same_state (io_lift r)" "io_keeps same_state (io_return x)"
  by (simp_all add: io_keeps_def same_state_def persist_def binding_state_def check_def transport_call_def)

lemma keeps_if: "io_keeps same_state m \<Longrightarrow> io_keeps same_state m' \<Longrightarrow> io_keeps same_state (if b then m else m')"
  by simp

lemma keeps_with_task: "(\<And>t. io_keeps same_state (f t)) \<Longrightarrow> io_keeps same_state (with_task f)"
  by (simp add: io_keeps_def with_task_def)

lemmas keeps_rules = keeps_bind keeps_basic keeps_if keeps_with_task

lemma operations_keep_state:
  "io_keeps same_state (binding_resolve now c)" "io_keeps same_state (binding_dispatch tp now c operation)"
  "io_keeps same_state (binding_revoke now c)" "io_keeps same_state (binding_stop tp now c operation)"
  "io_keeps same_state (accept_allocation now c worker operation)"
  by (simp_all add: binding_resolve_def binding_dispatch_def binding_revoke_def binding_stop_def stop_worker_def
      accept_allocation_def Let_def keeps_rules)

lemma operate_keeps_state: "io_keeps same_state (operate sv tp m subject found operation body)"
  by (simp add: operate_def operate_bind_def operate_existing_def operate_lookup_def operate_bound_def Let_def
      keeps_rules operations_keep_state)

section \<open>A worker proved absent stays absent\<close>

lemma stop_done_stays:
  assumes "stop_done s w"
  shows "io_wp (operate sv tp m subject found operation body) (\<lambda>_. stop_done s) (stop_done s) w"
proof -
  let ?st = "t_openshell (sh_task w)"
  have a: "alive s (sh_trace w) ?st Absent" and obj: "is_obj ?st" using assms by (auto simp: stop_done_def)
  have ph: "jget ?st ''phase'' = JStr ''stopped''" using alive_represents [OF a] obj by (auto simp: represents_def)
  then have "truthy ?st" by (cases ?st) auto
  then have bind: "io_wp (operate_bind sv tp m) (\<lambda>_. stop_done s) (stop_done s) w"
    using assms by (simp add: operate_bind_def wp_rules Let_def)
  have resolve: "io_wp (binding_resolve now c) (\<lambda>_. stop_done s) (stop_done s) w" for now c
    using assms by (simp add: binding_resolve_def wp_rules split: sum.split)
  have dispatch: "io_wp (binding_dispatch tp now c op) (\<lambda>_. stop_done s) (stop_done s) w" for now c op
    using assms ph by (auto simp: binding_dispatch_def wp_rules split: sum.split dest: current_binding_obj)
  have stop: "io_wp (binding_stop tp now c op) (\<lambda>_. stop_done s) (stop_done s) w" for now c op
    using assms ph by (auto simp: binding_stop_def wp_rules split: sum.split dest: current_binding_obj)
  have "represents Absent (fence_binding ?st)" using obj ph by (simp add: represents_def)
  from alive_same [OF a this] have revoke: "io_wp (binding_revoke now c) (\<lambda>_. stop_done s) (stop_done s) w" for now c
    using assms obj by (auto simp: binding_revoke_def wp_rules stop_done_def split: sum.split dest!: current_binding_obj)
  have "io_wp (operate_bound tp m operation c st) (\<lambda>_. stop_done s) (stop_done s) w" for c st
    using resolve dispatch stop revoke by (simp add: operate_bound_def)
  then have "io_wp (operate_existing sv tp m operation) (\<lambda>_. stop_done s) (stop_done s) w"
    using assms ph by (simp add: operate_existing_def wp_rules split: sum.split)
  with bind assms show ?thesis by (simp add: operate_def wp_rules)
qed

lemma unbound_stays:
  assumes "t_openshell (sh_task w) = JNull" and "t_state (sh_task w) \<noteq> Queued"
  shows "snd (operate sv tp m subject found operation body w) = w"
proof -
  have "io_wp (operate sv tp m subject found operation body) (\<lambda>_ w'. w' = w) (\<lambda>w'. w' = w) w"
    using assms by (simp add: operate_def operate_bind_def operate_existing_def wp_rules Let_def)
  then show ?thesis by (auto simp: io_wp_def split: prod.splits sum.splits)
qed

text \<open>The worker of an ended task is absent.\<close>

definition world_ok :: "worker \<times> json \<Rightarrow> shell \<Rightarrow> bool" where
  "world_ok s w = (living s w \<and> (terminal (t_state (sh_task w)) \<longrightarrow> alive s (sh_trace w) (t_openshell (sh_task w)) Absent))"

lemma stop_done_ok: "stop_done s w \<Longrightarrow> world_ok s w"
  by (auto simp: world_ok_def stop_done_living) (simp add: stop_done_def)

lemma operate_ok:
  assumes "world_ok s w"
  shows "world_ok s (snd (operate sv tp m subject found operation body w))"
proof (cases "terminal (t_state (sh_task w))")
  case True
  then have a: "alive s (sh_trace w) (t_openshell (sh_task w)) Absent" using assms by (simp add: world_ok_def)
  show ?thesis
  proof (cases "t_openshell (sh_task w) = JNull")
    case null: True
    from True have "t_state (sh_task w) \<noteq> Queued" by (auto simp: terminal_def)
    with unbound_stays [OF null this] assms show ?thesis by simp
  next
    case False
    with alive_represents [OF a] have "is_obj (t_openshell (sh_task w))" by (simp add: represents_def)
    with a have "stop_done s w" by (simp add: stop_done_def)
    from io_wp_snd [OF stop_done_stays [OF this]] show ?thesis by (rule stop_done_ok)
  qed
next
  case False
  have l: "living s w" using assms by (simp add: world_ok_def)
  have "io_wp (operate sv tp m subject found operation body) (\<lambda>_. living s) (living s) w"
    using operate_wp [OF l] by (rule io_wp_mono) (auto dest: after_living)
  from io_wp_snd [OF this] have "living s (snd (operate sv tp m subject found operation body w))" .
  moreover have "t_state (sh_task (snd (operate sv tp m subject found operation body w))) = t_state (sh_task w)"
    using operate_keeps_state by (simp add: io_keeps_def same_state_def)
  ultimately show ?thesis using False by (simp add: world_ok_def)
qed

lemma set_state_openshell [simp]: "t_openshell (set_state width st extra t) = t_openshell t"
  by (simp add: set_state_def)

lemma on_task_simps [simp]: "sh_task (on_task f w) = f (sh_task w)" "sh_trace (on_task f w) = sh_trace w"
  by (simp_all add: on_task_def)

lemma living_task:
  "living s w \<Longrightarrow> t_openshell (f (sh_task w)) = t_openshell (sh_task w) \<Longrightarrow> living s (on_task f w)"
  by (simp add: living_def)

lemma stop_done_task:
  "stop_done s w \<Longrightarrow> t_openshell (f (sh_task w)) = t_openshell (sh_task w) \<Longrightarrow> stop_done s (on_task f w)"
  by (simp add: stop_done_def)

text \<open>Cancelling.\<close>

definition cancel_calls :: "shell_service \<Rightarrow> transport \<Rightarrow> moment \<Rightarrow> moment \<Rightarrow> (shell, json) io" where
  "cancel_calls sv tp m m' = io_bind (run_operate sv tp m ''revoke'') (\<lambda>_. run_operate sv tp m' ''stop'')"

lemma cancel_calls_wp:
  assumes "living s w"
  shows "io_wp (cancel_calls sv tp m m') (\<lambda>_. stop_done s) (living s) w"
  unfolding cancel_calls_def wp_rules run_operate_def
  by (rule io_wp_mono [OF operate_wp [OF assms]])
     (auto intro!: io_wp_mono [OF operate_wp])

lemma cancel_calls_stays:
  assumes "stop_done s w"
  shows "io_wp (cancel_calls sv tp m m') (\<lambda>_. stop_done s) (stop_done s) w"
  unfolding cancel_calls_def wp_rules run_operate_def
  by (rule io_wp_mono [OF stop_done_stays [OF assms]]) (auto intro: stop_done_stays)

lemma cancel_calls_state: "io_keeps same_state (cancel_calls sv tp m m')"
  by (simp add: cancel_calls_def run_operate_def keeps_rules operate_keeps_state)

lemma shell_cancel_calls:
  "shell_cancel width sv tp m m' w =
     shell_cancel_tail width (cancel_calls sv tp m m') (on_task (save \<circ> set_state width Cancelling []) w)"
  by (simp add: shell_cancel_def cancel_calls_def)

lemma cancel_uncertain_simps [simp]:
  "t_state (cancel_uncertain width what t) = t_state t" "t_openshell (cancel_uncertain width what t) = t_openshell t"
  by (simp_all add: cancel_uncertain_def)

lemma shell_cancel_ok:
  assumes "living s w"
  shows "world_ok s (snd (shell_cancel width sv tp m m' w))"
    and "fst (shell_cancel width sv tp m m' w) = Inr True \<Longrightarrow> stop_done s (snd (shell_cancel width sv tp m m' w))"
proof -
  let ?w = "on_task (save \<circ> set_state width Cancelling []) w"
  have l: "living s ?w" using assms by (rule living_task) simp
  obtain out w' where c: "cancel_calls sv tp m m' ?w = (out, w')" by fastforce
  have st: "t_state (sh_task w') = Cancelling"
    using io_keepsD [OF cancel_calls_state c] by (simp add: same_state_def)
  have "world_ok s (snd (shell_cancel width sv tp m m' w)) \<and>
    (fst (shell_cancel width sv tp m m' w) = Inr True \<longrightarrow> stop_done s (snd (shell_cancel width sv tp m m' w)))"
  proof (cases out)
    case (Inl e)
    have "living s w'" by (rule io_wpD(2) [OF cancel_calls_wp [OF l] c [unfolded Inl]])
    then have "living s (on_task (cancel_uncertain width (exn_name e)) w')" by (rule living_task) simp
    with c Inl st show ?thesis by (simp add: shell_cancel_calls shell_cancel_tail_def world_ok_def terminal_def)
  next
    case (Inr receipt)
    have d: "stop_done s w'" by (rule io_wpD(1) [OF cancel_calls_wp [OF l] c [unfolded Inr]])
    then have "stop_done s (on_task (cancel_uncertain width x) w')"
      "stop_done s (on_task (save \<circ> set_state width Cancelled extra) w')" for x extra
      by (auto intro: stop_done_task)
    with c Inr show ?thesis by (auto simp: shell_cancel_calls shell_cancel_tail_def intro: stop_done_ok)
  qed
  then show "world_ok s (snd (shell_cancel width sv tp m m' w))"
    and "fst (shell_cancel width sv tp m m' w) = Inr True \<Longrightarrow> stop_done s (snd (shell_cancel width sv tp m m' w))"
    by blast+
qed

lemma shell_cancel_stays:
  assumes "stop_done s w"
  shows "stop_done s (snd (shell_cancel width sv tp m m' w))"
proof -
  let ?w = "on_task (save \<circ> set_state width Cancelling []) w"
  have d: "stop_done s ?w" using assms by (rule stop_done_task) simp
  obtain out w' where c: "cancel_calls sv tp m m' ?w = (out, w')" by fastforce
  have "stop_done s w'" using io_wp_snd [OF cancel_calls_stays [OF d]] c by (metis snd_conv)
  then have "stop_done s (on_task (cancel_uncertain width x) w')"
    "stop_done s (on_task (save \<circ> set_state width Cancelled extra) w')" for x extra
    by (auto intro: stop_done_task)
  with c show ?thesis by (auto simp: shell_cancel_calls shell_cancel_tail_def split: sum.split)
qed

section \<open>The run thread keeps the life of its workers\<close>

definition run_ok :: "worker \<times> json \<Rightarrow> shell_run \<Rightarrow> bool" where
  "run_ok s r = (world_ok s (sr_world r) \<and> (\<forall>i code. sr_pc r = S_After i code \<longrightarrow> stop_done s (sr_world r)))"

lemma run_okI: "world_ok s (sr_world r) \<Longrightarrow> (\<And>i code. sr_pc r \<noteq> S_After i code) \<Longrightarrow> run_ok s r"
  by (simp add: run_ok_def)

lemma open_state_ok: "living s w \<Longrightarrow> \<not> terminal (t_state (sh_task w)) \<Longrightarrow> world_ok s w"
  by (simp add: world_ok_def)

lemma shell_failed_ok: "world_ok s (sr_world r) \<Longrightarrow> run_ok s (shell_failed width what r)"
  by (auto simp: shell_failed_def run_ok_def world_ok_def terminal_def Let_def intro: living_task)

lemma run_operate_ok:
  assumes "world_ok s w" and "run_operate sv tp m operation w = (out, w')"
  shows "world_ok s w'"
  using operate_ok [OF assms(1), of sv tp m "os_subject sv" True operation approval_body] assms(2)
  by (simp add: run_operate_def)

lemma stage_begin_ok:
  assumes "run_ok s r"
  shows "run_ok s (stage_begin width sv tp m fresh i r)"
proof -
  let ?t = "sh_task (sr_world r)"
  have w: "world_ok s (sr_world r)" using assms by (simp add: run_ok_def)
  show ?thesis
  proof (cases "t_state ?t \<in> {Cancelled, Cancelling}")
    case True
    with w show ?thesis by (simp add: stage_begin_def run_ok_def)
  next
    case open_state: False
    show ?thesis
    proof (cases "i \<noteq> 0 \<and> (\<not> truthy (t_openshell ?t) \<or> jget (t_openshell ?t) ''phase'' \<noteq> JStr ''stopped'')")
      case True
      with open_state w show ?thesis by (auto simp: stage_begin_def Let_def shell_failed_ok)
    next
      case False
      let ?t' = "save (?t\<lparr> t_openshell := (if i = 0 then t_openshell ?t else JNull),
          t_stage := stage_json i (stage_runtimes ?t ! i) (if i = 0 then t_correlation ?t else fresh), t_state := Queued \<rparr>)"
      let ?w = "(sr_world r)\<lparr> sh_task := ?t' \<rparr>"
      obtain wk where wk: "alive s (sh_trace (sr_world r)) (t_openshell ?t) wk"
        using w by (auto simp: world_ok_def living_def)
      have "i \<noteq> 0 \<Longrightarrow> wk = Absent"
        using alive_represents [OF wk] False by (cases wk) (auto simp: represents_def)
      then have "represents wk (if i = 0 then t_openshell ?t else JNull)"
        using alive_represents [OF wk] by (auto simp: represents_def)
      with wk have "living s ?w" unfolding living_def alive_def by auto
      then have ok: "world_ok s ?w" by (rule open_state_ok) (simp add: terminal_def)
      obtain out w' where o: "run_operate sv tp m ''bind'' ?w = (out, w')" by fastforce
      note ok' = run_operate_ok [OF ok o]
      have "stage_begin width sv tp m fresh i r =
        (case out of Inl e \<Rightarrow> shell_failed width (exn_name e) (r\<lparr> sr_world := w' \<rparr>)
         | Inr _ \<Rightarrow> r\<lparr> sr_world := w', sr_pc := S_Launch i, sr_captured := [] \<rparr>)"
        using open_state False o by (auto simp: stage_begin_def Let_def)
      with ok' show ?thesis by (cases out) (auto intro: shell_failed_ok run_okI)
    qed
  qed
qed

lemma stage_launch_ok:
  assumes "run_ok s r"
  shows "run_ok s (stage_launch width sv tp m m' i r)"
proof -
  let ?t = "sh_task (sr_world r)"
  have w: "world_ok s (sr_world r)" and l: "living s (sr_world r)" using assms by (simp_all add: run_ok_def world_ok_def)
  consider "t_state ?t = Cancelled" | "t_state ?t = Cancelling" | "t_state ?t \<notin> {Cancelled, Cancelling}" by blast
  then show ?thesis
  proof cases
    case 1
    with w show ?thesis by (simp add: stage_launch_def run_ok_def)
  next
    case 2
    with shell_cancel_ok(1) [OF l] show ?thesis by (simp add: stage_launch_def run_ok_def)
  next
    case 3
    let ?w = "on_task (save \<circ> set_state width Running
        [(''backend'', JStr ''openshell''), (''runtime'', JStr (stage_runtimes ?t ! i))]) (sr_world r)"
    have "living s ?w" using l by (rule living_task) simp
    then have ok: "world_ok s ?w" by (rule open_state_ok) (simp add: terminal_def)
    obtain out w' where o: "run_operate sv tp m ''dispatch'' ?w = (out, w')" by fastforce
    from run_operate_ok [OF ok o] 3 o show ?thesis
      by (cases out) (auto simp: stage_launch_def Let_def intro: shell_failed_ok run_okI)
  qed
qed

lemma stage_event_ok:
  assumes "run_ok s r" and "sr_pc r = S_Events i c operation ended"
  shows "run_ok s (stage_event width i c operation ended e r)"
proof -
  have w: "world_ok s (sr_world r)" and l: "living s (sr_world r)" using assms by (simp_all add: run_ok_def world_ok_def)
  have "world_ok s (on_task (emit width kind d) (sr_world r))" for kind d
    using w by (auto simp: world_ok_def intro: living_task)
  moreover have "world_ok s (on_task (set_state width Finalizing extra) (sr_world r))" for extra
    using l by (intro open_state_ok living_task) (simp_all add: terminal_def)
  ultimately show ?thesis
    using w assms(2) by (auto simp: stage_event_def Let_def intro: shell_failed_ok run_okI split: option.split)
qed

lemma stage_stop_ok:
  assumes "run_ok s r"
  shows "run_ok s (stage_stop width sv tp m i code r)"
proof -
  have w: "world_ok s (sr_world r)" and l: "living s (sr_world r)" using assms by (simp_all add: run_ok_def world_ok_def)
  obtain out w' where o: "run_operate sv tp m ''stop'' (sr_world r) = (out, w')" by fastforce
  have "stop_done s w'" if "out = Inr receipt" for receipt
    using operate_wp [OF l, of sv tp m "os_subject sv" True "''stop''" approval_body] o that
    by (auto simp: run_operate_def dest: io_wpD)
  with run_operate_ok [OF w o] o show ?thesis
    by (cases out) (auto simp: stage_stop_def run_ok_def [of s "_\<lparr>sr_world := _, sr_pc := _\<rparr>"] intro: shell_failed_ok)
qed

lemma stage_after_ok:
  assumes "run_ok s r" and "sr_pc r = S_After i code"
  shows "run_ok s (stage_after width i code r)"
proof -
  have d: "stop_done s (sr_world r)" using assms by (simp add: run_ok_def)
  have "t_openshell (stage_record code t) = t_openshell t" for t by (simp add: stage_record_def)
  then have "world_ok s ((sr_world r)\<lparr> sh_task := t' \<rparr>)" if "t_openshell t' = t_openshell (stage_record code (sh_task (sr_world r)))" for t'
    using d that by (intro stop_done_ok) (simp add: stop_done_def)
  then show ?thesis by (simp add: stage_after_def Let_def run_ok_def)
qed

lemma shell_step_ok: "shell_step width sv r r' \<Longrightarrow> run_ok s r \<Longrightarrow> run_ok s r'"
proof (induction rule: shell_step.induct)
  case (revoke_stage r i code tp m)
  have w: "world_ok s (sr_world r)" using revoke_stage by (simp add: run_ok_def)
  obtain out w' where o: "run_operate sv tp m ''revoke'' (sr_world r) = (out, w')" by fastforce
  from run_operate_ok [OF w o] o show ?case
    by (cases out) (auto simp: stage_revoke_def intro: shell_failed_ok run_okI)
next
  case (cancel_request r tp m m')
  have l: "living s (sr_world r)" using cancel_request by (simp add: run_ok_def world_ok_def)
  obtain out w' where c: "shell_cancel width sv tp m m' (sr_world r) = (out, w')" by fastforce
  have "world_ok s w'" using shell_cancel_ok(1) [OF l] c by (metis snd_conv)
  moreover have "stop_done s w'" if "stop_done s (sr_world r)" using shell_cancel_stays [OF that] c by (metis snd_conv)
  ultimately show ?case
    using cancel_request c by (cases out) (auto simp: shell_cancel_request_def run_ok_def)
next
  case (client_operation r tp m subject operation body)
  then show ?case
    using operate_ok io_wp_snd [OF stop_done_stays] by (auto simp: run_ok_def)
next
  case (stream_end r i c operation ended)
  then have "world_ok s (sr_world r)" by (simp add: run_ok_def)
  then show ?case
    by (cases ended) (auto simp: stage_events_end_def intro: shell_failed_ok run_okI)
next
  case (read_context r i receipt)
  then have "world_ok s (sr_world r)" by (simp add: run_ok_def)
  then show ?case by (auto simp: stage_context_def intro: shell_failed_ok run_okI split: sum.split)
next
  case (finish_run r)
  then show ?case by (auto simp: stage_finish_def run_ok_def world_ok_def intro: living_task)
next
  case (stream_error r i c operation ended what)
  then show ?case by (auto simp: run_ok_def [of s r] intro: shell_failed_ok)
qed (simp_all add: stage_begin_ok stage_launch_ok stage_event_ok stage_stop_ok stage_after_ok)

section \<open>What is asked of the transport\<close>

definition asks :: "(shell_event \<Rightarrow> bool) \<Rightarrow> shell \<Rightarrow> shell \<Rightarrow> bool" where
  "asks P w w' = (\<exists>new. sh_trace w' = sh_trace w @ new \<and> list_all P new)"

lemma asks_refl [simp]: "asks P w w"
  by (simp add: asks_def)

lemma asks_trans: "asks P a b \<Longrightarrow> asks P b c \<Longrightarrow> asks P a c"
  by (auto simp: asks_def)

lemma asks_bind: "io_keeps (asks P) m \<Longrightarrow> (\<And>x. io_keeps (asks P) (f x)) \<Longrightarrow> io_keeps (asks P) (io_bind m f)"
  by (erule io_keeps_bind) (auto intro: asks_trans)

lemma asks_basic:
  "(\<And>x. P (Persist x)) \<Longrightarrow> io_keeps (asks P) (persist st)" "io_keeps (asks P) binding_state" "io_keeps (asks P) (check b e)"
  "P e' \<Longrightarrow> io_keeps (asks P) (transport_call e' reply)" "io_keeps (asks P) (io_lift r)" "io_keeps (asks P) (io_return x)"
  by (simp_all add: io_keeps_def persist_def binding_state_def check_def transport_call_def) (simp_all add: asks_def)

lemma asks_if: "io_keeps (asks P) m \<Longrightarrow> io_keeps (asks P) m' \<Longrightarrow> io_keeps (asks P) (if b then m else m')"
  by simp

lemma asks_with_task: "(\<And>t. io_keeps (asks P) (f t)) \<Longrightarrow> io_keeps (asks P) (with_task f)"
  by (simp add: io_keeps_def with_task_def)

lemmas asks_rules = asks_bind asks_basic asks_if asks_with_task

fun no_dispatch :: "shell_event \<Rightarrow> bool" where
  "no_dispatch (Dispatch c operation) = False"
| "no_dispatch _ = True"

fun no_start :: "shell_event \<Rightarrow> bool" where
  "no_start (Dispatch c operation) = False"
| "no_start (Allocate c operation) = False"
| "no_start _ = True"

lemma other_operations_ask:
  "io_keeps (asks no_dispatch) (operate_bind sv tp m)" "io_keeps (asks no_dispatch) (operate_lookup tp m c st)"
  "io_keeps (asks no_dispatch) (binding_resolve now c)" "io_keeps (asks no_dispatch) (binding_revoke now c)"
  "io_keeps (asks no_dispatch) (binding_stop tp now c operation)"
  by (simp_all add: operate_bind_def operate_lookup_def accept_allocation_def binding_resolve_def binding_revoke_def
      binding_stop_def stop_worker_def Let_def asks_rules)

lemma recovery_asks:
  "io_keeps (asks no_start) (recover_binding tp m st)"
  by (simp add: recover_binding_def operate_lookup_def accept_allocation_def binding_revoke_def
      binding_stop_def stop_worker_def Let_def asks_rules)

lemma stop_ends_stopped:
  "io_wp (binding_stop tp now c operation) (\<lambda>_ w. jget (t_openshell (sh_task w)) ''phase'' = JStr ''stopped'') (\<lambda>_. True) w"
  unfolding binding_stop_def stop_worker_def
  by (auto simp: wp_rules split: sum.split dest!: current_binding_obj)

lemma wp_top: "io_wp m (\<lambda>_ _. True) (\<lambda>_. True) w"
  by (simp add: io_wp_def split: prod.split sum.split)

lemma wp_then:
  assumes "\<And>x w. io_wp (f x) Q (\<lambda>_. True) w"
  shows "io_wp (io_bind m f) Q (\<lambda>_. True) w"
  unfolding wp_rules by (rule io_wp_mono [OF wp_top]) (auto intro: assms)

lemma recovery_ends_stopped:
  "io_wp (recover_binding tp m st) (\<lambda>_ w. jget (t_openshell (sh_task w)) ''phase'' = JStr ''stopped'') (\<lambda>_. True) w"
  unfolding recover_binding_def
  by (intro wp_then stop_ends_stopped)

lemma recover_one_outcome:
  assumes "recover_one width sv tp m w = (out, w')"
  shows "asks no_start w w' \<and> (is_ok out \<and> needs_recovery (sh_task w) \<longrightarrow>
    t_state (sh_task w') = Interrupted \<and> jget (t_openshell (sh_task w')) ''phase'' = JStr ''stopped'')"
proof (cases "needs_recovery (sh_task w) \<and> jget (t_openshell (sh_task w)) ''subject'' = JStr (os_subject sv)")
  case False
  with assms show ?thesis by (auto simp: recover_one_def Let_def split: if_splits)
next
  case True
  let ?w = "on_task (\<lambda>t. save (t\<lparr> t_state := Cancelling \<rparr>)) w"
  obtain r w1 where b: "recover_binding tp m (t_openshell (sh_task w)) ?w = (r, w1)" by fastforce
  have a: "asks no_start w w1" using io_keepsD [OF recovery_asks b] by (simp add: asks_def)
  show ?thesis
  proof (cases r)
    case (Inl e)
    with assms True b a show ?thesis by (auto simp: recover_one_def Let_def asks_def)
  next
    case (Inr v)
    have "jget (t_openshell (sh_task w1)) ''phase'' = JStr ''stopped''"
      by (rule io_wpD(1) [OF recovery_ends_stopped b [unfolded Inr]])
    with assms True b a Inr show ?thesis by (auto simp: recover_one_def Let_def asks_def)
  qed
qed

lemma recover_all_outcome:
  assumes "recover_all width sv tp ms ws = (out, ws')"
  shows "length ws' = length ws \<and> (\<forall>i < length ws. asks no_start (ws ! i) (ws' ! i) \<and>
    (is_ok out \<and> length ws \<le> length ms \<and> needs_recovery (sh_task (ws ! i)) \<longrightarrow>
       t_state (sh_task (ws' ! i)) = Interrupted \<and> jget (t_openshell (sh_task (ws' ! i))) ''phase'' = JStr ''stopped''))"
  using assms
proof (induction width sv tp ms ws arbitrary: out ws' rule: recover_all.induct)
  case (1 width sv tp m ms w ws)
  obtain r w1 where o: "recover_one width sv tp m w = (r, w1)" by fastforce
  note one = recover_one_outcome [OF o]
  show ?case
  proof (cases r)
    case (Inl e)
    with 1 o one show ?thesis by (auto simp: less_Suc_eq_0_disj)
  next
    case (Inr rs)
    obtain r' ws1 where rest: "recover_all width sv tp ms ws = (r', ws1)" by fastforce
    from 1(1) [OF o [symmetric] Inr rest] 1(2) o Inr rest one show ?thesis
      by (cases r') (auto simp: less_Suc_eq_0_disj)
  qed
qed auto

lemma absent_proved:
  assumes "life_run (Some (wk, x)) tr = Some (Absent, y)" and "wk \<noteq> Absent"
  shows "\<exists>c operation v. Verify_Absent c operation (Inr v) \<in> set tr \<and> py_eq v (absent_receipt c operation)"
  using assms
proof (induction tr arbitrary: wk x)
  case (Cons e tr)
  have none: "life_run None es = None" for es by (induction es) simp_all
  show ?case
  proof (cases "life (wk, x) e")
    case None
    with Cons.prems none show ?thesis by simp
  next
    case (Some p)
    obtain wk' x' where p: "p = (wk', x')" by (cases p)
    show ?thesis
    proof (cases "wk' = Absent")
      case False
      with Cons Some p show ?thesis by fastforce
    next
      case True
      with Some p Cons.prems(2) show ?thesis
        by (cases e) (auto simp: proves_absence_def split: if_splits sum.splits)
    qed
  qed
qed simp

text \<open>Dispatches of one operation, under a condition.\<close>

definition dispatches_if :: "shell \<Rightarrow> string \<Rightarrow> bool \<Rightarrow> shell \<Rightarrow> bool" where
  "dispatches_if w i cond w' = (\<exists>new. sh_trace w' = sh_trace w @ new \<and>
     (\<forall>c' i'. Dispatch c' i' \<in> set new \<longrightarrow> cond \<and> i' = i))"

lemma dispatches_same [simp]: "dispatches_if w i cond w"
  by (simp add: dispatches_if_def)

lemma dispatches_more: "dispatches_if w i cond w' \<Longrightarrow> (cond \<Longrightarrow> cond') \<Longrightarrow> dispatches_if w i cond' w'"
  by (auto simp: dispatches_if_def)

lemma asks_dispatches: "asks no_dispatch w w' \<Longrightarrow> dispatches_if w i cond w'"
  unfolding asks_def dispatches_if_def list_all_iff by (metis no_dispatch.simps(1))

lemma wp_no_dispatch:
  assumes "io_keeps (asks no_dispatch) m"
  shows "io_wp m (\<lambda>_. dispatches_if w i cond) (dispatches_if w i cond) w"
proof -
  have "asks no_dispatch w (snd (m w))" using assms by (simp add: io_keeps_def)
  from asks_dispatches [OF this] show ?thesis by (auto simp: io_wp_def split: prod.split sum.split)
qed

definition dispatchable :: "rat \<Rightarrow> json \<Rightarrow> bool" where
  "dispatchable now st = (jget st ''phase'' = JStr ''bound'' \<and> \<not> truthy (jget st ''fenced'') \<and>
     expired now (jget st ''expiresAt'') = Inr False)"

lemma wp_dispatch:
  "io_wp (binding_dispatch tp now c i) (\<lambda>_. dispatches_if w i (dispatchable now (t_openshell (sh_task w))))
     (dispatches_if w i (dispatchable now (t_openshell (sh_task w)))) w"
proof (cases "current_binding now False c (t_openshell (sh_task w))")
  case (Inl e)
  then show ?thesis by (simp add: binding_dispatch_def wp_rules)
next
  case (Inr st)
  then have "st = t_openshell (sh_task w)" "\<not> truthy (jget st ''fenced'')" "expired now (jget st ''expiresAt'') = Inr False"
    by (auto simp: current_binding_def res_bind_Inr_iff py_access split: if_splits)
  with Inr show ?thesis
    by (auto simp: binding_dispatch_def wp_rules split: sum.split) (auto simp: dispatches_if_def dispatchable_def)
qed

definition own_binding :: "shell_service \<Rightarrow> json \<Rightarrow> bool" where
  "own_binding sv st = (jget st ''subject'' = JStr (os_subject sv) \<and> jget st ''generation'' = JStr (os_generation sv))"

lemma wp_existing:
  "io_wp (operate_existing sv tp m operation)
     (\<lambda>_. dispatches_if w (m_operation m) (operation = ''dispatch'' \<and> own_binding sv (t_openshell (sh_task w)) \<and>
        dispatchable (m_check m) (t_openshell (sh_task w))))
     (dispatches_if w (m_operation m) (operation = ''dispatch'' \<and> own_binding sv (t_openshell (sh_task w)) \<and>
        dispatchable (m_check m) (t_openshell (sh_task w)))) w"
    (is "io_wp _ (\<lambda>_. dispatches_if w ?i ?cond) _ w")
proof -
  let ?st = "t_openshell (sh_task w)"
  have ctx: "own_binding sv ?st = own_binding sv c" if "binding_context ?st = Inr c" for c
    using that by (auto simp: binding_context_def KEYS_def own_binding_def split: if_splits)
  have bound: "io_wp (operate_bound tp m operation c ?st) (\<lambda>_. dispatches_if w ?i ?cond) (dispatches_if w ?i ?cond) w"
    if "own_binding sv ?st" for c
  proof (cases "operation = ''dispatch''")
    case True
    with wp_dispatch [of tp "m_check m" c ?i w] that show ?thesis by (simp add: operate_bound_def)
  next
    case False
    then show ?thesis by (simp add: operate_bound_def wp_no_dispatch other_operations_ask)
  qed
  then show ?thesis
    using wp_no_dispatch [OF other_operations_ask(2)] ctx
    by (auto simp: operate_existing_def wp_rules own_binding_def [symmetric] split: sum.split)
qed

section \<open>Properties\<close>

definition starts_from :: "task \<Rightarrow> bool" where
  "starts_from t = (t_state t = Queued \<and> t_openshell t = JNull)"

lemma run_reachable_ok:
  assumes "(shell_step width sv)\<^sup>*\<^sup>* (new_shell_run t) r" and "starts_from t"
  shows "run_ok (No_Worker, JNull) r"
  using assms(1)
proof (induction rule: rtranclp_induct)
  case base
  have "alive (No_Worker, JNull) [] JNull No_Worker" by (simp add: alive_def represents_def)
  with assms(2) show ?case
    by (auto simp: run_ok_def new_shell_run_def world_ok_def living_def starts_from_def terminal_def)
qed (rule shell_step_ok)

text \<open>C14: Under every interleaving of the run thread, cancellations and client operations, what the
  transport is asked follows the life of a worker: an allocation, a dispatch or a stop only directly
  under its journalled reservation, at most one dispatch per allocation, one stop operation, and a
  new worker only after the earlier one was proved absent; the stored binding represents that life.\<close>

theorem worker_life_refined:
  assumes "(shell_step width sv)\<^sup>*\<^sup>* (new_shell_run t) r" and "starts_from t"
  shows "\<exists>wk last_st. life_run (Some (No_Worker, JNull)) (sh_trace (sr_world r)) = Some (wk, last_st) \<and>
    represents wk (t_openshell (sh_task (sr_world r)))"
  using run_reachable_ok [OF assms] by (auto simp: run_ok_def world_ok_def living_def alive_def)

text \<open>An OpenShell task is completed, failed or cancelled only when the transport has proved that
  its worker is absent.\<close>

theorem ended_task_has_no_worker:
  assumes "(shell_step width sv)\<^sup>*\<^sup>* (new_shell_run t) r" and "starts_from t"
    and "t_state (sh_task (sr_world r)) \<in> {Completed, Failed, Cancelled}"
  shows "(\<exists>last_st. life_run (Some (No_Worker, JNull)) (sh_trace (sr_world r)) = Some (Absent, last_st)) \<and>
    (\<exists>c operation v. Verify_Absent c operation (Inr v) \<in> set (sh_trace (sr_world r)) \<and> py_eq v (absent_receipt c operation))"
proof -
  have "alive (No_Worker, JNull) (sh_trace (sr_world r)) (t_openshell (sh_task (sr_world r))) Absent"
    using run_reachable_ok [OF assms(1,2)] assms(3) by (auto simp: run_ok_def world_ok_def terminal_def)
  then obtain y where "life_run (Some (No_Worker, JNull)) (sh_trace (sr_world r)) = Some (Absent, y)"
    by (auto simp: alive_def)
  with absent_proved [of No_Worker JNull _ y] show ?thesis by blast
qed

text \<open>C15: A dispatch is sent only for an approved request of the server's own subject while the
  service is qualified, for a bound, unfenced binding of this server generation that has not expired.\<close>

theorem dispatch_only_when_current:
  assumes "operate sv tp m subject found operation body w = (out, w')"
    and "Dispatch c dispatch_id \<in> set (drop (length (sh_trace w)) (sh_trace w'))"
  shows "operation = ''dispatch'' \<and> approved_body body \<and> subject = os_subject sv \<and> dispatch_id = m_operation m \<and>
    service_qualified sv (m_qualified m) \<and>
    (let st = t_openshell (sh_task w) in
       jget st ''phase'' = JStr ''bound'' \<and> \<not> truthy (jget st ''fenced'') \<and>
       expired (m_check m) (jget st ''expiresAt'') = Inr False \<and>
       jget st ''subject'' = JStr (os_subject sv) \<and> jget st ''generation'' = JStr (os_generation sv))"
proof -
  let ?st = "t_openshell (sh_task w)"
  let ?cond = "operation = ''dispatch'' \<and> own_binding sv ?st \<and> dispatchable (m_check m) ?st"
  let ?all = "approved_body body \<and> subject = os_subject sv \<and> service_qualified sv (m_qualified m) \<and> ?cond"
  have "io_wp (operate_existing sv tp m operation) (\<lambda>_. dispatches_if w (m_operation m) ?all) (dispatches_if w (m_operation m) ?all) w"
    if "approved_body body" "subject = os_subject sv" "operation = ''dispatch'' \<longrightarrow> service_qualified sv (m_qualified m)"
    using that by (intro io_wp_mono [OF wp_existing]) (auto elim: dispatches_more)
  then have "io_wp (operate sv tp m subject found operation body) (\<lambda>_. dispatches_if w (m_operation m) ?all)
      (dispatches_if w (m_operation m) ?all) w"
    using wp_no_dispatch [OF other_operations_ask(1)] by (auto simp: operate_def wp_rules)
  then have "dispatches_if w (m_operation m) ?all w'" using assms(1) by (cases out) (auto simp: io_wp_def)
  with assms(2) show ?thesis by (auto simp: dispatches_if_def dispatchable_def own_binding_def Let_def)
qed

text \<open>Recovering the bindings of a lost generation never allocates a worker and never dispatches a
  prompt again; when the round succeeds every pending task is interrupted and its worker stopped.\<close>

theorem recovery_never_replays:
  assumes "recover_pending width sv tp ms ws = (out, ws')" and "i < length ws"
  shows "\<exists>new. sh_trace (ws' ! i) = sh_trace (ws ! i) @ new \<and> list_all no_start new \<and>
    (is_ok out \<and> length ws \<le> length ms \<and> needs_recovery (sh_task (ws ! i)) \<longrightarrow>
       t_state (sh_task (ws' ! i)) = Interrupted \<and> jget (t_openshell (sh_task (ws' ! i))) ''phase'' = JStr ''stopped'')"
proof (cases "os_qualified sv")
  case True
  with assms recover_all_outcome [of width sv tp ms ws out ws'] show ?thesis
    by (auto simp: recover_pending_def asks_def)
next
  case False
  with assms show ?thesis by (auto simp: recover_pending_def)
qed

section \<open>A cancellation lost between two stages\<close>

text \<open>The state is assigned after the lock was given back: a cancellation that was answered true while
  the first worker was being removed is overwritten by the hand-off, and the next step of the run
  thread asks for a second worker.\<close>

theorem handoff_overwrites_cancel:
  assumes "sr_pc r = S_After i 0" and "t_state (sh_task (sr_world r)) = Cancelled"
    and "Suc i < length (stage_runtimes (sh_task (sr_world r)))"
  shows "shell_step width sv r (stage_after width i 0 r) \<and>
    t_state (sh_task (sr_world (stage_after width i 0 r))) = Handoff \<and>
    sr_pc (stage_after width i 0 r) = S_Begin (Suc i)"
proof -
  have "stage_runtimes (stage_record 0 t) = stage_runtimes t" for t
    by (simp add: stage_runtimes_def stage_record_def handoff_runtime_def)
  with assms(3) have "t_state (sh_task (sr_world (stage_after width i 0 r))) = Handoff \<and>
    sr_pc (stage_after width i 0 r) = S_Begin (Suc i)" by (simp add: stage_after_def Let_def)
  with shell_step.after_stage [OF assms(1)] show ?thesis by blast
qed

section \<open>Witnesses\<close>

definition hex_text :: "char \<Rightarrow> string" where "hex_text c = replicate 32 c"

definition ex_transport :: transport where
  "ex_transport =
     \<lparr> tp_allocate = (\<lambda>c i. Inr (jset ''operationId'' (JStr i) (jset ''workerUID'' (JStr ''w1'') c))),
       tp_lookup = (\<lambda>c i. Inl (OSError ''lost'')),
       tp_dispatch = (\<lambda>c i. Inr (jset ''operationId'' (JStr i) (jset ''nativeRequired'' (JBool True)
          (jset ''unrestrictedFallback'' (JBool False) c)))),
       tp_stop = (\<lambda>c i. Inr (stopped_receipt c i)), tp_absent = (\<lambda>c i. Inr (absent_receipt c i)) \<rparr>"

definition ex_service :: shell_service where
  "ex_service = \<lparr> os_subject = ''s'', os_generation = ''g'', os_qualified = True, os_admission_expires = None \<rparr>"

definition ex_moment :: "char \<Rightarrow> moment" where
  "ex_moment c = \<lparr> m_qualified = 0, m_expiry = 0, m_check = 1, m_binding = hex_text c, m_operation = hex_text c \<rparr>"

definition ex_shell_task :: task where
  "ex_shell_task = new_task (\<lambda>_. 1) (hex_text CHR ''1'') (hex_text CHR ''2'')
     \<lparr> rq_runtime = ''claude'', rq_backend = ''openshell'', rq_project = ''p'', rq_prompt = ''x'', rq_writes = False,
       rq_handoff = Some ''kilo'', rq_handoff_prompt = [] \<rparr>"

definition ex_allocated :: shell_run where
  "ex_allocated = stage_begin (\<lambda>_. 1) ex_service ex_transport (ex_moment CHR ''a'') [] 0 (new_shell_run ex_shell_task)"

definition ex_cancelled :: "bool \<times> shell_run" where
  "ex_cancelled = shell_cancel_request (\<lambda>_. 1) ex_service ex_transport (ex_moment CHR ''d'') (ex_moment CHR ''f'') ex_allocated"

lemma ex_values:
  "fst ex_cancelled" "t_state (sh_task (sr_world (snd ex_cancelled))) = Cancelled" "starts_from ex_shell_task"
  by code_simp+

lemma ex_steps:
  "(shell_step (\<lambda>_. 1) ex_service)\<^sup>*\<^sup>* (new_shell_run ex_shell_task) ex_allocated"
  "(shell_step (\<lambda>_. 1) ex_service)\<^sup>*\<^sup>* (new_shell_run ex_shell_task) (snd ex_cancelled)"
proof -
  have "sr_pc (new_shell_run ex_shell_task) = S_Begin 0" by (simp add: new_shell_run_def)
  then show a: "(shell_step (\<lambda>_. 1) ex_service)\<^sup>*\<^sup>* (new_shell_run ex_shell_task) ex_allocated"
    unfolding ex_allocated_def by (intro r_into_rtranclp shell_step.begin_stage)
  have "shell_step (\<lambda>_. 1) ex_service ex_allocated (snd ex_cancelled)"
    unfolding ex_cancelled_def by (rule shell_step.cancel_request)
  with a show "(shell_step (\<lambda>_. 1) ex_service)\<^sup>*\<^sup>* (new_shell_run ex_shell_task) (snd ex_cancelled)"
    by (rule rtranclp.rtrancl_into_rtrancl)
qed

theorem worker_life_refined_witness:
  "\<exists>wk last_st. life_run (Some (No_Worker, JNull)) (sh_trace (sr_world ex_allocated)) = Some (wk, last_st) \<and>
     represents wk (t_openshell (sh_task (sr_world ex_allocated)))"
  by (rule worker_life_refined [OF ex_steps(1) ex_values(3)])

theorem ended_task_has_no_worker_witness:
  "\<exists>last_st. life_run (Some (No_Worker, JNull)) (sh_trace (sr_world (snd ex_cancelled))) = Some (Absent, last_st)"
  using ended_task_has_no_worker [OF ex_steps(2) ex_values(3)] ex_values(2) by simp

definition ex_bound :: shell where
  "ex_bound = \<lparr> sh_task = ex_shell_task\<lparr> t_openshell := jset ''workerUID'' (JStr ''w1'') (jset ''fenced'' (JBool False) (with_phase ''bound''
     (allocation_reserved (allocation_context ex_service ''b'' ex_shell_task) 100 (hex_text CHR ''a'')))) \<rparr>, sh_trace = [] \<rparr>"

fun dispatch_ids :: "shell_event list \<Rightarrow> (json \<times> string) list" where
  "dispatch_ids [] = []"
| "dispatch_ids (Dispatch c i # es) = (c, i) # dispatch_ids es"
| "dispatch_ids (_ # es) = dispatch_ids es"

lemma dispatch_ids_set: "(c, i) \<in> set (dispatch_ids es) \<Longrightarrow> Dispatch c i \<in> set es"
  by (induction es rule: dispatch_ids.induct) auto

definition ex_dispatched :: "json res \<times> shell" where
  "ex_dispatched = operate ex_service ex_transport (ex_moment CHR ''b'') ''s'' True ''dispatch'' approval_body ex_bound"

theorem dispatch_only_when_current_witness: "map snd (dispatch_ids (sh_trace (snd ex_dispatched))) = [hex_text CHR ''b''] \<and>
   service_qualified ex_service 0"
proof -
  have ids: "map snd (dispatch_ids (sh_trace (snd ex_dispatched))) = [hex_text CHR ''b'']" by code_simp
  then obtain c where "(c, hex_text CHR ''b'') \<in> set (dispatch_ids (sh_trace (snd ex_dispatched)))" by force
  from dispatch_ids_set [OF this]
  have d: "Dispatch c (hex_text CHR ''b'') \<in> set (drop (length (sh_trace ex_bound)) (sh_trace (snd ex_dispatched)))"
    by (simp add: ex_bound_def)
  obtain out w' where o: "ex_dispatched = (out, w')" by fastforce
  have w: "snd ex_dispatched = w'" unfolding o by (rule snd_conv)
  have "service_qualified ex_service (m_qualified (ex_moment CHR ''b''))"
    using dispatch_only_when_current [OF o [unfolded ex_dispatched_def] d [unfolded w]] by blast
  with ids show ?thesis by (simp add: ex_moment_def)
qed

definition ex_recovered :: "json list res \<times> shell list" where
  "ex_recovered = recover_pending (\<lambda>_. 1) ex_service ex_transport [ex_moment CHR ''c''] [ex_bound]"

theorem recovery_never_replays_witness:
  "is_ok (fst ex_recovered) \<and> t_state (sh_task (snd ex_recovered ! 0)) = Interrupted"
proof -
  have ok: "is_ok (fst ex_recovered)" "needs_recovery (sh_task ex_bound)" by code_simp+
  obtain out ws' where o: "ex_recovered = (out, ws')" by fastforce
  have w: "fst ex_recovered = out" "snd ex_recovered = ws'" unfolding o by (rule fst_conv, rule snd_conv)
  from recovery_never_replays [OF o [unfolded ex_recovered_def], of 0] ok show ?thesis by (auto simp: w)
qed

end
