(* ===== verification/Native_Kubernetes.thy ===== *)
theory Native_Kubernetes imports Openshell_Binding Capacity_Resources Capacity_Kube begin

text \<open>
  The Kubernetes side of the native OpenShell transport: the namespace-scoped API
  (\<open>scripts/openshell_kubernetes_api.py\<close>), the verification of resource snapshots
  (\<open>openshell_kubernetes_identity.py\<close>), the observer that binds them to the task journal
  (\<open>openshell_kubernetes_observer.py\<close>) and the exact retirement of a worker's resources
  (\<open>openshell_kubernetes_retirement.py\<close>).  The authenticated request is a parameter; requests and journal writes are
  kept in one trace.  API objects have the shape of Kubernetes objects; the registry is seen at the one task the calls
  are about.
\<close>

section \<open>The world\<close>

record native_request =
  nq_kind :: string
  nq_verb :: string
  nq_path :: string
  nq_body :: "json option"

datatype native_event = Sent native_request | Saved json

record 'w native_world =
  nw_task :: task
  nw_trace :: "native_event list"
  nw_server :: 'w

text \<open>The admitted configuration: the request, the journal's disk, the digest of a scope and the expected owner.\<close>

record 'w native_env =
  na_send :: "native_request \<Rightarrow> 'w \<Rightarrow> (int \<times> json) res \<times> 'w"
  na_disk :: "json \<Rightarrow> bool"
  na_digest :: "json \<Rightarrow> string"
  na_namespace :: string
  na_gateway :: string
  na_workspace :: string
  na_worker_image :: string
  na_supervisor_image :: string
  na_version :: string

definition native_send :: "'w native_env \<Rightarrow> native_request \<Rightarrow> ('w native_world, int \<times> json) io" where
  "native_send na q w =
     (case na_send na q (nw_server w) of (r, s) \<Rightarrow> (r, w\<lparr> nw_trace := nw_trace w @ [Sent q], nw_server := s \<rparr>))"

text \<open>\<open>task.openshell = \<dots>; task.save()\<close>; a failing disk keeps the change in memory only.\<close>

definition native_save :: "'w native_env \<Rightarrow> json \<Rightarrow> ('w native_world, unit) io" where
  "native_save na st w =
     (let t = (nw_task w)\<lparr> t_openshell := st \<rparr> in
      if na_disk na st then (Inr (), w\<lparr> nw_task := save t, nw_trace := nw_trace w @ [Saved st] \<rparr>)
      else (Inl (OSError ''task.json''), w\<lparr> nw_task := t \<rparr>))"

definition native_task :: "('w native_world, task) io" where
  "native_task w = (Inr (nw_task w), w)"

section \<open>The API\<close>

definition API_VERSIONS :: "string list" where "API_VERSIONS = [''agents.x-k8s.io/v1alpha1'', ''agents.x-k8s.io/v1beta1'']"

definition admitted_namespace :: "string \<Rightarrow> bool" where
  "admitted_namespace ns = (ns \<in> {''dsh-openshell-test-20261028'', ''dsh-openshell''})"

definition new_native_api :: "string \<Rightarrow> bool \<Rightarrow> string res" where
  "new_native_api ns request_callable =
     (if \<not> admitted_namespace ns then Inl (ValueError ''UNADMITTED_NATIVE_NAMESPACE'')
      else if \<not> request_callable then Inl (ValueError ''AUTHENTICATED_REQUEST_REQUIRED'') else Inr ns)"

definition resource_name :: "string \<Rightarrow> bool" where
  "resource_name s = (s \<noteq> [] \<and> hd s \<in> set (digit_chars @ lower_chars) \<and> fullmatch_class (digit_chars @ lower_chars @ ''.-'') 1 253 s)"

definition native_path :: "string \<Rightarrow> string \<Rightarrow> string \<Rightarrow> string \<Rightarrow> string option \<Rightarrow> string res" where
  "native_path own ns kind version name =
     (if ns \<noteq> own then Inl (ValueError ''FOREIGN_NATIVE_NAMESPACE'')
      else
        res_bind
          (if kind = ''Pod'' \<and> version = ''v1'' then Inr (''/api/v1/namespaces/'' @ ns @ ''/pods'')
           else if kind = ''Sandbox'' \<and> version \<in> set API_VERSIONS then Inr (''/apis/'' @ version @ ''/namespaces/'' @ ns @ ''/sandboxes'')
           else Inl (ValueError ''UNADMITTED_NATIVE_RESOURCE'')) (\<lambda>base.
        case name of
          None \<Rightarrow> Inr base
        | Some n \<Rightarrow> if resource_name n then Inr (base @ ''/'' @ n) else Inl (ValueError ''INVALID_NATIVE_RESOURCE_NAME'')))"

definition native_get :: "string \<Rightarrow> string \<Rightarrow> native_request" where
  "native_get kind p = \<lparr> nq_kind = kind, nq_verb = ''GET'', nq_path = p, nq_body = None \<rparr>"

definition native_list :: "'w native_env \<Rightarrow> string \<Rightarrow> string \<Rightarrow> string \<Rightarrow> ('w native_world, json) io" where
  "native_list na kind version selector =
     io_bind (io_lift (require (selector \<noteq> [] \<and> length selector \<le> 1024) (ValueError ''INVALID_NATIVE_LIST_SELECTOR''))) (\<lambda>_.
     io_bind (io_lift (native_path (na_namespace na) (na_namespace na) kind version None)) (\<lambda>p.
     io_bind (native_send na (native_get kind (p @ ''?labelSelector='' @ quote_plus selector))) (\<lambda>(status, bdy).
     if status \<noteq> 200 then io_raise (ValueError ''NATIVE_API_LIST_FAILED'') else io_return bdy)))"

definition list_sandboxes :: "'w native_env \<Rightarrow> string \<Rightarrow> string \<Rightarrow> ('w native_world, json) io" where
  "list_sandboxes na version selector = native_list na ''Sandbox'' version selector"

definition list_pods :: "'w native_env \<Rightarrow> string \<Rightarrow> ('w native_world, json) io" where
  "list_pods na selector = native_list na ''Pod'' ''v1'' selector"

text \<open>A missing object is \<open>None\<close>.\<close>

definition read_resource :: "'w native_env \<Rightarrow> string \<Rightarrow> string \<Rightarrow> string \<Rightarrow> ('w native_world, json option) io" where
  "read_resource na kind version name =
     io_bind (io_lift (native_path (na_namespace na) (na_namespace na) kind version (Some name))) (\<lambda>p.
     io_bind (native_send na (native_get kind p)) (\<lambda>(status, bdy).
     if status = 404 then io_return None
     else if status \<noteq> 200 then io_raise (ValueError ''NATIVE_API_READ_FAILED'')
     else if \<not> is_obj bdy then io_raise (ValueError ''NATIVE_API_READ_INVALID'')
     else io_return (Some bdy)))"

definition delete_body :: "string \<Rightarrow> string \<Rightarrow> json" where
  "delete_body uid version =
     JObj [(''apiVersion'', JStr ''v1''), (''kind'', JStr ''DeleteOptions''), (''propagationPolicy'', JStr ''Foreground''),
       (''preconditions'', JObj [(''uid'', JStr uid), (''resourceVersion'', JStr version)])]"

definition delete_receipt :: "string \<Rightarrow> string \<Rightarrow> json" where
  "delete_receipt uid version = JObj [(''uid'', JStr uid), (''resourceVersion'', JStr version), (''deleteAccepted'', JBool True)]"

definition bounded_text :: "string \<Rightarrow> bool" where
  "bounded_text s = (s \<noteq> [] \<and> length s \<le> 256)"

definition delete_exact :: "'w native_env \<Rightarrow> string \<Rightarrow> string \<Rightarrow> string \<Rightarrow> string \<Rightarrow> string \<Rightarrow> ('w native_world, json) io" where
  "delete_exact na kind version name uid resource =
     io_bind (io_lift (require (bounded_text uid \<and> bounded_text resource) (ValueError ''NATIVE_DELETE_PRECONDITION_REQUIRED''))) (\<lambda>_.
     io_bind (io_lift (native_path (na_namespace na) (na_namespace na) kind version (Some name))) (\<lambda>p.
     io_bind (native_send na \<lparr> nq_kind = kind, nq_verb = ''DELETE'', nq_path = p, nq_body = Some (delete_body uid resource) \<rparr>) (\<lambda>(status, bdy).
     if status \<notin> {200, 202} then io_raise (ValueError ''NATIVE_CONDITIONAL_DELETE_NOT_ACCEPTED'')
     else io_return (delete_receipt uid resource))))"

section \<open>Identity of the resources\<close>

definition SCOPE_FIELDS :: "string list" where
  "SCOPE_FIELDS = [''bindingId'', ''generation'', ''project'', ''subject'', ''taskId'']"

definition NATIVE_ID :: string where "NATIVE_ID = ''openshell.ai/sandbox-id''"
definition ROLE :: string where "ROLE = ''openshell.ai/boundary-role''"
definition PAIR :: string where "PAIR = ''openshell.ai/boundary-pair''"
definition GATEWAY :: string where "GATEWAY = ''openshell.ai/gateway-id''"
definition WORKSPACE :: string where "WORKSPACE = ''openshell.ai/sandbox-workspace''"
definition SCOPE_ANNOTATION :: string where "SCOPE_ANNOTATION = ''dsh.example.com/task-scope-sha256''"

definition scope_text :: "json \<Rightarrow> bool" where
  "scope_text v = (case v of JStr s \<Rightarrow> s \<noteq> [] \<and> length s \<le> 1024 | _ \<Rightarrow> False)"

definition scope_digest :: "'w native_env \<Rightarrow> json \<Rightarrow> string res" where
  "scope_digest na context =
     (if \<not> valid_context context \<or> \<not> list_all (\<lambda>(k, v). scope_text v) (obj_items context)
      then Inl (ValueError ''INVALID_NATIVE_CONTEXT'')
      else Inr (na_digest na (JObj (map (\<lambda>k. (k, jget context k)) SCOPE_FIELDS))))"

definition native_metadata :: "json \<Rightarrow> string \<Rightarrow> string \<Rightarrow> json res" where
  "native_metadata v kind ns =
     (let meta = get_or v ''metadata'' (JObj []) in
      if \<not> is_obj v \<or> jget v ''kind'' \<noteq> JStr kind then Inl (ValueError ''INVALID_NATIVE_RESOURCE'')
      else if jget meta ''namespace'' \<noteq> JStr ns \<or> truthy (jget meta ''deletionTimestamp'') \<or>
        \<not> list_all (\<lambda>k. nonempty_text (jget meta k)) [''name'', ''uid'', ''resourceVersion'']
      then Inl (ValueError ''NATIVE_RESOURCE_IDENTITY_UNAVAILABLE'') else Inr meta)"

definition owner_matches :: "json \<Rightarrow> bool \<Rightarrow> json \<Rightarrow> bool" where
  "owner_matches sandbox controller owner =
     (py_eq (jget owner ''apiVersion'') (jget sandbox ''apiVersion'') \<and>
      py_eq (jget owner ''name'') (jget (jget sandbox ''metadata'') ''name'') \<and>
      py_eq (jget owner ''uid'') (jget (jget sandbox ''metadata'') ''uid'') \<and>
      (jget owner ''controller'' = JBool True \<longleftrightarrow> controller))"

definition native_owner :: "json \<Rightarrow> json \<Rightarrow> bool \<Rightarrow> unit res" where
  "native_owner meta sandbox controller =
     (case filter (\<lambda>owner. jget owner ''kind'' = JStr ''Sandbox'') (jlist (jget meta ''ownerReferences'')) of
        [owner] \<Rightarrow> require (owner_matches sandbox controller owner) (ValueError ''NATIVE_OWNER_UID_MISMATCH'')
      | _ \<Rightarrow> Inl (ValueError ''NATIVE_OWNER_AMBIGUOUS''))"

text \<open>\<open>image[image.rfind('@')+1:]\<close>\<close>

definition after_at :: "string \<Rightarrow> string" where
  "after_at s = rev (takeWhile (\<lambda>c. c \<noteq> CHR ''@'') (rev s))"

definition text_of :: "json \<Rightarrow> string" where
  "text_of v = (case v of JStr s \<Rightarrow> s | _ \<Rightarrow> [])"

definition named :: "string \<Rightarrow> json \<Rightarrow> json list" where
  "named name v = filter (\<lambda>c. jget c ''name'' = JStr name) (jlist v)"

definition status_runs :: "string \<Rightarrow> json \<Rightarrow> bool" where
  "status_runs pinned c =
     (jget c ''ready'' = JBool True \<and> truthy (jget (jget c ''state'') ''running'') \<and> endswith (after_at pinned) (text_of (jget c ''imageID'')))"

definition native_image :: "json \<Rightarrow> string \<Rightarrow> string \<Rightarrow> bool \<Rightarrow> unit res" where
  "native_image pod name pinned require_running =
     (case named name (jget (jget pod ''spec'') ''containers'') of
        [c] \<Rightarrow>
          (if jget c ''image'' \<noteq> JStr pinned then Inl (ValueError ''NATIVE_SPEC_IMAGE_MISMATCH'')
           else if \<not> require_running then Inr ()
           else
             require (jget (jget pod ''status'') ''phase'' = JStr ''Running'' \<and>
                (case named name (jget (jget pod ''status'') ''containerStatuses'') of [s] \<Rightarrow> status_runs pinned s | _ \<Rightarrow> False))
               (ValueError ''NATIVE_RUNNING_IMAGE_UNVERIFIED''))
      | _ \<Rightarrow> Inl (ValueError ''NATIVE_SPEC_IMAGE_MISMATCH''))"

text \<open>\<open>NativeKubernetesIdentityVerifier\<close>: its configuration and the check of the three snapshots.\<close>

definition image_pin :: "string \<Rightarrow> bool" where
  "image_pin s =
     (let name = before_char CHR ''@'' s; rest = drop (length name) s in
      name \<noteq> [] \<and> list_all (\<lambda>c. \<not> is_space c) name \<and> startswith ''@sha256:'' rest \<and> hex_id 64 (drop 8 rest))"

definition owner_config :: "string \<Rightarrow> bool" where
  "owner_config s = (s \<noteq> [] \<and> hd s \<in> set (digit_chars @ lower_chars) \<and> fullmatch_class (digit_chars @ lower_chars @ ''-'') 1 63 s)"

definition new_verifier :: "'w native_env \<Rightarrow> unit res" where
  "new_verifier na =
     (if \<not> admitted_namespace (na_namespace na) then Inl (ValueError ''UNADMITTED_NATIVE_NAMESPACE'')
      else if \<not> image_pin (na_worker_image na) \<or> \<not> image_pin (na_supervisor_image na) then Inl (ValueError ''NATIVE_IMAGE_PIN_REQUIRED'')
      else if \<not> owner_config (na_gateway na) \<or> \<not> owner_config (na_workspace na) then Inl (ValueError ''INVALID_NATIVE_OWNER_CONFIG'')
      else Inr ())"

definition sandbox_owned :: "'w native_env \<Rightarrow> json \<Rightarrow> json \<Rightarrow> bool" where
  "sandbox_owned na context native =
     (let labels = jget native ''labels'' in
      py_eq (jget labels NATIVE_ID) (jget context ''workerUID'') \<and> jget labels GATEWAY = JStr (na_gateway na) \<and>
      jget labels WORKSPACE = JStr (na_workspace na) \<and> jget labels ''openshell.ai/managed-by'' = JStr ''openshell'')"

definition workload_bound :: "json \<Rightarrow> string \<Rightarrow> json \<Rightarrow> bool" where
  "workload_bound context digest worker =
     (py_eq (jget (jget worker ''annotations'') NATIVE_ID) (jget context ''workerUID'') \<and>
      jget (jget worker ''annotations'') SCOPE_ANNOTATION = JStr digest)"

definition pair_bound :: "json \<Rightarrow> json \<times> string \<Rightarrow> bool" where
  "pair_bound context mr =
     (case mr of (meta, role) \<Rightarrow>
        jget (jget meta ''labels'') ROLE = JStr role \<and>
        jget (jget meta ''labels'') PAIR = JStr (lower (text_of (jget context ''workerUID''))) \<and>
        py_eq (jget (jget meta ''labels'') NATIVE_ID) (jget context ''workerUID''))"

definition supervisor_bound :: "'w native_env \<Rightarrow> json \<Rightarrow> json \<Rightarrow> bool" where
  "supervisor_bound na context control =
     (jget (jget control ''labels'') GATEWAY = JStr (na_gateway na) \<and>
      py_eq (jget (jget control ''annotations'') NATIVE_ID) (jget context ''workerUID'') \<and>
      jget control ''name'' = JStr (''os-supervisor-'' @ lower (text_of (jget context ''workerUID''))))"

definition native_identity :: "'w native_env \<Rightarrow> json \<Rightarrow> string \<Rightarrow> json \<Rightarrow> json \<Rightarrow> json \<Rightarrow> json \<Rightarrow> json" where
  "native_identity na context digest sandbox native worker control =
     JObj (obj_items context @
       [(''namespace'', JStr (na_namespace na)), (''sandboxName'', jget native ''name''),
        (''sandboxUID'', jget native ''uid''), (''sandboxAPIVersion'', jget sandbox ''apiVersion''),
        (''podName'', jget worker ''name''), (''podUID'', jget worker ''uid''),
        (''supervisorPodName'', jget control ''name''), (''supervisorPodUID'', jget control ''uid''),
        (''scopeSHA256'', JStr digest)])"

definition snapshot_versions :: "json \<Rightarrow> json \<Rightarrow> json \<Rightarrow> json" where
  "snapshot_versions native worker control =
     JObj [(''sandbox'', jget native ''resourceVersion''), (''workload'', jget worker ''resourceVersion''),
       (''supervisor'', jget control ''resourceVersion'')]"

record verified =
  vf_identity :: json
  vf_versions :: json
  vf_running :: bool

definition check_pair :: "'w native_env \<Rightarrow> json \<Rightarrow> string \<Rightarrow> json \<Rightarrow> json \<Rightarrow> json \<Rightarrow> json \<Rightarrow> bool \<Rightarrow> unit res" where
  "check_pair na context digest workload supervisor worker control require_running =
     res_bind (require (workload_bound context digest worker) (ValueError ''NATIVE_WORKLOAD_BINDING_MISMATCH'')) (\<lambda>_.
     res_bind (require (jget (jget workload ''spec'') ''automountServiceAccountToken'' = JBool False)
       (ValueError ''NATIVE_WORKLOAD_TOKEN_AUTOMOUNT_NOT_DISABLED'')) (\<lambda>_.
     res_bind (require (list_all (pair_bound context) [(worker, ''workload''), (control, ''supervisor'')])
       (ValueError ''NATIVE_PAIR_BINDING_MISMATCH'')) (\<lambda>_.
     res_bind (require (supervisor_bound na context control) (ValueError ''NATIVE_SUPERVISOR_BINDING_MISMATCH'')) (\<lambda>_.
     res_bind (native_image workload ''agent'' (na_worker_image na) require_running) (\<lambda>_.
     native_image supervisor ''supervisor'' (na_supervisor_image na) require_running)))))"

text \<open>\<open>expected\<close> is the identity the journal already holds, \<open>None\<close> before the first observation.\<close>

definition verify_native :: "'w native_env \<Rightarrow> json \<Rightarrow> json \<Rightarrow> json \<Rightarrow> json \<Rightarrow> json \<Rightarrow> bool \<Rightarrow> verified res" where
  "verify_native na context sandbox workload supervisor expected require_running =
     res_bind (scope_digest na context) (\<lambda>digest.
     res_bind (require (jget sandbox ''apiVersion'' \<in> JStr ` set API_VERSIONS) (ValueError ''UNSUPPORTED_NATIVE_SANDBOX_VERSION'')) (\<lambda>_.
     res_bind (native_metadata sandbox ''Sandbox'' (na_namespace na)) (\<lambda>native.
     res_bind (require (sandbox_owned na context native) (ValueError ''NATIVE_SANDBOX_OWNER_MISMATCH'')) (\<lambda>_.
     res_bind (native_metadata workload ''Pod'' (na_namespace na)) (\<lambda>worker.
     res_bind (native_metadata supervisor ''Pod'' (na_namespace na)) (\<lambda>control.
     res_bind (native_owner worker sandbox True) (\<lambda>_.
     res_bind (native_owner control sandbox False) (\<lambda>_.
     res_bind (check_pair na context digest workload supervisor worker control require_running) (\<lambda>_.
     let identity = native_identity na context digest sandbox native worker control in
     if expected \<noteq> JNull \<and> \<not> py_eq identity expected then Inl (ValueError ''NATIVE_RESOURCE_REPLACED'')
     else Inr \<lparr> vf_identity = identity, vf_versions = snapshot_versions native worker control, vf_running = require_running \<rparr>)))))))))"

section \<open>Observation\<close>

definition complete_items :: "json \<Rightarrow> json list res" where
  "complete_items v =
     (case jget v ''items'' of
        JList xs \<Rightarrow>
          (if \<not> is_obj (jget v ''metadata'') \<or> \<not> nonempty_text (jget (jget v ''metadata'') ''resourceVersion'') \<or>
             truthy (jget (jget v ''metadata'') ''continue'') \<or> truthy (jget (jget v ''metadata'') ''_continue'')
           then Inl (ValueError ''NATIVE_LIST_INCOMPLETE'') else Inr xs)
      | _ \<Rightarrow> Inl (ValueError ''NATIVE_LIST_INCOMPLETE''))"

definition uid_selector :: "json \<Rightarrow> bool" where
  "uid_selector v = (case v of JStr s \<Rightarrow> fullmatch_class (alnum_chars @ ''_.-'') 1 63 s | _ \<Rightarrow> False)"

text \<open>\<open>all(state.get(k) == v for k, v in d.xs())\<close>\<close>

definition holds_items :: "json \<Rightarrow> json \<Rightarrow> bool" where
  "holds_items st d = list_all (\<lambda>(k, v). py_eq (jget st k) v) (obj_items d)"

definition openshell_task :: "task \<Rightarrow> json \<Rightarrow> bool" where
  "openshell_task t tid = (tid = JStr (t_id t) \<and> t_backend t = ''openshell'' \<and> truthy (t_openshell t))"

definition of_role :: "string \<Rightarrow> json list \<Rightarrow> json list" where
  "of_role role pods = filter (\<lambda>p. jget (jget (jget p ''metadata'') ''labels'') ROLE = JStr role) pods"

definition record_resources :: "verified \<Rightarrow> json \<Rightarrow> json" where
  "record_resources v st = jset ''nativeResourceVersions'' (vf_versions v) (jset ''nativeResources'' (vf_identity v) st)"

definition unique_pods :: "json list \<Rightarrow> (json \<times> json) res" where
  "unique_pods pods =
     (case (of_role ''workload'' pods, of_role ''supervisor'' pods) of
        ([w], [s]) \<Rightarrow> Inr (w, s) | _ \<Rightarrow> Inl (ValueError ''NATIVE_POD_PAIR_NOT_UNIQUE''))"

definition unique_sandbox :: "'w native_env \<Rightarrow> json list \<Rightarrow> json res" where
  "unique_sandbox na sandboxes =
     (case sandboxes of
        [s] \<Rightarrow> if jget s ''apiVersion'' \<noteq> JStr (na_version na) then Inl (ValueError ''NATIVE_LIST_API_VERSION_MISMATCH'') else Inr s
      | _ \<Rightarrow> Inl (ValueError ''NATIVE_SANDBOX_NOT_UNIQUE''))"

definition revalidate :: "'w native_env \<Rightarrow> json \<Rightarrow> bool \<Rightarrow> ('w native_world, verified) io" where
  "revalidate na context require_running =
     io_bind native_task (\<lambda>t.
     let st = t_openshell t; native_selector = NATIVE_ID @ ''='' @ text_of (jget context ''workerUID'') in
     io_bind (io_lift (require (is_obj context \<and> uid_selector (jget context ''workerUID'')) (ValueError ''INVALID_NATIVE_SELECTOR_IDENTITY''))) (\<lambda>_.
     io_bind (io_lift (require (openshell_task t (jget context ''taskId'') \<and> holds_items st context)
       (ValueError ''NATIVE_OBSERVER_TASK_BINDING_MISMATCH''))) (\<lambda>_.
     io_bind (list_sandboxes na (na_version na) (native_selector @ '','' @ GATEWAY @ ''='' @ na_gateway na)) (\<lambda>sl.
     io_bind (io_lift (res_bind (complete_items sl) (unique_sandbox na))) (\<lambda>sandbox.
     io_bind (list_pods na native_selector) (\<lambda>pl.
     io_bind (io_lift (res_bind (complete_items pl) unique_pods)) (\<lambda>(workload, supervisor).
     io_bind (io_lift (verify_native na context sandbox workload supervisor (jget st ''nativeResources'') require_running)) (\<lambda>v.
     io_bind (native_save na (record_resources v st)) (\<lambda>_.
     io_return v)))))))))"

definition observe_exact :: "'w native_env \<Rightarrow> json \<Rightarrow> ('w native_world, json) io" where
  "observe_exact na context =
     io_bind (revalidate na context False) (\<lambda>v.
     io_return (jset ''podUID'' (jget (vf_identity v) ''podUID'') context))"

section \<open>Retirement\<close>

definition stop_is_reserved :: "string \<Rightarrow> json \<Rightarrow> bool" where
  "stop_is_reserved operation st =
     (jget st ''phase'' = JStr ''stop-reserved'' \<and> jget st ''stopOperationId'' = JStr operation \<and>
      jget st ''fenced'' = JBool True \<and> jget st ''revoked'' = JBool True)"

definition bound :: "'w native_env \<Rightarrow> json \<Rightarrow> string \<Rightarrow> task \<Rightarrow> json res" where
  "bound na assigned operation t =
     (let st = t_openshell t; identity = get_or st ''nativeResources'' (JObj []) in
      if \<not> exact_keys (KEYS @ [''podUID'']) assigned \<or> \<not> hex_id 32 operation then Inl (ValueError ''INVALID_NATIVE_RETIREMENT_IDENTITY'')
      else if \<not> uid_selector (jget assigned ''workerUID'') then Inl (ValueError ''INVALID_NATIVE_RETIREMENT_SELECTOR'')
      else if \<not> openshell_task t (jget assigned ''taskId'') \<or> \<not> holds_items st assigned \<or> \<not> stop_is_reserved operation st
      then Inl (ValueError ''UNRESERVED_NATIVE_RETIREMENT'')
      else if jget identity ''namespace'' \<noteq> JStr (na_namespace na) \<or> \<not> py_eq (jget identity ''podUID'') (jget assigned ''podUID'') \<or>
        \<not> holds_items identity assigned
      then Inl (ValueError ''UNVERIFIED_NATIVE_RETIREMENT_RESOURCES'') else Inr identity)"

definition still_bound :: "'w native_env \<Rightarrow> json \<Rightarrow> string \<Rightarrow> ('w native_world, json) io" where
  "still_bound na assigned operation = io_bind native_task (\<lambda>t. io_lift (bound na assigned operation t))"

text \<open>One resource: kind, API version, name and uid.\<close>

record resource =
  rs_kind :: string
  rs_version :: string
  rs_name :: string
  rs_uid :: string

definition text_at :: "json \<Rightarrow> string \<Rightarrow> string res" where
  "text_at d k = res_bind (py_idx d k) (\<lambda>v. case v of JStr s \<Rightarrow> Inr s | _ \<Rightarrow> Inl (ValueError k))"

definition resource_at :: "json \<Rightarrow> string \<Rightarrow> string res \<Rightarrow> string \<Rightarrow> string \<Rightarrow> resource res" where
  "resource_at identity kind version name uid =
     res_bind version (\<lambda>v. res_bind (text_at identity name) (\<lambda>n. res_bind (text_at identity uid) (\<lambda>u.
     Inr \<lparr> rs_kind = kind, rs_version = v, rs_name = n, rs_uid = u \<rparr>)))"

definition resources :: "json \<Rightarrow> resource list res" where
  "resources identity =
     res_map id [resource_at identity ''Sandbox'' (text_at identity ''sandboxAPIVersion'') ''sandboxName'' ''sandboxUID'',
       resource_at identity ''Pod'' (Inr ''v1'') ''podName'' ''podUID'',
       resource_at identity ''Pod'' (Inr ''v1'') ''supervisorPodName'' ''supervisorPodUID'']"

definition same_resource :: "string \<Rightarrow> resource \<Rightarrow> json \<Rightarrow> bool" where
  "same_resource ns r v =
     (let meta = jget v ''metadata'' in
      jget v ''kind'' = JStr (rs_kind r) \<and> jget v ''apiVersion'' = JStr (rs_version r) \<and> jget meta ''namespace'' = JStr ns \<and>
      jget meta ''name'' = JStr (rs_name r) \<and> jget meta ''uid'' = JStr (rs_uid r) \<and> nonempty_text (jget meta ''resourceVersion''))"

fun native_snapshot :: "'w native_env \<Rightarrow> resource list \<Rightarrow> ('w native_world, json option list) io" where
  "native_snapshot na [] = io_return []"
| "native_snapshot na (r # rs) =
     io_bind (read_resource na (rs_kind r) (rs_version r) (rs_name r)) (\<lambda>v.
     if (case v of Some x \<Rightarrow> \<not> same_resource (na_namespace na) r x | None \<Rightarrow> False)
     then io_raise (ValueError ''NATIVE_RETIREMENT_RESOURCE_REPLACED'')
     else io_bind (native_snapshot na rs) (\<lambda>vs. io_return (v # vs)))"

definition resource_key :: "resource \<Rightarrow> string" where
  "resource_key r = rs_kind r @ ''/'' @ rs_uid r"

definition delete_record :: "string \<Rightarrow> resource \<Rightarrow> string \<Rightarrow> string \<Rightarrow> json" where
  "delete_record operation r resource phase =
     JObj [(''operationId'', JStr operation), (''name'', JStr (rs_name r)), (''uid'', JStr (rs_uid r)), (''apiVersion'', JStr (rs_version r)),
       (''resourceVersion'', JStr resource), (''phase'', JStr phase)]"

definition deletions :: "json \<Rightarrow> json" where "deletions st = get_or st ''nativeDeleteOperations'' (JObj [])"

definition put_record :: "string \<Rightarrow> json \<Rightarrow> json \<Rightarrow> json" where
  "put_record key record st = jset ''nativeDeleteOperations'' (jset key record (deletions st)) st"

text \<open>The retirement of one resource that is still there: the reservation is in the journal before the call.\<close>

definition retire_present :: "'w native_env \<Rightarrow> string \<Rightarrow> resource \<Rightarrow> string \<Rightarrow> json \<Rightarrow> ('w native_world, unit) io" where
  "retire_present na operation r resource st =
     (if \<not> is_obj (deletions st) then io_raise (TypeError ''nativeDeleteOperations'')
      else if jhas (deletions st) (resource_key r) then io_raise (ValueError ''NATIVE_DELETE_ALREADY_RESERVED_NO_RETRY'')
      else
        io_bind (native_save na (put_record (resource_key r) (delete_record operation r resource ''reserved'') st)) (\<lambda>_.
        io_bind (delete_exact na (rs_kind r) (rs_version r) (rs_name r) (rs_uid r) resource) (\<lambda>receipt.
        if \<not> py_eq receipt (delete_receipt (rs_uid r) resource) then io_raise (ValueError ''NATIVE_DELETE_RECEIPT_MISMATCH'')
        else
          io_bind native_task (\<lambda>t.
          native_save na (put_record (resource_key r) (delete_record operation r resource ''accepted'') (t_openshell t))))))"

fun retire_each :: "'w native_env \<Rightarrow> json \<Rightarrow> string \<Rightarrow> (resource \<times> json option) list \<Rightarrow> ('w native_world, unit) io" where
  "retire_each na assigned operation [] = io_return ()"
| "retire_each na assigned operation ((r, None) # rest) = retire_each na assigned operation rest"
| "retire_each na assigned operation ((r, Some v) # rest) =
     io_bind (still_bound na assigned operation) (\<lambda>_.
     io_bind native_task (\<lambda>t.
     io_bind (retire_present na operation r (text_of (jget (jget v ''metadata'') ''resourceVersion'')) (t_openshell t)) (\<lambda>_.
     retire_each na assigned operation rest)))"

definition absence_receipt :: "json \<Rightarrow> string \<Rightarrow> json" where
  "absence_receipt assigned operation =
     JObj (obj_items assigned @ [(''operationId'', JStr operation), (''resourcesAbsent'', JBool True), (''processExitVerified'', JBool False)])"

definition lists_empty :: "'w native_env \<Rightarrow> string \<Rightarrow> string \<Rightarrow> ('w native_world, unit) io" where
  "lists_empty na version selector =
     io_bind (list_pods na selector) (\<lambda>pl. io_bind (io_lift (complete_items pl)) (\<lambda>pods.
     io_bind (list_sandboxes na version selector) (\<lambda>sl. io_bind (io_lift (complete_items sl)) (\<lambda>sandboxes.
     if pods \<noteq> [] \<or> sandboxes \<noteq> [] then io_raise (ValueError ''NATIVE_RESOURCES_REAPPEARED'') else io_return ()))))"

definition verify_resources_absent :: "'w native_env \<Rightarrow> json \<Rightarrow> string \<Rightarrow> ('w native_world, json) io" where
  "verify_resources_absent na assigned operation =
     io_bind (still_bound na assigned operation) (\<lambda>identity.
     io_bind (io_lift (resources identity)) (\<lambda>rs.
     io_bind (native_snapshot na rs) (\<lambda>vs.
     if \<not> list_all (\<lambda>v. v = None) vs then io_raise (ValueError ''NATIVE_RESOURCES_STILL_PRESENT'')
     else
       io_bind (io_lift (text_at identity ''sandboxAPIVersion'')) (\<lambda>version.
       io_bind (lists_empty na version (NATIVE_ID @ ''='' @ text_of (jget assigned ''workerUID''))) (\<lambda>_.
       io_return (absence_receipt assigned operation))))))"

definition retire_exact :: "'w native_env \<Rightarrow> json \<Rightarrow> string \<Rightarrow> ('w native_world, json) io" where
  "retire_exact na assigned operation =
     io_bind (still_bound na assigned operation) (\<lambda>identity.
     io_bind (io_lift (resources identity)) (\<lambda>rs.
     io_bind (native_snapshot na rs) (\<lambda>vs.
     io_bind (retire_each na assigned operation (zip rs vs)) (\<lambda>_.
     verify_resources_absent na assigned operation))))"

section \<open>Steps\<close>

text \<open>What the broker's other code may do to the task in between: it keeps the two fields of this component.\<close>

definition keeps_native :: "task \<Rightarrow> task \<Rightarrow> bool" where
  "keeps_native t t' =
     (jget (t_openshell t') ''nativeResources'' = jget (t_openshell t) ''nativeResources'' \<and>
      deletions (t_openshell t') = deletions (t_openshell t))"

inductive native_step :: "'w native_env \<Rightarrow> 'w native_world \<Rightarrow> 'w native_world \<Rightarrow> bool" for na where
  retire: "native_step na w (snd (retire_exact na assigned operation w))"
| verify: "native_step na w (snd (verify_resources_absent na assigned operation w))"
| observe: "native_step na w (snd (revalidate na context require_running w))"
| others: "keeps_native (nw_task w) t \<Longrightarrow> native_step na w (w\<lparr> nw_task := t \<rparr>)"

section \<open>Deletions\<close>

text \<open>The kind and the uid a sent DELETE is fenced with.\<close>

definition body_uid :: "native_request \<Rightarrow> string" where
  "body_uid q = (case nq_body q of Some b \<Rightarrow> text_of (jget (jget b ''preconditions'') ''uid'') | None \<Rightarrow> [])"

definition is_delete :: "native_request \<Rightarrow> bool" where "is_delete q = (nq_verb q = ''DELETE'')"

fun delete_keys :: "native_event list \<Rightarrow> string list" where
  "delete_keys [] = []"
| "delete_keys (Saved st # es) = delete_keys es"
| "delete_keys (Sent q # es) = (if is_delete q then (nq_kind q @ ''/'' @ body_uid q) # delete_keys es else delete_keys es)"

lemma delete_keys_append [simp]: "delete_keys (xs @ ys) = delete_keys xs @ delete_keys ys"
  by (induction xs rule: delete_keys.induct) auto

text \<open>The journal entry that reserves a DELETE: the record of exactly this uid and resource version.\<close>

definition reserves :: "json \<Rightarrow> native_request \<Rightarrow> bool" where
  "reserves st q =
     (\<exists>operation r resource. nq_kind q = rs_kind r \<and> nq_body q = Some (delete_body (rs_uid r) resource) \<and>
        jget (deletions st) (resource_key r) = delete_record operation r resource ''reserved'')"

definition reserved_first :: "native_event list \<Rightarrow> bool" where
  "reserved_first tr = (\<forall>pre q post. tr = pre @ Sent q # post \<longrightarrow> is_delete q \<longrightarrow> (\<exists>st. Saved st \<in> set pre \<and> reserves st q))"

lemma reserved_first_Nil [simp]: "reserved_first []"
  by (simp add: reserved_first_def)

lemma reserved_first_snoc:
  "reserved_first (tr @ [e]) \<longleftrightarrow>
     reserved_first tr \<and> (case e of Sent q \<Rightarrow> is_delete q \<longrightarrow> (\<exists>st. Saved st \<in> set tr \<and> reserves st q) | Saved st \<Rightarrow> True)"
  (is "?l \<longleftrightarrow> ?r")
proof
  assume l: ?l
  have "reserved_first tr"
    unfolding reserved_first_def
  proof (intro allI impI)
    fix pre q post
    assume "tr = pre @ Sent q # post" "is_delete q"
    then have "tr @ [e] = pre @ Sent q # (post @ [e])" by simp
    then show "\<exists>st. Saved st \<in> set pre \<and> reserves st q" using l \<open>is_delete q\<close> unfolding reserved_first_def by blast
  qed
  moreover have "\<exists>st. Saved st \<in> set tr \<and> reserves st q" if "e = Sent q" "is_delete q" for q
    using l that unfolding reserved_first_def by blast
  ultimately show ?r by (simp split: native_event.split)
next
  assume r: ?r
  show ?l
    unfolding reserved_first_def
  proof (intro allI impI)
    fix pre q post
    assume d: "tr @ [e] = pre @ Sent q # post" "is_delete q"
    show "\<exists>st. Saved st \<in> set pre \<and> reserves st q"
    proof (cases post rule: rev_cases)
      case Nil
      then show ?thesis using d r by simp
    next
      case (snoc post' e')
      then have "tr = pre @ Sent q # post'" using d(1) by simp
      then show ?thesis using r d(2) unfolding reserved_first_def by blast
    qed
  qed
qed

text \<open>The uids of the recorded resources, once there are any.\<close>

definition UID_FIELDS :: "string list" where "UID_FIELDS = [''sandboxUID'', ''podUID'', ''supervisorPodUID'']"

definition has_uids :: "string list option \<Rightarrow> json \<Rightarrow> bool" where
  "has_uids ids st =
     (case ids of None \<Rightarrow> True | Some us \<Rightarrow> map (jget (jget st ''nativeResources'')) UID_FIELDS = map JStr us)"

text \<open>The invariant: the recorded uids are \<open>ids\<close>, a DELETE follows its reservation in the journal, its key is recorded in the task, and no key is
  deleted twice.\<close>

definition recorded :: "string list option \<Rightarrow> 'w native_world \<Rightarrow> bool" where
  "recorded ids w =
     (has_uids ids (t_openshell (nw_task w)) \<and> reserved_first (nw_trace w) \<and> distinct (delete_keys (nw_trace w)) \<and>
      list_all (jhas (deletions (t_openshell (nw_task w)))) (delete_keys (nw_trace w)))"

lemma native_task_wp: "io_wp native_task Q E w = Q (nw_task w) w"
  by (simp add: io_wp_def native_task_def)

lemma native_get_wp:
  assumes "recorded ids w" "\<And>x w'. recorded ids w' \<Longrightarrow> nw_task w' = nw_task w \<Longrightarrow> Q x w'" "\<And>w'. recorded ids w' \<Longrightarrow> nw_task w' = nw_task w \<Longrightarrow> E w'"
  shows "io_wp (native_send na (native_get kind p)) Q E w"
proof -
  obtain r s where s: "na_send na (native_get kind p) (nw_server w) = (r, s)" by fastforce
  let ?w = "w\<lparr> nw_trace := nw_trace w @ [Sent (native_get kind p)], nw_server := s \<rparr>"
  have "recorded ids ?w" using assms(1) by (simp add: recorded_def reserved_first_snoc is_delete_def native_get_def)
  then show ?thesis using assms(2,3) [of ?w] s by (simp add: io_wp_def native_send_def split: sum.split)
qed

lemma native_list_wp:
  assumes "recorded ids w" "\<And>x w'. recorded ids w' \<Longrightarrow> nw_task w' = nw_task w \<Longrightarrow> Q x w'" "\<And>w'. recorded ids w' \<Longrightarrow> nw_task w' = nw_task w \<Longrightarrow> E w'"
  shows "io_wp (native_list na kind version selector) Q E w"
  unfolding native_list_def
  by (auto simp: wp_rules assms split: sum.splits intro!: native_get_wp [OF assms(1)])

lemma read_resource_wp:
  assumes "recorded ids w" "\<And>x w'. recorded ids w' \<Longrightarrow> nw_task w' = nw_task w \<Longrightarrow> Q x w'" "\<And>w'. recorded ids w' \<Longrightarrow> nw_task w' = nw_task w \<Longrightarrow> E w'"
  shows "io_wp (read_resource na kind version name) Q E w"
  unfolding read_resource_def
  by (auto simp: wp_rules assms split: sum.splits intro!: native_get_wp [OF assms(1)])

lemma native_snapshot_wp:
  assumes "recorded ids w" "\<And>x w'. recorded ids w' \<Longrightarrow> nw_task w' = nw_task w \<Longrightarrow> Q x w'" "\<And>w'. recorded ids w' \<Longrightarrow> nw_task w' = nw_task w \<Longrightarrow> E w'"
  shows "io_wp (native_snapshot na rs) Q E w"
  using assms
proof (induction rs arbitrary: w Q)
  case Nil
  then show ?case by (simp add: wp_rules)
next
  case (Cons r rs)
  show ?case
    unfolding native_snapshot.simps io_wp_bind
    by (rule read_resource_wp [OF Cons.prems(1)])
       (auto simp: wp_rules Cons.prems(2,3) intro!: Cons.IH)
qed

lemma native_save_wp:
  assumes "recorded ids w" "\<And>k. jhas (deletions (t_openshell (nw_task w))) k \<Longrightarrow> jhas (deletions st) k"
    and "has_uids ids (t_openshell (nw_task w)) \<Longrightarrow> has_uids ids st"
    and "\<And>w'. recorded ids w' \<Longrightarrow> t_openshell (nw_task w') = st \<Longrightarrow> nw_trace w' = nw_trace w @ [Saved st] \<Longrightarrow> Q w'"
    and "\<And>w'. recorded ids w' \<Longrightarrow> E w'"
  shows "io_wp (native_save na st) (\<lambda>_. Q) E w"
proof -
  let ?t = "(nw_task w)\<lparr> t_openshell := st \<rparr>"
  have "recorded ids (w\<lparr> nw_task := save ?t, nw_trace := nw_trace w @ [Saved st] \<rparr>)" "recorded ids (w\<lparr> nw_task := ?t \<rparr>)"
    using assms(1-3) by (auto simp: recorded_def reserved_first_snoc list_all_iff)
  then show ?thesis using assms(4,5) by (simp add: io_wp_def native_save_def Let_def)
qed

lemma delete_exact_wp:
  assumes "recorded ids w" "resource_key r \<notin> set (delete_keys (nw_trace w))" "jhas (deletions (t_openshell (nw_task w))) (resource_key r)"
    and "Saved st \<in> set (nw_trace w)" "jget (deletions st) (resource_key r) = delete_record operation r resource ''reserved''"
    and "\<And>x w'. recorded ids w' \<Longrightarrow> nw_task w' = nw_task w \<Longrightarrow> Q x w'" "\<And>w'. recorded ids w' \<Longrightarrow> E w'"
  shows "io_wp (delete_exact na (rs_kind r) (rs_version r) (rs_name r) (rs_uid r) resource) Q E w"
proof -
  have send: "io_wp (native_send na \<lparr> nq_kind = rs_kind r, nq_verb = ''DELETE'', nq_path = p, nq_body = Some (delete_body (rs_uid r) resource) \<rparr>)
      (\<lambda>_ w'. recorded ids w' \<and> nw_task w' = nw_task w) (recorded ids) w" for p
  proof -
    let ?q = "\<lparr> nq_kind = rs_kind r, nq_verb = ''DELETE'', nq_path = p, nq_body = Some (delete_body (rs_uid r) resource) \<rparr>"
    obtain x s where s: "na_send na ?q (nw_server w) = (x, s)" by fastforce
    have "body_uid ?q = rs_uid r" by (simp add: body_uid_def delete_body_def text_of_def)
    moreover have "reserves st ?q" using assms(5) by (auto simp: reserves_def)
    moreover have d: "is_delete ?q" by (simp add: is_delete_def)
    ultimately have "recorded ids (w\<lparr> nw_trace := nw_trace w @ [Sent ?q], nw_server := s \<rparr>)"
      using assms(1-4) unfolding recorded_def by (auto simp: reserved_first_snoc resource_key_def)
    then show ?thesis using s by (simp add: io_wp_def native_send_def split: sum.split)
  qed
  show ?thesis
    unfolding delete_exact_def
    by (auto simp: wp_rules assms(1,7) split: sum.splits intro!: io_wp_mono [OF send] intro: assms(6,7))
qed

lemma jhas_put_record:
  assumes "is_obj st" "is_obj (deletions st)"
  shows "jhas (deletions (put_record key record st)) k \<longleftrightarrow> k = key \<or> jhas (deletions st) k"
    and "jget (deletions (put_record key record st)) key = record"
  using assms by (auto simp: put_record_def deletions_def get_or_def)

lemma has_uids_put_record [simp]: "has_uids ids (put_record key record st) = has_uids ids st"
  by (simp add: has_uids_def put_record_def jset_other split: option.split)

lemma bound_obj:
  assumes "bound na assigned operation t = Inr identity"
  shows "is_obj (t_openshell t)"
proof -
  have "jget (t_openshell t) ''phase'' = JStr ''stop-reserved''"
    using assms by (simp add: bound_def Let_def stop_is_reserved_def split: if_splits)
  then show ?thesis by (cases "t_openshell t") auto
qed

lemma retire_present_wp:
  assumes rec: "recorded ids w" and st: "st = t_openshell (nw_task w)" "is_obj st"
  shows "io_wp (retire_present na operation r resource st) (\<lambda>_. recorded ids) (recorded ids) w"
proof (cases "is_obj (deletions st) \<and> \<not> jhas (deletions st) (resource_key r)")
  case False
  then show ?thesis using rec by (auto simp: retire_present_def wp_rules)
next
  case True
  note put = jhas_put_record [OF st(2)]
  let ?res = "put_record (resource_key r) (delete_record operation r resource ''reserved'') st"
  have obj: "is_obj ?res" "is_obj (deletions ?res)" using True st(2) by (auto simp: put_record_def deletions_def get_or_def)
  have fresh: "resource_key r \<notin> set (delete_keys (nw_trace w))" using rec True st(1) by (auto simp: recorded_def list_all_iff)
  have accepts: "io_wp (native_save na (put_record (resource_key r) (delete_record operation r resource ''accepted'') ?res))
      (\<lambda>_. recorded ids) (recorded ids) w2" if "recorded ids w2" "t_openshell (nw_task w2) = ?res" for w2
    by (rule native_save_wp [OF that(1)]) (use that(2) jhas_put_record(1) [OF obj] in simp_all)
  have deletes: "io_wp (delete_exact na (rs_kind r) (rs_version r) (rs_name r) (rs_uid r) resource)
      (\<lambda>receipt. io_wp (if \<not> py_eq receipt (delete_receipt (rs_uid r) resource) then io_raise (ValueError ''NATIVE_DELETE_RECEIPT_MISMATCH'')
        else io_bind native_task (\<lambda>t. native_save na (put_record (resource_key r) (delete_record operation r resource ''accepted'') (t_openshell t))))
        (\<lambda>_. recorded ids) (recorded ids)) (recorded ids) w1"
    if w1: "recorded ids w1" "t_openshell (nw_task w1) = ?res" "nw_trace w1 = nw_trace w @ [Saved ?res]" for w1
  proof (rule delete_exact_wp [OF w1(1)])
    show "resource_key r \<notin> set (delete_keys (nw_trace w1))" using w1(3) fresh by simp
    show "jhas (deletions (t_openshell (nw_task w1))) (resource_key r)" using w1(2) put(1) True by simp
    show "Saved ?res \<in> set (nw_trace w1)" using w1(3) by simp
    show "jget (deletions ?res) (resource_key r) = delete_record operation r resource ''reserved''" using put(2) True by simp
  qed (auto simp: wp_rules native_task_wp w1(2) intro!: accepts)
  show ?thesis
    unfolding retire_present_def using True
    by (auto simp: io_wp_bind intro!: native_save_wp [OF rec] deletes simp: put(1) st(1) [symmetric])
qed

lemma still_bound_wp:
  "(\<And>identity. bound na assigned operation (nw_task w) = Inr identity \<Longrightarrow> Q identity w) \<Longrightarrow> E w \<Longrightarrow> io_wp (still_bound na assigned operation) Q E w"
  by (auto simp: still_bound_def wp_rules native_task_wp split: sum.split)

lemma retire_each_wp:
  assumes "recorded ids w"
  shows "io_wp (retire_each na assigned operation rvs) (\<lambda>_. recorded ids) (recorded ids) w"
  using assms
proof (induction na assigned operation rvs arbitrary: w rule: retire_each.induct)
  case (3 na assigned operation r v rest)
  show ?case
    unfolding retire_each.simps io_wp_bind native_task_wp
  proof (rule still_bound_wp)
    fix identity assume "bound na assigned operation (nw_task w) = Inr identity"
    then have obj: "is_obj (t_openshell (nw_task w))" by (rule bound_obj)
    show "io_wp (retire_present na operation r (text_of (jget (jget v ''metadata'') ''resourceVersion'')) (t_openshell (nw_task w)))
        (\<lambda>x. io_wp (retire_each na assigned operation rest) (\<lambda>_. recorded ids) (recorded ids)) (recorded ids) w"
      by (rule io_wp_mono [OF retire_present_wp [OF 3(2) refl obj]]) (auto intro: "3.IH")
  qed (rule 3(2))
qed (auto simp: wp_rules)

lemma lists_empty_wp:
  assumes "recorded ids w"
  shows "io_wp (lists_empty na version selector) (\<lambda>_. recorded ids) (recorded ids) w"
  unfolding lists_empty_def list_pods_def list_sandboxes_def io_wp_bind
  by (rule native_list_wp [OF assms]) (auto simp: wp_rules split: sum.splits intro!: native_list_wp)

lemma verify_resources_absent_wp:
  assumes "recorded ids w"
  shows "io_wp (verify_resources_absent na assigned operation) (\<lambda>_. recorded ids) (recorded ids) w"
  unfolding verify_resources_absent_def io_wp_bind
  by (rule still_bound_wp)
     (auto simp: wp_rules assms split: sum.splits intro!: native_snapshot_wp io_wp_mono [OF lists_empty_wp])

lemma retire_exact_wp:
  assumes "recorded ids w"
  shows "io_wp (retire_exact na assigned operation) (\<lambda>_. recorded ids) (recorded ids) w"
  unfolding retire_exact_def io_wp_bind
  by (rule still_bound_wp)
     (auto simp: wp_rules assms split: sum.splits intro!: native_snapshot_wp io_wp_mono [OF retire_each_wp] verify_resources_absent_wp)

lemma deletions_record_resources: "deletions (record_resources v st) = deletions st"
  by (cases st) (auto simp: deletions_def get_or_def record_resources_def update_conv')

lemma equal_field:
  assumes "py_eq (JObj xs) e" "map_of xs k = Some (JStr u)"
  shows "jget e k = JStr u"
proof -
  obtain ys where e: "e = JObj ys" using assms(1) by (cases e) auto
  then show ?thesis using assms map_of_SomeD [OF assms(2)] by (fastforce split: option.splits)
qed

lemma verified_uids:
  assumes "verify_native na context sandbox workload supervisor expected running = Inr v"
    and "map (jget expected) UID_FIELDS = map JStr us"
  shows "map (jget (vf_identity v)) UID_FIELDS = map JStr us"
proof -
  obtain digest native worker control where scope: "scope_digest na context = Inr digest"
    and metas: "native_metadata sandbox ''Sandbox'' (na_namespace na) = Inr native" "native_metadata workload ''Pod'' (na_namespace na) = Inr worker"
      "native_metadata supervisor ''Pod'' (na_namespace na) = Inr control"
    and v: "vf_identity v = native_identity na context digest sandbox native worker control"
      "expected \<noteq> JNull \<longrightarrow> py_eq (vf_identity v) expected"
    using assms(1) unfolding verify_native_def by (auto simp: res_bind_Inr_iff Let_def split: if_splits)
  have uid: "\<exists>u. jget m ''uid'' = JStr u" if "native_metadata x kind ns = Inr m" for x kind ns m
    using that by (auto simp: native_metadata_def Let_def nonempty_text_def split: if_splits json.splits)
  then obtain a b c where uids: "jget native ''uid'' = JStr a" "jget worker ''uid'' = JStr b" "jget control ''uid'' = JStr c"
    using uid [OF metas(1)] uid [OF metas(2)] uid [OF metas(3)] by blast
  have none: "map_of (obj_items context) k = None" if "k \<in> set UID_FIELDS" for k
  proof -
    have "set (jkeys context) = set KEYS" "is_obj context" using scope by (simp_all add: scope_digest_def valid_context_def split: if_splits)
    moreover have "k \<notin> set KEYS" using that by (auto simp: UID_FIELDS_def KEYS_def)
    ultimately show ?thesis by (cases "context") (auto simp: map_of_eq_None_iff)
  qed
  obtain xs where xs: "vf_identity v = JObj xs" "map_of xs ''sandboxUID'' = Some (JStr a)" "map_of xs ''podUID'' = Some (JStr b)"
    "map_of xs ''supervisorPodUID'' = Some (JStr c)"
    using v(1) uids none by (simp add: native_identity_def UID_FIELDS_def map_add_def)
  have "expected \<noteq> JNull" using assms(2) by (auto simp: UID_FIELDS_def)
  then have eq: "py_eq (JObj xs) expected" using v(2) xs(1) by simp
  show ?thesis using equal_field [OF eq xs(2)] equal_field [OF eq xs(3)] equal_field [OF eq xs(4)] assms(2) xs
    by (simp add: UID_FIELDS_def)
qed

lemma record_resources_uids:
  assumes "verify_native na context sandbox workload supervisor (jget st ''nativeResources'') running = Inr v" "has_uids ids st"
  shows "has_uids ids (record_resources v st)"
proof (cases ids)
  case None
  then show ?thesis by (simp add: has_uids_def)
next
  case (Some us)
  then have old: "map (jget (jget st ''nativeResources'')) UID_FIELDS = map JStr us" using assms(2) by (simp add: has_uids_def)
  have "is_obj st" using old by (cases st) (auto simp: UID_FIELDS_def)
  then show ?thesis using verified_uids [OF assms(1) old] Some by (simp add: has_uids_def record_resources_def)
qed

lemma revalidate_wp:
  assumes "recorded ids w"
  shows "io_wp (revalidate na context require_running) (\<lambda>_. recorded ids) (recorded ids) w"
  unfolding revalidate_def io_wp_bind native_task_wp Let_def list_sandboxes_def list_pods_def
  by (auto simp: wp_rules assms deletions_record_resources split: sum.splits prod.splits
      intro!: native_list_wp [where ids = ids] native_save_wp [where ids = ids]) (erule (1) record_resources_uids)

lemma native_step_recorded: "native_step na w w' \<Longrightarrow> recorded ids w \<Longrightarrow> recorded ids w'"
proof (induction rule: native_step.induct)
  case (others w t)
  then show ?case by (simp add: recorded_def keeps_native_def has_uids_def split: option.splits)
qed (rule io_wp_snd [of _ "recorded ids"], blast intro: retire_exact_wp verify_resources_absent_wp revalidate_wp)+

interpretation native_records: step_invariant "native_step na" "recorded ids" for na ids
  by unfold_locales (rule native_step_recorded)

section \<open>Answers\<close>

text \<open>A run of requests with their replies.\<close>

fun answered :: "'w native_env \<Rightarrow> 'w \<Rightarrow> (native_request \<times> int \<times> json) list \<Rightarrow> 'w \<Rightarrow> bool" where
  "answered na s [] s' = (s' = s)"
| "answered na s ((q, r) # es) s' = (\<exists>s1. na_send na q s = (Inr r, s1) \<and> answered na s1 es s')"

definition asked :: "'w native_env \<Rightarrow> 'w native_world \<Rightarrow> (native_request \<times> int \<times> json) list \<Rightarrow> 'w native_world \<Rightarrow> bool" where
  "asked na w es w' =
     (nw_trace w' = nw_trace w @ map (Sent \<circ> fst) es \<and> nw_task w' = nw_task w \<and> answered na (nw_server w) es (nw_server w'))"

lemma answered_append: "answered na s es s1 \<Longrightarrow> answered na s1 es' s2 \<Longrightarrow> answered na s (es @ es') s2"
  by (induction na s es s1 rule: answered.induct) auto

lemma asked_trans: "asked na w es w1 \<Longrightarrow> asked na w1 es' w2 \<Longrightarrow> asked na w (es @ es') w2"
  by (auto simp: asked_def intro: answered_append)

lemma asked_Nil: "asked na w [] w" by (simp add: asked_def)

lemma sent_asked: "native_send na q w = (Inr r, w') \<Longrightarrow> asked na w [(q, r)] w'"
  by (auto simp: native_send_def asked_def split: prod.splits)

lemma native_list_asked:
  assumes "native_list na kind version selector w = (Inr v, w')"
  obtains q where "asked na w [(q, 200, v)] w'" "nq_verb q = ''GET''" "nq_kind q = kind"
proof -
  obtain p status where s: "native_send na (native_get kind (p @ ''?labelSelector='' @ quote_plus selector)) w = (Inr (status, v), w')" and "status = 200"
    using assms unfolding native_list_def
    by (auto dest!: io_bind_InrD split: sum.splits if_splits)
  then show ?thesis using sent_asked [OF s] that by (simp add: native_get_def)
qed

definition read_of :: "'w native_env \<Rightarrow> resource \<Rightarrow> native_request \<Rightarrow> bool" where
  "read_of na r q =
     (\<exists>p. native_path (na_namespace na) (na_namespace na) (rs_kind r) (rs_version r) (Some (rs_name r)) = Inr p \<and> q = native_get (rs_kind r) p)"

definition found :: "native_request \<times> int \<times> json \<Rightarrow> json option" where
  "found e = (case e of (q, status, b) \<Rightarrow> if status = 404 then None else Some b)"

lemma read_resource_asked:
  assumes "read_resource na (rs_kind r) (rs_version r) (rs_name r) w = (Inr v, w')"
  obtains q status b where "asked na w [(q, status, b)] w'" "read_of na r q" "v = found (q, status, b)" "status = 404 \<or> status = 200"
proof -
  obtain p status b where p: "native_path (na_namespace na) (na_namespace na) (rs_kind r) (rs_version r) (Some (rs_name r)) = Inr p"
    and s: "native_send na (native_get (rs_kind r) p) w = (Inr (status, b), w')" and v: "v = (if status = 404 then None else Some b)"
      "status = 404 \<or> status = 200"
    using assms unfolding read_resource_def
    by (auto dest!: io_bind_InrD split: sum.splits if_splits)
  then show ?thesis using sent_asked [OF s] that by (auto simp: read_of_def found_def)
qed

lemma native_snapshot_asked:
  assumes "native_snapshot na rs w = (Inr vs, w')"
  obtains es where "asked na w es w'" "list_all2 (\<lambda>r e. read_of na r (fst e)) rs es" "vs = map found es"
    "list_all2 (\<lambda>r v. case v of None \<Rightarrow> True | Some x \<Rightarrow> same_resource (na_namespace na) r x) rs vs"
  using assms
proof (induction rs arbitrary: w vs thesis)
  case Nil
  then show ?case using asked_Nil by auto
next
  case (Cons r rs)
  obtain v w1 where v: "read_resource na (rs_kind r) (rs_version r) (rs_name r) w = (Inr v, w1)"
    and rest: "(if (case v of Some x \<Rightarrow> \<not> same_resource (na_namespace na) r x | None \<Rightarrow> False)
        then io_raise (ValueError ''NATIVE_RETIREMENT_RESOURCE_REPLACED'')
        else io_bind (native_snapshot na rs) (\<lambda>vs. io_return (v # vs))) w1 = (Inr vs, w')"
    using io_bind_InrD [OF Cons.prems(2) [unfolded native_snapshot.simps]] by blast
  have same: "case v of None \<Rightarrow> True | Some x \<Rightarrow> same_resource (na_namespace na) r x"
    and tail: "io_bind (native_snapshot na rs) (\<lambda>vs. io_return (v # vs)) w1 = (Inr vs, w')"
    using rest by (auto split: option.splits if_splits)
  obtain vs' where vs': "native_snapshot na rs w1 = (Inr vs', w')" "vs = v # vs'" using io_bind_InrD [OF tail] by auto
  obtain q status b where q: "asked na w [(q, status, b)] w1" "read_of na r q" "v = found (q, status, b)"
    by (rule read_resource_asked [OF v])
  obtain es where es: "asked na w1 es w'" "list_all2 (\<lambda>r e. read_of na r (fst e)) rs es" "vs' = map found es"
    "list_all2 (\<lambda>r v. case v of None \<Rightarrow> True | Some x \<Rightarrow> same_resource (na_namespace na) r x) rs vs'"
    by (rule Cons.IH [OF _ vs'(1)])
  show ?case
    by (rule Cons.prems(1) [of "(q, status, b) # es"])
       (use asked_trans [OF q(1) es(1)] q es vs'(2) same in auto)
qed

definition gets :: "(native_request \<times> int \<times> json) list \<Rightarrow> bool" where
  "gets es = list_all (\<lambda>e. nq_verb (fst e) = ''GET'') es"

lemma reads_get: "list_all2 (\<lambda>r e. read_of na r (fst e)) rs es \<Longrightarrow> gets es"
  by (induction rule: list_all2_induct) (auto simp: gets_def read_of_def native_get_def)

lemma gets_no_delete: "gets es \<Longrightarrow> Sent q \<in> set (map (Sent \<circ> fst) es) \<Longrightarrow> \<not> is_delete q"
  by (auto simp: gets_def list_all_iff is_delete_def)

lemma lists_empty_asked:
  assumes "lists_empty na version selector w = (Inr u, w')"
  obtains q v q' v' where "asked na w [(q, 200, v), (q', 200, v')] w'" "complete_items v = Inr []" "complete_items v' = Inr []"
    "nq_verb q = ''GET''" "nq_verb q' = ''GET''" "nq_kind q = ''Pod''" "nq_kind q' = ''Sandbox''"
proof -
  obtain v w1 where v: "native_list na ''Pod'' ''v1'' selector w = (Inr v, w1)"
    and r1: "io_bind (io_lift (complete_items v)) (\<lambda>pods. io_bind (list_sandboxes na version selector) (\<lambda>sl.
      io_bind (io_lift (complete_items sl)) (\<lambda>sandboxes.
      if pods \<noteq> [] \<or> sandboxes \<noteq> [] then io_raise (ValueError ''NATIVE_RESOURCES_REAPPEARED'') else io_return ()))) w1 = (Inr u, w')"
    using io_bind_InrD [OF assms [unfolded lists_empty_def list_pods_def]] by blast
  obtain pods where pods: "complete_items v = Inr pods"
    and r2: "io_bind (list_sandboxes na version selector) (\<lambda>sl. io_bind (io_lift (complete_items sl)) (\<lambda>sandboxes.
      if pods \<noteq> [] \<or> sandboxes \<noteq> [] then io_raise (ValueError ''NATIVE_RESOURCES_REAPPEARED'') else io_return ())) w1 = (Inr u, w')"
    using r1 by (auto split: sum.splits)
  obtain v' w2 where v': "native_list na ''Sandbox'' version selector w1 = (Inr v', w2)"
    and r3: "io_bind (io_lift (complete_items v')) (\<lambda>sandboxes.
      if pods \<noteq> [] \<or> sandboxes \<noteq> [] then io_raise (ValueError ''NATIVE_RESOURCES_REAPPEARED'') else io_return ()) w2 = (Inr u, w')"
    using io_bind_InrD [OF r2 [unfolded list_sandboxes_def]] by blast
  have e: "pods = []" "complete_items v' = Inr []" "w' = w2" using r3 by (auto split: sum.splits if_splits)
  obtain q where q: "asked na w [(q, 200, v)] w1" "nq_verb q = ''GET''" "nq_kind q = ''Pod''" by (rule native_list_asked [OF v])
  obtain q' where q': "asked na w1 [(q', 200, v')] w2" "nq_verb q' = ''GET''" "nq_kind q' = ''Sandbox''" by (rule native_list_asked [OF v'])
  show ?thesis using that [of q v q' v'] asked_trans [OF q(1) q'(1)] q q' e pods by simp
qed

section \<open>Exactness\<close>

text \<open>\<open>deletes_only P w0 w\<close>: every DELETE sent since \<open>w0\<close> satisfies \<open>P\<close>.\<close>

definition deletes_only :: "(native_request \<Rightarrow> bool) \<Rightarrow> 'w native_world \<Rightarrow> 'w native_world \<Rightarrow> bool" where
  "deletes_only P w0 w = (\<exists>es. nw_trace w = nw_trace w0 @ es \<and> (\<forall>q. Sent q \<in> set es \<longrightarrow> is_delete q \<longrightarrow> P q))"

lemma deletes_only_refl: "deletes_only P w w" by (simp add: deletes_only_def)

lemma native_send_only:
  assumes "deletes_only P w0 w" "is_delete q \<Longrightarrow> P q" "\<And>x w'. deletes_only P w0 w' \<Longrightarrow> nw_task w' = nw_task w \<Longrightarrow> Q x w'" "\<And>w'. deletes_only P w0 w' \<Longrightarrow> E w'"
  shows "io_wp (native_send na q) Q E w"
proof -
  obtain r s where s: "na_send na q (nw_server w) = (r, s)" by fastforce
  have "deletes_only P w0 (w\<lparr> nw_trace := nw_trace w @ [Sent q], nw_server := s \<rparr>)" using assms(1,2) by (auto simp: deletes_only_def)
  then show ?thesis using assms(3,4) s by (simp add: io_wp_def native_send_def split: sum.split)
qed

lemma get_not_delete [simp]: "\<not> is_delete (native_get kind p)" by (simp add: is_delete_def native_get_def)

lemma native_save_only:
  assumes "deletes_only P w0 w" "\<And>w'. deletes_only P w0 w' \<Longrightarrow> Q w'" "\<And>w'. deletes_only P w0 w' \<Longrightarrow> E w'"
  shows "io_wp (native_save na st) (\<lambda>_. Q) E w"
  using assms by (auto simp: io_wp_def native_save_def Let_def deletes_only_def)

lemma native_list_only:
  assumes "deletes_only P w0 w" "\<And>x w'. deletes_only P w0 w' \<Longrightarrow> Q x w'" "\<And>w'. deletes_only P w0 w' \<Longrightarrow> E w'"
  shows "io_wp (native_list na kind version selector) Q E w"
  unfolding native_list_def
  by (auto simp: wp_rules assms split: sum.splits intro!: native_send_only [OF assms(1)])

lemma native_snapshot_only:
  assumes "deletes_only P w0 w" "\<And>x w'. deletes_only P w0 w' \<Longrightarrow> Q x w'" "\<And>w'. deletes_only P w0 w' \<Longrightarrow> E w'"
  shows "io_wp (native_snapshot na rs) Q E w"
  using assms(1,2)
proof (induction rs arbitrary: w Q)
  case Nil
  then show ?case by (simp add: wp_rules)
next
  case (Cons r rs)
  show ?case
    unfolding native_snapshot.simps read_resource_def
    by (auto simp: wp_rules Cons.prems assms(3) split: sum.splits intro!: native_send_only [OF Cons.prems(1)] Cons.IH)
qed

definition exact_delete :: "'w native_env \<Rightarrow> resource \<Rightarrow> json \<Rightarrow> native_request \<Rightarrow> bool" where
  "exact_delete na r v q =
     (nq_kind q = rs_kind r \<and> nq_body q = Some (delete_body (rs_uid r) (text_of (jget (jget v ''metadata'') ''resourceVersion''))) \<and>
      native_path (na_namespace na) (na_namespace na) (rs_kind r) (rs_version r) (Some (rs_name r)) = Inr (nq_path q))"

lemma delete_exact_only:
  assumes "deletes_only P w0 w" "\<And>q. exact_delete na r v q \<Longrightarrow> P q" "resource = text_of (jget (jget v ''metadata'') ''resourceVersion'')"
    and "\<And>x w'. deletes_only P w0 w' \<Longrightarrow> Q x w'" "\<And>w'. deletes_only P w0 w' \<Longrightarrow> E w'"
  shows "io_wp (delete_exact na (rs_kind r) (rs_version r) (rs_name r) (rs_uid r) resource) Q E w"
  unfolding delete_exact_def
  by (auto simp: wp_rules assms split: sum.splits intro!: native_send_only [OF assms(1)] assms(2) simp: exact_delete_def)

lemma retire_present_only:
  assumes "deletes_only P w0 w" "\<And>q. exact_delete na r v q \<Longrightarrow> P q" "resource = text_of (jget (jget v ''metadata'') ''resourceVersion'')"
  shows "io_wp (retire_present na operation r resource st) (\<lambda>_. deletes_only P w0) (deletes_only P w0) w"
  unfolding retire_present_def
  by (auto simp: wp_rules native_task_wp assms(1) intro!: native_save_only delete_exact_only [OF _ assms(2,3)])

lemma retire_each_only:
  assumes "deletes_only P w0 w" "\<And>r v q. (r, Some v) \<in> set rvs \<Longrightarrow> exact_delete na r v q \<Longrightarrow> P q"
  shows "io_wp (retire_each na assigned operation rvs) (\<lambda>_. deletes_only P w0) (deletes_only P w0) w"
  using assms
proof (induction na assigned operation rvs arbitrary: w rule: retire_each.induct)
  case (3 na assigned operation r v rest)
  have P: "P q" if "exact_delete na r v q" for q using "3.prems"(2) that by auto
  have rest: "P q" if "(r', Some v') \<in> set rest" "exact_delete na r' v' q" for r' v' q using "3.prems"(2) that by auto
  show ?case
    unfolding retire_each.simps io_wp_bind native_task_wp
    by (rule still_bound_wp)
       (auto intro!: io_wp_mono [OF retire_present_only [OF "3.prems"(1) P refl]] intro: "3.IH" rest "3.prems"(1))
qed (auto simp: wp_rules)

lemma verify_absent_only:
  assumes "deletes_only P w0 w"
  shows "io_wp (verify_resources_absent na assigned operation) (\<lambda>_. deletes_only P w0) (deletes_only P w0) w"
  unfolding verify_resources_absent_def lists_empty_def list_pods_def list_sandboxes_def io_wp_bind
  by (rule still_bound_wp)
     (auto simp: wp_rules assms split: sum.splits intro!: native_snapshot_only native_list_only)

text \<open>What a DELETE of one call of \<open>retire_exact\<close> was based on: the reservation, and a snapshot of all three resources
  taken before, in which this one is present under its recorded identity.\<close>

definition grounded :: "'w native_env \<Rightarrow> json \<Rightarrow> string \<Rightarrow> 'w native_world \<Rightarrow> native_request \<Rightarrow> bool" where
  "grounded na assigned operation w q =
     (\<exists>identity rs vs w1 r v. bound na assigned operation (nw_task w) = Inr identity \<and> resources identity = Inr rs \<and>
        native_snapshot na rs w = (Inr vs, w1) \<and> (r, Some v) \<in> set (zip rs vs) \<and> same_resource (na_namespace na) r v \<and>
        exact_delete na r v q)"

lemma zip_related: "list_all2 P xs ys \<Longrightarrow> (x, y) \<in> set (zip xs ys) \<Longrightarrow> P x y"
  by (auto simp: list_all2_iff)

lemma retire_exact_only: "io_wp (retire_exact na assigned operation) (\<lambda>_. deletes_only (grounded na assigned operation w) w) (deletes_only (grounded na assigned operation w) w) w"
  (is "io_wp _ (\<lambda>_. ?D) ?D w")
  unfolding retire_exact_def io_wp_bind
proof (rule still_bound_wp)
  show "?D w" by (rule deletes_only_refl)
  fix identity assume b: "bound na assigned operation (nw_task w) = Inr identity"
  show "io_wp (io_lift (resources identity)) (\<lambda>rs. io_wp (native_snapshot na rs)
      (\<lambda>vs. io_wp (retire_each na assigned operation (zip rs vs)) (\<lambda>_. io_wp (verify_resources_absent na assigned operation) (\<lambda>_. ?D) ?D) ?D) ?D) ?D w"
  proof (cases "resources identity")
    case (Inl e)
    then show ?thesis using deletes_only_refl by (simp add: wp_rules)
  next
    case (Inr rs)
    obtain r w1 where s: "native_snapshot na rs w = (r, w1)" by fastforce
    have d: "?D w1"
      using native_snapshot_only [of "grounded na assigned operation w" w w "\<lambda>_. ?D" ?D na rs]
        deletes_only_refl [of "grounded na assigned operation w" w] s
      by (simp add: io_wp_def split: sum.splits)
    show ?thesis
    proof (cases r)
      case (Inl e)
      then show ?thesis using Inr s d by (simp add: io_wp_def)
    next
      case vs: (Inr vs)
      have each: "grounded na assigned operation w q" if "(r, Some v) \<in> set (zip rs vs)" "exact_delete na r v q" for r v q
      proof -
        obtain es where "list_all2 (\<lambda>r v. case v of None \<Rightarrow> True | Some x \<Rightarrow> same_resource (na_namespace na) r x) rs vs"
          using native_snapshot_asked [OF s [unfolded vs]] by blast
        from zip_related [OF this that(1)] have "same_resource (na_namespace na) r v" by simp
        then show ?thesis using b Inr s vs that unfolding grounded_def by blast
      qed
      have "io_wp (retire_each na assigned operation (zip rs vs)) (\<lambda>_. io_wp (verify_resources_absent na assigned operation) (\<lambda>_. ?D) ?D) ?D w1"
        by (rule io_wp_mono [OF retire_each_only [OF d each]]) (auto intro: verify_absent_only)
      then show ?thesis using Inr s vs by (simp add: io_wp_def)
    qed
  qed
qed

section \<open>Properties\<close>


text \<open>Once the uids of a worker's resources are in the journal they never change: a replaced resource is refused, not
  adopted.\<close>

theorem native_identity_is_final:
  assumes "(native_step na)\<^sup>*\<^sup>* w w'" "nw_trace w = []"
    and "map (jget (jget (t_openshell (nw_task w)) ''nativeResources'')) UID_FIELDS = map JStr us"
  shows "map (jget (jget (t_openshell (nw_task w')) ''nativeResources'')) UID_FIELDS = map JStr us"
proof -
  have "recorded (Some us) w" using assms(2,3) by (simp add: recorded_def has_uids_def)
  from native_records.reachable [OF assms(1) this] show ?thesis by (simp add: recorded_def has_uids_def)
qed

text \<open>A retirement deletes only what it was reserved for: every DELETE it sends carries the uid of a resource of the
  journal's identity and the resource version of a snapshot in which all three resources were absent or unreplaced.\<close>

theorem native_deletes_are_exact:
  assumes "retire_exact na assigned operation w = (r, w')"
  shows "\<exists>es. nw_trace w' = nw_trace w @ es \<and> (\<forall>q. Sent q \<in> set es \<longrightarrow> is_delete q \<longrightarrow> grounded na assigned operation w q)"
  using retire_exact_only [of na assigned operation w] assms
  by (auto simp: io_wp_def deletes_only_def split: sum.splits)


section \<open>Examples\<close>

definition scope_example :: json where
  "scope_example = JObj [(''subject'', JStr ''alice''), (''generation'', JStr ''g1''), (''taskId'', JStr ''t1''), (''project'', JStr ''demo''),
     (''bindingId'', JStr ''b1''), (''workerUID'', JStr ''W1'')]"

definition operation_example :: string where "operation_example = replicate 32 CHR ''a''"

definition assigned_example :: json where "assigned_example = JObj (obj_items scope_example @ [(''podUID'', JStr ''pod-uid'')])"

definition image_example :: string where "image_example = ''registry/worker@sha256:'' @ replicate 64 CHR ''b''"

definition native_object :: "string \<Rightarrow> string \<Rightarrow> string \<Rightarrow> string \<Rightarrow> (string \<times> json) list \<Rightarrow> (string \<times> json) list \<Rightarrow> json" where
  "native_object kind version name uid meta rest =
     JObj ([(''kind'', JStr kind), (''apiVersion'', JStr version),
       (''metadata'', JObj ([(''namespace'', JStr ''dsh-openshell''), (''name'', JStr name), (''uid'', JStr uid), (''resourceVersion'', JStr ''7'')] @ meta))] @ rest)"

definition owner_example :: "bool \<Rightarrow> string \<times> json" where
  "owner_example controller = (''ownerReferences'', JList [JObj [(''kind'', JStr ''Sandbox''), (''apiVersion'', JStr ''agents.x-k8s.io/v1beta1''),
     (''name'', JStr ''sandbox''), (''uid'', JStr ''sandbox-uid''), (''controller'', JBool controller)]])"

definition pair_labels :: "string \<Rightarrow> string \<times> json" where
  "pair_labels role = (''labels'', JObj [(ROLE, JStr role), (PAIR, JStr ''w1''), (NATIVE_ID, JStr ''W1''), (GATEWAY, JStr ''gw'')])"

definition pod_spec :: "string \<Rightarrow> (string \<times> json) list" where
  "pod_spec name = [(''spec'', JObj [(''automountServiceAccountToken'', JBool False),
     (''containers'', JList [JObj [(''name'', JStr name), (''image'', JStr image_example)]])])]"

definition sandbox_example :: json where
  "sandbox_example = native_object ''Sandbox'' ''agents.x-k8s.io/v1beta1'' ''sandbox'' ''sandbox-uid''
     [(''labels'', JObj [(NATIVE_ID, JStr ''W1''), (GATEWAY, JStr ''gw''), (WORKSPACE, JStr ''ws''), (''openshell.ai/managed-by'', JStr ''openshell'')])] []"

definition workload_example :: json where
  "workload_example = native_object ''Pod'' ''v1'' ''worker'' ''pod-uid''
     [pair_labels ''workload'', (''annotations'', JObj [(NATIVE_ID, JStr ''W1''), (SCOPE_ANNOTATION, JStr ''digest'')]), owner_example True] (pod_spec ''agent'')"

definition supervisor_example :: json where
  "supervisor_example = native_object ''Pod'' ''v1'' ''os-supervisor-w1'' ''supervisor-uid''
     [pair_labels ''supervisor'', (''annotations'', JObj [(NATIVE_ID, JStr ''W1'')]), owner_example False] (pod_spec ''supervisor'')"

definition list_example :: "json list \<Rightarrow> json" where
  "list_example xs = JObj [(''items'', JList xs), (''metadata'', JObj [(''resourceVersion'', JStr ''9'')])]"

text \<open>A server that counts the changes: the sandbox and its supervisor disappear first, the worker with the next DELETE.\<close>

definition example_api :: "native_request \<Rightarrow> nat \<Rightarrow> (int \<times> json) res \<times> nat" where
  "example_api q n =
     (let one = (\<lambda>k v. if n < k then (200, v) else (404, JNull)); all = (\<lambda>k v. if n < k then [v] else []) in
      if nq_verb q = ''DELETE'' then (Inr (202, JNull), Suc n)
      else if endswith ''/sandbox'' (nq_path q) then (Inr (one 1 sandbox_example), n)
      else if endswith ''/worker'' (nq_path q) then (Inr (one 2 workload_example), n)
      else if endswith ''/os-supervisor-w1'' (nq_path q) then (Inr (one 1 supervisor_example), n)
      else if nq_kind q = ''Sandbox'' then (Inr (200, list_example (all 1 sandbox_example)), n)
      else (Inr (200, list_example (all 2 workload_example @ all 1 supervisor_example)), n))"

definition env_example :: "nat native_env" where
  "env_example = \<lparr> na_send = example_api, na_disk = (\<lambda>_. True), na_digest = (\<lambda>_. ''digest''), na_namespace = ''dsh-openshell'',
     na_gateway = ''gw'', na_workspace = ''ws'', na_worker_image = image_example, na_supervisor_image = image_example,
     na_version = ''agents.x-k8s.io/v1beta1'' \<rparr>"

definition world_example :: "nat native_world" where
  "world_example = \<lparr> nw_task = ex_shell_task\<lparr> t_id := ''t1'', t_openshell := JObj (obj_items assigned_example @
       [(''fenced'', JBool True), (''revoked'', JBool True), (''phase'', JStr ''stop-reserved''), (''stopOperationId'', JStr operation_example)]) \<rparr>,
     nw_trace = [], nw_server = 0 \<rparr>"

lemma example_observed: "fst (observe_exact env_example scope_example world_example) = Inr assigned_example"
  by code_simp

text \<open>The world after that observation.\<close>

definition observed_example :: "nat native_world" where
  "observed_example = world_example\<lparr> nw_task := (nw_task world_example)\<lparr> t_openshell :=
     jset ''nativeResources'' (JObj (obj_items scope_example @ [(''namespace'', JStr ''dsh-openshell''), (''sandboxName'', JStr ''sandbox''),
       (''sandboxUID'', JStr ''sandbox-uid''), (''sandboxAPIVersion'', JStr ''agents.x-k8s.io/v1beta1''), (''podName'', JStr ''worker''),
       (''podUID'', JStr ''pod-uid''), (''supervisorPodName'', JStr ''os-supervisor-w1''), (''supervisorPodUID'', JStr ''supervisor-uid''),
       (''scopeSHA256'', JStr ''digest'')])) (t_openshell (nw_task world_example)) \<rparr> \<rparr>"

definition retired_world :: "nat native_world" where "retired_world = observed_example\<lparr> nw_server := 1 \<rparr>"

definition worker_resource :: resource where
  "worker_resource = \<lparr> rs_kind = ''Pod'', rs_version = ''v1'', rs_name = ''worker'', rs_uid = ''pod-uid'' \<rparr>"

text \<open>The worker that is left is deleted once; a second attempt is refused.\<close>

lemma example_deleted:
  "case retire_each env_example assigned_example operation_example [(worker_resource, Some workload_example)] retired_world of (r, w') \<Rightarrow>
     r = Inr () \<and> delete_keys (nw_trace w') = [''Pod/pod-uid'']"
  by code_simp

definition retired_step :: "json res \<times> nat native_world" where
  "retired_step = retire_exact env_example assigned_example operation_example retired_world"

lemma retired_once: "(native_step env_example)\<^sup>*\<^sup>* retired_world (snd retired_step)" "nw_trace retired_world = []"
  by (auto simp: retired_step_def retired_world_def observed_example_def world_example_def intro: native_step.retire)

lemma retired_uids:
  "map (jget (jget (t_openshell (nw_task retired_world)) ''nativeResources'')) UID_FIELDS = map JStr [''sandbox-uid'', ''pod-uid'', ''supervisor-uid'']"
  by code_simp

definition absent_step :: "json res \<times> nat native_world" where
  "absent_step = verify_resources_absent env_example assigned_example operation_example (observed_example\<lparr> nw_server := 2 \<rparr>)"

lemma example_absent: "fst absent_step = Inr (absence_receipt assigned_example operation_example)"
  by code_simp


theorem native_identity_is_final_witness:
  "map (jget (jget (t_openshell (nw_task (snd retired_step))) ''nativeResources'')) UID_FIELDS = map JStr [''sandbox-uid'', ''pod-uid'', ''supervisor-uid'']"
  by (rule native_identity_is_final [OF retired_once retired_uids])

theorem native_deletes_are_exact_witness:
  "\<exists>es. nw_trace (snd retired_step) = nw_trace retired_world @ es"
  using native_deletes_are_exact [of env_example assigned_example operation_example retired_world "fst retired_step" "snd retired_step"]
  by (auto simp: retired_step_def)



end
