(* ===== verification/Sdk_Admission.thy ===== *)
theory Sdk_Admission imports Prelude begin

text \<open>
  The content admission of the SDK package, \<open>scripts/official_sdk_package_admission.py\<close>: protected
  reads, the comparison of an approved wheel with the installed files, and the import hook of the
  isolated child.  SHA-256, the base 64 record digest, the JSON and CSV readers and the ZIP directory
  are parameters; paths are lists of components below the root.
\<close>

section \<open>Protected reads\<close>

type_synonym path = "string list"

record file_info =
  fi_link :: bool
  fi_owner :: int
  fi_others_write :: bool
  fi_regular :: bool

text \<open>\<open>lstat\<close> of a path, and what opening it without following a link gives: the information of the
  open file and its content.\<close>

record file_system =
  fs_lstat :: "path \<Rightarrow> file_info res"
  fs_open :: "path \<Rightarrow> (file_info \<times> string) res"

text \<open>\<open>(path, *path.parents)\<close>\<close>

definition ancestors :: "path \<Rightarrow> path list" where
  "ancestors p = map (\<lambda>n. take n p) (rev [0..<Suc (length p)])"

definition unprotected :: "file_info \<Rightarrow> bool" where
  "unprotected i = (fi_link i \<or> fi_owner i \<noteq> 0 \<or> fi_others_write i)"

fun components_protected :: "file_system \<Rightarrow> path list \<Rightarrow> unit res" where
  "components_protected fs [] = Inr ()"
| "components_protected fs (p # ps) =
     res_bind (fs_lstat fs p) (\<lambda>i.
     if unprotected i then Inl (ValueError ''UNPROTECTED_SDK_ADMISSION_CONTENT'') else components_protected fs ps)"

definition protected_bytes :: "file_system \<Rightarrow> path \<Rightarrow> int \<Rightarrow> string res" where
  "protected_bytes fs p limit =
     res_bind (components_protected fs (ancestors p)) (\<lambda>_.
     res_bind (fs_open fs p) (\<lambda>(i, content).
     if \<not> fi_regular i then Inl (ValueError ''SDK_REGULAR_FILE_REQUIRED'')
     else if int (length content) > limit then Inl (ValueError ''SDK_ADMISSION_CONTENT_TOO_LARGE'')
     else Inr content))"

type_synonym reader = "path \<Rightarrow> int \<Rightarrow> string res"

definition unique_json :: "(string \<Rightarrow> json res) \<Rightarrow> string \<Rightarrow> json res" where
  "unique_json loads raw =
     res_bind (loads raw) (\<lambda>v. if unique_keys v then Inr v else Inl (ValueError ''DUPLICATE_SDK_ADMISSION_FIELD''))"

section \<open>The package\<close>

record archive_entry =
  ae_name :: string
  ae_size :: int
  ae_dir :: bool
  ae_link :: bool
  ae_content :: "string res"

record installed_file =
  if_path :: string
  if_link :: bool
  if_file :: bool

record admission_env =
  ad_sha :: "string \<Rightarrow> string"
  ad_record :: "string \<Rightarrow> string"
  ad_loads :: "string \<Rightarrow> json res"
  ad_csv :: "string \<Rightarrow> string list list res"
  ad_zip :: "string \<Rightarrow> archive_entry list res"
  ad_files :: "installed_file list"

definition ADMISSION_VERSION :: string where "ADMISSION_VERSION = ''0.2.2a2''"

definition SOURCE_COMMIT :: string where
  "SOURCE_COMMIT = ''ce7073d51254c26cd63b22a60835b8f948deb447''"

definition ADMISSION_PATH :: path where
  "ADMISSION_PATH = [''etc'', ''dsh-native-admission'', ''official-sdk-package.json'']"

definition INSTALLED :: path where
  "INSTALLED = [''opt'', ''dsh'', ''deepagents'', ''lib'', ''python3.14'', ''site-packages'']"

definition WHEEL :: path where
  "WHEEL = [''packages'', ''approved'', ''python'', ''deepseek_harness_sdk-0.2.2a2-py3-none-any.whl'']"

definition dist_info :: string where "dist_info = ''deepseek_harness_sdk-'' @ ADMISSION_VERSION @ ''.dist-info''"

definition manifest_keys :: "string list" where
  "manifest_keys = [''kind'', ''sourceCommit'', ''sdkVersion'', ''runtimeVersion'', ''sdkWheelSha256'', ''installedRecordSha256'']"

text \<open>A SHA-256 in hexadecimal that is not the all-zero placeholder.\<close>

definition exact_hash :: "json \<Rightarrow> bool" where
  "exact_hash v = (case v of JStr s \<Rightarrow> hex_id 64 s \<and> s \<noteq> replicate 64 CHR ''0'' | _ \<Rightarrow> False)"

definition manifest_valid :: "json \<Rightarrow> bool" where
  "manifest_valid m =
     (exact_keys manifest_keys m \<and> jget m ''kind'' = JStr ''DSH_OFFICIAL_SDK_PACKAGE_V1'' \<and>
      jget m ''sourceCommit'' = JStr SOURCE_COMMIT \<and> jget m ''sdkVersion'' = JStr ADMISSION_VERSION \<and>
      jget m ''runtimeVersion'' = JStr ADMISSION_VERSION \<and>
      exact_hash (jget m ''sdkWheelSha256'') \<and> exact_hash (jget m ''installedRecordSha256''))"

fun read_records :: "string list list \<Rightarrow> (string \<times> string \<times> string) list \<Rightarrow> (string \<times> string \<times> string) list res" where
  "read_records [] acc = Inr acc"
| "read_records (row # rows) acc =
     (case row of
        [name, digest, len] \<Rightarrow>
          if map_of acc name \<noteq> None then Inl (ValueError ''INVALID_SDK_INSTALLED_RECORD'')
          else read_records rows ((name, digest, len) # acc)
      | _ \<Rightarrow> Inl (ValueError ''INVALID_SDK_INSTALLED_RECORD''))"

definition path_parts :: "string \<Rightarrow> string list" where
  "path_parts s = filter (\<lambda>p. p \<noteq> [] \<and> p \<noteq> ''.'') (split_char CHR ''/'' s)"

definition backslash :: char where "backslash = CHR 0x5C"

definition unsafe_member :: "archive_entry \<Rightarrow> bool" where
  "unsafe_member e = (startswith ''/'' (ae_name e) \<or> ''..'' \<in> set (path_parts (ae_name e)) \<or>
     backslash \<in> set (ae_name e) \<or> ae_link e)"

definition admitted_member :: "archive_entry \<Rightarrow> bool" where
  "admitted_member e = (startswith ''deepseek_harness/'' (ae_name e) \<or>
     ae_name e \<in> {dist_info @ ''/METADATA'', dist_info @ ''/WHEEL''})"

text \<open>One member of the wheel: refused, skipped, or compared with the record and the installed file.\<close>

definition admit_member :: "admission_env \<Rightarrow> reader \<Rightarrow> (string \<times> string \<times> string) list \<Rightarrow> archive_entry \<Rightarrow>
    (string \<times> string) list \<Rightarrow> (string \<times> string) list res" where
  "admit_member ad reader records e payloads =
     (if unsafe_member e then Inl (ValueError ''SDK_WHEEL_PATH_REFUSED'')
      else if ae_dir e \<or> \<not> admitted_member e then Inr payloads
      else
        res_bind (ae_content e) (\<lambda>content.
        if map_of records (ae_name e) \<noteq> Some (ad_record ad content, decimal (length content))
        then Inl (ValueError ''SDK_INSTALLED_CONTENT_MISMATCH'')
        else
          res_bind (reader (INSTALLED @ path_parts (ae_name e)) (4 * 1024 * 1024)) (\<lambda>installed.
          if installed \<noteq> content then Inl (ValueError ''SDK_INSTALLED_CONTENT_MISMATCH'')
          else Inr ((ae_name e, ad_sha ad content) # payloads))))"

definition pyc_file :: "string \<Rightarrow> bool" where
  "pyc_file s = (let name = last (split_char CHR ''/'' s) in endswith ''.pyc'' name \<and> length name > 4)"

fun check_installed :: "(string \<times> string) list \<Rightarrow> installed_file list \<Rightarrow> unit res" where
  "check_installed payloads [] = Inr ()"
| "check_installed payloads (f # fs) =
     (if if_link f then Inl (ValueError ''SDK_PACKAGE_SYMLINK_REFUSED'')
      else if if_file f \<and> \<not> pyc_file (if_path f) \<and> map_of payloads (if_path f) = None
      then Inl (ValueError ''UNADMITTED_SDK_PACKAGE_FILE'')
      else check_installed payloads fs)"

definition verify_payloads :: "admission_env \<Rightarrow> reader \<Rightarrow> string \<Rightarrow> string \<Rightarrow> (string \<times> string) list res" where
  "verify_payloads ad reader wheel_raw record_raw =
     res_bind (ad_csv ad record_raw) (\<lambda>rows.
     res_bind (read_records rows []) (\<lambda>records.
     res_bind (ad_zip ad wheel_raw) (\<lambda>entries.
     if \<not> distinct (map ae_name entries) \<or> sum_list (map ae_size entries) > 16 * 1024 * 1024
     then Inl (ValueError ''INVALID_SDK_WHEEL_ENTRIES'')
     else
       res_bind (res_fold (admit_member ad reader records) entries []) (\<lambda>payloads.
       res_bind (require (map_of payloads ''deepseek_harness/__init__.py'' \<noteq> None) (ValueError ''SDK_PACKAGE_ENTRY_REQUIRED'')) (\<lambda>_.
       res_bind (check_installed payloads (ad_files ad)) (\<lambda>_. Inr payloads))))))"

record package_admission =
  pa_sha :: string
  pa_wheel :: string
  pa_payloads :: "(string \<times> string) list"

definition verify_sdk_admission :: "admission_env \<Rightarrow> reader \<Rightarrow> package_admission res" where
  "verify_sdk_admission ad reader =
     res_bind (reader ADMISSION_PATH 16384) (\<lambda>raw.
     res_bind (unique_json (ad_loads ad) raw) (\<lambda>m.
     res_bind (require (manifest_valid m) (ValueError ''INVALID_SDK_PACKAGE_ADMISSION'')) (\<lambda>_.
     res_bind (reader WHEEL (8 * 1024 * 1024)) (\<lambda>wheel_raw.
     res_bind (require (JStr (ad_sha ad wheel_raw) = jget m ''sdkWheelSha256'') (ValueError ''SDK_WHEEL_ADMISSION_HASH_MISMATCH'')) (\<lambda>_.
     res_bind (reader (INSTALLED @ [dist_info, ''RECORD'']) (1024 * 1024)) (\<lambda>record_raw.
     res_bind (require (JStr (ad_sha ad record_raw) = jget m ''installedRecordSha256'') (ValueError ''SDK_INSTALLED_RECORD_HASH_MISMATCH'')) (\<lambda>_.
     res_bind (verify_payloads ad reader wheel_raw record_raw) (\<lambda>payloads.
     Inr \<lparr> pa_sha = ad_sha ad raw, pa_wheel = ad_sha ad wheel_raw, pa_payloads = payloads \<rparr>))))))))"

section \<open>The import hook of the child\<close>

text \<open>\<open>Finder.find_spec\<close>: \<open>Inr None\<close> leaves the name to the other finders.\<close>

definition module_path :: "string \<Rightarrow> string" where
  "module_path name = map (\<lambda>c. if c = CHR ''.'' then CHR ''/'' else c) name"

definition find_spec :: "(string \<times> string) list \<Rightarrow> string \<Rightarrow> string option res" where
  "find_spec payloads name =
     (if name \<noteq> ''deepseek_harness'' \<and> \<not> startswith ''deepseek_harness.'' name then Inr None
      else if map_of payloads (module_path name @ ''/__init__.py'') \<noteq> None then Inr (Some (module_path name @ ''/__init__.py''))
      else if map_of payloads (module_path name @ ''.py'') \<noteq> None then Inr (Some (module_path name @ ''.py''))
      else Inl (ImportError ''SDK_MODULE_NOT_ADMITTED''))"

text \<open>\<open>Loader.exec_module\<close>: the source that is compiled and run.\<close>

definition exec_module :: "admission_env \<Rightarrow> reader \<Rightarrow> (string \<times> string) list \<Rightarrow> string \<Rightarrow> string res" where
  "exec_module ad reader payloads p =
     res_bind (reader (INSTALLED @ path_parts p) (4 * 1024 * 1024)) (\<lambda>raw.
     case map_of payloads p of
       None \<Rightarrow> Inl (KeyError p)
     | Some digest \<Rightarrow> if ad_sha ad raw \<noteq> digest then Inl (ValueError ''SDK_SOURCE_CHANGED_BEFORE_IMPORT'') else Inr raw)"

definition import_admitted :: "admission_env \<Rightarrow> reader \<Rightarrow> package_admission \<Rightarrow> string \<Rightarrow> string option res" where
  "import_admitted ad reader pa name =
     res_bind (find_spec (pa_payloads pa) name) (\<lambda>spec.
     case spec of None \<Rightarrow> Inr None
     | Some p \<Rightarrow> res_bind (exec_module ad reader (pa_payloads pa) p) (\<lambda>raw. Inr (Some raw)))"

section \<open>Lemmas\<close>

text \<open>What a payload stands for: a member of the wheel whose content the installation holds.\<close>

definition payload_of :: "admission_env \<Rightarrow> reader \<Rightarrow> archive_entry list \<Rightarrow> string \<Rightarrow> string \<Rightarrow> bool" where
  "payload_of ad reader entries name digest =
     (\<exists>e content. e \<in> set entries \<and> ae_name e = name \<and> \<not> unsafe_member e \<and> ae_content e = Inr content \<and>
        reader (INSTALLED @ path_parts name) (4 * 1024 * 1024) = Inr content \<and> digest = ad_sha ad content)"

lemma admit_member_payload:
  assumes "admit_member ad reader records e payloads = Inr payloads'" "(name, digest) \<in> set payloads'"
    and "e \<in> set entries"
  shows "(name, digest) \<in> set payloads \<or> payload_of ad reader entries name digest"
  using assms by (auto simp: admit_member_def payload_of_def res_bind_Inr_iff split: if_splits)

lemma admitted_payloads:
  assumes "res_fold (admit_member ad reader records) entries [] = Inr payloads" "(name, digest) \<in> set payloads"
  shows "payload_of ad reader entries name digest"
proof -
  have "\<forall>(n, d) \<in> set payloads. payload_of ad reader entries n d"
    by (rule res_fold_invariant [OF assms(1)]) (auto dest: admit_member_payload)
  with assms(2) show ?thesis by auto
qed

lemma installed_checked:
  "check_installed payloads fs = Inr u \<Longrightarrow>
   list_all (\<lambda>f. \<not> if_link f \<and> (if_file f \<longrightarrow> pyc_file (if_path f) \<or> map_of payloads (if_path f) \<noteq> None)) fs"
  by (induction fs) (auto split: if_splits)

lemma verified_payloads:
  assumes "verify_payloads ad reader wheel_raw record_raw = Inr payloads"
  obtains entries where "ad_zip ad wheel_raw = Inr entries"
    "\<And>name digest. (name, digest) \<in> set payloads \<Longrightarrow> payload_of ad reader entries name digest"
    "check_installed payloads (ad_files ad) = Inr ()"
  using assms by (auto simp: verify_payloads_def res_bind_Inr_iff split: if_splits dest: admitted_payloads)

lemma verified_admission:
  assumes "verify_sdk_admission ad reader = Inr pa"
  obtains raw m wheel_raw record_raw where "reader ADMISSION_PATH 16384 = Inr raw" "pa_sha pa = ad_sha ad raw"
    "unique_json (ad_loads ad) raw = Inr m" "manifest_valid m"
    "reader WHEEL (8 * 1024 * 1024) = Inr wheel_raw" "jget m ''sdkWheelSha256'' = JStr (ad_sha ad wheel_raw)"
    "verify_payloads ad reader wheel_raw record_raw = Inr (pa_payloads pa)"
  using assms by (auto simp: verify_sdk_admission_def res_bind_Inr_iff)

lemma imported_payload:
  assumes "import_admitted ad reader pa name = Inr (Some raw)"
  obtains p digest where "(p, digest) \<in> set (pa_payloads pa)" "ad_sha ad raw = digest"
  using assms
  by (auto simp: import_admitted_def exec_module_def res_bind_Inr_iff split: option.splits if_splits dest: map_of_SomeD)

lemma ancestors_prefixes: "n \<le> length p \<Longrightarrow> take n p \<in> set (ancestors p)"
  by (auto simp: ancestors_def)

lemma components_checked:
  "components_protected fs ps = Inr u \<Longrightarrow> p \<in> set ps \<Longrightarrow> \<exists>i. fs_lstat fs p = Inr i \<and> \<not> unprotected i"
  by (induction ps) (auto simp: res_bind_Inr_iff split: if_splits)

section \<open>Properties\<close>


text \<open>Content is read only when neither the file nor any directory above it is a link, owned by another
  user or writable by others.\<close>

lemma protected_read:
  assumes "protected_bytes fs p limit = Inr content" "n \<le> length p"
  shows "\<exists>i. fs_lstat fs (take n p) = Inr i \<and> \<not> fi_link i \<and> fi_owner i = 0 \<and> \<not> fi_others_write i"
proof -
  from assms(1) obtain u where "components_protected fs (ancestors p) = Inr u"
    by (auto simp: protected_bytes_def res_bind_Inr_iff)
  from components_checked [OF this ancestors_prefixes [OF assms(2)]] show ?thesis by (auto simp: unprotected_def)
qed

definition example_wheel_files :: "archive_entry list" where
  "example_wheel_files = [\<lparr> ae_name = ''deepseek_harness/__init__.py'', ae_size = 1, ae_dir = False, ae_link = False, ae_content = Inr ''c'' \<rparr>]"

definition example_manifest :: json where
  "example_manifest = JObj [(''kind'', JStr ''DSH_OFFICIAL_SDK_PACKAGE_V1''), (''sourceCommit'', JStr SOURCE_COMMIT),
     (''sdkVersion'', JStr ADMISSION_VERSION), (''runtimeVersion'', JStr ADMISSION_VERSION),
     (''sdkWheelSha256'', JStr (replicate 64 CHR ''a'')), (''installedRecordSha256'', JStr (replicate 64 CHR ''a''))]"

definition example_admission_env :: admission_env where
  "example_admission_env = \<lparr> ad_sha = (\<lambda>_. replicate 64 CHR ''a''), ad_record = (\<lambda>c. c), ad_loads = (\<lambda>_. Inr example_manifest),
     ad_csv = (\<lambda>_. Inr [[''deepseek_harness/__init__.py'', ''c'', ''1'']]), ad_zip = (\<lambda>_. Inr example_wheel_files),
     ad_files = [\<lparr> if_path = ''deepseek_harness/__init__.py'', if_link = False, if_file = True \<rparr>] \<rparr>"

definition example_reader :: reader where "example_reader p limit = Inr ''c''"

definition example_package :: package_admission where
  "example_package = \<lparr> pa_sha = replicate 64 CHR ''a'', pa_wheel = replicate 64 CHR ''a'',
     pa_payloads = [(''deepseek_harness/__init__.py'', replicate 64 CHR ''a'')] \<rparr>"

lemma example_admission:
  "verify_sdk_admission example_admission_env example_reader = Inr example_package"
  "import_admitted example_admission_env example_reader example_package ''deepseek_harness'' = Inr (Some ''c'')"
  by code_simp+


end
