(* ===== verification/Native_Worker.thy ===== *)
theory Native_Worker imports Task_Broker Sdk_Admission begin

text \<open>
  The program inside a native worker: validation of an execution envelope against the protected assignment, the
  at-most-once reservation and the fenced run of one guarded command (\<open>scripts/openshell_worker_execution.py\<close>), and
  the entry point that reads the assignment (\<open>scripts/openshell_worker_entry.py\<close>).  The files, the clock, the process
  and the cancel flag are parameters; reservations, the launch and the signals form a trace.  The command is
  \<open>command_for\<close> of \<open>Task_Runner\<close>.
\<close>

section \<open>The envelope\<close>

definition IDENTITY :: "string list" where
  "IDENTITY = [''subject'', ''generation'', ''taskId'', ''project'', ''bindingId'', ''workerUID'', ''podUID'']"

definition envelope_keys :: "string list" where
  "envelope_keys = IDENTITY @ [''operationId'', ''expiresAt'', ''runtime'', ''prompt'', ''writes'', ''correlationId'']"

definition pod_identity :: "json \<Rightarrow> bool" where
  "pod_identity v = (case v of JStr s \<Rightarrow> fullmatch_class (alnum_chars @ ''_.-'') 1 128 s | _ \<Rightarrow> False)"

definition hex_identity :: "json \<Rightarrow> bool" where
  "hex_identity v = (case v of JStr s \<Rightarrow> hex_id 32 s | _ \<Rightarrow> False)"

definition live_until :: "rat \<Rightarrow> json \<Rightarrow> bool" where
  "live_until now v = (case finite_number v of Some e \<Rightarrow> now < e \<and> e \<le> now + 300 | None \<Rightarrow> False)"

definition native_runtimes :: "string list" where "native_runtimes = [''sdk'', ''claude'', ''deepagents'', ''kilo'']"

definition bounded_prompt :: "json \<Rightarrow> bool" where
  "bounded_prompt v = (case v of JStr s \<Rightarrow> 1 \<le> length s \<and> int (length s) \<le> 65536 | _ \<Rightarrow> False)"

fun is_bool :: "json \<Rightarrow> bool" where
  "is_bool (JBool b) = True"
| "is_bool _ = False"

definition validate_envelope :: "json \<Rightarrow> json \<Rightarrow> rat \<Rightarrow> unit res" where
  "validate_envelope envelope assigned now =
     res_bind (require (exact_keys envelope_keys envelope) (ValueError ''INVALID_EXECUTION_ENVELOPE'')) (\<lambda>_.
     res_bind (require (list_all (\<lambda>k. py_eq (jget envelope k) (jget assigned k)) IDENTITY) (ValueError ''FOREIGN_OR_STALE_EXECUTION'')) (\<lambda>_.
     res_bind (require (pod_identity (jget envelope ''podUID'')) (ValueError ''INVALID_PHYSICAL_POD_IDENTITY'')) (\<lambda>_.
     res_bind (require (hex_identity (jget envelope ''operationId'') \<and> hex_identity (jget envelope ''correlationId''))
       (ValueError ''INVALID_OPERATION_ID'')) (\<lambda>_.
     res_bind (require (live_until now (jget envelope ''expiresAt'')) (ValueError ''EXPIRED_EXECUTION'')) (\<lambda>_.
     res_bind (require (py_eq (jget envelope ''expiresAt'') (jget assigned ''expiresAt'')) (ValueError ''EXPIRY_CHANGED'')) (\<lambda>_.
     res_bind (require (jget envelope ''runtime'' \<in> JStr ` set native_runtimes \<and> is_bool (jget envelope ''writes''))
       (ValueError ''INVALID_RUNTIME_OR_MODE'')) (\<lambda>_.
     require (bounded_prompt (jget envelope ''prompt'')) (ValueError ''INVALID_PROMPT''))))))))"

section \<open>The world of one worker\<close>

datatype group_signal = Terminate | Kill

datatype worker_event =
    Reserved string json
  | Launched string "string list" "string list" "(string \<times> string) list"
  | Signalled group_signal

record worker_world =
  ww_reservations :: "(string \<times> json) list"
  ww_trace :: "worker_event list"

text \<open>What one run meets: the resolved project, the environment, two readings of the clock, the first cancel flag, the
  start of the process and then one \<open>wait_round\<close> per round of the wait.\<close>

record wait_round =
  tk_cancelled :: bool
  tk_now :: rat
  tk_exit :: "int option"

record worker_env =
  we_files :: files
  we_environ :: "(string \<times> string) list"
  we_root_link :: bool
  we_validated_at :: rat
  we_launch_at :: rat
  we_cancelled :: bool
  we_starts :: bool
  we_ticks :: "wait_round list"

definition reserved_fields :: "string list" where
  "reserved_fields = IDENTITY @ [''operationId'', ''expiresAt'', ''runtime'', ''correlationId'']"

definition stored_reservation :: "json \<Rightarrow> json" where
  "stored_reservation envelope = JObj (map (\<lambda>k. (k, jget envelope k)) reserved_fields)"

definition reservation_name :: "(string \<Rightarrow> string) \<Rightarrow> string \<Rightarrow> string" where
  "reservation_name sha binding = sha binding @ ''.json''"

text \<open>The file is opened for exclusive creation: an existing one is an error.\<close>

definition reserve_binding :: "(string \<Rightarrow> string) \<Rightarrow> bool \<Rightarrow> string \<Rightarrow> json \<Rightarrow> (worker_world, unit) io" where
  "reserve_binding sha link binding envelope w =
     (let name = reservation_name sha binding in
      if link then (Inl (ValueError ''INVALID_STATE_ROOT''), w)
      else if map_of (ww_reservations w) name \<noteq> None then (Inl (OSError ''File exists''), w)
      else (Inr (), \<lparr> ww_reservations = (name, stored_reservation envelope) # ww_reservations w,
             ww_trace = ww_trace w @ [Reserved binding (stored_reservation envelope)] \<rparr>))"

definition provider_keys :: "string list" where
  "provider_keys = [''OPENAI_API_KEY'', ''ANTHROPIC_API_KEY'', ''GEMINI_API_KEY'', ''GOOGLE_API_KEY'', ''AZDO_PAT'', ''GH_TOKEN'', ''GITHUB_TOKEN'']"

definition worker_text :: "json \<Rightarrow> string" where "worker_text v = (case v of JStr s \<Rightarrow> s | _ \<Rightarrow> [])"

definition worker_environ :: "(string \<times> string) list \<Rightarrow> json \<Rightarrow> (string \<times> string) list" where
  "worker_environ environ envelope =
     foldl (\<lambda>env (k, v). AList.update k v env) (filter (\<lambda>(k, v). k \<notin> set provider_keys) environ)
       [(''DSH_CORRELATION_ID'', worker_text (jget envelope ''correlationId'')),
        (''DSH_UNATTENDED_TASK'', worker_text (jget envelope ''operationId'')),
        (''DSH_PARENT_TASK_ID'', worker_text (jget envelope ''taskId''))]"

datatype outcome = Exited int | Expired | Stopped_Run

definition exit_code :: "outcome \<Rightarrow> int" where
  "exit_code r = (case r of Exited c \<Rightarrow> c | Expired \<Rightarrow> 124 | Stopped_Run \<Rightarrow> 143)"

section \<open>The run\<close>

text \<open>The wait: one tick reads the cancel flag and the clock and then waits for the process; \<open>None\<close> when the ticks given do
  not suffice.\<close>

fun wait_loop :: "rat \<Rightarrow> wait_round list \<Rightarrow> outcome option" where
  "wait_loop expires [] = None"
| "wait_loop expires (t # ts) =
     (if tk_cancelled t then Some Stopped_Run
      else if expires \<le> tk_now t then Some Expired
      else (case tk_exit t of Some code \<Rightarrow> Some (Exited code) | None \<Rightarrow> wait_loop expires ts))"

definition worker_project :: "files \<Rightarrow> json \<Rightarrow> string list res" where
  "worker_project fs v =
     (case v of
        JStr s \<Rightarrow>
          (let cwd = fs_resolve fs s in
           if cwd \<noteq> fs_workspace fs \<and> fs_workspace fs \<notin> set (path_parents cwd) then Inl (ValueError ''PROJECT_ESCAPE'') else Inr cwd)
      | _ \<Rightarrow> Inl (TypeError ''project''))"

definition path_text :: "string list \<Rightarrow> string" where
  "path_text p = (if p = [] then ''/'' else concat (map (\<lambda>s. ''/'' @ s) p))"

definition envelope_command :: "json \<Rightarrow> string list \<Rightarrow> string list res" where
  "envelope_command envelope cwd =
     command_for (worker_text (jget envelope ''runtime'')) (worker_text (jget envelope ''prompt'')) (jget envelope ''writes'' = JBool True)
       (path_text cwd) (worker_text (jget envelope ''operationId'')) False"

definition emit_event :: "worker_event \<Rightarrow> (worker_world, unit) io" where
  "emit_event e w = (Inr (), w\<lparr> ww_trace := ww_trace w @ [e] \<rparr>)"

text \<open>The \<open>finally\<close> block: once a process exists, its whole group is signalled, however the wait ended.  A wait that has
  not ended signals nothing.\<close>

definition fenced_wait :: "rat \<Rightarrow> wait_round list \<Rightarrow> (worker_world, outcome option) io" where
  "fenced_wait expires ticks =
     (case wait_loop expires ticks of
        None \<Rightarrow> io_return None
      | Some out \<Rightarrow>
          io_bind (emit_event (Signalled Terminate)) (\<lambda>_.
          io_bind (emit_event (Signalled Kill)) (\<lambda>_.
          io_return (Some out))))"

definition expiry_of :: "json \<Rightarrow> rat" where
  "expiry_of envelope = (case finite_number (jget envelope ''expiresAt'') of Some e \<Rightarrow> e | None \<Rightarrow> 0)"

definition launch_worker :: "worker_env \<Rightarrow> json \<Rightarrow> string \<Rightarrow> string list \<Rightarrow> string list \<Rightarrow> (worker_world, outcome option) io" where
  "launch_worker we envelope binding command cwd =
     (if expiry_of envelope \<le> we_launch_at we then io_raise (ValueError ''EXPIRED_BEFORE_LAUNCH'')
      else if we_cancelled we then io_return (Some Stopped_Run)
      else if \<not> we_starts we then io_raise (OSError ''Popen'')
      else
        io_bind (emit_event (Launched binding command cwd (worker_environ (we_environ we) envelope))) (\<lambda>_.
        fenced_wait (expiry_of envelope) (we_ticks we)))"

definition as_binding :: "json \<Rightarrow> string res" where
  "as_binding v = (case v of JStr s \<Rightarrow> Inr s | _ \<Rightarrow> Inl (AttributeError ''encode''))"

text \<open>The checks before the reservation: the binding, the command and its directory.\<close>

definition admit_envelope :: "worker_env \<Rightarrow> json \<Rightarrow> json \<Rightarrow> (string \<times> string list \<times> string list) res" where
  "admit_envelope we envelope assigned =
     res_bind (validate_envelope envelope assigned (we_validated_at we)) (\<lambda>_.
     res_bind (worker_project (we_files we) (jget envelope ''project'')) (\<lambda>cwd.
     res_bind (envelope_command envelope cwd) (\<lambda>command.
     res_bind (as_binding (jget envelope ''bindingId'')) (\<lambda>binding.
     Inr (binding, command, cwd)))))"

definition run_envelope :: "(string \<Rightarrow> string) \<Rightarrow> worker_env \<Rightarrow> json \<Rightarrow> json \<Rightarrow> (worker_world, outcome option) io" where
  "run_envelope sha we envelope assigned =
     io_bind (io_lift (admit_envelope we envelope assigned)) (\<lambda>(binding, command, cwd).
     io_bind (reserve_binding sha (we_root_link we) binding envelope) (\<lambda>_.
     launch_worker we envelope binding command cwd))"

section \<open>The entry point\<close>

definition MAX_INPUT :: int where "MAX_INPUT = 131072"

text \<open>A protected file: opened without following a link, regular, owned by root and not writable by others.\<close>

definition read_protected :: "(file_info \<times> string) res \<Rightarrow> int \<Rightarrow> string res" where
  "read_protected opened limit =
     res_bind opened (\<lambda>(i, raw).
     if \<not> fi_regular i \<or> fi_owner i \<noteq> 0 \<or> fi_others_write i then Inl (ValueError ''UNPROTECTED_WORKER_ASSIGNMENT'')
     else if limit < int (length raw) then Inl (ValueError ''WORKER_ASSIGNMENT_TOO_LARGE'') else Inr raw)"

record entry_env =
  en_pod :: "(file_info \<times> string) res"
  en_assignment :: "(file_info \<times> string) res"
  en_loads :: "string \<Rightarrow> json res"
  en_ascii :: "string \<Rightarrow> string res"

definition read_assignment :: "entry_env \<Rightarrow> json res" where
  "read_assignment en =
     res_bind (res_bind (read_protected (en_pod en) 129) (en_ascii en)) (\<lambda>pod.
     if \<not> fullmatch_class (alnum_chars @ ''_.-'') 1 128 (strip pod) then Inl (ValueError ''INVALID_PHYSICAL_POD_IDENTITY'')
     else
       res_bind (res_bind (read_protected (en_assignment en) 8192) (en_loads en)) (\<lambda>assigned.
       if \<not> is_obj assigned \<or> jget assigned ''podUID'' \<noteq> JStr (strip pod) then Inl (ValueError ''ASSIGNMENT_PHYSICAL_POD_MISMATCH'')
       else Inr assigned))"

text \<open>The exit status; every exception is 70, and \<open>None\<close> stands for a run whose ticks do not suffice.\<close>

definition status_of :: "outcome option res \<Rightarrow> int option" where
  "status_of r =
     (case r of
        Inl e \<Rightarrow> Some 70
      | Inr None \<Rightarrow> None
      | Inr (Some out) \<Rightarrow> Some (if 0 \<le> exit_code out \<and> exit_code out \<le> 255 then exit_code out else 70))"

definition worker_main :: "(string \<Rightarrow> string) \<Rightarrow> entry_env \<Rightarrow> worker_env \<Rightarrow> string \<Rightarrow> worker_world \<Rightarrow> int option \<times> worker_world" where
  "worker_main sha en we raw w =
     (case io_bind (io_lift
          (if MAX_INPUT < int (length raw) then Inl (ValueError ''EXECUTION_ENVELOPE_TOO_LARGE'')
           else res_bind (en_loads en raw) (\<lambda>envelope. res_bind (read_assignment en) (\<lambda>assigned. Inr (envelope, assigned)))))
        (\<lambda>(envelope, assigned). run_envelope sha we envelope assigned) w of
        (r, w') \<Rightarrow> (status_of r, w'))"

section \<open>Lemmas\<close>

fun launched_bindings :: "worker_event list \<Rightarrow> string list" where
  "launched_bindings [] = []"
| "launched_bindings (Launched b command cwd env # es) = b # launched_bindings es"
| "launched_bindings (e # es) = launched_bindings es"

lemma launched_append [simp]: "launched_bindings (xs @ ys) = launched_bindings xs @ launched_bindings ys"
  by (induction xs rule: launched_bindings.induct) auto

lemma fenced_wait_run:
  "fenced_wait expires ticks w =
     (Inr (wait_loop expires ticks),
      w\<lparr> ww_trace := ww_trace w @ (if wait_loop expires ticks = None then [] else [Signalled Terminate, Signalled Kill]) \<rparr>)"
  by (auto simp: fenced_wait_def io_bind_def emit_event_def split: option.split)

text \<open>The part of a run after the reservation.\<close>

lemma launch_worker_run:
  "launch_worker we envelope binding command cwd w =
     (if expiry_of envelope \<le> we_launch_at we then (Inl (ValueError ''EXPIRED_BEFORE_LAUNCH''), w)
      else if we_cancelled we then (Inr (Some Stopped_Run), w)
      else if \<not> we_starts we then (Inl (OSError ''Popen''), w)
      else (Inr (wait_loop (expiry_of envelope) (we_ticks we)),
        w\<lparr> ww_trace := ww_trace w @ Launched binding command cwd (worker_environ (we_environ we) envelope) #
             (if wait_loop (expiry_of envelope) (we_ticks we) = None then [] else [Signalled Terminate, Signalled Kill]) \<rparr>))"
  by (simp add: launch_worker_def io_bind_def emit_event_def fenced_wait_run)

lemma run_envelope_cases:
  assumes "run_envelope sha we envelope assigned w = (r, w')"
  obtains (refused) e where "r = Inl e" "w' = w"
  | (run) binding command cwd where "admit_envelope we envelope assigned = Inr (binding, command, cwd)"
      "map_of (ww_reservations w) (reservation_name sha binding) = None"
      "launch_worker we envelope binding command cwd
         \<lparr> ww_reservations = (reservation_name sha binding, stored_reservation envelope) # ww_reservations w,
           ww_trace = ww_trace w @ [Reserved binding (stored_reservation envelope)] \<rparr> = (r, w')"
proof (cases "admit_envelope we envelope assigned")
  case (Inl e)
  then show ?thesis using refused assms by (auto simp: run_envelope_def)
next
  case (Inr a)
  then obtain binding command cwd where a: "admit_envelope we envelope assigned = Inr (binding, command, cwd)" by (cases a) auto
  then have run: "run_envelope sha we envelope assigned w =
      io_bind (reserve_binding sha (we_root_link we) binding envelope) (\<lambda>_. launch_worker we envelope binding command cwd) w"
    by (simp add: run_envelope_def)
  show ?thesis
  proof (cases "we_root_link we \<or> map_of (ww_reservations w) (reservation_name sha binding) \<noteq> None")
    case True
    then have "\<exists>e. run_envelope sha we envelope assigned w = (Inl e, w)"
      unfolding run by (auto simp: io_bind_def reserve_binding_def Let_def)
    then show ?thesis using refused assms by auto
  next
    case False
    then show ?thesis using a assms run that(2)
      by (auto simp: io_bind_def reserve_binding_def Let_def)
  qed
qed

text \<open>Workers of one state folder: any sequence of starts of the entry point.\<close>

inductive worker_step :: "(string \<Rightarrow> string) \<Rightarrow> worker_world \<Rightarrow> worker_world \<Rightarrow> bool" for sha where
  start: "worker_step sha w (snd (worker_main sha en we raw w))"

definition ran_once :: "(string \<Rightarrow> string) \<Rightarrow> worker_world \<Rightarrow> bool" where
  "ran_once sha w =
     (distinct (launched_bindings (ww_trace w)) \<and>
      list_all (\<lambda>b. map_of (ww_reservations w) (reservation_name sha b) \<noteq> None) (launched_bindings (ww_trace w)))"

lemma run_envelope_once:
  assumes "run_envelope sha we envelope assigned w = (r, w')" "ran_once sha w"
  shows "ran_once sha w'"
  using assms(1)
proof (cases rule: run_envelope_cases)
  case refused
  then show ?thesis using assms(2) by simp
next
  case (run binding command cwd)
  have fresh: "binding \<notin> set (launched_bindings (ww_trace w))" using run(2) assms(2) by (auto simp: ran_once_def list_all_iff)
  show ?thesis
    using run(3) assms(2) fresh unfolding launch_worker_run
    by (auto simp: ran_once_def list_all_iff split: if_splits)
qed

lemma worker_main_run:
  obtains "snd (worker_main sha en we raw w) = w" | envelope assigned where
    "worker_main sha en we raw w = (case run_envelope sha we envelope assigned w of (r, w') \<Rightarrow> (status_of r, w'))"
    "en_loads en raw = Inr envelope" "read_assignment en = Inr assigned"
proof (cases "\<exists>envelope assigned. \<not> MAX_INPUT < int (length raw) \<and> en_loads en raw = Inr envelope \<and> read_assignment en = Inr assigned")
  case True
  then show ?thesis using that(2) by (auto simp: worker_main_def)
next
  case False
  then have "snd (worker_main sha en we raw w) = w"
    by (cases "en_loads en raw"; cases "read_assignment en") (auto simp: worker_main_def)
  then show ?thesis by (rule that(1))
qed

lemma worker_step_once: "worker_step sha w w' \<Longrightarrow> ran_once sha w \<Longrightarrow> ran_once sha w'"
proof (induction rule: worker_step.induct)
  case (start w en we raw)
  show ?case
  proof (rule worker_main_run [of sha en we raw w])
    assume "snd (worker_main sha en we raw w) = w"
    then show ?thesis using start by simp
  next
    fix envelope assigned
    assume m: "worker_main sha en we raw w = (case run_envelope sha we envelope assigned w of (r, w') \<Rightarrow> (status_of r, w'))"
    obtain r w1 where "run_envelope sha we envelope assigned w = (r, w1)" by fastforce
    then show ?thesis using m run_envelope_once start by simp
  qed
qed

interpretation worker_runs: step_invariant "worker_step sha" "ran_once sha" for sha
  by unfold_locales (rule worker_step_once)

lemma worker_environ_clean:
  assumes "k \<in> set provider_keys"
  shows "map_of (worker_environ environ envelope) k = None"
proof -
  have "k \<notin> {''DSH_CORRELATION_ID'', ''DSH_UNATTENDED_TASK'', ''DSH_PARENT_TASK_ID''}" using assms by (auto simp: provider_keys_def)
  moreover have "map_of (filter (\<lambda>(k, v). k \<notin> set provider_keys) environ) k = None"
    using assms by (auto simp: map_of_eq_None_iff)
  ultimately show ?thesis by (simp add: worker_environ_def update_conv')
qed

lemma worker_environ_ids: "map_of (worker_environ environ envelope) ''DSH_UNATTENDED_TASK'' = Some (worker_text (jget envelope ''operationId''))"
  by (simp add: worker_environ_def update_conv')

lemma wait_loop_returns:
  "t \<in> set ticks \<Longrightarrow> expires \<le> tk_now t \<Longrightarrow> \<exists>out. wait_loop expires ticks = Some out"
  by (induction ticks) (auto split: option.split)

lemma wait_loop_exit:
  "wait_loop expires ticks = Some (Exited code) \<Longrightarrow> \<exists>t \<in> set ticks. tk_exit t = Some code \<and> \<not> tk_cancelled t \<and> tk_now t < expires"
  by (induction ticks) (auto split: if_splits option.splits)

lemma validated_fields:
  assumes "validate_envelope envelope assigned now = Inr ()"
  shows "exact_keys envelope_keys envelope" "list_all (\<lambda>k. py_eq (jget envelope k) (jget assigned k)) (IDENTITY @ [''expiresAt''])"
    "live_until now (jget envelope ''expiresAt'')" "hex_identity (jget envelope ''operationId'')"
  using assms by (auto simp: validate_envelope_def)

lemma admitted:
  assumes "admit_envelope we envelope assigned = Inr (binding, command, cwd)"
  shows "validate_envelope envelope assigned (we_validated_at we) = Inr ()" "envelope_command envelope cwd = Inr command"
    "jget envelope ''bindingId'' = JStr binding" "cwd = fs_workspace (we_files we) \<or> fs_workspace (we_files we) \<in> set (path_parents cwd)"
  using assms
  by (auto simp: admit_envelope_def res_bind_Inr_iff as_binding_def worker_project_def Let_def split: json.splits if_splits)

text \<open>A launch that is guarded on every side.\<close>

definition guarded_launch :: "worker_env \<Rightarrow> json \<Rightarrow> json \<Rightarrow> string \<Rightarrow> string list \<Rightarrow> string list \<Rightarrow> (string \<times> string) list \<Rightarrow> bool" where
  "guarded_launch we envelope assigned binding command cwd env =
     (list_all (\<lambda>k. py_eq (jget envelope k) (jget assigned k)) (IDENTITY @ [''expiresAt'']) \<and>
      live_until (we_validated_at we) (jget envelope ''expiresAt'') \<and> we_launch_at we < expiry_of envelope \<and> \<not> we_cancelled we \<and>
      jget envelope ''bindingId'' = JStr binding \<and> envelope_command envelope cwd = Inr command \<and>
      (cwd = fs_workspace (we_files we) \<or> fs_workspace (we_files we) \<in> set (path_parents cwd)) \<and>
      list_all (\<lambda>k. map_of env k = None) provider_keys \<and>
      map_of env ''DSH_UNATTENDED_TASK'' = Some (worker_text (jget envelope ''operationId'')))"

section \<open>Properties\<close>

text \<open>C19: However often the entry point is started over one state folder, with whatever input, assignment, clock and process
  outcomes, a binding is launched at most once, and its reservation stays: nothing is replayed.\<close>

theorem worker_runs_once:
  assumes "(worker_step sha)\<^sup>*\<^sup>* w w'" "ww_trace w = []"
  shows "distinct (launched_bindings (ww_trace w')) \<and>
    list_all (\<lambda>b. map_of (ww_reservations w') (reservation_name sha b) \<noteq> None) (launched_bindings (ww_trace w'))"
proof -
  have "ran_once sha w" using assms(2) by (simp add: ran_once_def)
  from worker_runs.reachable [OF assms(1) this] show ?thesis by (simp add: ran_once_def)
qed

text \<open>C20: A run starts its process only after the reservation was written, before the expiry, without a pending cancel, for an
  envelope that equals the protected assignment, inside the workspace, with the guarded command of the operation and an
  environment without provider keys; when the run ends, the process group was terminated and killed.\<close>

theorem worker_run_is_fenced:
  assumes "run_envelope sha we envelope assigned w = (r, w')"
  shows "w' = w \<or> (\<exists>binding es. ww_trace w' = ww_trace w @ Reserved binding (stored_reservation envelope) # es \<and>
    (es = [] \<or> (\<exists>command cwd env. guarded_launch we envelope assigned binding command cwd env \<and>
       r = Inr (wait_loop (expiry_of envelope) (we_ticks we)) \<and>
       es = Launched binding command cwd env # (if r = Inr None then [] else [Signalled Terminate, Signalled Kill]))))"
  using assms
proof (cases rule: run_envelope_cases)
  case refused
  then show ?thesis by simp
next
  case (run binding command cwd)
  note a = admitted [OF run(1)]
  have "list_all (\<lambda>k. map_of (worker_environ (we_environ we) envelope) k = None) provider_keys"
    using worker_environ_clean by (simp add: list_all_iff)
  then have "guarded_launch we envelope assigned binding command cwd (worker_environ (we_environ we) envelope)"
    if "we_launch_at we < expiry_of envelope" "\<not> we_cancelled we"
    using that a validated_fields [OF a(1)] worker_environ_ids by (simp add: guarded_launch_def)
  then show ?thesis using run(3) unfolding launch_worker_run
    by (auto split: if_splits)
qed

text \<open>The entry point ends: when some round of the wait comes at or after the expiry of a decoded envelope, it returns an
  exit status between 0 and 255.\<close>

theorem worker_main_returns:
  assumes "en_loads en raw = Inr envelope" "t \<in> set (we_ticks we)" "expiry_of envelope \<le> tk_now t"
  shows "\<exists>status. fst (worker_main sha en we raw w) = Some status \<and> 0 \<le> status \<and> status \<le> 255"
proof -
  have bounded: "\<exists>status. status_of r = Some status \<and> 0 \<le> status \<and> status \<le> 255" if "r \<noteq> Inr None" for r
    using that by (auto simp: status_of_def split: sum.splits option.splits)
  have ends: "r \<noteq> Inr None" if run: "run_envelope sha we envelope assigned w = (r, w')" for assigned r w'
    using run
  proof (cases rule: run_envelope_cases)
    case (run binding command cwd)
    then show ?thesis using wait_loop_returns [OF assms(2,3)] unfolding launch_worker_run by (auto split: if_splits)
  qed simp
  show ?thesis
  proof (cases "MAX_INPUT < int (length raw) \<or> (\<exists>e. read_assignment en = Inl e)")
    case True
    then have "fst (worker_main sha en we raw w) = Some 70" using assms(1) by (auto simp: worker_main_def status_of_def)
    then show ?thesis by simp
  next
    case False
    then obtain assigned where "read_assignment en = Inr assigned" by (cases "read_assignment en") auto
    moreover obtain r w' where run: "run_envelope sha we envelope assigned w = (r, w')" by fastforce
    ultimately have "worker_main sha en we raw w = (status_of r, w')" using False assms(1) by (simp add: worker_main_def)
    then show ?thesis using bounded [OF ends [OF run]] by simp
  qed
qed

section \<open>Examples\<close>

definition worker_envelope :: json where
  "worker_envelope = JObj [(''subject'', JStr ''s''), (''generation'', JStr ''g''), (''taskId'', JStr ''t''), (''project'', JStr ''p''),
     (''bindingId'', JStr ''b''), (''workerUID'', JStr ''w''), (''podUID'', JStr ''u''), (''operationId'', JStr (replicate 32 CHR ''a'')),
     (''expiresAt'', JInt 100), (''runtime'', JStr ''claude''), (''prompt'', JStr ''x''), (''writes'', JBool False),
     (''correlationId'', JStr (replicate 32 CHR ''b''))]"

definition worker_files :: files where
  "worker_files = \<lparr> fs_workspace = [''workspace''], fs_resolve = (\<lambda>s. [''workspace'', s]), fs_is_dir = (\<lambda>_. True) \<rparr>"

definition worker_env_example :: worker_env where
  "worker_env_example = \<lparr> we_files = worker_files, we_environ = [(''PATH'', ''/bin''), (''GH_TOKEN'', ''secret'')], we_root_link = False,
     we_validated_at = 10, we_launch_at = 11, we_cancelled = False, we_starts = True,
     we_ticks = [\<lparr> tk_cancelled = False, tk_now = 12, tk_exit = None \<rparr>, \<lparr> tk_cancelled = False, tk_now = 13, tk_exit = Some 0 \<rparr>,
        \<lparr> tk_cancelled = False, tk_now = 100, tk_exit = None \<rparr>] \<rparr>"

definition entry_example :: entry_env where
  "entry_example = \<lparr> en_pod = Inr (\<lparr> fi_link = False, fi_owner = 0, fi_others_write = False, fi_regular = True \<rparr>, ''u''),
     en_assignment = Inr (\<lparr> fi_link = False, fi_owner = 0, fi_others_write = False, fi_regular = True \<rparr>, ''assignment''),
     en_loads = (\<lambda>_. Inr worker_envelope), en_ascii = Inr \<rparr>"

definition empty_worker :: worker_world where "empty_worker = \<lparr> ww_reservations = [], ww_trace = [] \<rparr>"

definition worker_ran :: "int option \<times> worker_world" where
  "worker_ran = worker_main (\<lambda>s. s) entry_example worker_env_example ''{}'' empty_worker"

lemma example_worker: "fst worker_ran = Some 0 \<and> launched_bindings (ww_trace (snd worker_ran)) = [''b'']"
  by code_simp

lemma example_worker_again:
  "fst (worker_main (\<lambda>s. s) entry_example worker_env_example ''{}'' (snd worker_ran)) = Some 70"
  by code_simp

theorem worker_runs_once_witness:
  "distinct (launched_bindings (ww_trace (snd worker_ran))) \<and> launched_bindings (ww_trace (snd worker_ran)) = [''b'']"
proof -
  have "(worker_step (\<lambda>s. s))\<^sup>*\<^sup>* empty_worker (snd worker_ran)" "ww_trace empty_worker = []"
    by (auto simp: worker_ran_def empty_worker_def intro: worker_step.start)
  from worker_runs_once [OF this] show ?thesis using example_worker by simp
qed

definition worker_result :: "outcome option res \<times> worker_world" where
  "worker_result = run_envelope (\<lambda>s. s) worker_env_example worker_envelope worker_envelope empty_worker"

lemma example_worker_changed: "length (ww_trace (snd worker_result)) = 4"
  by code_simp

theorem worker_run_is_fenced_witness:
  "\<exists>binding es. ww_trace (snd worker_result) = Reserved binding (stored_reservation worker_envelope) # es"
proof -
  have "snd worker_result \<noteq> empty_worker" using example_worker_changed by (auto simp: empty_worker_def)
  then show ?thesis
    using worker_run_is_fenced [of "\<lambda>s. s" worker_env_example worker_envelope worker_envelope empty_worker "fst worker_result" "snd worker_result"]
    by (auto simp: worker_result_def empty_worker_def)
qed

theorem worker_main_returns_witness: "\<exists>status. fst worker_ran = Some status \<and> 0 \<le> status \<and> status \<le> 255"
  unfolding worker_ran_def
  by (rule worker_main_returns [where t = "\<lparr> tk_cancelled = False, tk_now = 100, tk_exit = None \<rparr>" and envelope = worker_envelope])
     (simp_all add: entry_example_def worker_env_example_def expiry_of_def worker_envelope_def)


end
