(* ===== verification/Native_Transport.thy ===== *)
theory Native_Transport imports Native_Kubernetes Native_Worker begin

text \<open>
  The transport between the broker's OpenShell binding and the native gateway: the pinned RPC boundary
  (\<open>scripts/openshell_native_rpc.py\<close>) and the journal-bound transport (\<open>scripts/openshell_broker_transport.py\<close>).
  The gateway's stub and the supervisor are parameters; their calls and the journal writes form a trace.  The
  registry is seen at the one task of the binding; each call is one step, as the service that makes them holds its lock.
\<close>

section \<open>The world\<close>

datatype native_call =
    Create_Sandbox json rat
  | Get_Sandbox json
  | Exec_Sandbox string string json rat
  | Observe json
  | Assign json
  | Stop_Native json string
  | Absent_Native json string
  | Cancel_Stream string string
  | Journal json json

text \<open>What the gateway reports of a sandbox; \<open>None\<close> for a reply without these attributes.\<close>

record sandbox_reply =
  sb_name :: json
  sb_workspace :: json
  sb_labels :: json
  sb_id :: json

datatype stream_event = Stream_Output string | Stream_Exit int | Stream_Unknown

record transport_world =
  tw_task :: task
  tw_prompt :: json
  tw_streams :: "((string \<times> string) \<times> stream_event list option) list"
  tw_trace :: "native_call list"

text \<open>The parameters of one call: the gateway, the supervisor, the clock and the admitted specification.\<close>

record transport_env =
  te_sha :: "string \<Rightarrow> string"
  te_workspace :: string
  te_now :: rat
  te_execute_at :: rat
  te_spec :: "json \<Rightarrow> json \<Rightarrow> json res"
  te_create :: "json \<Rightarrow> sandbox_reply option res"
  te_get :: "json \<Rightarrow> sandbox_reply option res"
  te_exec :: "json \<Rightarrow> stream_event list res"
  te_observe :: "json \<Rightarrow> json \<Rightarrow> json res \<times> json"
  te_assign :: "json \<Rightarrow> json res"
  te_stop :: "json \<Rightarrow> string \<Rightarrow> json res"
  te_absent :: "json \<Rightarrow> string \<Rightarrow> json res"

definition native_call :: "native_call \<Rightarrow> 'a res \<Rightarrow> (transport_world, 'a) io" where
  "native_call e r w = (r, w\<lparr> tw_trace := tw_trace w @ [e] \<rparr>)"

definition tw_state :: "(transport_world, json) io" where
  "tw_state w = (Inr (t_openshell (tw_task w)), w)"

text \<open>\<open>task.openshell = \<dots>\<close> or \<open>task.execution_stage = \<dots>\<close>, and \<open>task.save()\<close>.\<close>

definition journal :: "json \<Rightarrow> json \<Rightarrow> (transport_world, unit) io" where
  "journal st stg w =
     (Inr (), w\<lparr> tw_task := save ((tw_task w)\<lparr> t_openshell := st, t_stage := stg \<rparr>), tw_trace := tw_trace w @ [Journal st stg] \<rparr>)"

section \<open>The RPC boundary\<close>

definition hyphenated_uuid :: "string \<Rightarrow> string" where
  "hyphenated_uuid s =
     take 8 s @ ''-'' @ take 4 (drop 8 s) @ ''-'' @ take 4 (drop 12 s) @ ''-'' @ take 4 (drop 16 s) @ ''-'' @ drop 20 s"

definition rpc_request_id :: "string \<Rightarrow> string res" where
  "rpc_request_id operation =
     (if \<not> hex_id 32 operation then Inl (ValueError ''INVALID_OPERATION_ID'')
      else if list_all (\<lambda>c. c = CHR ''0'') operation then Inl (ValueError ''ZERO_OPERATION_ID'') else Inr (hyphenated_uuid operation))"

definition workspace_text :: "string \<Rightarrow> bool" where
  "workspace_text s =
     (let alnum = digit_chars @ lower_chars in
      s \<noteq> [] \<and> length s \<le> 19 \<and> hd s \<in> set alnum \<and> last s \<in> set alnum \<and> list_all (\<lambda>c. c \<in> set (alnum @ ''-'')) s)"

definition new_rpc :: "string \<Rightarrow> string res" where
  "new_rpc workspace = (if workspace_text workspace then Inr workspace else Inl (ValueError ''INVALID_NATIVE_WORKSPACE''))"

definition sandbox_name :: "transport_env \<Rightarrow> json \<Rightarrow> string res" where
  "sandbox_name te binding =
     (case binding of
        JStr b \<Rightarrow> if hex_id 32 b then Inr (''dsh-'' @ take 15 (te_sha te b)) else Inl (ValueError ''INVALID_BINDING_ID'')
      | _ \<Rightarrow> Inl (ValueError ''INVALID_BINDING_ID''))"

definition verified_sandbox :: "transport_env \<Rightarrow> json \<Rightarrow> string \<Rightarrow> sandbox_reply \<Rightarrow> bool" where
  "verified_sandbox te binding operation sb =
     (case sandbox_name te binding of
        Inl e \<Rightarrow> False
      | Inr name \<Rightarrow>
          sb_name sb = JStr name \<and> sb_workspace sb = JStr (te_workspace te) \<and>
          py_eq (jget (sb_labels sb) ''dsh.example.com/binding'') binding \<and>
          jget (sb_labels sb) ''dsh.example.com/allocation'' = JStr operation \<and> pod_identity (sb_id sb))"

definition accept_reply :: "transport_env \<Rightarrow> json \<Rightarrow> string \<Rightarrow> sandbox_reply option \<Rightarrow> string res" where
  "accept_reply te binding operation reply =
     (case reply of
        Some sb \<Rightarrow>
          (if verified_sandbox te binding operation sb then Inr (worker_text (sb_id sb))
           else Inl (ValueError ''NATIVE_ALLOCATION_IDENTITY_MISMATCH''))
      | None \<Rightarrow> Inl (ValueError ''NATIVE_ALLOCATION_IDENTITY_MISMATCH''))"

text \<open>\<open>expires_at - self.clock()\<close>\<close>

definition remaining_at :: "rat \<Rightarrow> json \<Rightarrow> rat res" where
  "remaining_at now expires = (case jnum expires of Some e \<Rightarrow> Inr (e - now) | None \<Rightarrow> Inl (TypeError ''-''))"

definition create_request :: "transport_env \<Rightarrow> json \<Rightarrow> string \<Rightarrow> string \<Rightarrow> string \<Rightarrow> json \<Rightarrow> json" where
  "create_request te binding operation name rid spec =
     JObj [(''workspace'', JStr (te_workspace te)), (''name'', JStr name), (''spec'', spec), (''request_id'', JStr rid),
       (''labels'', JObj [(''dsh.example.com/binding'', binding), (''dsh.example.com/allocation'', JStr operation)])]"

definition rpc_create :: "transport_env \<Rightarrow> json \<Rightarrow> string \<Rightarrow> json \<Rightarrow> json \<Rightarrow> (transport_world, string) io" where
  "rpc_create te binding operation spec expires =
     io_bind (io_lift (remaining_at (te_now te) expires)) (\<lambda>remaining.
     if \<not> (0 < remaining \<and> remaining \<le> 300) then io_raise (ValueError ''EXPIRED_NATIVE_ALLOCATION'')
     else if spec = JNull then io_raise (ValueError ''ADMITTED_SPEC_REQUIRED'')
     else
       io_bind (io_lift (sandbox_name te binding)) (\<lambda>name.
       io_bind (io_lift (rpc_request_id operation)) (\<lambda>rid.
       let q = create_request te binding operation name rid spec in
       io_bind (native_call (Create_Sandbox q (min 30 remaining)) (te_create te q)) (\<lambda>reply.
       io_lift (accept_reply te binding operation reply)))))"

definition rpc_lookup :: "transport_env \<Rightarrow> json \<Rightarrow> string \<Rightarrow> (transport_world, string) io" where
  "rpc_lookup te binding operation =
     io_bind (io_lift (rpc_request_id operation)) (\<lambda>_.
     io_bind (io_lift (sandbox_name te binding)) (\<lambda>name.
     let q = JObj [(''workspace'', JStr (te_workspace te)), (''name'', JStr name)] in
     io_bind (native_call (Get_Sandbox q) (te_get te q)) (\<lambda>reply.
     io_lift (accept_reply te binding operation reply))))"

definition exec_request :: "transport_env \<Rightarrow> string \<Rightarrow> json \<Rightarrow> string \<Rightarrow> json" where
  "exec_request te name envelope rid =
     JObj [(''workspace'', JStr (te_workspace te)), (''sandbox'', JStr name),
       (''command'', JList [JStr ''/usr/local/bin/dsh-openshell-worker'']), (''stdin'', envelope), (''no_login_shell'', JBool True),
       (''request_id'', JStr rid)]"

definition rpc_execute :: "transport_env \<Rightarrow> json \<Rightarrow> string \<Rightarrow> json \<Rightarrow> (transport_world, stream_event list) io" where
  "rpc_execute te binding operation envelope =
     (if \<not> py_eq (jget envelope ''bindingId'') binding \<or> jget envelope ''operationId'' \<noteq> JStr operation
      then io_raise (ValueError ''NATIVE_EXECUTION_IDENTITY_MISMATCH'')
      else
        io_bind (io_lift (remaining_at (te_execute_at te) (jget envelope ''expiresAt''))) (\<lambda>remaining.
        if \<not> (0 < remaining \<and> remaining \<le> 300) then io_raise (ValueError ''EXPIRED_NATIVE_EXECUTION'')
        else
          io_bind (io_lift (sandbox_name te binding)) (\<lambda>name.
          io_bind (io_lift (rpc_request_id operation)) (\<lambda>rid.
          let q = exec_request te name envelope rid in
          native_call (Exec_Sandbox (worker_text binding) operation q remaining) (te_exec te q)))))"

definition rpc_stop :: "unit res" where "rpc_stop = Inl (ValueError ''EXACT_SUPERVISOR_STOP_REQUIRED'')"

section \<open>The transport\<close>

definition allocation_keys :: "string list" where "allocation_keys = filter (\<lambda>k. k \<noteq> ''workerUID'') KEYS"

definition transport_task :: "bool \<Rightarrow> json \<Rightarrow> (transport_world, json) io" where
  "transport_task allocating context w =
     (let t = tw_task w in
      if \<not> exact_keys (if allocating then allocation_keys else KEYS) context then (Inl (ValueError ''INVALID_TRANSPORT_CONTEXT''), w)
      else if jget context ''taskId'' \<noteq> JStr (t_id t) \<or> t_backend t \<noteq> ''openshell'' then (Inl (ValueError ''NATIVE_TASK_NOT_FOUND''), w)
      else if \<not> truthy (t_openshell t) \<or> \<not> holds_items (t_openshell t) context then (Inl (ValueError ''STALE_TRANSPORT_BINDING''), w)
      else (Inr (t_openshell t), w))"

definition none_or :: "json \<Rightarrow> string \<Rightarrow> bool" where
  "none_or v s = (v = JNull \<or> v = JStr s)"

text \<open>The supervisor's observation may extend the task's binding.\<close>

definition observe_worker :: "transport_env \<Rightarrow> json \<Rightarrow> (transport_world, json) io" where
  "observe_worker te identity w =
     (case te_observe te identity (t_openshell (tw_task w)) of
        (r, st) \<Rightarrow> (r, w\<lparr> tw_task := (tw_task w)\<lparr> t_openshell := st \<rparr>, tw_trace := tw_trace w @ [Observe identity] \<rparr>))"

definition put_state :: "string \<Rightarrow> string \<Rightarrow> (transport_world, unit) io" where
  "put_state k v w = journal (jset k (JStr v) (t_openshell (tw_task w))) (t_stage (tw_task w)) w"

definition record_worker :: "transport_env \<Rightarrow> json \<Rightarrow> json \<Rightarrow> string \<Rightarrow> (transport_world, string) io" where
  "record_worker te st context native_id =
     (if \<not> none_or (jget st ''workerUID'') native_id then io_raise (ValueError ''NATIVE_ALLOCATION_REPLACED'')
      else
        io_bind (put_state ''workerUID'' native_id) (\<lambda>_.
        let identity = jset ''workerUID'' (JStr native_id) context in
        io_bind (observe_worker te identity) (\<lambda>receipt.
        if \<not> pod_identity (jget receipt ''podUID'') \<or> \<not> py_eq receipt (jset ''podUID'' (jget receipt ''podUID'') identity)
        then io_raise (ValueError ''NATIVE_POD_IDENTITY_UNVERIFIED'')
        else if \<not> none_or (jget st ''podUID'') (worker_text (jget receipt ''podUID'')) then io_raise (ValueError ''NATIVE_POD_REPLACED'')
        else io_bind (put_state ''podUID'' (worker_text (jget receipt ''podUID''))) (\<lambda>_. io_return native_id))))"

definition allocation_receipt :: "json \<Rightarrow> string \<Rightarrow> string \<Rightarrow> json" where
  "allocation_receipt context native_id operation = JObj (obj_items context @ [(''workerUID'', JStr native_id), (''operationId'', JStr operation)])"

definition native_allocate :: "transport_env \<Rightarrow> json \<Rightarrow> string \<Rightarrow> json \<Rightarrow> (transport_world, json) io" where
  "native_allocate te context operation expires =
     io_bind (transport_task True context) (\<lambda>st.
     if jget st ''phase'' \<noteq> JStr ''allocation-reserved'' \<or> jget st ''allocationOperationId'' \<noteq> JStr operation \<or>
        \<not> py_eq (jget st ''expiresAt'') expires
     then io_raise (ValueError ''UNRESERVED_NATIVE_ALLOCATION'')
     else
       io_bind (io_lift (te_spec te context expires)) (\<lambda>spec.
       io_bind (rpc_create te (jget context ''bindingId'') operation spec expires) (\<lambda>native_id.
       io_bind (record_worker te st context native_id) (\<lambda>n.
       io_return (allocation_receipt context n operation)))))"

definition native_lookup :: "transport_env \<Rightarrow> json \<Rightarrow> string \<Rightarrow> (transport_world, json) io" where
  "native_lookup te context operation =
     io_bind (transport_task True context) (\<lambda>st.
     if jget st ''allocationOperationId'' \<noteq> JStr operation then io_raise (ValueError ''ALLOCATION_OPERATION_CHANGED'')
     else
       io_bind (rpc_lookup te (jget context ''bindingId'') operation) (\<lambda>native_id.
       io_bind (record_worker te st context native_id) (\<lambda>n.
       io_return (allocation_receipt context n operation))))"

definition stream_key :: "json \<Rightarrow> string \<Rightarrow> string \<times> string" where
  "stream_key context operation = (worker_text (jget context ''bindingId''), operation)"

definition set_stream :: "string \<times> string \<Rightarrow> stream_event list option \<Rightarrow> (transport_world, unit) io" where
  "set_stream k v w = (Inr (), w\<lparr> tw_streams := AList.update k v (tw_streams w) \<rparr>)"

definition envelope_of :: "task \<Rightarrow> json \<Rightarrow> json \<Rightarrow> json \<Rightarrow> string \<Rightarrow> json \<Rightarrow> json" where
  "envelope_of t prompt stg context operation st =
     JObj (obj_items context @
       [(''podUID'', jget st ''podUID''), (''operationId'', JStr operation), (''expiresAt'', jget st ''expiresAt''),
        (''runtime'', jget stg ''runtime''), (''correlationId'', jget stg ''correlationId''), (''prompt'', prompt),
        (''writes'', JBool (t_writes t))])"

definition assignment_of :: "json \<Rightarrow> json \<Rightarrow> json" where
  "assignment_of context st = JObj (obj_items context @ [(''expiresAt'', jget st ''expiresAt''), (''podUID'', jget st ''podUID'')])"

text \<open>After the reservation of the stream: the stage is marked, the envelope is validated, the assignment is confirmed, and
  only then the gateway is asked to execute.\<close>

definition dispatch_stage :: "transport_env \<Rightarrow> json \<Rightarrow> string \<Rightarrow> json \<Rightarrow> (transport_world, stream_event list) io" where
  "dispatch_stage te context operation st w =
     (let stg = t_stage (tw_task w); envelope = envelope_of (tw_task w) (tw_prompt w) stg context operation st;
          assigned = assignment_of context st in
      (if \<not> truthy stg then io_raise (ValueError ''EXECUTION_STAGE_REQUIRED'')
       else
         io_bind (journal (t_openshell (tw_task w)) (jset ''executionId'' (JStr operation) stg)) (\<lambda>_.
         if \<not> truthy (jget st ''podUID'') then io_raise (ValueError ''NATIVE_POD_IDENTITY_REQUIRED'')
         else
           io_bind (io_lift (validate_envelope envelope assigned (te_now te))) (\<lambda>_.
           io_bind (native_call (Assign assigned) (te_assign te assigned)) (\<lambda>receipt.
           if \<not> py_eq receipt (jset ''assigned'' (JBool True) assigned) then io_raise (ValueError ''NATIVE_ASSIGNMENT_UNVERIFIED'')
           else rpc_execute te (jget context ''bindingId'') operation envelope)))) w)"

definition dispatch_receipt :: "json \<Rightarrow> string \<Rightarrow> json" where
  "dispatch_receipt context operation =
     JObj (obj_items context @ [(''operationId'', JStr operation), (''nativeRequired'', JBool True), (''unrestrictedFallback'', JBool False)])"

definition dispatch_reserved :: "json \<Rightarrow> string \<Rightarrow> bool" where
  "dispatch_reserved st operation =
     (jget st ''phase'' = JStr ''dispatch-reserved'' \<and> jget st ''operationId'' = JStr operation \<and>
      \<not> truthy (jget st ''revoked'') \<and> \<not> truthy (jget st ''fenced''))"

definition known_stream :: "string \<times> string \<Rightarrow> (transport_world, bool) io" where
  "known_stream k w = (Inr (map_of (tw_streams w) k \<noteq> None), w)"

definition native_dispatch :: "transport_env \<Rightarrow> json \<Rightarrow> string \<Rightarrow> (transport_world, json) io" where
  "native_dispatch te context operation =
     io_bind (transport_task False context) (\<lambda>st.
     if \<not> dispatch_reserved st operation then io_raise (ValueError ''UNRESERVED_OR_FENCED_DISPATCH'')
     else
       io_bind (known_stream (stream_key context operation)) (\<lambda>known.
       if known then io_raise (ValueError ''NATIVE_STREAM_REPLAY'')
       else
         io_bind (set_stream (stream_key context operation) None) (\<lambda>_.
         io_bind (dispatch_stage te context operation st) (\<lambda>stream.
         io_bind (set_stream (stream_key context operation) (Some stream)) (\<lambda>_.
         io_return (dispatch_receipt context operation))))))"

text \<open>\<open>events\<close>: what the generator yields, and how it ends.\<close>

fun stream_items :: "json \<Rightarrow> string \<Rightarrow> stream_event list \<Rightarrow> json list \<times> unit res" where
  "stream_items uid operation [] = ([], Inr ())"
| "stream_items uid operation (e # es) =
     (case e of
        Stream_Unknown \<Rightarrow> ([], Inl (ValueError ''UNKNOWN_NATIVE_STREAM_EVENT''))
      | Stream_Output s \<Rightarrow>
          (case stream_items uid operation es of (xs, r) \<Rightarrow> (JObj [(''type'', JStr ''output''), (''text'', JStr s)] # xs, r))
      | Stream_Exit code \<Rightarrow>
          (case stream_items uid operation es of
             (xs, r) \<Rightarrow> (JObj [(''type'', JStr ''exit''), (''exitCode'', JInt code), (''workerUID'', uid), (''operationId'', JStr operation)] # xs, r)))"

definition native_events :: "json \<Rightarrow> string \<Rightarrow> (transport_world, json list \<times> unit res) io" where
  "native_events context operation w =
     (case transport_task False context w of
        (Inl e, w') \<Rightarrow> (Inl e, w')
      | (Inr st, w') \<Rightarrow>
          (case map_of (tw_streams w') (stream_key context operation) of
             Some (Some stream) \<Rightarrow> (Inr (stream_items (jget context ''workerUID'') operation stream), w')
           | _ \<Rightarrow> (Inl (ValueError ''NATIVE_STREAM_UNAVAILABLE_NO_REPLAY''), w')))"

definition stop_bound :: "json \<Rightarrow> string \<Rightarrow> bool" where
  "stop_bound st operation =
     (jget st ''phase'' = JStr ''stop-reserved'' \<and> jget st ''stopOperationId'' = JStr operation \<and> truthy (jget st ''podUID''))"

definition cancel_streams :: "string \<Rightarrow> (transport_world, unit) io" where
  "cancel_streams binding w =
     (Inr (), w\<lparr> tw_trace := tw_trace w @
        map (\<lambda>((b, operation), _). Cancel_Stream b operation) (filter (\<lambda>((b, _), stream). b = binding \<and> stream \<noteq> None) (tw_streams w)) \<rparr>)"

definition with_pod :: "json \<Rightarrow> json \<Rightarrow> json" where
  "with_pod context st = jset ''podUID'' (jget st ''podUID'') context"

definition stop_reply :: "json \<Rightarrow> string \<Rightarrow> string \<Rightarrow> json" where
  "stop_reply context operation flag =
     JObj [(''workerUID'', jget context ''workerUID''), (''operationId'', JStr operation), (flag, JBool True)]"

definition exact_reply :: "json \<Rightarrow> string \<Rightarrow> string \<Rightarrow> json" where
  "exact_reply assigned operation flag = jset flag (JBool True) (jset ''operationId'' (JStr operation) assigned)"

definition native_stop :: "transport_env \<Rightarrow> json \<Rightarrow> string \<Rightarrow> (transport_world, json) io" where
  "native_stop te context operation =
     io_bind (transport_task False context) (\<lambda>st.
     if \<not> stop_bound st operation \<or> \<not> truthy (jget st ''fenced'') \<or> \<not> truthy (jget st ''revoked'')
     then io_raise (ValueError ''UNRESERVED_EXACT_NATIVE_STOP'')
     else
       io_bind (cancel_streams (worker_text (jget context ''bindingId''))) (\<lambda>_.
       io_bind (native_call (Stop_Native (with_pod context st) operation) (te_stop te (with_pod context st) operation)) (\<lambda>receipt.
       if \<not> py_eq receipt (exact_reply (with_pod context st) operation ''stopped'') then io_raise (ValueError ''EXACT_NATIVE_STOP_UNVERIFIED'')
       else io_return (stop_reply context operation ''stopped''))))"

definition native_absent :: "transport_env \<Rightarrow> json \<Rightarrow> string \<Rightarrow> (transport_world, json) io" where
  "native_absent te context operation =
     io_bind (transport_task False context) (\<lambda>st.
     if \<not> stop_bound st operation then io_raise (ValueError ''UNRESERVED_EXACT_NATIVE_ABSENCE'')
     else
       io_bind (native_call (Absent_Native (with_pod context st) operation) (te_absent te (with_pod context st) operation)) (\<lambda>receipt.
       if \<not> py_eq receipt (exact_reply (with_pod context st) operation ''absent'') then io_raise (ValueError ''EXACT_NATIVE_ABSENCE_UNVERIFIED'')
       else io_return (stop_reply context operation ''absent'')))"

section \<open>Lemmas\<close>

fun exec_keys :: "native_call list \<Rightarrow> (string \<times> string) list" where
  "exec_keys [] = []"
| "exec_keys (Exec_Sandbox b operation q t # es) = (b, operation) # exec_keys es"
| "exec_keys (e # es) = exec_keys es"

lemma exec_keys_append [simp]: "exec_keys (xs @ ys) = exec_keys xs @ exec_keys ys"
  by (induction xs rule: exec_keys.induct) auto

text \<open>A call that neither executes nor changes the streams.\<close>

definition quiet :: "transport_world \<Rightarrow> transport_world \<Rightarrow> bool" where
  "quiet w w' = (exec_keys (tw_trace w') = exec_keys (tw_trace w) \<and> tw_streams w' = tw_streams w)"

named_theorems quiet_intros

lemma quiet_bind [quiet_intros]: "io_keeps quiet m \<Longrightarrow> (\<And>x. io_keeps quiet (f x)) \<Longrightarrow> io_keeps quiet (io_bind m f)"
  by (rule io_keeps_bind [where R = quiet]) (auto simp: quiet_def)

lemma quiet_pure [quiet_intros]:
  "io_keeps quiet (io_return x)" "io_keeps quiet (io_raise e)" "io_keeps quiet (io_lift r)"
  by (rule io_keeps_pure; simp add: quiet_def)+

lemma quiet_basic [quiet_intros]:
  "io_keeps quiet (journal st stg)" "io_keeps quiet (put_state k v)" "io_keeps quiet (observe_worker te identity)"
  "io_keeps quiet (transport_task allocating context)"
  by (auto simp: io_keeps_def quiet_def journal_def put_state_def observe_worker_def transport_task_def Let_def split: prod.splits)

lemma quiet_call [quiet_intros]: "exec_keys [e] = [] \<Longrightarrow> io_keeps quiet (native_call e r)"
  by (simp add: io_keeps_def quiet_def native_call_def)

lemma quiet_if [quiet_intros]: "io_keeps quiet m \<Longrightarrow> io_keeps quiet m' \<Longrightarrow> io_keeps quiet (if b then m else m')"
  by simp

lemma exec_keys_cancels [simp]: "exec_keys (map (\<lambda>((b, operation), _). Cancel_Stream b operation) xs) = []"
  by (induction xs) auto

lemma quiet_cancel [quiet_intros]: "io_keeps quiet (cancel_streams b)"
  by (simp add: io_keeps_def quiet_def cancel_streams_def)

lemma quiet_record [quiet_intros]: "io_keeps quiet (record_worker te st context n)"
  unfolding record_worker_def Let_def by (intro quiet_intros)

lemma quiet_rpc [quiet_intros]: "io_keeps quiet (rpc_create te b operation spec expires)" "io_keeps quiet (rpc_lookup te b operation)"
  unfolding rpc_create_def rpc_lookup_def Let_def by (intro quiet_intros; simp)+

lemma quiet_operations:
  "io_keeps quiet (native_allocate te context operation expires)" "io_keeps quiet (native_lookup te context operation)"
  "io_keeps quiet (native_stop te context operation)" "io_keeps quiet (native_absent te context operation)"
  unfolding native_allocate_def native_lookup_def native_stop_def native_absent_def by (intro quiet_intros; simp)+

text \<open>The dispatch after the reservation of the stream: either nothing is executed, or one execution of a validated envelope
  follows the confirmed assignment.\<close>

definition sent_execution :: "transport_env \<Rightarrow> json \<Rightarrow> string \<Rightarrow> json \<Rightarrow> transport_world \<Rightarrow> native_call list \<Rightarrow> stream_event list res \<Rightarrow> bool" where
  "sent_execution te context operation st w es r =
     (\<exists>name rid remaining. let envelope = envelope_of (tw_task w) (tw_prompt w) (t_stage (tw_task w)) context operation st;
          assigned = assignment_of context st; q = exec_request te name envelope rid in
        es = [Journal (t_openshell (tw_task w)) (jset ''executionId'' (JStr operation) (t_stage (tw_task w))), Assign assigned,
           Exec_Sandbox (worker_text (jget context ''bindingId'')) operation q remaining] \<and>
        validate_envelope envelope assigned (te_now te) = Inr () \<and>
        (\<exists>receipt. te_assign te assigned = Inr receipt \<and> py_eq receipt (jset ''assigned'' (JBool True) assigned)) \<and>
        0 < remaining \<and> remaining \<le> 300 \<and> r = te_exec te q)"

lemma rpc_execute_cases:
  assumes "rpc_execute te binding operation envelope w = (r, w')"
  obtains (refused) e where "r = Inl e" "w' = w"
  | (sent) name rid remaining where "r = te_exec te (exec_request te name envelope rid)" "0 < remaining" "remaining \<le> 300"
      "w' = w\<lparr> tw_trace := tw_trace w @ [Exec_Sandbox (worker_text binding) operation (exec_request te name envelope rid) remaining] \<rparr>"
proof (cases "\<exists>name rid remaining. py_eq (jget envelope ''bindingId'') binding \<and> jget envelope ''operationId'' = JStr operation \<and>
    remaining_at (te_execute_at te) (jget envelope ''expiresAt'') = Inr remaining \<and> 0 < remaining \<and> remaining \<le> 300 \<and>
    sandbox_name te binding = Inr name \<and> rpc_request_id operation = Inr rid")
  case True
  then obtain name rid remaining where "py_eq (jget envelope ''bindingId'') binding" "jget envelope ''operationId'' = JStr operation"
    "remaining_at (te_execute_at te) (jget envelope ''expiresAt'') = Inr remaining" "0 < remaining" "remaining \<le> 300"
    "sandbox_name te binding = Inr name" "rpc_request_id operation = Inr rid"
    by blast
  then show ?thesis using assms sent [of name rid remaining] by (simp add: rpc_execute_def native_call_def Let_def)
next
  case False
  then have "\<exists>e. rpc_execute te binding operation envelope w = (Inl e, w)"
    unfolding rpc_execute_def
    by (cases "remaining_at (te_execute_at te) (jget envelope ''expiresAt'')"; cases "sandbox_name te binding"; cases "rpc_request_id operation") auto
  then show ?thesis using refused assms by auto
qed

lemma dispatch_stage_cases:
  assumes "dispatch_stage te context operation st w = (r, w')"
  obtains (quiet) e where "r = Inl e" "quiet w w'"
  | (sent) es where "sent_execution te context operation st w es r" "tw_trace w' = tw_trace w @ es" "tw_streams w' = tw_streams w"
proof -
  let ?stage = "t_stage (tw_task w)"
  let ?e = "envelope_of (tw_task w) (tw_prompt w) ?stage context operation st" and ?a = "assignment_of context st"
  obtain w1 where j: "journal (t_openshell (tw_task w)) (jset ''executionId'' (JStr operation) ?stage) w = (Inr (), w1)"
    and w1: "tw_trace w1 = tw_trace w @ [Journal (t_openshell (tw_task w)) (jset ''executionId'' (JStr operation) ?stage)]" "tw_streams w1 = tw_streams w"
    by (simp add: journal_def)
  define w2 where "w2 = w1\<lparr> tw_trace := tw_trace w1 @ [Assign ?a] \<rparr>"
  have d: "dispatch_stage te context operation st w =
      (if \<not> truthy ?stage then (Inl (ValueError ''EXECUTION_STAGE_REQUIRED''), w)
       else if \<not> truthy (jget st ''podUID'') then (Inl (ValueError ''NATIVE_POD_IDENTITY_REQUIRED''), w1)
       else (case validate_envelope ?e ?a (te_now te) of Inl e \<Rightarrow> (Inl e, w1)
         | Inr _ \<Rightarrow> (case te_assign te ?a of Inl e \<Rightarrow> (Inl e, w2)
           | Inr receipt \<Rightarrow> if \<not> py_eq receipt (jset ''assigned'' (JBool True) ?a) then (Inl (ValueError ''NATIVE_ASSIGNMENT_UNVERIFIED''), w2)
               else rpc_execute te (jget context ''bindingId'') operation ?e w2)))"
    using j by (simp add: dispatch_stage_def Let_def io_bind_def native_call_def w2_def split: sum.split)
  have q: "quiet w w" "quiet w w1" "quiet w w2" using w1 by (simp_all add: quiet_def w2_def)
  show ?thesis
  proof (cases "truthy ?stage \<and> truthy (jget st ''podUID'') \<and> validate_envelope ?e ?a (te_now te) = Inr () \<and>
      (\<exists>receipt. te_assign te ?a = Inr receipt \<and> py_eq receipt (jset ''assigned'' (JBool True) ?a))")
    case False
    then have "\<exists>e. r = Inl e \<and> quiet w w'"
      using assms q unfolding d by (auto split: sum.splits if_splits)
    then show ?thesis using quiet by blast
  next
    case True
    then have e: "rpc_execute te (jget context ''bindingId'') operation ?e w2 = (r, w')" using assms unfolding d by auto
    from e show ?thesis
    proof (cases rule: rpc_execute_cases)
      case refused
      then show ?thesis using quiet q(3) by simp
    next
      case (sent name rid remaining)
      have "tw_trace w' = tw_trace w @ [Journal (t_openshell (tw_task w)) (jset ''executionId'' (JStr operation) ?stage), Assign ?a,
          Exec_Sandbox (worker_text (jget context ''bindingId'')) operation (exec_request te name ?e rid) remaining]"
        "tw_streams w' = tw_streams w"
        using sent(4) w1 by (simp_all add: w2_def)
      moreover have "sent_execution te context operation st w [Journal (t_openshell (tw_task w)) (jset ''executionId'' (JStr operation) ?stage), Assign ?a,
          Exec_Sandbox (worker_text (jget context ''bindingId'')) operation (exec_request te name ?e rid) remaining] r"
        using True sent(1-3) unfolding sent_execution_def Let_def by blast
      ultimately show ?thesis using that(2) by blast
    qed
  qed
qed

lemma sent_execution_keys: "sent_execution te context operation st w es r \<Longrightarrow> exec_keys es = [stream_key context operation]"
  by (auto simp: sent_execution_def Let_def stream_key_def)

lemma transport_task_Inr:
  "transport_task allocating context w = (Inr st, w') \<longleftrightarrow>
     w' = w \<and> st = t_openshell (tw_task w) \<and> exact_keys (if allocating then allocation_keys else KEYS) context \<and>
     jget context ''taskId'' = JStr (t_id (tw_task w)) \<and> t_backend (tw_task w) = ''openshell'' \<and> truthy st \<and> holds_items st context"
  by (auto simp: transport_task_def Let_def split: if_splits)

lemma transport_task_world: "snd (transport_task allocating context w) = w"
  by (simp add: transport_task_def Let_def)

lemma native_dispatch_cases:
  assumes "native_dispatch te context operation w = (r, w')"
  obtains (refused) e where "r = Inl e" "w' = w"
  | (stopped) e where "r = Inl e" "map_of (tw_streams w) (stream_key context operation) = None" "exec_keys (tw_trace w') = exec_keys (tw_trace w)"
      "map_of (tw_streams w') (stream_key context operation) \<noteq> None" "\<And>k. k \<noteq> stream_key context operation \<Longrightarrow> map_of (tw_streams w') k = map_of (tw_streams w) k"
  | (sent) st es out where "transport_task False context w = (Inr st, w)" "dispatch_reserved st operation"
      "map_of (tw_streams w) (stream_key context operation) = None" "sent_execution te context operation st w es out"
      "tw_trace w' = tw_trace w @ es" "case out of Inl e \<Rightarrow> r = Inl e | Inr stream \<Rightarrow> r = Inr (dispatch_receipt context operation)"
      "map_of (tw_streams w') (stream_key context operation) \<noteq> None" "\<And>k. k \<noteq> stream_key context operation \<Longrightarrow> map_of (tw_streams w') k = map_of (tw_streams w) k"
proof (cases "\<exists>st. transport_task False context w = (Inr st, w) \<and> dispatch_reserved st operation \<and> map_of (tw_streams w) (stream_key context operation) = None")
  case False
  have "fst (transport_task False context w) = Inl e \<Longrightarrow> transport_task False context w = (Inl e, w)" for e
    using transport_task_world [of False "context" w] by (simp add: prod_eq_iff)
  then have "\<exists>e. native_dispatch te context operation w = (Inl e, w)"
    using False transport_task_world [of False "context" w] unfolding native_dispatch_def
    by (cases "transport_task False context w"; cases "fst (transport_task False context w)") (auto simp: io_bind_def known_stream_def)
  then show ?thesis using refused assms by auto
next
  case True
  then obtain st where st: "transport_task False context w = (Inr st, w)" "dispatch_reserved st operation" "map_of (tw_streams w) (stream_key context operation) = None"
    by blast
  let ?k = "stream_key context operation" and ?w1 = "w\<lparr> tw_streams := AList.update (stream_key context operation) None (tw_streams w) \<rparr>"
  have d: "native_dispatch te context operation w =
      (case dispatch_stage te context operation st ?w1 of (Inl e, w2) \<Rightarrow> (Inl e, w2)
       | (Inr stream, w2) \<Rightarrow> (Inr (dispatch_receipt context operation), w2\<lparr> tw_streams := AList.update ?k (Some stream) (tw_streams w2) \<rparr>))"
    using st by (simp add: native_dispatch_def io_bind_def known_stream_def set_stream_def split: prod.splits sum.splits)
  obtain out w2 where o: "dispatch_stage te context operation st ?w1 = (out, w2)" by fastforce
  have same: "sent_execution te context operation st ?w1 es out = sent_execution te context operation st w es out" for es
    by (simp add: sent_execution_def)
  from o show ?thesis
  proof (cases rule: dispatch_stage_cases)
    case (quiet e)
    then show ?thesis using assms o st(3) that(2) unfolding d by (auto simp: quiet_def update_conv')
  next
    case (sent es)
    then show ?thesis using assms o st that(3) [of st es out] unfolding d same by (auto simp: update_conv' split: sum.splits)
  qed
qed

text \<open>Any sequence of the transport's calls, with the broker's other changes of the task in between.\<close>

inductive transport_step :: "transport_world \<Rightarrow> transport_world \<Rightarrow> bool" where
  allocates: "transport_step w (snd (native_allocate te context operation expires w))"
| looks_up: "transport_step w (snd (native_lookup te context operation w))"
| dispatches: "transport_step w (snd (native_dispatch te context operation w))"
| stops: "transport_step w (snd (native_stop te context operation w))"
| checks: "transport_step w (snd (native_absent te context operation w))"
| reads: "transport_step w (snd (native_events context operation w))"
| others: "transport_step w (w\<lparr> tw_task := t, tw_prompt := p \<rparr>)"

definition executed_once :: "transport_world \<Rightarrow> bool" where
  "executed_once w =
     (distinct (exec_keys (tw_trace w)) \<and> list_all (\<lambda>k. map_of (tw_streams w) k \<noteq> None) (exec_keys (tw_trace w)))"

lemma quiet_once: "quiet w w' \<Longrightarrow> executed_once w \<Longrightarrow> executed_once w'"
  by (simp add: quiet_def executed_once_def)

lemma native_dispatch_once:
  assumes "native_dispatch te context operation w = (r, w')" "executed_once w"
  shows "executed_once w'"
  using assms(1)
proof (cases rule: native_dispatch_cases)
  case (stopped e)
  then have "map_of (tw_streams w') k \<noteq> None" if "map_of (tw_streams w) k \<noteq> None" for k
    using that by (cases "k = stream_key context operation") auto
  then show ?thesis using assms(2) stopped by (auto simp: executed_once_def list_all_iff)
next
  case (sent st es out)
  have "map_of (tw_streams w') k \<noteq> None" if "map_of (tw_streams w) k \<noteq> None" for k
    using that sent by (cases "k = stream_key context operation") auto
  moreover have "stream_key context operation \<notin> set (exec_keys (tw_trace w))"
    using assms(2) sent(3) by (auto simp: executed_once_def list_all_iff)
  ultimately show ?thesis using assms(2) sent sent_execution_keys [OF sent(4)]
    by (auto simp: executed_once_def list_all_iff)
qed (use assms(2) in simp)

lemma transport_step_once: "transport_step w w' \<Longrightarrow> executed_once w \<Longrightarrow> executed_once w'"
proof (induction rule: transport_step.induct)
  case (dispatches w te "context" operation)
  obtain r w1 where "native_dispatch te context operation w = (r, w1)" by fastforce
  then show ?case using native_dispatch_once dispatches by fastforce
next
  case (reads w "context" operation)
  have "snd (native_events context operation w) = w"
    using transport_task_world [of False "context" w]
    by (auto simp: native_events_def split: prod.splits sum.splits option.splits)
  then show ?case using reads by simp
next
  case (others w t p)
  then show ?case by (simp add: executed_once_def)
qed (use quiet_operations in \<open>blast intro: quiet_once dest: io_keepsD [OF _ surjective_pairing]\<close>)+

interpretation transport_runs: step_invariant transport_step executed_once
  by unfold_locales (rule transport_step_once)

lemma native_call_InrD: "native_call e r w = (Inr x, w') \<Longrightarrow> r = Inr x \<and> w' = w\<lparr> tw_trace := tw_trace w @ [e] \<rparr>"
  by (simp add: native_call_def)

section \<open>Properties\<close>


text \<open>C18: A dispatch executes only for the journalled binding while exactly this operation is reserved, neither fenced nor
  revoked, with an envelope that the worker's own validation accepts for the assignment the supervisor confirmed; and it
  reports success only when the gateway accepted that one execution.\<close>

theorem native_dispatch_is_bound:
  assumes "native_dispatch te context operation w = (r, w')"
  shows "if exec_keys (tw_trace w') = exec_keys (tw_trace w) then \<exists>e. r = Inl e
    else \<exists>es out. tw_trace w' = tw_trace w @ es \<and> sent_execution te context operation (t_openshell (tw_task w)) w es out \<and>
      holds_items (t_openshell (tw_task w)) context \<and> dispatch_reserved (t_openshell (tw_task w)) operation \<and>
      (is_ok r \<longleftrightarrow> is_ok out) \<and> (is_ok r \<longrightarrow> r = Inr (dispatch_receipt context operation))"
  using assms
proof (cases rule: native_dispatch_cases)
  case (sent st es out)
  then have "exec_keys (tw_trace w') \<noteq> exec_keys (tw_trace w)" using sent_execution_keys [OF sent(4)] by simp
  moreover have "st = t_openshell (tw_task w)" "holds_items st context" using sent(1) by (auto simp: transport_task_Inr)
  moreover have "is_ok r \<longleftrightarrow> is_ok out" "is_ok r \<longrightarrow> r = Inr (dispatch_receipt context operation)" using sent(6) by (auto split: sum.splits)
  ultimately show ?thesis using sent by auto
qed auto

text \<open>A stop is reported only for a reserved, fenced and revoked binding with a known pod, and only when the supervisor
  returned the receipt of exactly this assignment and operation; the streams of the binding are cancelled first and the
  gateway itself is asked for nothing.\<close>

theorem native_stop_is_exact:
  assumes "native_stop te context operation w = (Inr reply, w')"
  shows "reply = stop_reply context operation ''stopped'' \<and>
    (let st = t_openshell (tw_task w); assigned = with_pod context st in
     stop_bound st operation \<and> truthy (jget st ''fenced'') \<and> truthy (jget st ''revoked'') \<and> holds_items st context \<and>
     (\<exists>receipt cancels. te_stop te assigned operation = Inr receipt \<and> py_eq receipt (exact_reply assigned operation ''stopped'') \<and>
        tw_trace w' = tw_trace w @ cancels @ [Stop_Native assigned operation] \<and>
        list_all (\<lambda>e. \<exists>k. e = Cancel_Stream (worker_text (jget context ''bindingId'')) k) cancels))"
proof -
  let ?st = "t_openshell (tw_task w)"
  let ?a = "with_pod context ?st"
  obtain st w0 where st0: "transport_task False context w = (Inr st, w0)" and body0: "(if \<not> stop_bound st operation \<or> \<not> truthy (jget st ''fenced'') \<or> \<not> truthy (jget st ''revoked'')
      then io_raise (ValueError ''UNRESERVED_EXACT_NATIVE_STOP'')
      else io_bind (cancel_streams (worker_text (jget context ''bindingId''))) (\<lambda>_.
        io_bind (native_call (Stop_Native (with_pod context st) operation) (te_stop te (with_pod context st) operation)) (\<lambda>receipt.
        if \<not> py_eq receipt (exact_reply (with_pod context st) operation ''stopped'') then io_raise (ValueError ''EXACT_NATIVE_STOP_UNVERIFIED'')
        else io_return (stop_reply context operation ''stopped'')))) w0 = (Inr reply, w')"
    using io_bind_InrD [OF assms [unfolded native_stop_def]] by blast
  have w0: "w0 = w" using st0 by (simp add: transport_task_Inr)
  note st = st0 [unfolded w0] and body = body0 [unfolded w0]
  have eq: "st = ?st" and h: "holds_items ?st context" using st by (auto simp: transport_task_Inr)
  have bound: "stop_bound ?st operation" "truthy (jget ?st ''fenced'')" "truthy (jget ?st ''revoked'')"
    and rest: "io_bind (cancel_streams (worker_text (jget context ''bindingId''))) (\<lambda>_.
        io_bind (native_call (Stop_Native ?a operation) (te_stop te ?a operation)) (\<lambda>receipt.
        if \<not> py_eq receipt (exact_reply ?a operation ''stopped'') then io_raise (ValueError ''EXACT_NATIVE_STOP_UNVERIFIED'')
        else io_return (stop_reply context operation ''stopped''))) w = (Inr reply, w')"
    using body unfolding eq by (auto split: if_splits)
  define cancels where "cancels = map (\<lambda>((b, operation), _). Cancel_Stream b operation)
    (filter (\<lambda>((b, _), stream). b = worker_text (jget context ''bindingId'') \<and> stream \<noteq> None) (tw_streams w))"
  have c: "cancel_streams (worker_text (jget context ''bindingId'')) w = (Inr (), w\<lparr> tw_trace := tw_trace w @ cancels \<rparr>)"
    by (simp add: cancel_streams_def cancels_def)
  have only: "list_all (\<lambda>e. \<exists>k. e = Cancel_Stream (worker_text (jget context ''bindingId'')) k) cancels"
    by (auto simp: cancels_def list_all_iff)
  have rest': "io_bind (native_call (Stop_Native ?a operation) (te_stop te ?a operation)) (\<lambda>receipt.
      if \<not> py_eq receipt (exact_reply ?a operation ''stopped'') then io_raise (ValueError ''EXACT_NATIVE_STOP_UNVERIFIED'')
      else io_return (stop_reply context operation ''stopped'')) (w\<lparr> tw_trace := tw_trace w @ cancels \<rparr>) = (Inr reply, w')"
    using rest by (simp only: io_bind_def [of "cancel_streams _"] c prod.case sum.case)
  obtain receipt w2 where n: "native_call (Stop_Native ?a operation) (te_stop te ?a operation) (w\<lparr> tw_trace := tw_trace w @ cancels \<rparr>) = (Inr receipt, w2)"
    and e: "(if \<not> py_eq receipt (exact_reply ?a operation ''stopped'') then io_raise (ValueError ''EXACT_NATIVE_STOP_UNVERIFIED'')
        else io_return (stop_reply context operation ''stopped'')) w2 = (Inr reply, w')"
    using io_bind_InrD [OF rest'] by blast
  have f: "reply = stop_reply context operation ''stopped''" "py_eq receipt (exact_reply ?a operation ''stopped'')" "w' = w2"
    using e by (auto split: if_splits)
  have "te_stop te ?a operation = Inr receipt" "tw_trace w2 = tw_trace w @ cancels @ [Stop_Native ?a operation]"
    using native_call_InrD [OF n] by auto
  then show ?thesis using f bound h only unfolding Let_def by blast
qed

section \<open>Examples\<close>

definition transport_context :: json where
  "transport_context = JObj [(''subject'', JStr ''s''), (''generation'', JStr ''g''), (''taskId'', JStr ''t1''), (''project'', JStr ''p''),
     (''bindingId'', JStr (replicate 32 CHR ''b'')), (''workerUID'', JStr ''W1'')]"

definition transport_state :: "string \<Rightarrow> json" where
  "transport_state phase = JObj (obj_items transport_context @ [(''podUID'', JStr ''pod''), (''expiresAt'', JInt 100),
     (''phase'', JStr phase), (''operationId'', JStr operation_example), (''stopOperationId'', JStr operation_example),
     (''fenced'', JBool (phase = ''stop-reserved'')), (''revoked'', JBool (phase = ''stop-reserved''))])"

definition transport_example :: "string \<Rightarrow> transport_world" where
  "transport_example phase = \<lparr> tw_task = ex_shell_task\<lparr> t_id := ''t1'', t_openshell := transport_state phase,
       t_stage := JObj [(''runtime'', JStr ''claude''), (''correlationId'', JStr (replicate 32 CHR ''c''))] \<rparr>,
     tw_prompt = JStr ''x'', tw_streams = [], tw_trace = [] \<rparr>"

definition transport_env_example :: transport_env where
  "transport_env_example = \<lparr> te_sha = (\<lambda>s. s), te_workspace = ''ws'', te_now = 10, te_execute_at = 11, te_spec = (\<lambda>_ _. Inr (JObj [])),
     te_create = (\<lambda>_. Inr None), te_get = (\<lambda>_. Inr None), te_exec = (\<lambda>_. Inr [Stream_Output ''hi'', Stream_Exit 0]),
     te_observe = (\<lambda>i st. (Inr i, st)), te_assign = (\<lambda>a. Inr (jset ''assigned'' (JBool True) a)),
     te_stop = (\<lambda>a operation. Inr (exact_reply a operation ''stopped'')), te_absent = (\<lambda>a operation. Inr (exact_reply a operation ''absent'')) \<rparr>"

definition dispatched_example :: "json res \<times> transport_world" where
  "dispatched_example = native_dispatch transport_env_example transport_context operation_example (transport_example ''dispatch-reserved'')"

lemma example_dispatched: "exec_keys (tw_trace (snd dispatched_example)) = [(replicate 32 CHR ''b'', operation_example)]"
  by code_simp

definition stopped_example :: "json res \<times> transport_world" where
  "stopped_example = native_stop transport_env_example transport_context operation_example (transport_example ''stop-reserved'')"

lemma example_stopped: "fst stopped_example = Inr (stop_reply transport_context operation_example ''stopped'')"
  by code_simp


theorem native_dispatch_is_bound_witness:
  "\<exists>es out. tw_trace (snd dispatched_example) = es \<and>
     sent_execution transport_env_example transport_context operation_example (transport_state ''dispatch-reserved'') (transport_example ''dispatch-reserved'') es out"
proof -
  have "native_dispatch transport_env_example transport_context operation_example (transport_example ''dispatch-reserved'') =
      (fst dispatched_example, snd dispatched_example)" by (simp add: dispatched_example_def)
  from native_dispatch_is_bound [OF this] show ?thesis
    using example_dispatched by (auto simp: transport_example_def split: if_splits)
qed

theorem native_stop_is_exact_witness:
  "\<exists>assigned receipt cancels. te_stop transport_env_example assigned operation_example = Inr receipt \<and>
     tw_trace (snd stopped_example) = cancels @ [Stop_Native assigned operation_example]"
proof -
  have "native_stop transport_env_example transport_context operation_example (transport_example ''stop-reserved'') =
      (Inr (stop_reply transport_context operation_example ''stopped''), snd stopped_example)"
    using example_stopped by (simp add: stopped_example_def prod_eq_iff)
  from native_stop_is_exact [OF this] show ?thesis by (auto simp: transport_example_def Let_def)
qed


end
