(* ===== verification/Openshell_Bootstrap.thy ===== *)
theory Openshell_Bootstrap imports Openshell_Binding Sdk_Admission begin

text \<open>
  The server admission of OpenShell, \<open>scripts/openshell_bootstrap.py\<close>: an absent configuration leaves OpenShell
  off, and a present one is bound to images, sources, policy and, for production, to the evidence of 25 gates.
  The operating system's files, the JSON reader, SHA-256, the clock and the loaded factory are parameters.
\<close>

section \<open>Protected files\<close>

definition ADMISSION_ROOTS :: "string list" where
  "ADMISSION_ROOTS = [''/opt/dsh/'', ''/etc/dsh-native-admission/'']"

definition IMAGE_ROLES :: "string list" where
  "IMAGE_ROLES = [''gateway'', ''sandbox'', ''supervisor'', ''worker'', ''controller'']"

definition protected_text :: "string \<Rightarrow> bool" where
  "protected_text s = (list_ex (\<lambda>r. startswith r s) ADMISSION_ROOTS \<and> ''..'' \<notin> set (path_parts s) \<and> backslash \<notin> set s)"

definition protected_admission_path :: "json \<Rightarrow> string res" where
  "protected_admission_path v =
     (case v of
        JStr s \<Rightarrow> if protected_text s then Inr s else Inl (ValueError ''UNPROTECTED_ADMISSION_PATH'')
      | _ \<Rightarrow> Inl (ValueError ''UNPROTECTED_ADMISSION_PATH''))"

text \<open>The given function opens the path without following a link.\<close>

definition read_admission :: "(string \<Rightarrow> (file_info \<times> string) res) \<Rightarrow> string \<Rightarrow> string res" where
  "read_admission opened p =
     res_bind (protected_admission_path (JStr p)) (\<lambda>_.
     res_bind (opened p) (\<lambda>(i, raw).
     if \<not> fi_regular i \<or> fi_owner i \<noteq> 0 \<or> fi_others_write i then Inl (ValueError ''UNPROTECTED_ADMISSION_FILE'')
     else if 1048576 < length raw then Inl (ValueError ''ADMISSION_FILE_TOO_LARGE'') else Inr raw))"

record admission_source =
  as_read :: "string \<Rightarrow> string res"
  as_loads :: "string \<Rightarrow> json res"
  as_sha :: "string \<Rightarrow> string"
  as_now :: rat

section \<open>The evidence\<close>

definition checked_evidence :: "admission_source \<Rightarrow> json \<Rightarrow> string res" where
  "checked_evidence a b =
     res_bind (require (exact_keys [''path'', ''sha256''] b \<and> exact_hash (jget b ''sha256''))
       (ValueError ''INVALID_NATIVE_EVIDENCE_BINDING'')) (\<lambda>_.
     res_bind (protected_admission_path (jget b ''path'')) (\<lambda>p.
     res_bind (as_read a p) (\<lambda>raw.
     if raw = [] \<or> JStr (as_sha a raw) \<noteq> jget b ''sha256'' then Inl (ValueError ''NATIVE_EVIDENCE_HASH_MISMATCH'') else Inr raw)))"

definition gate_ids :: "json list" where
  "gate_ids = map (\<lambda>i. JStr (CHR ''T'' # (if i < 10 then ''0'' else []) @ decimal i)) [1..<26]"

text \<open>\<open>len(gates)\<close>, and iteration over \<open>gates\<close>: the letters of a text and the keys of a dictionary are texts,
  which have no \<open>get\<close>.\<close>

definition gate_count :: "json \<Rightarrow> nat res" where
  "gate_count v =
     (case v of JList xs \<Rightarrow> Inr (length xs) | JStr s \<Rightarrow> Inr (length s) | JObj kvs \<Rightarrow> Inr (length kvs) | _ \<Rightarrow> Inl (TypeError ''len''))"

definition gate_list :: "json \<Rightarrow> json list" where
  "gate_list v = (case v of JList xs \<Rightarrow> xs | JStr s \<Rightarrow> map (\<lambda>c. JStr [c]) s | JObj kvs \<Rightarrow> map (JStr \<circ> fst) kvs | _ \<Rightarrow> [])"

definition gate_id :: "json \<Rightarrow> json res" where
  "gate_id g = res_bind (py_get g ''id'') (\<lambda>v. if is_list v \<or> is_obj v then Inl (TypeError ''unhashable'') else Inr v)"

definition complete_gates :: "json \<Rightarrow> json list res" where
  "complete_gates v =
     res_bind (gate_count v) (\<lambda>n.
     if n \<noteq> 25 then Inl (ValueError ''NATIVE25_ACCEPTANCE_INCOMPLETE'')
     else
       res_bind (res_map gate_id (gate_list v)) (\<lambda>ids.
       if set ids \<noteq> set gate_ids \<or> list_ex (\<lambda>g. jget g ''result'' \<noteq> JStr ''PASSED'') (gate_list v)
       then Inl (ValueError ''NATIVE25_ACCEPTANCE_INCOMPLETE'') else Inr (gate_list v)))"

definition gate_evidence :: "admission_source \<Rightarrow> json \<Rightarrow> json res" where
  "gate_evidence a g =
     res_bind (py_idx g ''evidence'') (\<lambda>b. res_bind (checked_evidence a b) (\<lambda>_. Inr (jget b ''path'')))"

definition receipt_bound :: "json \<Rightarrow> json \<Rightarrow> bool" where
  "receipt_bound c receipt =
     (jget receipt ''kind'' = JStr ''DSH_OPENSHELL_NATIVE25_ACCEPTANCE_V1'' \<and> py_eq (jget receipt ''imageLock'') (jget c ''imageLock'') \<and>
      py_eq (jget receipt ''policySha256'') (jget c ''policySha256'') \<and>
      py_eq (jget receipt ''transportSha256'') (jget c ''transportSha256'') \<and>
      py_eq (jget receipt ''sourceCommit'') (jget c ''sourceCommit'') \<and>
      (case jget receipt ''acceptedBy'' of JStr s \<Rightarrow> strip s \<noteq> [] | _ \<Rightarrow> False))"

definition check_rollback :: "admission_source \<Rightarrow> json \<Rightarrow> json list \<Rightarrow> unit res" where
  "check_rollback a receipt paths =
     res_bind (py_get_or receipt ''rollback'' (JObj [])) (\<lambda>rollback.
     res_bind (py_get rollback ''result'') (\<lambda>result.
     res_bind (require (result = JStr ''PASSED'') (ValueError ''NATIVE_ROLLBACK_INCOMPLETE'')) (\<lambda>_.
     res_bind (gate_evidence a rollback) (\<lambda>p.
     require (p \<notin> set paths) (ValueError ''NATIVE_ROLLBACK_EVIDENCE_REUSED'')))))"

definition check_acceptance :: "json \<Rightarrow> admission_source \<Rightarrow> unit res" where
  "check_acceptance c a =
     res_bind (res_bind (checked_evidence a (jget c ''acceptance'')) (as_loads a)) (\<lambda>receipt.
     res_bind (py_get receipt ''kind'') (\<lambda>_.
     res_bind (require (receipt_bound c receipt) (ValueError ''NATIVE_ACCEPTANCE_IDENTITY_MISMATCH'')) (\<lambda>_.
     res_bind (py_get_or receipt ''gates'' (JList [])) (\<lambda>v.
     res_bind (complete_gates v) (\<lambda>gates.
     res_bind (res_map (gate_evidence a) gates) (\<lambda>paths.
     res_bind (require (card (set paths) = 25) (ValueError ''NATIVE_GATE_EVIDENCE_REUSED'')) (\<lambda>_.
     check_rollback a receipt paths)))))))"

section \<open>The admission\<close>

definition admission_keys :: "string list" where
  "admission_keys = [''kind'', ''mode'', ''subject'', ''generation'', ''expiresAt'', ''namespace'', ''sourceCommit'',
     ''imageLock'', ''policySha256'', ''transportModule'', ''transportSha256'', ''acceptance'']"

definition admission_mode :: "json \<Rightarrow> unit res" where
  "admission_mode m =
     (if is_list m \<or> is_obj m then Inl (TypeError ''unhashable'')
      else require (m = JStr ''qualification'' \<or> m = JStr ''production'') (ValueError ''INVALID_NATIVE_MODE''))"

definition float_or_int :: "json \<Rightarrow> bool" where
  "float_or_int v = (case v of JInt _ \<Rightarrow> True | JFlt _ \<Rightarrow> True | JInf _ \<Rightarrow> True | JNaN \<Rightarrow> True | _ \<Rightarrow> False)"

definition in_window :: "rat \<Rightarrow> json \<Rightarrow> bool" where
  "in_window now v = (case finite_number v of Some x \<Rightarrow> 0 < x - now \<and> x - now \<le> 3600 | None \<Rightarrow> False)"

definition mode_namespace :: "json \<Rightarrow> json" where
  "mode_namespace m = JStr (if m = JStr ''qualification'' then ''dsh-openshell-test-20261028'' else ''dsh-openshell'')"

definition source_pin :: "json \<Rightarrow> bool" where
  "source_pin v = (case v of JStr s \<Rightarrow> hex_id 40 s \<and> s \<noteq> replicate 40 CHR ''0'' | _ \<Rightarrow> False)"

definition locked_image :: "json \<Rightarrow> bool" where
  "locked_image v = (case v of JStr s \<Rightarrow> startswith ''sha256:'' s \<and> exact_hash (JStr (drop 7 s)) | _ \<Rightarrow> False)"

definition locked :: "json \<Rightarrow> bool" where
  "locked c = (exact_keys IMAGE_ROLES (jget c ''imageLock'') \<and> list_all (locked_image \<circ> snd) (obj_items (jget c ''imageLock'')) \<and>
     exact_hash (jget c ''policySha256'') \<and> exact_hash (jget c ''transportSha256''))"

definition admit_config :: "rat \<Rightarrow> json \<Rightarrow> unit res" where
  "admit_config now c =
     res_bind (require (exact_keys admission_keys c \<and> jget c ''kind'' = JStr ''DSH_OPENSHELL_SERVER_ADMISSION_V1'')
       (ValueError ''INVALID_NATIVE_ADMISSION'')) (\<lambda>_.
     res_bind (admission_mode (jget c ''mode'')) (\<lambda>_.
     res_bind (require (float_or_int (jget c ''expiresAt'')) (ValueError ''INVALID_NATIVE_ADMISSION_EXPIRY'')) (\<lambda>_.
     res_bind (require (in_window now (jget c ''expiresAt'')) (ValueError ''NATIVE_ADMISSION_EXPIRED_OR_TOO_LONG'')) (\<lambda>_.
     res_bind (require (jget c ''namespace'' = mode_namespace (jget c ''mode'')) (ValueError ''INVALID_NATIVE_NAMESPACE'')) (\<lambda>_.
     res_bind (require (source_pin (jget c ''sourceCommit'')) (ValueError ''INVALID_NATIVE_SOURCE_PIN'')) (\<lambda>_.
     require (locked c) (ValueError ''INVALID_NATIVE_IMAGE_OR_SOURCE_LOCK'')))))))"

definition admit_mode :: "json \<Rightarrow> admission_source \<Rightarrow> unit res" where
  "admit_mode c a =
     (if jget c ''mode'' = JStr ''production'' then check_acceptance c a
      else require (jget c ''acceptance'' = JNull) (ValueError ''QUALIFICATION_CANNOT_CLAIM_PRODUCTION_ACCEPTANCE''))"

definition transport_source :: "json \<Rightarrow> admission_source \<Rightarrow> (string \<times> string) res" where
  "transport_source c a =
     res_bind (protected_admission_path (jget c ''transportModule'')) (\<lambda>p.
     res_bind (require (startswith ''/opt/dsh/scripts/'' p \<and> endswith ''.py'' p) (ValueError ''INVALID_NATIVE_TRANSPORT_MODULE'')) (\<lambda>_.
     res_bind (as_read a p) (\<lambda>source.
     res_bind (require (JStr (as_sha a source) = jget c ''transportSha256'') (ValueError ''NATIVE_TRANSPORT_HASH_MISMATCH'')) (\<lambda>_.
     Inr (p, source)))))"

definition admit_server :: "admission_source \<Rightarrow> string \<Rightarrow> (json \<times> string \<times> string) res" where
  "admit_server a p =
     res_bind (protected_admission_path (JStr p)) (\<lambda>q.
     res_bind (res_bind (as_read a q) (as_loads a)) (\<lambda>c.
     res_bind (admit_config (as_now a) c) (\<lambda>_.
     res_bind (admit_mode c a) (\<lambda>_.
     res_bind (transport_source c a) (\<lambda>(m, source).
     res_bind (require (id_token (jget c ''subject'') \<and> id_token (jget c ''generation'')) (ValueError ''INVALID_SERVER_IDENTITY'')) (\<lambda>_.
     Inr (c, m, source)))))))"

text \<open>\<open>registry.tasks\<close> with their bindings, and \<open>server.openshell_service\<close> with its transport.\<close>

record shell_server =
  sv_shells :: "shell list"
  sv_service :: "(shell_service \<times> transport) option"

definition build_service :: "(string \<Rightarrow> string \<Rightarrow> json \<Rightarrow> transport option res) \<Rightarrow> json \<times> string \<times> string \<Rightarrow> (shell_service \<times> transport) res" where
  "build_service factory = (\<lambda>(c, m, source).
     res_bind (factory m source c) (\<lambda>built.
     case built of
       None \<Rightarrow> Inl (ValueError ''UNAPPROVED_NATIVE_TRANSPORT'')
     | Some tp \<Rightarrow>
         res_bind (new_service (jget c ''subject'') (jget c ''generation'') True (finite_number (jget c ''expiresAt'')))
           (\<lambda>service. Inr (service, tp))))"

text \<open>\<open>configure\<close>: \<open>Inr False\<close> without a path; the moments are the clock readings of the recovery.\<close>

definition configure_openshell :: "admission_source \<Rightarrow> (string \<Rightarrow> string \<Rightarrow> json \<Rightarrow> transport option res) \<Rightarrow> (event \<Rightarrow> int) \<Rightarrow>
    moment list \<Rightarrow> string \<Rightarrow> shell_server \<Rightarrow> bool res \<times> shell_server" where
  "configure_openshell a factory width ms p sv =
     (if p = [] then (Inr False, sv)
      else
        (case res_bind (admit_server a p) (build_service factory) of
           Inl e \<Rightarrow> (Inl e, sv)
         | Inr (service, tp) \<Rightarrow>
             (case recover_pending width service tp ms (sv_shells sv) of
                (Inl e, ws) \<Rightarrow> (Inl e, sv\<lparr> sv_shells := ws \<rparr>)
              | (Inr _, ws) \<Rightarrow> (Inr True, \<lparr> sv_shells = ws, sv_service = Some (service, tp) \<rparr>))))"

section \<open>Lemmas\<close>

definition evidence_held :: "admission_source \<Rightarrow> json \<Rightarrow> bool" where
  "evidence_held a b = (\<exists>p raw. jget b ''path'' = JStr p \<and> protected_text p \<and> as_read a p = Inr raw \<and> raw \<noteq> [] \<and>
     jget b ''sha256'' = JStr (as_sha a raw))"

lemma admission_path: "protected_admission_path v = Inr p \<longleftrightarrow> v = JStr p \<and> protected_text p"
  by (cases v) (auto simp: protected_admission_path_def)

lemma evidence: "checked_evidence a b = Inr raw \<Longrightarrow> evidence_held a b"
  by (auto simp: checked_evidence_def evidence_held_def res_bind_Inr_iff admission_path split: if_splits)

lemma gate_evidence: "gate_evidence a g = Inr v \<Longrightarrow> v = jget (jget g ''evidence'') ''path'' \<and> evidence_held a (jget g ''evidence'')"
  by (auto simp: gate_evidence_def res_bind_Inr_iff py_access dest: evidence)

lemma gate_id: "gate_id g = Inr v \<Longrightarrow> is_obj g \<and> v = jget g ''id''"
  by (auto simp: gate_id_def res_bind_Inr_iff py_access split: if_splits)

lemma res_map_image: "res_map f xs = Inr ys \<Longrightarrow> (\<And>x y. f x = Inr y \<Longrightarrow> y = g x) \<Longrightarrow> ys = map g xs"
  by (induction xs arbitrary: ys) (auto split: sum.splits)

lemma gate_ids_card: "card (set gate_ids) = 25"
  by code_simp

lemma gates: assumes "complete_gates v = Inr gs"
  shows "length gs = 25 \<and> set (map (\<lambda>g. jget g ''id'') gs) = set gate_ids \<and> list_all (\<lambda>g. jget g ''result'' = JStr ''PASSED'') gs"
proof -
  from assms obtain ids where i: "gate_count v = Inr 25" "res_map gate_id (gate_list v) = Inr ids" "set ids = set gate_ids"
    "\<not> list_ex (\<lambda>g. jget g ''result'' \<noteq> JStr ''PASSED'') (gate_list v)" "gs = gate_list v"
    by (auto simp: complete_gates_def res_bind_Inr_iff split: if_splits)
  have "ids = map (\<lambda>g. jget g ''id'') (gate_list v)" by (rule res_map_image [OF i(2)]) (use gate_id in blast)
  moreover have "length (gate_list v) = 25" using i(1) by (auto simp: gate_count_def gate_list_def split: json.splits)
  ultimately show ?thesis using i by (auto simp: list_all_iff list_ex_iff)
qed

text \<open>What an accepted receipt shows: 25 gates that passed, each with evidence of its own, and a rollback.\<close>

definition accepted_receipt :: "admission_source \<Rightarrow> json \<Rightarrow> json \<Rightarrow> json list \<Rightarrow> bool" where
  "accepted_receipt a c receipt gs =
     (receipt_bound c receipt \<and> length gs = 25 \<and> distinct (map (\<lambda>g. jget g ''id'') gs) \<and>
      list_all (\<lambda>g. jget g ''result'' = JStr ''PASSED'' \<and> evidence_held a (jget g ''evidence'')) (jget receipt ''rollback'' # gs) \<and>
      distinct (map (\<lambda>g. jget (jget g ''evidence'') ''path'') (jget receipt ''rollback'' # gs)))"

lemma rollback: "check_rollback a receipt paths = Inr u \<Longrightarrow> jget (jget receipt ''rollback'') ''result'' = JStr ''PASSED'' \<and>
    evidence_held a (jget (jget receipt ''rollback'') ''evidence'') \<and> jget (jget (jget receipt ''rollback'') ''evidence'') ''path'' \<notin> set paths"
  by (auto simp: check_rollback_def res_bind_Inr_iff py_get_or_def py_access dest!: gate_evidence split: if_splits)

lemma accepted:
  assumes "check_acceptance c a = Inr u"
  shows "evidence_held a (jget c ''acceptance'') \<and> (\<exists>raw receipt gs. as_loads a raw = Inr receipt \<and>
    jget (jget c ''acceptance'') ''sha256'' = JStr (as_sha a raw) \<and> accepted_receipt a c receipt gs)"
proof -
  from assms obtain raw receipt v gs paths where r: "checked_evidence a (jget c ''acceptance'') = Inr raw" "as_loads a raw = Inr receipt"
    "receipt_bound c receipt" "complete_gates v = Inr gs" "res_map (gate_evidence a) gs = Inr paths" "card (set paths) = 25"
    "check_rollback a receipt paths = Inr u"
    unfolding check_acceptance_def res_bind_Inr_iff require_Inr by blast
  note g = gates [OF r(4)]
  have p: "paths = map (\<lambda>g. jget (jget g ''evidence'') ''path'') gs"
    by (rule res_map_image [OF r(5)]) (use gate_evidence in blast)
  have "list_all (\<lambda>g. evidence_held a (jget g ''evidence'')) gs"
    using res_map_Inr [OF r(5)] gate_evidence by (auto simp: list_all_length)
  moreover have "distinct paths" using r(6) g p by (intro card_distinct) simp
  moreover have "distinct (map (\<lambda>g. jget g ''id'') gs)" using g gate_ids_card by (intro card_distinct) simp
  ultimately have "accepted_receipt a c receipt gs"
    using r(3) g rollback [OF r(7)] p by (auto simp: accepted_receipt_def list_all_iff)
  moreover have "jget (jget c ''acceptance'') ''sha256'' = JStr (as_sha a raw)"
    using r(1) by (auto simp: checked_evidence_def res_bind_Inr_iff split: if_splits)
  ultimately show ?thesis using evidence [OF r(1)] r(2) by blast
qed

definition config_admitted :: "rat \<Rightarrow> json \<Rightarrow> bool" where
  "config_admitted now c =
     (exact_keys admission_keys c \<and> (jget c ''mode'' = JStr ''qualification'' \<or> jget c ''mode'' = JStr ''production'') \<and>
      in_window now (jget c ''expiresAt'') \<and> jget c ''namespace'' = mode_namespace (jget c ''mode'') \<and>
      source_pin (jget c ''sourceCommit'') \<and> locked c)"

lemma admitted_config: "admit_config now c = Inr u \<Longrightarrow> config_admitted now c"
  unfolding admit_config_def res_bind_Inr_iff require_Inr config_admitted_def
  by (auto simp: admission_mode_def split: if_splits)

lemma source_of_transport: "transport_source c a = Inr (m, source) \<Longrightarrow> protected_text m \<and> startswith ''/opt/dsh/scripts/'' m \<and>
    jget c ''transportModule'' = JStr m \<and> as_read a m = Inr source \<and> jget c ''transportSha256'' = JStr (as_sha a source)"
  by (auto simp: transport_source_def res_bind_Inr_iff admission_path)

lemma admitted_server:
  assumes "admit_server a p = Inr (c, m, source)"
  shows "protected_text p \<and> (\<exists>raw. as_read a p = Inr raw \<and> as_loads a raw = Inr c) \<and> config_admitted (as_now a) c \<and>
    admit_mode c a = Inr () \<and> transport_source c a = Inr (m, source)"
  using assms unfolding admit_server_def res_bind_Inr_iff require_Inr
  by (auto simp: admission_path dest!: admitted_config)

lemma configured_shell:
  assumes "configure_openshell a factory width ms p sv = (out, sv')" and "sv_service sv' \<noteq> sv_service sv"
  obtains c m source service tp rs where "out = Inr True" "admit_server a p = Inr (c, m, source)" "factory m source c = Inr (Some tp)"
    "new_service (jget c ''subject'') (jget c ''generation'') True (finite_number (jget c ''expiresAt'')) = Inr service"
    "sv_service sv' = Some (service, tp)" "recover_pending width service tp ms (sv_shells sv) = (Inr rs, sv_shells sv')"
  using assms
  by (auto simp: configure_openshell_def build_service_def res_bind_Inr_iff
    split: if_splits sum.splits prod.splits option.splits)

section \<open>Properties\<close>


definition gate_example :: "nat \<Rightarrow> json" where
  "gate_example i = JObj [(''id'', gate_ids ! i), (''result'', JStr ''PASSED''),
     (''evidence'', JObj [(''path'', JStr (''/opt/dsh/e'' @ decimal i)), (''sha256'', JStr (replicate 64 CHR ''a''))])]"

definition images_example :: json where
  "images_example = JObj (map (\<lambda>r. (r, JStr (''sha256:'' @ replicate 64 CHR ''a''))) IMAGE_ROLES)"

definition pins_example :: "(string \<times> json) list" where
  "pins_example = [(''sourceCommit'', JStr (replicate 40 CHR ''1'')), (''imageLock'', images_example),
     (''policySha256'', JStr (replicate 64 CHR ''a'')), (''transportSha256'', JStr (replicate 64 CHR ''a''))]"

definition production_example :: json where
  "production_example = JObj (pins_example @ [(''kind'', JStr ''DSH_OPENSHELL_SERVER_ADMISSION_V1''), (''mode'', JStr ''production''),
     (''subject'', JStr ''s''), (''generation'', JStr ''g''), (''expiresAt'', JInt 100), (''namespace'', JStr ''dsh-openshell''),
     (''transportModule'', JStr ''/opt/dsh/scripts/t.py''),
     (''acceptance'', JObj [(''path'', JStr ''/etc/dsh-native-admission/r''), (''sha256'', JStr (replicate 64 CHR ''a''))])])"

definition receipt_example :: json where
  "receipt_example = JObj (pins_example @ [(''kind'', JStr ''DSH_OPENSHELL_NATIVE25_ACCEPTANCE_V1''), (''acceptedBy'', JStr ''r''),
     (''gates'', JList (map gate_example [0..<25])),
     (''rollback'', JObj [(''result'', JStr ''PASSED''),
        (''evidence'', JObj [(''path'', JStr ''/opt/dsh/b''), (''sha256'', JStr (replicate 64 CHR ''a''))])])])"

definition source_example :: admission_source where
  "source_example = \<lparr> as_read = (\<lambda>p. Inr (if p = ''/etc/dsh-native-admission/r'' then ''r'' else ''c'')),
     as_loads = (\<lambda>raw. Inr (if raw = ''r'' then receipt_example else production_example)),
     as_sha = (\<lambda>_. replicate 64 CHR ''a''), as_now = 10 \<rparr>"

definition openshell_example :: "bool res \<times> shell_server" where
  "openshell_example = configure_openshell source_example (\<lambda>_ _ _. Inr (Some ex_transport)) (\<lambda>_. 1) [ex_moment CHR ''c'']
     ''/etc/dsh-native-admission/a'' \<lparr> sv_shells = [], sv_service = None \<rparr>"

lemma example_openshell: "map_option (os_subject \<circ> fst) (sv_service (snd openshell_example)) = Some ''s''" "fst openshell_example = Inr True"
  by code_simp+


end
