(* ===== verification/Model_Guard.thy ===== *)
theory Model_Guard imports Prelude begin

text \<open>
  The loopback model guard of one unattended task, \<open>scripts/unattended_model_guard.py\<close> and
  \<open>scripts/dsh_correlation.py\<close>: which requests it accepts, the append-only ledger of reserved and
  finished model starts, and the one forwarding of an accepted request.  SHA-256 and the two JSON
  encodings are parameters; request bodies are given as what \<open>json.loads\<close> makes of them.  Reserve
  and complete run under the file lock and are one step each.
\<close>

section \<open>Correlation identifiers\<close>

record hashing =
  hx_sha :: "string \<Rightarrow> string"
  hx_canonical :: "json \<Rightarrow> string"
  hx_encode :: "json \<Rightarrow> string"

definition nul :: char where "nul = CHR 0x00"

definition validate_correlation_id :: "string \<Rightarrow> string res" where
  "validate_correlation_id s = (if hex_id 32 s then Inr s else Inl (ValueError ''invalid DSH correlation id''))"

definition operation_correlation_id :: "hashing \<Rightarrow> string \<Rightarrow> nat \<Rightarrow> string \<Rightarrow> string res" where
  "operation_correlation_id hx task_correlation sq mark =
     res_bind (validate_correlation_id task_correlation) (\<lambda>task_id.
     if sq < 1 \<or> \<not> hex_id 64 mark then Inl (ValueError ''invalid correlation inputs'')
     else Inr (take 32 (hx_sha hx (''dsh-op-v1'' @ [nul] @ task_id @ [nul] @ decimal sq @ [nul] @ mark))))"

text \<open>\<open>str(uuid.UUID(s))\<close> of 32 hexadecimal digits.\<close>

definition uuid_text :: "string \<Rightarrow> string" where
  "uuid_text s = take 8 s @ ''-'' @ take 4 (drop 8 s) @ ''-'' @ take 4 (drop 12 s) @ ''-''
     @ take 4 (drop 16 s) @ ''-'' @ drop 20 s"

section \<open>Accepting a request\<close>

definition ALLOWED_PATHS :: "string list" where
  "ALLOWED_PATHS = [''/v1/chat/completions'', ''/v1/messages'', ''/v1/responses'']"

definition canonical_model_path :: "string \<Rightarrow> string res" where
  "canonical_model_path p =
     (if p \<in> set ALLOWED_PATHS then Inr p
      else if p = ''/v1/messages?beta=true'' then Inr ''/v1/messages''
      else Inl (ValueError ''model path is not allowed''))"

definition own_key :: "string \<Rightarrow> bool" where
  "own_key k = startswith ''dsh_'' k"

definition cleaned :: "json \<Rightarrow> json" where
  "cleaned v = jpop ''chat_template_kwargs'' (JObj (filter (\<lambda>(k, x). \<not> own_key k) (obj_items v)))"

definition forged_metadata :: "json \<Rightarrow> bool" where
  "forged_metadata m = (is_obj m \<and> (jhas m ''dsh_correlation_id'' \<or> jhas m ''litellm_call_id''))"

definition add_correlation :: "string \<Rightarrow> json \<Rightarrow> json res" where
  "add_correlation operation v =
     res_bind (validate_correlation_id operation) (\<lambda>i.
     let m = (if jget v ''metadata'' = JNull then JObj [] else jget v ''metadata'') in
     if \<not> is_obj m then Inl (ValueError ''request metadata must be a JSON object'')
     else Inr (jset ''metadata'' (jset ''dsh_correlation_id'' (JStr i) m) v))"

definition sanitize_internal_request :: "string \<Rightarrow> json res \<Rightarrow> string option \<Rightarrow> json res" where
  "sanitize_internal_request path body operation =
     (if path \<notin> set ALLOWED_PATHS then Inl (ValueError ''model path is not allowed'')
      else
        (case body of
           Inl e \<Rightarrow> Inl (ValueError ''request body must be JSON'')
         | Inr v \<Rightarrow>
             if \<not> is_obj v then Inl (ValueError ''request body must be a JSON object'')
             else if jhas v ''litellm_call_id'' then Inl (ValueError ''client-supplied LiteLLM call identity is forbidden'')
             else if forged_metadata (jget (cleaned v) ''metadata'')
             then Inl (ValueError ''client-supplied DSH correlation is forbidden'')
             else (case operation of None \<Rightarrow> Inr (cleaned v) | Some i \<Rightarrow> add_correlation i (cleaned v))))"

definition canonical_fingerprint :: "hashing \<Rightarrow> string \<Rightarrow> json \<Rightarrow> string res" where
  "canonical_fingerprint hx path v =
     (if path \<notin> set ALLOWED_PATHS then Inl (ValueError ''model path is not allowed'')
      else Inr (hx_sha hx (path @ [nul] @ hx_canonical hx v)))"

section \<open>The ledger\<close>

text \<open>The rows of the file; a torn line makes every later read fail.\<close>

record ledger_file =
  lf_rows :: "json list"
  lf_torn :: bool

record ledger =
  ld_task :: string
  ld_correlation :: string
  ld_maximum :: nat

definition task_chars :: string where "task_chars = alnum_chars @ ''-_.''"

definition new_ledger :: "string \<Rightarrow> int \<Rightarrow> string \<Rightarrow> ledger res" where
  "new_ledger task_id maximum correlation =
     (if \<not> fullmatch_class task_chars 1 200 task_id then Inl (ValueError ''safe bounded task id required'')
      else if \<not> (1 \<le> maximum \<and> maximum \<le> 32) then Inl (ValueError ''model-start cap must be 1..32'')
      else res_bind (validate_correlation_id correlation) (\<lambda>c.
           Inr \<lparr> ld_task = task_id, ld_correlation = c, ld_maximum = nat maximum \<rparr>))"

definition start_row :: "string \<Rightarrow> json \<Rightarrow> bool" where
  "start_row task_id r = (jget r ''task_id'' = JStr task_id \<and> jget r ''event'' = JStr ''upstream-start-reserved'')"

definition starts_of :: "string \<Rightarrow> json list \<Rightarrow> json list" where
  "starts_of task_id rows = filter (start_row task_id) rows"

definition reservation :: "ledger \<Rightarrow> string \<Rightarrow> nat \<Rightarrow> string \<Rightarrow> string \<Rightarrow> json" where
  "reservation ld operation sq path mark =
     JObj [(''event'', JStr ''upstream-start-reserved''), (''task_id'', JStr (ld_task ld)),
       (''task_correlation_id'', JStr (ld_correlation ld)), (''operation_correlation_id'', JStr operation),
       (''litellm_call_id'', JStr (uuid_text operation)), (''sequence'', JInt (int sq)), (''path'', JStr path),
       (''fingerprint'', JStr mark)]"

datatype admission = Reserved nat string string | Duplicate json string json | Task_Cap nat string

definition append_row :: "json \<Rightarrow> ledger_file \<Rightarrow> ledger_file" where
  "append_row r f = f\<lparr> lf_rows := lf_rows f @ [r] \<rparr>"

definition admit_start :: "hashing \<Rightarrow> ledger \<Rightarrow> string \<Rightarrow> string \<Rightarrow> ledger_file \<Rightarrow> admission res \<times> ledger_file" where
  "admit_start hx ld path mark f =
     (let starts = starts_of (ld_task ld) (lf_rows f);
          sq = Suc (length starts) in
      case filter (\<lambda>r. jget r ''fingerprint'' = JStr mark) starts of
        prior # _ \<Rightarrow> (res_bind (py_idx prior ''sequence'') (\<lambda>s.
                      res_bind (py_idx prior ''operation_correlation_id'') (\<lambda>i. Inr (Duplicate s mark i))), f)
      | [] \<Rightarrow>
          if ld_maximum ld \<le> length starts then (Inr (Task_Cap (length starts) mark), f)
          else
            (case operation_correlation_id hx (ld_correlation ld) sq mark of
               Inl e \<Rightarrow> (Inl e, f)
             | Inr operation \<Rightarrow> (Inr (Reserved sq mark operation), append_row (reservation ld operation sq path mark) f)))"

definition reserve :: "hashing \<Rightarrow> ledger \<Rightarrow> string \<Rightarrow> json \<Rightarrow> ledger_file \<Rightarrow> admission res \<times> ledger_file" where
  "reserve hx ld path v f =
     (case canonical_fingerprint hx path v of
        Inl e \<Rightarrow> (Inl e, f)
      | Inr mark \<Rightarrow>
          if lf_torn f then (Inl (ValueError ''ledger''), f)
          else if \<not> list_all is_obj (lf_rows f) then (Inl (AttributeError ''get''), f)
          else admit_start hx ld path mark f)"

definition finished_row :: "ledger \<Rightarrow> nat \<Rightarrow> string \<Rightarrow> string \<Rightarrow> int \<Rightarrow> string \<Rightarrow> string option \<Rightarrow> json" where
  "finished_row ld sq mark operation status outcome identity =
     JObj [(''event'', JStr ''upstream-finished''), (''task_id'', JStr (ld_task ld)),
       (''task_correlation_id'', JStr (ld_correlation ld)), (''operation_correlation_id'', JStr operation),
       (''sequence'', JInt (int sq)), (''fingerprint'', JStr mark), (''status'', JInt status), (''outcome'', JStr outcome),
       (''upstream_identity'', JObj (case identity of None \<Rightarrow> [] | Some i \<Rightarrow> [(''litellm_call_id'', JStr i)])),
       (''upstream_identity_confirmed'', JBool (identity = Some (uuid_text operation)))]"

definition complete_start :: "ledger \<Rightarrow> nat \<Rightarrow> string \<Rightarrow> string \<Rightarrow> int \<Rightarrow> string \<Rightarrow> string option \<Rightarrow> ledger_file \<Rightarrow> unit res \<times> ledger_file" where
  "complete_start ld sq mark operation status outcome identity f =
     (case validate_correlation_id operation of
        Inl e \<Rightarrow> (Inl e, f)
      | Inr i \<Rightarrow> (Inr (), append_row (finished_row ld sq mark i status outcome identity) f))"

section \<open>Forwarding\<close>

text \<open>Header names compare without regard to case (\<open>lower\<close>).\<close>

definition HOP_HEADERS :: "string list" where
  "HOP_HEADERS = [''api-key'', ''authorization'', ''connection'', ''content-length'', ''host'', ''transfer-encoding'',
     ''x-api-key'', ''x-litellm-api-key'', ''x-dsh-correlation-id'']"

definition kept_headers :: "(string \<times> string) list \<Rightarrow> (string \<times> string) list" where
  "kept_headers hs =
     fold (\<lambda>(k, v) d. AList.update k v d)
       (filter (\<lambda>(k, v). lower k \<notin> set (HOP_HEADERS @ [''x-litellm-call-id''])) hs) []"

definition upstream_headers :: "hashing \<Rightarrow> string \<Rightarrow> string \<Rightarrow> json \<Rightarrow> (string \<times> string) list \<Rightarrow> (string \<times> string) list" where
  "upstream_headers hx token operation body hs =
     AList.update ''content-length'' (decimal (length (hx_encode hx body)))
     (AList.update ''x-litellm-call-id'' (uuid_text operation)
     (AList.update ''x-dsh-correlation-id'' operation
     (AList.update ''authorization'' (''Bearer '' @ token) (kept_headers hs))))"

definition valid_uuid :: "string \<Rightarrow> bool" where
  "valid_uuid s =
     (let h = filter (\<lambda>c. c \<noteq> CHR ''-'') s in length h = 32 \<and> list_all (\<lambda>c. lower_char c \<in> set hex_chars) h)"

text \<open>\<open>uuid.UUID\<close> also drops braces and a URN prefix, which cannot occur in 32 or 36 characters that
  hold 32 digits and only dashes besides.\<close>

definition server_identity :: "string option \<Rightarrow> string option" where
  "server_identity v =
     (case v of Some s \<Rightarrow> if length s \<in> {32, 36} \<and> valid_uuid s then Some s else None | None \<Rightarrow> None)"

text \<open>How the exchange with the upstream and the client can end.\<close>

datatype stream_end = Stream_Done | Client_Gone | Stream_Failed

datatype upstream = No_Response stream_end | Response int "string option" stream_end

datatype client_reply = Reject int string | Forward int

record guard_request =
  gq_path :: string
  gq_length :: int
  gq_body :: "json res"
  gq_headers :: "(string \<times> string) list"

record sent_request =
  st_path :: string
  st_headers :: "(string \<times> string) list"
  st_body :: json

record guard_result =
  gr_replies :: "client_reply list"
  gr_sent :: "sent_request list"
  gr_crash :: "exn option"
  gr_ledger :: ledger_file

definition refuse :: "int \<Rightarrow> string \<Rightarrow> ledger_file \<Rightarrow> guard_result" where
  "refuse status reason f = \<lparr> gr_replies = [Reject status reason], gr_sent = [], gr_crash = None, gr_ledger = f \<rparr>"

definition outcome_of :: "stream_end \<Rightarrow> string" where
  "outcome_of e = (case e of Stream_Done \<Rightarrow> ''response-complete'' | Client_Gone \<Rightarrow> ''caller-cancelled-or-disconnected''
     | Stream_Failed \<Rightarrow> ''transport-failed'')"

text \<open>A failure before the first response byte is reported to the client.\<close>

definition exchange :: "upstream \<Rightarrow> client_reply list \<times> int \<times> string \<times> string option" where
  "exchange u =
     (case u of
        No_Response e \<Rightarrow> (if e = Client_Gone then [] else [Reject 502 ''upstream-transport-failed''], 502,
                         if e = Client_Gone then outcome_of e else ''transport-failed'', None)
      | Response status identity e \<Rightarrow> ([Forward status], status, outcome_of e, server_identity identity))"

definition forward_request :: "hashing \<Rightarrow> ledger \<Rightarrow> string \<Rightarrow> upstream \<Rightarrow> guard_request \<Rightarrow> string \<Rightarrow> json \<Rightarrow> nat \<Rightarrow> string \<Rightarrow>
    string \<Rightarrow> ledger_file \<Rightarrow> guard_result" where
  "forward_request hx ld token u q path v sq mark operation f =
     (case sanitize_internal_request path (Inr v) (Some operation) of
        Inl e \<Rightarrow> \<lparr> gr_replies = [], gr_sent = [], gr_crash = Some e, gr_ledger = f \<rparr>
      | Inr body \<Rightarrow>
          (case exchange u of (replies, status, outcome, identity) \<Rightarrow>
             \<lparr> gr_replies = replies,
               gr_sent = [\<lparr> st_path = gq_path q, st_headers = upstream_headers hx token operation body (gq_headers q), st_body = body \<rparr>],
               gr_crash = None,
               gr_ledger = snd (complete_start ld sq mark operation status outcome identity f) \<rparr>))"

definition GUARD_MAX_BODY :: int where "GUARD_MAX_BODY = 8388608"

definition guard_token :: "string option \<Rightarrow> string" where
  "guard_token content = (case content of None \<Rightarrow> '''' | Some s \<Rightarrow> strip s)"

definition reserve_and_forward :: "hashing \<Rightarrow> ledger \<Rightarrow> string \<Rightarrow> upstream \<Rightarrow> guard_request \<Rightarrow> string \<Rightarrow> json \<Rightarrow>
    ledger_file \<Rightarrow> guard_result" where
  "reserve_and_forward hx ld token u q path v f =
     (case reserve hx ld path v f of
        (Inl (ValueError m), f') \<Rightarrow> refuse 400 ''invalid-request'' f'
      | (Inl e, f') \<Rightarrow> \<lparr> gr_replies = [], gr_sent = [], gr_crash = Some e, gr_ledger = f' \<rparr>
      | (Inr (Duplicate s mark i), f') \<Rightarrow> refuse 422 ''duplicate-or-uncertain'' f'
      | (Inr (Task_Cap n mark), f') \<Rightarrow> refuse 422 ''task-cap'' f'
      | (Inr (Reserved sq mark operation), f') \<Rightarrow> forward_request hx ld token u q path v sq mark operation f')"

definition guard_post :: "hashing \<Rightarrow> ledger \<Rightarrow> string option \<Rightarrow> upstream \<Rightarrow> guard_request \<Rightarrow> ledger_file \<Rightarrow> guard_result" where
  "guard_post hx ld token_file u q f =
     (case canonical_model_path (gq_path q) of
        Inl e \<Rightarrow> refuse 400 ''invalid-model-path'' f
      | Inr path \<Rightarrow>
          if \<not> (0 \<le> gq_length q \<and> gq_length q \<le> GUARD_MAX_BODY) then refuse 413 ''invalid-body-size'' f
          else
            (case sanitize_internal_request path (gq_body q) None of
               Inl e \<Rightarrow> refuse 400 ''invalid-request'' f
             | Inr v \<Rightarrow>
                 if jhas v ''safeguards'' then refuse 400 ''unsupported-provider-safeguards'' f
                 else if guard_token token_file = '''' then refuse 503 ''credential-unavailable'' f
                 else reserve_and_forward hx ld (guard_token token_file) u q path v f))"

section \<open>The guard process\<close>

record url_parts =
  u_scheme :: string
  u_path :: string
  u_username :: "string option"
  u_password :: "string option"

definition APPROVED_UPSTREAM :: string where
  "APPROVED_UPSTREAM = ''http://litellm-gateway.llm.svc.cluster.local:4000''"

definition rstrip_char :: "char \<Rightarrow> string \<Rightarrow> string" where
  "rstrip_char c s = rev (dropWhile (\<lambda>x. x = c) (rev s))"

definition set_text :: "string option \<Rightarrow> bool" where
  "set_text v = (case v of None \<Rightarrow> False | Some s \<Rightarrow> s \<noteq> [])"

definition guarded_server :: "(string \<Rightarrow> url_parts) \<Rightarrow> string \<Rightarrow> bool \<Rightarrow> url_parts res" where
  "guarded_server urlsplit url allow_test =
     (let p = urlsplit url in
      if u_scheme p \<noteq> ''http'' \<or> u_path p \<notin> {'''', ''/''} \<or> set_text (u_username p) \<or> set_text (u_password p)
      then Inl (ValueError ''plain approved in-cluster HTTP origin required'')
      else if \<not> allow_test \<and> rstrip_char CHR ''/'' url \<noteq> APPROVED_UPSTREAM then Inl (ValueError ''unexpected upstream'')
      else Inr p)"

definition running_guard :: "(string \<Rightarrow> url_parts) \<Rightarrow> string \<Rightarrow> bool \<Rightarrow> json \<Rightarrow> url_parts res" where
  "running_guard urlsplit url allow_test port =
     (case port of
        JInt n \<Rightarrow> if n = 0 \<or> 1024 \<le> n \<and> n \<le> 65535 then guarded_server urlsplit url allow_test
                  else Inl (ValueError ''invalid loopback guard port'')
      | _ \<Rightarrow> Inl (ValueError ''invalid loopback guard port''))"

section \<open>Histories of the ledger\<close>

text \<open>Any guards, of this or other tasks and processes, write the same file.\<close>

inductive ledger_step :: "hashing \<Rightarrow> (string \<Rightarrow> nat) \<Rightarrow> ledger_file \<Rightarrow> ledger_file \<Rightarrow> bool" for hx cap where
  reserve_step: "ld_maximum ld \<le> cap (ld_task ld) \<Longrightarrow> ledger_step hx cap f (snd (reserve hx ld path v f))"
| complete_step: "ledger_step hx cap f (snd (complete_start ld sq mark operation status outcome identity f))"
| torn_step: "ledger_step hx cap f (f\<lparr> lf_torn := True \<rparr>)"

definition empty_ledger :: ledger_file where "empty_ledger = \<lparr> lf_rows = [], lf_torn = False \<rparr>"

section \<open>Lemmas\<close>

definition sequences :: "string \<Rightarrow> ledger_file \<Rightarrow> json list" where
  "sequences tid f = map (\<lambda>r. jget r ''sequence'') (starts_of tid (lf_rows f))"

definition marks :: "string \<Rightarrow> ledger_file \<Rightarrow> json list" where
  "marks tid f = map (\<lambda>r. jget r ''fingerprint'') (starts_of tid (lf_rows f))"

lemma start_reservation [simp]: "start_row tid (reservation ld operation sq path mark) = (ld_task ld = tid)"
  by (auto simp: start_row_def reservation_def)

lemma start_finished [simp]: "\<not> start_row tid (finished_row ld sq mark operation status outcome identity)"
  by (simp add: start_row_def finished_row_def)

lemma starts_append [simp]:
  "starts_of tid (rows @ [r]) = starts_of tid rows @ (if start_row tid r then [r] else [])"
  by (simp add: starts_of_def)

text \<open>What a reservation does to the file.\<close>

lemma reserve_cases:
  assumes "reserve hx ld path v f = (out, f')"
  shows "f' = f \<and> (\<forall>sq mark operation. out \<noteq> Inr (Reserved sq mark operation)) \<or>
    (\<exists>mark operation. let sq = Suc (length (starts_of (ld_task ld) (lf_rows f))) in
       out = Inr (Reserved sq mark operation) \<and> f' = append_row (reservation ld operation sq path mark) f \<and>
       canonical_fingerprint hx path v = Inr mark \<and> operation_correlation_id hx (ld_correlation ld) sq mark = Inr operation \<and>
       sq \<le> ld_maximum ld \<and> JStr mark \<notin> set (marks (ld_task ld) f))"
proof (cases "canonical_fingerprint hx path v")
  case (Inl e)
  with assms show ?thesis by (auto simp: reserve_def)
next
  case (Inr mark)
  show ?thesis
  proof (cases "lf_torn f \<or> \<not> list_all is_obj (lf_rows f)")
    case True
    with assms Inr show ?thesis by (auto simp: reserve_def split: if_splits)
  next
    case False
    let ?starts = "starts_of (ld_task ld) (lf_rows f)"
    have a: "admit_start hx ld path mark f = (out, f')" using assms Inr False by (simp add: reserve_def)
    show ?thesis
    proof (cases "filter (\<lambda>r. jget r ''fingerprint'' = JStr mark) ?starts")
      case (Cons prior rest)
      then have "f' = f" "out = res_bind (py_idx prior ''sequence'') (\<lambda>s.
          res_bind (py_idx prior ''operation_correlation_id'') (\<lambda>i. Inr (Duplicate s mark i)))"
        using a by (simp_all add: admit_start_def Let_def)
      then show ?thesis by (auto simp: res_bind_Inr_iff)
    next
      case Nil
      then have new: "JStr mark \<notin> set (marks (ld_task ld) f)" by (auto simp: marks_def filter_empty_conv)
      show ?thesis
      proof (cases "ld_maximum ld \<le> length ?starts")
        case True
        with a Nil show ?thesis by (auto simp: admit_start_def Let_def)
      next
        case False
        with a Nil new Inr show ?thesis
          by (cases "operation_correlation_id hx (ld_correlation ld) (Suc (length ?starts)) mark")
             (auto simp: admit_start_def Let_def)
      qed
    qed
  qed
qed

definition ledger_ok :: "(string \<Rightarrow> nat) \<Rightarrow> ledger_file \<Rightarrow> bool" where
  "ledger_ok cap f = (\<forall>tid. sequences tid f = map (JInt \<circ> int) [1..<Suc (length (sequences tid f))] \<and>
     distinct (marks tid f) \<and> length (sequences tid f) \<le> cap tid)"

lemma append_reservation:
  "sequences tid (append_row (reservation ld operation sq path mark) f) =
     sequences tid f @ (if ld_task ld = tid then [JInt (int sq)] else [])"
  "marks tid (append_row (reservation ld operation sq path mark) f) =
     marks tid f @ (if ld_task ld = tid then [JStr mark] else [])"
  by (simp_all add: sequences_def marks_def append_row_def) (simp_all add: reservation_def)

lemma append_finished:
  "sequences tid (append_row (finished_row ld sq mark operation status outcome identity) f) = sequences tid f"
  "marks tid (append_row (finished_row ld sq mark operation status outcome identity) f) = marks tid f"
  by (simp_all add: sequences_def marks_def append_row_def)

lemma torn_same: "sequences tid (f\<lparr> lf_torn := b \<rparr>) = sequences tid f" "marks tid (f\<lparr> lf_torn := b \<rparr>) = marks tid f"
  by (simp_all add: sequences_def marks_def)

lemma ledger_step_ok: "ledger_step hx cap f f' \<Longrightarrow> ledger_ok cap f \<Longrightarrow> ledger_ok cap f'"
proof (induction rule: ledger_step.induct)
  case (reserve_step ld f path v)
  obtain out f' where r: "reserve hx ld path v f = (out, f')" by fastforce
  have len: "length (starts_of (ld_task ld) (lf_rows f)) = length (sequences (ld_task ld) f)" by (simp add: sequences_def)
  from reserve_cases [OF r] show ?case
  proof (elim disjE exE conjE)
    assume "f' = f"
    with r reserve_step show ?thesis by simp
  next
    fix mark operation
    let ?sq = "Suc (length (starts_of (ld_task ld) (lf_rows f)))"
    assume "let sq = ?sq in out = Inr (Reserved sq mark operation) \<and> f' = append_row (reservation ld operation sq path mark) f \<and>
       canonical_fingerprint hx path v = Inr mark \<and> operation_correlation_id hx (ld_correlation ld) sq mark = Inr operation \<and>
       sq \<le> ld_maximum ld \<and> JStr mark \<notin> set (marks (ld_task ld) f)"
    then have f': "f' = append_row (reservation ld operation ?sq path mark) f"
      and new: "?sq \<le> ld_maximum ld" "JStr mark \<notin> set (marks (ld_task ld) f)" by (simp_all add: Let_def)
    have "ledger_ok cap f'"
      unfolding ledger_ok_def
    proof
      fix tid
      have old: "sequences tid f = map (JInt \<circ> int) [1..<Suc (length (sequences tid f))]" "distinct (marks tid f)"
        "length (sequences tid f) \<le> cap tid" using reserve_step.prems by (auto simp: ledger_ok_def)
      show "sequences tid f' = map (JInt \<circ> int) [1..<Suc (length (sequences tid f'))] \<and> distinct (marks tid f') \<and>
          length (sequences tid f') \<le> cap tid"
      proof (cases "ld_task ld = tid")
        case False
        with old show ?thesis unfolding f' append_reservation by simp
      next
        case True
        have "sequences tid f @ [JInt (int ?sq)] = map (JInt \<circ> int) [1..<Suc (Suc (length (sequences tid f)))]"
          using old(1) True len by simp
        with old new True len reserve_step.hyps show ?thesis
          unfolding f' append_reservation by (simp del: upt_Suc)
      qed
    qed
    with r show ?thesis by simp
  qed
next
  case (complete_step f ld sq mark operation status outcome identity)
  then show ?case
    by (simp add: complete_start_def ledger_ok_def append_finished del: upt_Suc split: sum.split)
next
  case (torn_step f)
  then show ?case by (simp add: ledger_ok_def torn_same del: upt_Suc)
qed

text \<open>The forwarded headers.\<close>

definition own_header :: "string \<Rightarrow> bool" where
  "own_header k = (lower k \<in> set (HOP_HEADERS @ [''x-litellm-call-id'']))"

lemma fold_update_keys:
  "(k, v) \<in> set (fold (\<lambda>(k, v) d. AList.update k v d) xs d) \<Longrightarrow> (k, v) \<in> set xs \<or> (k, v) \<in> set d"
  by (induction xs arbitrary: d) (auto dest!: update_set)

lemma kept_not_own: "(k, v) \<in> set (kept_headers hs) \<Longrightarrow> \<not> own_header k"
  unfolding kept_headers_def own_header_def by (drule fold_update_keys) auto

lemma upstream_headers_cases:
  assumes "(k, v) \<in> set (upstream_headers hx token operation body hs)"
  shows "\<not> own_header k \<or>
    (k, v) \<in> {(''content-length'', decimal (length (hx_encode hx body))), (''x-litellm-call-id'', uuid_text operation),
             (''x-dsh-correlation-id'', operation), (''authorization'', ''Bearer '' @ token)}"
  using assms unfolding upstream_headers_def by (auto dest!: update_set dest: kept_not_own)

lemma upstream_own:
  assumes "(k, v) \<in> set (upstream_headers hx token operation body hs)"
  shows "(lower k = ''authorization'' \<longrightarrow> v = ''Bearer '' @ token) \<and>
    (lower k = ''x-dsh-correlation-id'' \<longrightarrow> v = operation) \<and>
    (lower k = ''x-litellm-call-id'' \<longrightarrow> v = uuid_text operation) \<and>
    lower k \<notin> {''api-key'', ''x-api-key'', ''x-litellm-api-key''}"
proof -
  have l: "lower ''content-length'' = ''content-length''" "lower ''x-litellm-call-id'' = ''x-litellm-call-id''"
    "lower ''x-dsh-correlation-id'' = ''x-dsh-correlation-id''" "lower ''authorization'' = ''authorization''"
    by code_simp+
  show ?thesis
    using upstream_headers_cases [OF assms] l by (auto simp: own_header_def HOP_HEADERS_def)
qed

lemma sanitized_parts:
  assumes "sanitize_internal_request path (Inr v) (Some operation) = Inr body"
  shows "path \<in> set ALLOWED_PATHS \<and> jget (jget body ''metadata'') ''dsh_correlation_id'' = JStr operation"
proof -
  have "is_obj (cleaned v)" by (simp add: cleaned_def)
  with assms show ?thesis
    by (auto simp: sanitize_internal_request_def add_correlation_def validate_correlation_id_def res_bind_Inr_iff Let_def
        split: if_splits)
qed

lemma complete_valid:
  assumes "validate_correlation_id operation = Inr operation"
  shows "lf_rows (snd (complete_start ld sq mark operation status outcome identity f)) =
    lf_rows f @ [finished_row ld sq mark operation status outcome identity]"
  using assms by (simp add: complete_start_def append_row_def)

lemma forward_sent:
  assumes "validate_correlation_id operation = Inr operation"
    and "gr_sent (forward_request hx ld token u q path v sq mark operation f) \<noteq> []"
  obtains body status outcome identity where
    "sanitize_internal_request path (Inr v) (Some operation) = Inr body"
    "gr_sent (forward_request hx ld token u q path v sq mark operation f) =
       [\<lparr> st_path = gq_path q, st_headers = upstream_headers hx token operation body (gq_headers q), st_body = body \<rparr>]"
    "lf_rows (gr_ledger (forward_request hx ld token u q path v sq mark operation f)) =
       lf_rows f @ [finished_row ld sq mark operation status outcome identity]"
proof (cases "sanitize_internal_request path (Inr v) (Some operation)")
  case (Inl e)
  with assms show ?thesis by (simp add: forward_request_def)
next
  case (Inr body)
  obtain replies status outcome identity where x: "exchange u = (replies, status, outcome, identity)" by (metis prod_cases4)
  show ?thesis
  proof (rule that [OF Inr])
    show "gr_sent (forward_request hx ld token u q path v sq mark operation f) =
       [\<lparr> st_path = gq_path q, st_headers = upstream_headers hx token operation body (gq_headers q), st_body = body \<rparr>]"
      using Inr x by (simp add: forward_request_def)
    show "lf_rows (gr_ledger (forward_request hx ld token u q path v sq mark operation f)) =
       lf_rows f @ [finished_row ld sq mark operation status outcome identity]"
      using Inr x complete_valid [OF assms(1)] by (simp add: forward_request_def)
  qed
qed

lemma forward_silent:
  "gr_sent (forward_request hx ld token u q path v sq mark operation f) = [] \<Longrightarrow>
   gr_crash (forward_request hx ld token u q path v sq mark operation f) \<noteq> None"
  by (simp add: forward_request_def split: sum.splits prod.splits)

text \<open>What is not reserved is refused.\<close>

definition refused :: "ledger_file \<Rightarrow> guard_result \<Rightarrow> bool" where
  "refused f g = (gr_sent g = [] \<and> (gr_crash g \<noteq> None \<or> gr_ledger g = f \<and> (\<exists>status reason. gr_replies g = [Reject status reason])))"

lemma refuse_refused [simp]: "refused f (refuse status reason f)"
  by (simp add: refused_def refuse_def)

lemma not_reserved_refused:
  assumes "reserve hx ld path v f = (out, f)" and "\<And>sq mark operation. out \<noteq> Inr (Reserved sq mark operation)"
  shows "refused f (reserve_and_forward hx ld token u q path v f)"
proof (cases out)
  case (Inl e)
  with assms(1) show ?thesis by (cases e) (simp_all add: reserve_and_forward_def, simp_all add: refused_def)
next
  case (Inr a)
  with assms show ?thesis by (cases a) (auto simp: reserve_and_forward_def)
qed

lemma forward_or_refused:
  obtains "refused f (reserve_and_forward hx ld token u q path v f)"
  | mark operation f' where
      "reserve_and_forward hx ld token u q path v f =
         forward_request hx ld token u q path v (Suc (length (starts_of (ld_task ld) (lf_rows f)))) mark operation f'"
      "f' = append_row (reservation ld operation (Suc (length (starts_of (ld_task ld) (lf_rows f)))) path mark) f"
      "operation_correlation_id hx (ld_correlation ld) (Suc (length (starts_of (ld_task ld) (lf_rows f)))) mark = Inr operation"
      "Suc (length (starts_of (ld_task ld) (lf_rows f))) \<le> ld_maximum ld" "JStr mark \<notin> set (marks (ld_task ld) f)"
proof -
  obtain out f' where r: "reserve hx ld path v f = (out, f')" by fastforce
  from reserve_cases [OF r] show ?thesis
  proof (elim disjE exE)
    assume "f' = f \<and> (\<forall>sq mark operation. out \<noteq> Inr (Reserved sq mark operation))"
    with r not_reserved_refused show ?thesis by (intro that(1)) blast
  next
    fix mark operation
    assume "let sq = Suc (length (starts_of (ld_task ld) (lf_rows f))) in
       out = Inr (Reserved sq mark operation) \<and> f' = append_row (reservation ld operation sq path mark) f \<and>
       canonical_fingerprint hx path v = Inr mark \<and> operation_correlation_id hx (ld_correlation ld) sq mark = Inr operation \<and>
       sq \<le> ld_maximum ld \<and> JStr mark \<notin> set (marks (ld_task ld) f)"
    with r show ?thesis by (intro that(2)) (auto simp: Let_def reserve_and_forward_def)
  qed
qed

lemma post_split:
  "refused f (guard_post hx ld token u q f) \<or>
   (\<exists>path v. guard_post hx ld token u q f = reserve_and_forward hx ld (guard_token token) u q path v f)"
  unfolding guard_post_def by (auto split: sum.split)

lemma post_cases:
  obtains "refused f (guard_post hx ld token u q f)"
  | path v where "guard_post hx ld token u q f = reserve_and_forward hx ld (guard_token token) u q path v f"
  using post_split by blast

lemma hex_id_take: "hex_id m s \<Longrightarrow> n \<le> m \<Longrightarrow> hex_id n (take n s)"
  by (auto simp: hex_id_def fullmatch_class_def list_all_iff dest: in_set_takeD)

lemma reserved_operation_valid:
  "(\<And>x. hex_id 64 (hx_sha hx x)) \<Longrightarrow> operation_correlation_id hx c sq mark = Inr operation \<Longrightarrow> hex_id 32 operation"
  by (auto simp: operation_correlation_id_def res_bind_Inr_iff split: if_splits intro: hex_id_take [where m = 64])

section \<open>Properties\<close>

interpretation ledgers: step_invariant "ledger_step hx cap" "ledger_ok cap" for hx cap
  by unfold_locales (rule ledger_step_ok)

text \<open>C25: Whatever guards reserve and finish in the shared ledger, in any order and across crashes, the
  model starts of each task are numbered from one without gaps, have pairwise different fingerprints
  and are at most the task's cap.\<close>

theorem ledger_bounds_starts:
  assumes "(ledger_step hx cap)\<^sup>*\<^sup>* empty_ledger f"
  shows "map (\<lambda>r. jget r ''sequence'') (starts_of tid (lf_rows f)) =
      map (JInt \<circ> int) [1..<Suc (length (starts_of tid (lf_rows f)))] \<and>
    distinct (map (\<lambda>r. jget r ''fingerprint'') (starts_of tid (lf_rows f))) \<and>
    length (starts_of tid (lf_rows f)) \<le> cap tid"
proof -
  have "ledger_ok cap empty_ledger" by (simp add: ledger_ok_def sequences_def marks_def starts_of_def empty_ledger_def)
  with assms have "ledger_ok cap f" by (rule ledgers.reachable)
  then show ?thesis unfolding ledger_ok_def sequences_def marks_def by (metis length_map)
qed


text \<open>A request that the guard answers itself is refused with one reply, costs no model start and
  leaves the ledger as it was.\<close>

theorem refusal_costs_nothing:
  assumes "gr_sent (guard_post hx ld token u q f) = []" and "gr_crash (guard_post hx ld token u q f) = None"
  shows "gr_ledger (guard_post hx ld token u q f) = f \<and>
    (\<exists>status reason. gr_replies (guard_post hx ld token u q f) = [Reject status reason])"
proof -
  have raf: "refused f (reserve_and_forward hx ld (guard_token token) u q path v f)"
    if "gr_sent (reserve_and_forward hx ld (guard_token token) u q path v f) = []"
      "gr_crash (reserve_and_forward hx ld (guard_token token) u q path v f) = None" for path v
    using that by (cases rule: forward_or_refused [of f hx ld "guard_token token" u q path v]) (auto dest: forward_silent)
  have "refused f (guard_post hx ld token u q f)"
    using assms raf by (cases rule: post_cases [of f hx ld token u q]) simp_all
  with assms(2) show ?thesis by (simp add: refused_def)
qed

section \<open>A start spent without a trace\<close>

text \<open>Metadata that is not a dictionary passes the first check; the second one runs after the reservation
  and outside the \<open>try\<close>: the handler dies, the client gets no reply, nothing is sent, and the start
  stays reserved without a finish row.\<close>

theorem odd_metadata_spends_a_start:
  assumes "sanitize_internal_request path (Inr v) None = Inr v" and "jget v ''metadata'' \<noteq> JNull"
    and "\<not> is_obj (jget v ''metadata'')" and "cleaned v = v" and "hex_id 32 operation"
  shows "forward_request hx ld token u q path v sq mark operation f =
    \<lparr> gr_replies = [], gr_sent = [], gr_crash = Some (ValueError ''request metadata must be a JSON object''), gr_ledger = f \<rparr>"
proof -
  have "sanitize_internal_request path (Inr v) (Some operation) = Inl (ValueError ''request metadata must be a JSON object'')"
    using assms by (auto simp: sanitize_internal_request_def add_correlation_def validate_correlation_id_def split: if_splits)
  then show ?thesis by (simp add: forward_request_def)
qed

section \<open>Witnesses\<close>

definition zero_hashing :: hashing where
  "zero_hashing = \<lparr> hx_sha = (\<lambda>_. replicate 64 CHR ''0''), hx_canonical = (\<lambda>_. []), hx_encode = (\<lambda>_. []) \<rparr>"

definition one_ledger :: ledger where
  "one_ledger = \<lparr> ld_task = ''t'', ld_correlation = replicate 32 CHR ''a'', ld_maximum = 1 \<rparr>"

definition chat_request :: "json \<Rightarrow> guard_request" where
  "chat_request metadata = \<lparr> gq_path = ''/v1/chat/completions'', gq_length = 10,
     gq_body = Inr (JObj [(''metadata'', metadata)]), gq_headers = [(''Authorization'', ''Bearer x''), (''Accept'', ''*'')] \<rparr>"

definition chat_post :: "json \<Rightarrow> ledger_file \<Rightarrow> guard_result" where
  "chat_post metadata f = guard_post zero_hashing one_ledger (Some ''key'') (Response 200 None Stream_Done) (chat_request metadata) f"

definition chat_ledger :: ledger_file where "chat_ledger = gr_ledger (chat_post JNull empty_ledger)"

lemma zero_hashing_hex: "hex_id 64 (hx_sha zero_hashing x)"
  unfolding zero_hashing_def hashing.simps by code_simp

lemma chat_values:
  "map st_path (gr_sent (chat_post JNull empty_ledger)) = [''/v1/chat/completions'']" "length (lf_rows chat_ledger) = 2"
  "gr_sent (chat_post JNull chat_ledger) = []" "gr_crash (chat_post JNull chat_ledger) = None"
  by code_simp+

theorem odd_metadata_example:
  "gr_replies (chat_post (JStr ''x'') empty_ledger) = [] \<and> gr_sent (chat_post (JStr ''x'') empty_ledger) = [] \<and>
   length (lf_rows (gr_ledger (chat_post (JStr ''x'') empty_ledger))) = 1"
  by code_simp

theorem ledger_bounds_starts_witness:
  "map (\<lambda>r. jget r ''sequence'') (starts_of ''t'' (lf_rows (snd (reserve zero_hashing one_ledger ''/v1/messages'' JNull empty_ledger)))) = [JInt 1]"
proof -
  have "ledger_step zero_hashing (\<lambda>_. 1) empty_ledger (snd (reserve zero_hashing one_ledger ''/v1/messages'' JNull empty_ledger))"
    by (rule ledger_step.reserve_step) (simp add: one_ledger_def)
  from ledger_bounds_starts [OF r_into_rtranclp [of "ledger_step zero_hashing (\<lambda>_. 1)", OF this], of "''t''"]
  have "map (\<lambda>r. jget r ''sequence'') (starts_of ''t'' (lf_rows (snd (reserve zero_hashing one_ledger ''/v1/messages'' JNull empty_ledger)))) =
      map (JInt \<circ> int) [1..<Suc (length (starts_of ''t'' (lf_rows (snd (reserve zero_hashing one_ledger ''/v1/messages'' JNull empty_ledger)))))]"
    by blast
  moreover have "length (starts_of ''t'' (lf_rows (snd (reserve zero_hashing one_ledger ''/v1/messages'' JNull empty_ledger)))) = 1"
    by code_simp
  ultimately show ?thesis by simp
qed


theorem refusal_costs_nothing_witness: "gr_ledger (chat_post JNull chat_ledger) = chat_ledger"
  using refusal_costs_nothing [OF chat_values(3,4) [unfolded chat_post_def]] unfolding chat_post_def by blast

end
