(* ===== verification/Sdk_Session.thy ===== *)
theory Sdk_Session imports Task_Broker begin

text \<open>
  The official SDK session runner, \<open>scripts/official_sdk_session.py\<close>: construction, fresh admission,
  recovery of a session after a restart, and the run of one task up to the verified start of the
  native process.  The protected runtime scope, the package check, the model guard and the SDK harness
  are parameters; the calls made to the scope are kept in a trace.  The approval bridge of the running
  session is the one of \<open>Sdk_Approval\<close>.
\<close>

section \<open>The runner\<close>

record sdk_runner =
  ss_subject :: string
  ss_generation :: string
  ss_factory :: bool

record scope_facts =
  sf_present :: bool
  sf_qualified :: json
  sf_callable :: "string list"

definition lifecycle_methods :: "string list" where
  "lifecycle_methods = [''preflight'', ''start'', ''stop_and_verify'', ''inspect_exit'']"

definition identity_json :: "json \<Rightarrow> bool" where
  "identity_json v = (case v of JStr s \<Rightarrow> valid_identity s | _ \<Rightarrow> False)"

definition new_sdk_runner :: "json \<Rightarrow> json \<Rightarrow> bool \<Rightarrow> scope_facts \<Rightarrow> bool \<Rightarrow> json \<Rightarrow> sdk_runner res" where
  "new_sdk_runner subject generation guard_callable scope factory timeout =
     (if \<not> (identity_json subject \<and> identity_json generation) then Inl (ValueError ''INVALID_NATIVE_SERVER_IDENTITY'')
      else if \<not> sf_present scope \<or> sf_qualified scope \<noteq> JBool True
      then Inl (ValueError ''QUALIFIED_NATIVE_RUNTIME_SCOPE_REQUIRED'')
      else if \<not> guard_callable then Inl (ValueError ''EXISTING_MODEL_GUARD_REQUIRED'')
      else if \<not> set lifecycle_methods \<subseteq> set (sf_callable scope) then Inl (ValueError ''NATIVE_SCOPE_LIFECYCLE_REQUIRED'')
      else if (case finite_number timeout of Some x \<Rightarrow> \<not> (0 < x \<and> x \<le> 5) | None \<Rightarrow> True)
      then Inl (ValueError ''INVALID_NATIVE_OPERATION_TIMEOUT'')
      else Inr \<lparr> ss_subject = str_value subject, ss_generation = str_value generation, ss_factory = factory \<rparr>)"

text \<open>Everything outside that one run reads or calls.\<close>

record sdk_env =
  se_qualified :: bool
  se_package :: "json res"
  se_state :: "json res"
  se_now :: rat
  se_now2 :: rat
  se_preflight :: "json \<Rightarrow> json res"
  se_version :: "string \<Rightarrow> string res"
  se_root :: "string list"
  se_resolve :: "string \<Rightarrow> string list res"
  se_is_dir :: "string list \<Rightarrow> bool"
  se_home :: "unit res"
  se_guard :: "unit res"
  se_endpoint :: "unit res"
  se_guard_task :: json
  se_guard_correlation :: json
  se_temperature :: json
  se_harness :: "unit res"

definition fresh_window :: "rat \<Rightarrow> rat \<Rightarrow> json \<Rightarrow> bool" where
  "fresh_window now now' v = (case finite_number v of Some x \<Rightarrow> now < x \<and> x \<le> now' + 300 | None \<Rightarrow> False)"

text \<open>The package digest is read with an index, the rest of the state with \<open>get\<close>.\<close>

definition fresh_admission :: "sdk_runner \<Rightarrow> sdk_env \<Rightarrow> json res" where
  "fresh_admission r env =
     res_bind (se_package env) (\<lambda>package.
     res_bind (se_state env) (\<lambda>state.
     if \<not> se_qualified env \<or> \<not> is_obj state \<or> jget state ''admitted'' \<noteq> JBool True \<or>
        jget state ''subject'' \<noteq> JStr (ss_subject r) \<or> jget state ''generation'' \<noteq> JStr (ss_generation r)
     then Inl (ValueError ''FRESH_ISOLATED_SDK_ADMISSION_REQUIRED'')
     else res_bind (py_idx package ''admissionSha256'') (\<lambda>digest.
       if \<not> py_eq (jget state ''packageAdmissionSha256'') digest \<or> jget state ''isolatedControl'' \<noteq> JBool True \<or>
          jget state ''brokerCredentialMounts'' \<noteq> JBool False \<or> \<not> fresh_window (se_now env) (se_now2 env) (jget state ''expiresAt'')
       then Inl (ValueError ''FRESH_ISOLATED_SDK_ADMISSION_REQUIRED'')
       else Inr package)))"

definition sdk_qualified :: "sdk_runner \<Rightarrow> sdk_env \<Rightarrow> bool" where
  "sdk_qualified r env = is_ok (fresh_admission r env)"

section \<open>Recovery\<close>

text \<open>The one read of the old session's exit: its context and, once it ended, its result.
  While \<open>rv_waiting\<close> a caller waits for that result.\<close>

record recovery =
  rv_task :: task
  rv_bridge :: bool
  rv_call :: "((string \<times> json) list \<times> json res option) option"
  rv_inspections :: nat
  rv_waiting :: bool

text \<open>The bootstrap recovers the tasks one after the other from one thread, so a task has at most one
  recovery in progress.\<close>

definition opt_json :: "json option \<Rightarrow> json" where
  "opt_json v = (case v of None \<Rightarrow> JNull | Some x \<Rightarrow> x)"

definition recovery_context :: "string \<Rightarrow> task \<Rightarrow> native \<Rightarrow> string \<Rightarrow> (string \<times> json) list" where
  "recovery_context subject t n launch =
     [(''subject'', JStr subject), (''generation'', JStr (n_generation n)), (''taskId'', JStr (t_id t)),
      (''sessionId'', JStr (n_session n)), (''project'', JStr (t_project t)), (''correlationId'', JStr (t_correlation t)),
      (''launchOperationId'', JStr launch), (''runtimeIdentity'', opt_json (n_identity n))]"

definition terminal_record :: "task \<Rightarrow> json" where
  "terminal_record t =
     JObj [(''id'', JStr (t_id t)), (''state'', JStr (tstate_text (t_state t))), (''project'', JStr (t_project t)),
       (''correlationId'', JStr (t_correlation t)),
       (''nativeSdk'', case t_native t of None \<Rightarrow> JNull | Some n \<Rightarrow> native_json n)]"

definition put_native :: "native \<Rightarrow> tstate \<Rightarrow> recovery \<Rightarrow> recovery" where
  "put_native n s rv = rv\<lparr> rv_task := save ((rv_task rv)\<lparr> t_native := Some n, t_state := s \<rparr>) \<rparr>"

definition own_section :: "string \<Rightarrow> task \<Rightarrow> native \<Rightarrow> bool" where
  "own_section subject t n = (n_subject n = subject \<and> n_task n = t_id t \<and> n_project n = t_project t \<and>
     n_correlation n = t_correlation t)"

text \<open>The first block under the lock.  \<open>Inr None\<close>: a result is awaited.\<close>

definition recover_begin :: "sdk_runner \<Rightarrow> string \<Rightarrow> recovery \<Rightarrow> bool option res \<times> recovery" where
  "recover_begin r subject rv =
     (let t = rv_task rv in
      if subject \<noteq> ss_subject r then (Inl (ValueError ''FOREIGN_NATIVE_SDK_SUBJECT''), rv)
      else
        (case t_native t of
           None \<Rightarrow> (Inl (ValueError ''FOREIGN_NATIVE_RECOVERY_BINDING''), rv)
         | Some n \<Rightarrow>
             if \<not> own_section subject t n then (Inl (ValueError ''FOREIGN_NATIVE_RECOVERY_BINDING''), rv)
             else if n_phase n = P_Stopped then
               (if verified_terminal_stop (terminal_record t) then (Inr (Some True), rv)
                else (Inr (Some False), put_native (n\<lparr> n_phase := P_Recovery_Unverified \<rparr>) Interrupted rv))
             else if rv_bridge rv then (Inr (Some False), rv)
             else if rv_call rv \<noteq> None then (Inr None, rv\<lparr> rv_waiting := True \<rparr>)
             else
               (case n_launch n of
                  None \<Rightarrow> (Inl (ValueError ''NATIVE_RECOVERY_LAUNCH_ID_REQUIRED''), rv)
                | Some launch \<Rightarrow>
                    if \<not> hex_id 32 launch then (Inl (ValueError ''NATIVE_RECOVERY_LAUNCH_ID_REQUIRED''), rv)
                    else (Inr None, (put_native (n\<lparr> n_phase := P_Recovery_Reserved \<rparr>) Interrupted rv)
                            \<lparr> rv_call := Some (recovery_context subject t n launch, None),
                              rv_inspections := Suc (rv_inspections rv), rv_waiting := True \<rparr>))))"

text \<open>\<open>inspect_exit\<close> ends.\<close>

definition inspect_ends :: "json res \<Rightarrow> recovery \<Rightarrow> recovery" where
  "inspect_ends out rv =
     (case rv_call rv of Some (c, None) \<Rightarrow> rv\<lparr> rv_call := Some (c, Some out) \<rparr> | _ \<Rightarrow> rv)"

text \<open>A timeout or an exception of the read.\<close>

definition recover_uncertain :: "recovery \<Rightarrow> bool res \<times> recovery" where
  "recover_uncertain rv =
     (case t_native (rv_task rv) of
        None \<Rightarrow> (Inl (TypeError ''nativeSdk''), rv)
      | Some n \<Rightarrow> (Inr False, put_native (n\<lparr> n_phase := P_Recovery_Uncertain \<rparr>) (t_state (rv_task rv)) rv))"

definition exit_operation :: "json \<Rightarrow> string" where
  "exit_operation receipt = str_value (jget receipt ''operationId'')"

definition ctx_get :: "(string \<times> json) list \<Rightarrow> string \<Rightarrow> json" where
  "ctx_get c k = (case map_of c k of Some v \<Rightarrow> v | None \<Rightarrow> JNull)"

definition valid_exit_receipt :: "(string \<times> json) list \<Rightarrow> native \<Rightarrow> json \<Rightarrow> bool" where
  "valid_exit_receipt c n receipt =
     (is_obj receipt \<and> list_all (\<lambda>(k, v). py_eq (jget receipt k) v) c \<and>
      jget receipt ''stopped'' = JBool True \<and> jget receipt ''processExitVerified'' = JBool True \<and>
      jget receipt ''launchFenced'' = JBool True \<and>
      (ctx_get c ''runtimeIdentity'' = JNull \<longrightarrow> jget receipt ''neverStarted'' = JBool True) \<and>
      is_str (jget receipt ''operationId'') \<and> hex_id 32 (exit_operation receipt) \<and>
      (case n_stop_operation n of None \<Rightarrow> True | Some op \<Rightarrow> op = [] \<or> op = exit_operation receipt))"

definition recovered_goal :: "native \<Rightarrow> tstate" where
  "recovered_goal n = (case n_desired n of Some goal \<Rightarrow> if terminal goal then goal else Failed | None \<Rightarrow> Failed)"

definition same_binding :: "(string \<times> json) list \<Rightarrow> task \<Rightarrow> native \<Rightarrow> bool" where
  "same_binding c t n =
     (JStr (n_subject n) = ctx_get c ''subject'' \<and> JStr (n_generation n) = ctx_get c ''generation'' \<and>
      opt_json (map_option JStr (n_launch n)) = ctx_get c ''launchOperationId'' \<and>
      JStr (t_project t) = ctx_get c ''project'' \<and> JStr (t_correlation t) = ctx_get c ''correlationId'')"

text \<open>The last block, with the result of the read.\<close>

definition recover_end :: "(event \<Rightarrow> int) \<Rightarrow> string \<Rightarrow> recovery \<Rightarrow> bool res \<times> recovery" where
  "recover_end width subject rv =
     (case (rv_call rv, t_native (rv_task rv)) of
        (Some (c, Some (Inr receipt)), Some n) \<Rightarrow>
          if \<not> same_binding c (rv_task rv) n then (Inl (ValueError ''RECOVERY_BINDING_CHANGED''), rv)
          else if \<not> valid_exit_receipt c n receipt
          then (Inr False, put_native (n\<lparr> n_phase := P_Recovery_Unverified \<rparr>) (t_state (rv_task rv)) rv)
          else
            (let op = exit_operation receipt; goal = recovered_goal n;
                 n' = n\<lparr> n_phase := P_Stopped, n_stop_operation := Some op,
                        n_receipt := Some (stop_proof (stop_context (JStr (t_id (rv_task rv))) (JStr (n_session n))
                          (JStr subject) (JStr (n_generation n)) (JStr op))) \<rparr>;
                 rv' = put_native n' goal rv in
             (Inr True, rv'\<lparr> rv_task := emit width ''state'' (JObj [(''state'', JStr (tstate_text goal)),
                (''nativeRecoveryExitVerified'', JBool True)]) (rv_task rv') \<rparr>))
      | _ \<Rightarrow> recover_uncertain rv)"

inductive recovery_step :: "(event \<Rightarrow> int) \<Rightarrow> sdk_runner \<Rightarrow> recovery \<Rightarrow> recovery \<Rightarrow> bool" for width r where
  begin_recovery: "\<not> rv_waiting rv \<Longrightarrow> recovery_step width r rv (snd (recover_begin r subject rv))"
| inspection_ends: "recovery_step width r rv (inspect_ends out rv)"
| recovery_timeout: "rv_waiting rv \<Longrightarrow> recovery_step width r rv ((snd (recover_uncertain rv))\<lparr> rv_waiting := False \<rparr>)"
| end_recovery: "rv_waiting rv \<Longrightarrow> rv_call rv = Some (c, Some out) \<Longrightarrow>
    recovery_step width r rv ((snd (recover_end width (ss_subject r) rv))\<lparr> rv_waiting := False \<rparr>)"

section \<open>Running a task\<close>

datatype scope_call = Preflight json | Harness | Start json

record session_world =
  sw_task :: task
  sw_calls :: "scope_call list"

definition scope_ask :: "scope_call \<Rightarrow> 'a res \<Rightarrow> (session_world, 'a) io" where
  "scope_ask c reply w = (reply, w\<lparr> sw_calls := sw_calls w @ [c] \<rparr>)"

definition set_running :: "(session_world, unit) io" where
  "set_running w = (Inr (), w\<lparr> sw_task := save ((sw_task w)\<lparr> t_state := Running \<rparr>) \<rparr>)"

definition verify :: "bool \<Rightarrow> string \<Rightarrow> (session_world, unit) io" where
  "verify b e = io_lift (require b (ValueError e))"

text \<open>The checks before the \<open>try\<close>: a foreign or malformed task is not touched.\<close>

definition session_checks :: "sdk_runner \<Rightarrow> string \<Rightarrow> task \<Rightarrow> unit res" where
  "session_checks r subject t =
     (if subject \<noteq> ss_subject r then Inl (ValueError ''FOREIGN_NATIVE_SDK_SUBJECT'')
      else if \<not> (hex_id 32 (t_id t) \<and> hex_id 32 (t_correlation t)) then Inl (ValueError ''INVALID_NATIVE_SDK_TASK_IDENTITY'')
      else if t_runtime t \<noteq> ''sdk'' \<or> t_backend t \<noteq> ''private'' then Inl (ValueError ''INVALID_NATIVE_SDK_TASK'')
      else if t_handoff t \<notin> {None, Some ''''} then Inl (ValueError ''NATIVE_SDK_HANDOFF_NOT_YET_QUALIFIED'')
      else if \<not> (1 \<le> length (t_prompt t) \<and> int (length (t_prompt t)) \<le> 65536) then Inl (ValueError ''INVALID_NATIVE_SDK_PROMPT'')
      else Inr ())"

definition session_context :: "sdk_runner \<Rightarrow> task \<Rightarrow> (string \<times> json) list" where
  "session_context r t =
     [(''subject'', JStr (ss_subject r)), (''generation'', JStr (ss_generation r)), (''taskId'', JStr (t_id t)),
      (''sessionId'', JStr (t_id t)), (''project'', JStr (t_project t)), (''correlationId'', JStr (t_correlation t))]"

definition repeats :: "(string \<times> json) list \<Rightarrow> json \<Rightarrow> bool" where
  "repeats c v = list_all (\<lambda>(k, x). py_eq (jget v k) x) c"

definition version_names :: "string list" where
  "version_names = [''deepseek-harness-sdk'', ''deepseek-harness-runtime-bin'']"

definition SDK_VERSION :: string where "SDK_VERSION = ''0.2.2a2''"

text \<open>The loop over the two distributions; its variable is called \<open>package\<close> like the admission before
  it, and keeps its last value.\<close>

fun check_versions :: "(string \<Rightarrow> string res) \<Rightarrow> string list \<Rightarrow> json \<Rightarrow> json res" where
  "check_versions version [] package = Inr package"
| "check_versions version (name # names) package =
     res_bind (version name) (\<lambda>v.
     if v \<noteq> SDK_VERSION then Inl (ValueError ''MATCHED_APPROVAL_CAPABLE_SDK_PAIR_REQUIRED'')
     else check_versions version names (JStr name))"

definition session_project :: "sdk_env \<Rightarrow> string \<Rightarrow> string list res" where
  "session_project env p =
     res_bind (se_resolve env p) (\<lambda>dir.
     if take (length (se_root env)) dir \<noteq> se_root env \<or> \<not> se_is_dir env dir
     then Inl (ValueError ''BROKER_RESOLVED_PROJECT_REQUIRED'') else Inr dir)"

definition zero_temperature :: "json \<Rightarrow> bool" where
  "zero_temperature v = (case finite_number v of Some x \<Rightarrow> x = 0 | None \<Rightarrow> False)"

text \<open>The harness: the factory of the tests, or the control peer with the digest of \<open>package\<close>.\<close>

definition make_harness :: "sdk_runner \<Rightarrow> sdk_env \<Rightarrow> json \<Rightarrow> (session_world, unit) io" where
  "make_harness r env package =
     (if ss_factory r then scope_ask Harness (se_harness env)
      else io_bind (io_lift (py_idx package ''admissionSha256'')) (\<lambda>_. scope_ask Harness (se_harness env)))"

definition preflight_accepted :: "sdk_runner \<Rightarrow> task \<Rightarrow> json \<Rightarrow> json \<Rightarrow> bool" where
  "preflight_accepted r t digest admission =
     (is_obj admission \<and> jget admission ''admitted'' = JBool True \<and> repeats (session_context r t) admission \<and>
      py_eq (jget admission ''packageAdmissionSha256'') digest)"

text \<open>Inside the \<open>try\<close>, up to the harness.\<close>

definition prepare_session :: "sdk_runner \<Rightarrow> sdk_env \<Rightarrow> task \<Rightarrow> (session_world, unit) io" where
  "prepare_session r env t =
     io_bind (verify (se_qualified env) ''NATIVE_RUNTIME_SCOPE_REVOKED'') (\<lambda>_.
     io_bind (io_lift (fresh_admission r env)) (\<lambda>package.
     io_bind set_running (\<lambda>_.
     io_bind (scope_ask (Preflight (JObj (session_context r t))) (se_preflight env (JObj (session_context r t)))) (\<lambda>admission.
     io_bind (io_lift (py_idx package ''admissionSha256'')) (\<lambda>digest.
     io_bind (verify (preflight_accepted r t digest admission) ''NATIVE_SCOPE_PREFLIGHT_REFUSED'') (\<lambda>_.
     io_bind (io_lift (check_versions (se_version env) version_names package)) (\<lambda>package'.
     io_bind (io_lift (session_project env (t_project t))) (\<lambda>_.
     io_bind (io_lift (se_home env)) (\<lambda>_.
     io_bind (io_lift (se_guard env)) (\<lambda>_.
     io_bind (io_lift (se_endpoint env)) (\<lambda>_.
     io_bind (verify (se_guard_task env = JStr (t_id t) \<and> se_guard_correlation env = JStr (t_correlation t))
       ''NATIVE_MODEL_GUARD_BINDING_MISMATCH'') (\<lambda>_.
     io_bind (verify (zero_temperature (se_temperature env)) ''NATIVE_GUARD_TEMPERATURE_POLICY_REQUIRED'') (\<lambda>_.
     make_harness r env package')))))))))))))"

definition start_context :: "sdk_runner \<Rightarrow> task \<Rightarrow> string \<Rightarrow> (string \<times> json) list" where
  "start_context r t launch = session_context r t @ [(''operationId'', JStr launch)]"

text \<open>Bind the bridge, reserve the launch in the journal, then ask the scope to start.\<close>

definition reserve_launch :: "string \<Rightarrow> bridge \<Rightarrow> bridge" where
  "reserve_launch launch b =
     (case t_native (b_task b) of
        None \<Rightarrow> b
      | Some n \<Rightarrow> put (n\<lparr> n_phase := P_Launch_Reserved, n_launch := Some launch, n_managed := True \<rparr>) (t_state (b_task b)) b)"

datatype launched = Not_Launched exn session_world | Launched bridge session_world

definition launch_session :: "sdk_runner \<Rightarrow> sdk_env \<Rightarrow> string \<Rightarrow> json \<Rightarrow> task \<Rightarrow> launched" where
  "launch_session r env launch timeout t0 =
     (let t = t0\<lparr> t_finished := False \<rparr> in
      case prepare_session r env t \<lparr> sw_task = t, sw_calls = [] \<rparr> of
        (Inl e, w) \<Rightarrow> Not_Launched e w
      | (Inr _, w) \<Rightarrow>
          (case new_bridge (sw_task w) (ss_subject r) (ss_generation r) (t_id t) True timeout of
             Inl e \<Rightarrow> Not_Launched e w
           | Inr b \<Rightarrow>
               (let b' = reserve_launch launch b in
                Launched b' (w\<lparr> sw_task := b_task b', sw_calls := sw_calls w @ [Start (JObj (start_context r t launch))] \<rparr>))))"

text \<open>The \<open>except\<close> and \<open>finally\<close> parts when no bridge exists yet.\<close>

definition session_failed :: "(event \<Rightarrow> int) \<Rightarrow> string \<Rightarrow> task \<Rightarrow> task" where
  "session_failed width what t =
     (save (emit width ''state'' (state_event Failed [(''error'', JStr what)]) (save (t\<lparr> t_state := Failed \<rparr>))))
       \<lparr> t_finished := True \<rparr>"

section \<open>The running session\<close>

text \<open>The start call returned.\<close>

definition accept_start :: "(string \<times> json) list \<Rightarrow> json \<Rightarrow> bridge \<Rightarrow> unit res \<times> bridge" where
  "accept_start c receipt b =
     (if \<not> (is_obj receipt \<and> jget receipt ''started'' = JBool True \<and> repeats c receipt \<and>
            is_obj (jget receipt ''runtimeIdentity'') \<and> truthy (jget receipt ''runtimeIdentity''))
      then (Inl (ValueError ''NATIVE_SCOPE_START_IDENTITY_MISMATCH''), b)
      else
        (case t_native (b_task b) of
           None \<Rightarrow> (Inl (TypeError ''nativeSdk''), b)
         | Some n \<Rightarrow>
             if n_phase n \<noteq> P_Launch_Reserved \<or> t_state (b_task b) \<noteq> Running
             then (Inl (ValueError ''NATIVE_START_COMPLETED_AFTER_FENCE''), b)
             else (Inr (), put (n\<lparr> n_phase := P_Running, n_identity := Some (jget receipt ''runtimeIdentity'') \<rparr>) Running b)))"

text \<open>\<open>verified_stop\<close>: what the bridge's stop call returns or raises for a receipt of the scope.\<close>

definition verified_stop :: "json \<Rightarrow> bridge \<Rightarrow> json res \<times> bridge" where
  "verified_stop receipt b =
     (case t_native (b_task b) of
        None \<Rightarrow> (Inl (TypeError ''nativeSdk''), b)
      | Some n \<Rightarrow>
          let returned = jget receipt ''runtimeIdentity'' in
          if \<not> is_obj receipt \<or> jget receipt ''launchOperationId'' \<noteq> opt_json (map_option JStr (n_launch n)) \<or>
             jget receipt ''launchFenced'' \<noteq> JBool True
          then (Inl (ValueError ''NATIVE_SCOPE_LAUNCH_FENCE_UNVERIFIED''), b)
          else
            (case n_identity n of
               Some i \<Rightarrow> if py_eq returned i then (Inr receipt, b)
                         else (Inl (ValueError ''NATIVE_SCOPE_STOP_IDENTITY_MISMATCH''), b)
             | None \<Rightarrow>
                 if is_obj returned \<and> truthy returned
                 then (Inr receipt, put (n\<lparr> n_identity := Some returned \<rparr>) (t_state (b_task b)) b)
                 else if returned = JNull \<and> jget receipt ''neverStarted'' = JBool True
                 then (Inr receipt, put (n\<lparr> n_never_started := True \<rparr>) (t_state (b_task b)) b)
                 else (Inl (ValueError ''NATIVE_SCOPE_STOP_IDENTITY_MISMATCH''), b)))"

text \<open>A notification is logged only by its method name, and only while the session is open.\<close>

definition notify :: "(event \<Rightarrow> int) \<Rightarrow> json \<Rightarrow> json \<Rightarrow> bridge \<Rightarrow> unit res \<times> bridge" where
  "notify width method_name payload b =
     (if \<not> is_obj payload \<or> jget payload ''sessionId'' \<noteq> JStr (b_session b)
      then (Inl (ValueError ''FOREIGN_NATIVE_NOTIFICATION''), b)
      else
        (case t_native (b_task b) of
           None \<Rightarrow> (Inl (TypeError ''nativeSdk''), b)
         | Some n \<Rightarrow>
             if n_phase n \<notin> {P_Running, P_Awaiting, P_Reserved} then (Inr (), b)
             else (Inr (), b\<lparr> b_task := emit width ''sdk_progress''
                     (JObj [(''state'', JStr (tstate_text (t_state (b_task b)))), (''method'', method_name)]) (b_task b) \<rparr>)))"

text \<open>The turn returned: every doubt raises, which finalizes the session as failed.\<close>

definition finish_turn :: "(event \<Rightarrow> int) \<Rightarrow> bool \<Rightarrow> string \<Rightarrow> json \<Rightarrow> bool \<Rightarrow> bridge \<Rightarrow> unit res \<times> bridge" where
  "finish_turn width protocol_failed finish_reason response settled b =
     (if protocol_failed \<or> finish_reason \<noteq> ''completed'' \<or> \<not> is_str response \<or> strip (str_value response) = []
      then (Inl (ValueError ''NATIVE_SDK_TURN_NOT_COMPLETED''), b)
      else if \<not> settled then (Inl (ValueError ''NATIVE_SDK_DECISION_STILL_UNCERTAIN''), b)
      else
        (case t_native (b_task b) of
           None \<Rightarrow> (Inl (TypeError ''nativeSdk''), b)
         | Some n \<Rightarrow>
             if t_state (b_task b) \<noteq> Running \<or> n_phase n \<noteq> P_Running
             then (Inl (ValueError ''NATIVE_SDK_RESULT_AFTER_FENCE''), b)
             else (Inr (), b\<lparr> b_task := emit width ''output'' (JObj [(''runtime'', JStr ''sdk''),
                     (''text'', JStr (take 16384 (str_value response)))]) (b_task b) \<rparr>)))"

text \<open>The session's end: \<open>finalize\<close> with the wish that the turn allows.\<close>

definition end_turn :: "(event \<Rightarrow> int) \<Rightarrow> bool \<Rightarrow> string \<Rightarrow> json \<Rightarrow> bool \<Rightarrow> string \<Rightarrow> bool \<Rightarrow> bridge \<Rightarrow> bool res \<times> bridge" where
  "end_turn width protocol_failed finish_reason response settled op starts b =
     (case finish_turn width protocol_failed finish_reason response settled b of
        (Inr _, b') \<Rightarrow> finalize Completed op starts b'
      | (Inl e, b') \<Rightarrow> finalize Failed op starts b')"

text \<open>Reader threads that do not end leave the session uncertain.\<close>

definition observers_stuck :: "task \<Rightarrow> task" where
  "observers_stuck t =
     (case t_native t of
        None \<Rightarrow> t
      | Some n \<Rightarrow> save (t\<lparr> t_native := Some (n\<lparr> n_phase := P_Observer_Uncertain \<rparr>), t_state := Interrupted \<rparr>))"

definition session_end :: "bool \<Rightarrow> task \<Rightarrow> task" where
  "session_end stuck t = (save (if stuck then observers_stuck t else t))\<lparr> t_finished := True \<rparr>"

section \<open>Lemmas\<close>

lemma verified_record:
  assumes "t_native t = Some n" "n_phase n = P_Stopped" "terminal (t_state t)" "own_section subject t n"
    "n_stop_operation n = Some op" "hex_id 32 op"
    "n_receipt n = Some (stop_proof (stop_context (JStr (t_id t)) (JStr (n_session n)) (JStr subject) (JStr (n_generation n)) (JStr op)))"
    "t_id t \<noteq> []" "n_session n \<noteq> []" "subject \<noteq> []" "n_generation n \<noteq> []"
  shows "verified_terminal_stop (terminal_record t)"
proof -
  have "op \<noteq> []" using assms(6) by (auto dest: hex_id_length)
  moreover have "jget (terminal_record t) ''nativeSdk'' = native_json n" "jget (terminal_record t) ''state'' = JStr (tstate_text (t_state t))"
    "jget (terminal_record t) ''id'' = JStr (t_id t)" "jget (terminal_record t) ''project'' = JStr (t_project t)"
    "jget (terminal_record t) ''correlationId'' = JStr (t_correlation t)"
    using assms(1) by (simp_all add: terminal_record_def)
  ultimately show ?thesis
    using assms unfolding verified_terminal_stop_def Let_def own_section_def
    by (simp add: terminal_text native_json_fields stop_proof_flags stop_proof_eq del: insert_iff)
       (simp add: stop_context_def nonempty_text_def)
qed

text \<open>The facts of the old session that recovery never changes.\<close>

record old_session =
  od_id :: string
  od_project :: string
  od_correlation :: string
  od_generation :: string
  od_session :: string
  od_launch :: "string option"

definition old_part :: "sdk_runner \<Rightarrow> old_session \<Rightarrow> task \<Rightarrow> native \<Rightarrow> bool" where
  "old_part r o1 t n =
     (own_section (ss_subject r) t n \<and> t_id t = od_id o1 \<and> t_project t = od_project o1 \<and> t_correlation t = od_correlation o1 \<and>
      n_generation n = od_generation o1 \<and> n_session n = od_session o1 \<and> n_launch n = od_launch o1 \<and>
      ss_subject r \<noteq> [] \<and> od_id o1 \<noteq> [] \<and> od_generation o1 \<noteq> [] \<and> od_session o1 \<noteq> [])"

definition exit_proved :: "old_session \<Rightarrow> recovery \<Rightarrow> bool" where
  "exit_proved o1 rv =
     (verified_terminal_stop (terminal_record (rv_task rv)) \<and>
      (\<exists>c receipt launch. rv_call rv = Some (c, Some (Inr receipt)) \<and> od_launch o1 = Some launch \<and>
         jget receipt ''launchOperationId'' = JStr launch \<and> jget receipt ''taskId'' = JStr (od_id o1) \<and>
         jget receipt ''stopped'' = JBool True \<and> jget receipt ''processExitVerified'' = JBool True \<and>
         jget receipt ''launchFenced'' = JBool True))"

definition recovery_inv :: "sdk_runner \<Rightarrow> old_session \<Rightarrow> recovery \<Rightarrow> bool" where
  "recovery_inv r o1 rv =
     (\<exists>n. t_native (rv_task rv) = Some n \<and> old_part r o1 (rv_task rv) n \<and>
      rv_inspections rv = (if rv_call rv = None then 0 else 1) \<and>
      (\<forall>c out. rv_call rv = Some (c, out) \<longrightarrow> (\<exists>launch. od_launch o1 = Some launch \<and>
         map_of c ''launchOperationId'' = Some (JStr launch) \<and> map_of c ''taskId'' = Some (JStr (od_id o1)))) \<and>
      (terminal (t_state (rv_task rv)) \<longleftrightarrow> n_phase n = P_Stopped) \<and>
      (n_phase n = P_Stopped \<longrightarrow> exit_proved o1 rv) \<and>
      (rv_waiting rv \<longrightarrow> rv_call rv \<noteq> None \<and> n_phase n \<noteq> P_Stopped))"

lemma put_native_simps [simp]:
  "t_native (rv_task (put_native n s rv)) = Some n" "t_state (rv_task (put_native n s rv)) = s"
  "t_id (rv_task (put_native n s rv)) = t_id (rv_task rv)" "t_project (rv_task (put_native n s rv)) = t_project (rv_task rv)"
  "t_correlation (rv_task (put_native n s rv)) = t_correlation (rv_task rv)"
  "rv_call (put_native n s rv) = rv_call rv" "rv_inspections (put_native n s rv) = rv_inspections rv"
  "rv_waiting (put_native n s rv) = rv_waiting rv" "rv_bridge (put_native n s rv) = rv_bridge rv"
  by (simp_all add: put_native_def)

lemma old_part_same:
  "old_part r o1 t n \<Longrightarrow> t_id t' = t_id t \<Longrightarrow> t_project t' = t_project t \<Longrightarrow> t_correlation t' = t_correlation t \<Longrightarrow>
   n_subject n' = n_subject n \<Longrightarrow> n_task n' = n_task n \<Longrightarrow> n_project n' = n_project n \<Longrightarrow> n_correlation n' = n_correlation n \<Longrightarrow>
   n_generation n' = n_generation n \<Longrightarrow> n_session n' = n_session n \<Longrightarrow> n_launch n' = n_launch n \<Longrightarrow> old_part r o1 t' n'"
  by (simp add: old_part_def own_section_def)

lemma recover_begin_inv:
  assumes "recovery_inv r o1 rv" "\<not> rv_waiting rv"
  shows "recovery_inv r o1 (snd (recover_begin r subject rv))"
proof -
  from assms obtain n where n: "t_native (rv_task rv) = Some n" and old: "old_part r o1 (rv_task rv) n"
    and ph: "terminal (t_state (rv_task rv)) \<longleftrightarrow> n_phase n = P_Stopped" "n_phase n = P_Stopped \<longrightarrow> exit_proved o1 rv"
    and insp: "rv_inspections rv = (if rv_call rv = None then 0 else 1)" unfolding recovery_inv_def by blast
  show ?thesis
  proof (cases "subject = ss_subject r \<and> n_phase n \<noteq> P_Stopped \<and> \<not> rv_bridge rv")
    case False
    with n ph(2) assms show ?thesis by (auto simp: recover_begin_def Let_def exit_proved_def)
  next
    case go: True
    have own: "own_section subject (rv_task rv) n" using old go by (simp add: old_part_def)
    show ?thesis
    proof (cases "rv_call rv")
      case (Some c)
      with go own n assms show ?thesis
        by (simp add: recover_begin_def Let_def recovery_inv_def exit_proved_def)
    next
      case None
      show ?thesis
      proof (cases "n_launch n")
        case None
        with go own n \<open>rv_call rv = None\<close> assms show ?thesis by (simp add: recover_begin_def Let_def)
      next
        case (Some launch)
        have "old_part r o1 (rv_task (put_native (n\<lparr> n_phase := P_Recovery_Reserved \<rparr>) Interrupted rv)) (n\<lparr> n_phase := P_Recovery_Reserved \<rparr>)"
          using old by (rule old_part_same) simp_all
        moreover have "od_launch o1 = Some launch" "t_id (rv_task rv) = od_id o1" using old Some by (simp_all add: old_part_def)
        ultimately show ?thesis
          using go own n None Some insp assms
          by (auto simp: recover_begin_def Let_def recovery_inv_def recovery_context_def terminal_def old_part_def own_section_def)
      qed
    qed
  qed
qed

lemma receipt_repeats:
  assumes "valid_exit_receipt c n receipt" "map_of c k = Some (JStr v)"
  shows "jget receipt k = JStr v"
proof -
  have "list_all (\<lambda>(k, v). py_eq (jget receipt k) v) c" using assms(1) by (simp add: valid_exit_receipt_def)
  moreover have "(k, JStr v) \<in> set c" using assms(2) by (rule map_of_SomeD)
  ultimately have "py_eq (jget receipt k) (JStr v)" by (auto simp: list_all_iff)
  then show ?thesis by simp
qed

lemma recovered_goal_terminal: "terminal (recovered_goal n)"
  by (simp add: recovered_goal_def terminal_def split: option.split)

lemma unsettled_inv:
  assumes "recovery_inv r o1 rv" "t_native (rv_task rv) = Some n" "n_phase n \<noteq> P_Stopped" "ph \<noteq> P_Stopped"
  shows "recovery_inv r o1 ((put_native (n\<lparr> n_phase := ph \<rparr>) (t_state (rv_task rv)) rv)\<lparr> rv_waiting := False \<rparr>)"
proof -
  have "old_part r o1 (rv_task rv) n" using assms unfolding recovery_inv_def by auto
  then have "old_part r o1 (rv_task (put_native (n\<lparr> n_phase := ph \<rparr>) (t_state (rv_task rv)) rv)) (n\<lparr> n_phase := ph \<rparr>)"
    by (rule old_part_same) simp_all
  then show ?thesis using assms by (auto simp: recovery_inv_def old_part_def own_section_def)
qed

definition settled_record :: "string \<Rightarrow> json \<Rightarrow> native \<Rightarrow> task \<Rightarrow> native" where
  "settled_record subject receipt n t = n\<lparr> n_phase := P_Stopped, n_stop_operation := Some (exit_operation receipt),
     n_receipt := Some (stop_proof (stop_context (JStr (t_id t)) (JStr (n_session n)) (JStr subject)
       (JStr (n_generation n)) (JStr (exit_operation receipt)))) \<rparr>"

lemma settled_inv:
  assumes inv: "recovery_inv r o1 rv" and n: "t_native (rv_task rv) = Some n"
    and valid: "valid_exit_receipt c n receipt" and call: "rv_call rv = Some (c, Some (Inr receipt))"
    and task: "t_native t = Some (settled_record (ss_subject r) receipt n (rv_task rv))" "t_state t = recovered_goal n"
      "t_id t = t_id (rv_task rv)" "t_project t = t_project (rv_task rv)" "t_correlation t = t_correlation (rv_task rv)"
  shows "recovery_inv r o1 (rv\<lparr> rv_task := t, rv_waiting := False \<rparr>)"
proof -
  let ?n = "settled_record (ss_subject r) receipt n (rv_task rv)"
  from inv n call obtain launch where old: "old_part r o1 (rv_task rv) n"
    and l: "od_launch o1 = Some launch" "map_of c ''launchOperationId'' = Some (JStr launch)"
      "map_of c ''taskId'' = Some (JStr (od_id o1))"
    and insp: "rv_inspections rv = 1" unfolding recovery_inv_def by auto
  have old': "old_part r o1 t ?n" using old by (rule old_part_same) (simp_all add: task settled_record_def)
  have hex: "hex_id 32 (exit_operation receipt)" using valid by (simp add: valid_exit_receipt_def)
  have "verified_terminal_stop (terminal_record t)"
    by (rule verified_record [OF task(1), where subject = "ss_subject r" and op = "exit_operation receipt"])
      (use old old' hex in \<open>simp_all add: settled_record_def task recovered_goal_terminal old_part_def own_section_def\<close>)
  moreover have "jget receipt ''stopped'' = JBool True" "jget receipt ''processExitVerified'' = JBool True"
    "jget receipt ''launchFenced'' = JBool True" using valid by (simp_all add: valid_exit_receipt_def)
  ultimately have "exit_proved o1 (rv\<lparr> rv_task := t, rv_waiting := False \<rparr>)"
    using receipt_repeats [OF valid l(2)] receipt_repeats [OF valid l(3)] l(1) call by (simp add: exit_proved_def)
  then show ?thesis using old' task l insp call recovered_goal_terminal
    by (auto simp: recovery_inv_def settled_record_def)
qed

lemma recover_end_inv:
  assumes inv: "recovery_inv r o1 rv" and w: "rv_waiting rv" and call: "rv_call rv = Some (c, Some out)"
  shows "recovery_inv r o1 ((snd (recover_end width (ss_subject r) rv))\<lparr> rv_waiting := False \<rparr>)"
proof -
  from inv w obtain n where n: "t_native (rv_task rv) = Some n" "n_phase n \<noteq> P_Stopped"
    unfolding recovery_inv_def by blast
  note unsettled = unsettled_inv [OF inv n]
  show ?thesis
  proof (cases out)
    case (Inl e)
    then show ?thesis using unsettled n by (simp add: recover_end_def call recover_uncertain_def)
  next
    case (Inr receipt)
    consider "\<not> same_binding c (rv_task rv) n"
      | "same_binding c (rv_task rv) n" "\<not> valid_exit_receipt c n receipt"
      | "same_binding c (rv_task rv) n" "valid_exit_receipt c n receipt" by blast
    then show ?thesis
    proof cases
      case 1
      then show ?thesis using inv n Inr call by (simp add: recover_end_def recovery_inv_def exit_proved_def)
    next
      case 2
      then show ?thesis using unsettled n Inr by (simp add: recover_end_def call)
    next
      case 3
      have "recovery_inv r o1 (rv\<lparr> rv_task := rv_task ((snd (recover_end width (ss_subject r) rv))), rv_waiting := False \<rparr>)"
        by (rule settled_inv [OF inv n(1) 3(2) call [unfolded Inr]])
          (use 3 n call Inr in \<open>simp_all add: recover_end_def Let_def settled_record_def\<close>)
      moreover have "(snd (recover_end width (ss_subject r) rv))\<lparr> rv_waiting := False \<rparr> =
        rv\<lparr> rv_task := rv_task ((snd (recover_end width (ss_subject r) rv))), rv_waiting := False \<rparr>"
        using 3 n call Inr by (simp add: recover_end_def Let_def put_native_def)
      ultimately show ?thesis by simp
    qed
  qed
qed

lemma recovery_step_inv: "recovery_step width r rv rv' \<Longrightarrow> recovery_inv r o1 rv \<Longrightarrow> recovery_inv r o1 rv'"
proof (induction rule: recovery_step.induct)
  case (begin_recovery rv subject)
  then show ?case by (intro recover_begin_inv)
next
  case (inspection_ends rv out)
  then show ?case
    by (auto simp: inspect_ends_def recovery_inv_def exit_proved_def split: option.split)
next
  case (recovery_timeout rv)
  then obtain n where n: "t_native (rv_task rv) = Some n" "n_phase n \<noteq> P_Stopped"
    unfolding recovery_inv_def by blast
  from unsettled_inv [OF recovery_timeout(2) n] show ?case by (simp add: recover_uncertain_def n)
next
  case (end_recovery rv c out)
  then show ?case by (intro recover_end_inv)
qed

interpretation recovering: step_invariant "recovery_step width r" "recovery_inv r old" for width r old
  by unfold_locales (rule recovery_step_inv)

section \<open>Launching\<close>

definition is_start :: "scope_call \<Rightarrow> bool" where
  "is_start c = (case c of Start _ \<Rightarrow> True | _ \<Rightarrow> False)"

definition start_calls :: "session_world \<Rightarrow> scope_call list" where
  "start_calls w = filter is_start (sw_calls w)"

lemma versions_checked:
  "check_versions version names package = Inr p \<Longrightarrow>
   list_all (\<lambda>name. version name = Inr SDK_VERSION) names \<and> p = (if names = [] then package else JStr (last names))"
  by (induction names arbitrary: package) (auto split: if_splits sum.splits simp: res_bind_Inr_iff)

lemma session_wp [wp_rules]:
  "io_wp set_running Q E w = Q () (w\<lparr> sw_task := save ((sw_task w)\<lparr> t_state := Running \<rparr>) \<rparr>)"
  "io_wp (verify b e) Q E w = (if b then Q () w else E w)"
  by (auto simp: io_wp_def set_running_def scope_ask_def verify_def require_def Let_def split: sum.split)

lemma scope_ask_wp [wp_rules]:
  "io_wp (scope_ask c reply) Q E w =
     (let w' = w\<lparr> sw_calls := sw_calls w @ [c] \<rparr> in case reply of Inl e \<Rightarrow> E w' | Inr x \<Rightarrow> Q x w')"
  by (auto simp: io_wp_def scope_ask_def Let_def split: sum.split)

lemma harness_starts:
  "start_calls w = s \<Longrightarrow> io_wp (make_harness r env p) (\<lambda>_ w. start_calls w = s) (\<lambda>w. start_calls w = s) w"
  by (auto simp: make_harness_def scope_ask_def io_wp_def io_bind_def start_calls_def is_start_def split: sum.split)

lemma prepare_starts: "prepare_session r env t w = (res, w') \<Longrightarrow> start_calls w' = start_calls w"
proof -
  have "io_wp (prepare_session r env t) (\<lambda>_ w'. start_calls w' = start_calls w) (\<lambda>w'. start_calls w' = start_calls w) w"
    unfolding prepare_session_def
    by (auto simp: wp_rules Let_def start_calls_def is_start_def split: sum.split
        intro!: harness_starts [unfolded start_calls_def])
  then show "prepare_session r env t w = (res, w') \<Longrightarrow> start_calls w' = start_calls w" by (auto dest!: io_wp_snd)
qed

definition session_ready :: "sdk_runner \<Rightarrow> sdk_env \<Rightarrow> task \<Rightarrow> bool" where
  "session_ready r env t =
     (se_qualified env \<and>
      (\<exists>package digest admission. fresh_admission r env = Inr package \<and> py_idx package ''admissionSha256'' = Inr digest \<and>
         se_preflight env (JObj (session_context r t)) = Inr admission \<and> preflight_accepted r t digest admission) \<and>
      list_all (\<lambda>name. se_version env name = Inr SDK_VERSION) version_names \<and>
      is_ok (session_project env (t_project t)) \<and> is_ok (se_guard env) \<and> is_ok (se_endpoint env) \<and>
      se_guard_task env = JStr (t_id t) \<and> se_guard_correlation env = JStr (t_correlation t) \<and>
      zero_temperature (se_temperature env) \<and> ss_factory r)"

definition session_started :: "task \<Rightarrow> task \<Rightarrow> bool" where
  "session_started t t' = (t' = save (t\<lparr> t_state := Running \<rparr>))"

lemma harness_ready:
  "check_versions version version_names package = Inr p \<Longrightarrow> P w \<Longrightarrow> (\<And>c. P (w\<lparr> sw_calls := c \<rparr>)) \<Longrightarrow>
   io_wp (make_harness r env p) (\<lambda>_ w. ss_factory r \<and> P w) (\<lambda>_. True) w"
  by (drule versions_checked)
     (auto simp: make_harness_def scope_ask_def io_wp_def io_bind_def version_names_def py_idx_def split: sum.split)

lemma prepare_ready:
  "prepare_session r env t w = (Inr u, w') \<Longrightarrow> session_ready r env t \<and> session_started (sw_task w) (sw_task w')"
proof -
  have "io_wp (prepare_session r env t) (\<lambda>_ w'. session_ready r env t \<and> session_started (sw_task w) (sw_task w')) (\<lambda>_. True) w"
    unfolding prepare_session_def
    apply (simp add: wp_rules Let_def split: sum.split)
    apply (intro allI impI)
    apply (rule io_wp_mono)
      apply (rule harness_ready [where P = "\<lambda>w'. session_started (sw_task w) (sw_task w')"], assumption)
    by (auto simp: session_started_def session_ready_def dest: versions_checked)
  then show "prepare_session r env t w = (Inr u, w') \<Longrightarrow> session_ready r env t \<and> session_started (sw_task w) (sw_task w')"
    by (auto dest: io_wpD)
qed

lemma put_saved [simp]:
  "t_saved (b_task (put n st b)) = Some (snapshot_of (b_task (put n st b)))" "t_native (b_task (put n st b)) = Some n"
  "t_state (b_task (put n st b)) = st" "t_id (b_task (put n st b)) = t_id (b_task b)"
  by (simp_all add: put_def save_def snapshot_of_def)

lemma new_bridge_binds:
  "new_bridge t subject generation session can_stop timeout = Inr b \<Longrightarrow>
   t_native (b_task b) = Some (new_native subject generation session t) \<and> t_state (b_task b) = Running"
  by (auto simp: new_bridge_def split: if_splits)

lemma session_context_finished [simp]: "session_context r (t\<lparr> t_finished := False \<rparr>) = session_context r t"
  "start_context r (t\<lparr> t_finished := False \<rparr>) launch = start_context r t launch"
  by (simp_all add: session_context_def start_context_def)

lemma session_ready_finished [simp]: "session_ready r env (t\<lparr> t_finished := False \<rparr>) = session_ready r env t"
  by (simp add: session_ready_def preflight_accepted_def)

lemma launched_session:
  assumes "launch_session r env launch timeout t0 = Launched b w"
  shows "session_ready r env t0 \<and> start_calls w = [Start (JObj (start_context r t0 launch))] \<and> sw_task w = b_task b \<and>
    t_state (b_task b) = Running \<and> t_saved (b_task b) = Some (snapshot_of (b_task b)) \<and>
    (\<exists>n. t_native (b_task b) = Some n \<and> n_phase n = P_Launch_Reserved \<and> n_launch n = Some launch)"
proof -
  let ?t = "t0\<lparr> t_finished := False \<rparr>"
  obtain res w1 where p: "prepare_session r env ?t \<lparr> sw_task = ?t, sw_calls = [] \<rparr> = (res, w1)" by fastforce
  with assms obtain u b0 where res: "res = Inr u"
    and b0: "new_bridge (sw_task w1) (ss_subject r) (ss_generation r) (t_id ?t) True timeout = Inr b0"
    and b: "b = reserve_launch launch b0"
    and w: "w = w1\<lparr> sw_task := b_task b, sw_calls := sw_calls w1 @ [Start (JObj (start_context r ?t launch))] \<rparr>"
    by (auto simp: launch_session_def Let_def split: sum.splits)
  note nb = new_bridge_binds [OF b0]
  have "start_calls w1 = []" using prepare_starts [OF p] by (simp add: start_calls_def)
  then have "start_calls w = [Start (JObj (start_context r t0 launch))]" by (simp add: w start_calls_def is_start_def)
  moreover have "session_ready r env t0" using prepare_ready [OF p [unfolded res]] by simp
  ultimately show ?thesis using nb by (simp add: w b reserve_launch_def)
qed

lemma not_launched_session:
  "launch_session r env launch timeout t0 = Not_Launched e w \<Longrightarrow> start_calls w = []"
  using prepare_starts [of r env "t0\<lparr> t_finished := False \<rparr>" "\<lparr> sw_task = t0\<lparr> t_finished := False \<rparr>, sw_calls = [] \<rparr>"]
  by (auto simp: launch_session_def Let_def start_calls_def split: sum.splits prod.splits)

section \<open>Properties\<close>

definition example_runner :: sdk_runner where
  "example_runner = \<lparr> ss_subject = ''owner'', ss_generation = ''g1'', ss_factory = True \<rparr>"

definition example_state :: json where
  "example_state = JObj [(''admitted'', JBool True), (''subject'', JStr ''owner''), (''generation'', JStr ''g1''),
     (''packageAdmissionSha256'', JStr ''d''), (''isolatedControl'', JBool True), (''brokerCredentialMounts'', JBool False),
     (''expiresAt'', JInt 20)]"

definition example_env :: sdk_env where
  "example_env = \<lparr> se_qualified = True, se_package = Inr (JObj [(''admissionSha256'', JStr ''d'')]), se_state = Inr example_state,
     se_now = 10, se_now2 = 10,
     se_preflight = (\<lambda>c. Inr (JObj (obj_items c @ [(''admitted'', JBool True), (''packageAdmissionSha256'', JStr ''d'')]))),
     se_version = (\<lambda>_. Inr SDK_VERSION), se_root = [''w''], se_resolve = (\<lambda>p. Inr [''w'', p]), se_is_dir = (\<lambda>_. True),
     se_home = Inr (), se_guard = Inr (), se_endpoint = Inr (), se_guard_task = JStr (t_id example_task),
     se_guard_correlation = JStr (t_correlation example_task), se_temperature = JInt 0, se_harness = Inr () \<rparr>"

text \<open>C24: The native process of a task is started at most once and only under admission.  When the run reaches
  the start call, the scope was qualified, the package was admitted afresh, the protected preflight repeated
  the task's whole context and the package digest, both distributions have the pinned version, the project
  directory lies inside the workspace root, and the model guard is bound to this task with temperature 0;
  there is exactly one start call, it carries the launch identifier, and the journal on disk already holds
  the reservation of that launch.  When the run stops before, no start call was made.
\<close>

theorem launch_needs_admission:
  "(launch_session r env launch timeout t = Launched b w \<longrightarrow>
      se_qualified env \<and>
      (\<exists>package digest admission. fresh_admission r env = Inr package \<and> py_idx package ''admissionSha256'' = Inr digest \<and>
         se_preflight env (JObj (session_context r t)) = Inr admission \<and> preflight_accepted r t digest admission) \<and>
      se_version env ''deepseek-harness-sdk'' = Inr SDK_VERSION \<and>
      se_version env ''deepseek-harness-runtime-bin'' = Inr SDK_VERSION \<and>
      is_ok (session_project env (t_project t)) \<and>
      se_guard_task env = JStr (t_id t) \<and> se_guard_correlation env = JStr (t_correlation t) \<and>
      zero_temperature (se_temperature env) \<and>
      start_calls w = [Start (JObj (start_context r t launch))] \<and> t_state (b_task b) = Running \<and>
      (\<exists>s n. t_saved (b_task b) = Some s \<and> s_native s = Some n \<and> n_phase n = P_Launch_Reserved \<and> n_launch n = Some launch)) \<and>
   (\<forall>e. launch_session r env launch timeout t = Not_Launched e w \<longrightarrow> start_calls w = [])"
proof (intro conjI impI allI)
  assume l: "launch_session r env launch timeout t = Launched b w"
  note f = launched_session [OF l]
  from f have "session_ready r env t" by blast
  then show "se_qualified env"
    "\<exists>package digest admission. fresh_admission r env = Inr package \<and> py_idx package ''admissionSha256'' = Inr digest \<and>
         se_preflight env (JObj (session_context r t)) = Inr admission \<and> preflight_accepted r t digest admission"
    "se_version env ''deepseek-harness-sdk'' = Inr SDK_VERSION" "se_version env ''deepseek-harness-runtime-bin'' = Inr SDK_VERSION"
    "is_ok (session_project env (t_project t))" "se_guard_task env = JStr (t_id t)"
    "se_guard_correlation env = JStr (t_correlation t)" "zero_temperature (se_temperature env)"
    by (auto simp: session_ready_def version_names_def)
  from f show "start_calls w = [Start (JObj (start_context r t launch))]" "t_state (b_task b) = Running"
    "\<exists>s n. t_saved (b_task b) = Some s \<and> s_native s = Some n \<and> n_phase n = P_Launch_Reserved \<and> n_launch n = Some launch"
    by (auto simp: snapshot_of_def)
next
  fix e assume "launch_session r env launch timeout t = Not_Launched e w"
  then show "start_calls w = []" by (rule not_launched_session)
qed

lemma example_launched: "case launch_session example_runner example_env (zero_id CHR ''9'') (JInt 5) example_task of
    Launched b w \<Rightarrow> True | Not_Launched e w \<Rightarrow> False"
  by code_simp

theorem launch_needs_admission_witness:
  "\<exists>b w. launch_session example_runner example_env (zero_id CHR ''9'') (JInt 5) example_task = Launched b w \<and>
     start_calls w = [Start (JObj (start_context example_runner example_task (zero_id CHR ''9'')))]"
  using example_launched launch_needs_admission [of example_runner example_env "zero_id CHR ''9''" "JInt 5" example_task]
  by (auto split: launched.splits)

text \<open>
  A run without the harness factory of the tests never starts the native process: every start needs the
  control peer, whose arguments read the package digest from the variable that the version loop has
  overwritten with a distribution name, so that even when every check passes the run ends in the
  \<open>TypeError\<close> of indexing a text by a key.
\<close>

theorem production_run_never_launches:
  assumes "\<not> ss_factory r"
  shows "\<exists>e w. launch_session r env launch timeout t = Not_Launched e w \<and> start_calls w = []"
proof -
  have "\<nexists>b w. launch_session r env launch timeout t = Launched b w"
    using assms by (auto dest!: launched_session simp: session_ready_def)
  then obtain e w where "launch_session r env launch timeout t = Not_Launched e w"
    by (cases "launch_session r env launch timeout t") auto
  then show ?thesis using not_launched_session by blast
qed

theorem production_run_never_launches_witness:
  "\<exists>w. launch_session (example_runner\<lparr> ss_factory := False \<rparr>) example_env (zero_id CHR ''9'') (JInt 5) example_task =
     Not_Launched (TypeError ''admissionSha256'') w \<and> start_calls w = []"
proof -
  have "case launch_session (example_runner\<lparr> ss_factory := False \<rparr>) example_env (zero_id CHR ''9'') (JInt 5) example_task of
      Launched b w \<Rightarrow> False | Not_Launched e w \<Rightarrow> e = TypeError ''admissionSha256''"
    by code_simp
  moreover have "\<not> ss_factory (example_runner\<lparr> ss_factory := False \<rparr>)" by simp
  ultimately show ?thesis using production_run_never_launches [of "example_runner\<lparr> ss_factory := False \<rparr>" example_env
    "zero_id CHR ''9''" "JInt 5" example_task] by auto
qed

text \<open>Recovery settles an old session only on a proof of its exit.  However callers, timeouts and replies
  interleave, the exit of the old process is read at most once, nothing is started, and the task reaches a
  terminal state only when its record verifies as a terminal stop and the reply of that read names this task
  and the launch recorded before the restart and says that the process stopped, that its exit was verified
  and that the launch is fenced.
\<close>

theorem recovery_needs_exit_proof:
  assumes "(recovery_step width r)\<^sup>*\<^sup>* rv0 rv"
    and "rv_call rv0 = None" "\<not> rv_waiting rv0" "rv_inspections rv0 = 0"
    and "t_native (rv_task rv0) = Some n0" "own_section (ss_subject r) (rv_task rv0) n0"
    and "n_phase n0 \<noteq> P_Stopped" "\<not> terminal (t_state (rv_task rv0))"
    and "ss_subject r \<noteq> []" "t_id (rv_task rv0) \<noteq> []" "n_generation n0 \<noteq> []" "n_session n0 \<noteq> []"
  shows "rv_inspections rv \<le> 1 \<and>
    (terminal (t_state (rv_task rv)) \<longrightarrow>
       verified_terminal_stop (terminal_record (rv_task rv)) \<and>
       (\<exists>c receipt launch. rv_call rv = Some (c, Some (Inr receipt)) \<and> n_launch n0 = Some launch \<and>
          jget receipt ''launchOperationId'' = JStr launch \<and> jget receipt ''taskId'' = JStr (t_id (rv_task rv0)) \<and>
          jget receipt ''stopped'' = JBool True \<and> jget receipt ''processExitVerified'' = JBool True \<and>
          jget receipt ''launchFenced'' = JBool True))"
proof -
  let ?o = "\<lparr> od_id = t_id (rv_task rv0), od_project = t_project (rv_task rv0), od_correlation = t_correlation (rv_task rv0),
    od_generation = n_generation n0, od_session = n_session n0, od_launch = n_launch n0 \<rparr>"
  have "recovery_inv r ?o rv0" using assms by (simp add: recovery_inv_def old_part_def)
  from recovering.reachable [OF assms(1) this] have inv: "recovery_inv r ?o rv" .
  then show ?thesis by (auto simp: recovery_inv_def exit_proved_def split: if_splits)
qed

definition example_old :: recovery where
  "example_old = \<lparr> rv_task = example_task\<lparr> t_state := Interrupted, t_native := Some ((new_native ''owner'' ''g1'' ''s1'' example_task)
      \<lparr> n_phase := P_Launch_Reserved, n_launch := Some (zero_id CHR ''9'') \<rparr>) \<rparr>,
     rv_bridge = False, rv_call = None, rv_inspections = 0, rv_waiting = False \<rparr>"

definition example_read :: recovery where
  "example_read = snd (recover_begin example_runner ''owner'' example_old)"

definition example_exit :: json where
  "example_exit = (case rv_call example_read of Some (c, _) \<Rightarrow> JObj (c @ [(''stopped'', JBool True), (''processExitVerified'', JBool True),
     (''launchFenced'', JBool True), (''neverStarted'', JBool True), (''operationId'', JStr (zero_id CHR ''8''))]) | None \<Rightarrow> JNull)"

definition example_answered :: recovery where
  "example_answered = inspect_ends (Inr example_exit) example_read"

definition example_settled :: recovery where
  "example_settled = (snd (recover_end (\<lambda>_. 10) (ss_subject example_runner) example_answered))\<lparr> rv_waiting := False \<rparr>"

lemma example_recovery:
  "rv_waiting example_answered" "rv_call example_answered = Some (fst (the (rv_call example_answered)), Some (Inr example_exit))"
  "t_state (rv_task example_settled) = Failed" "\<not> rv_waiting example_old"
  by code_simp+

lemma example_settles: "(recovery_step (\<lambda>_. 10) example_runner)\<^sup>*\<^sup>* example_old example_settled"
proof -
  have "recovery_step (\<lambda>_. 10) example_runner example_old example_read"
    unfolding example_read_def by (rule begin_recovery) (rule example_recovery)
  moreover have "recovery_step (\<lambda>_. 10) example_runner example_read example_answered"
    unfolding example_answered_def by (rule inspection_ends)
  moreover have "recovery_step (\<lambda>_. 10) example_runner example_answered example_settled"
    unfolding example_settled_def by (rule end_recovery [OF example_recovery(1,2)])
  ultimately show ?thesis by (meson converse_rtranclp_into_rtranclp rtranclp.rtrancl_refl)
qed

theorem recovery_needs_exit_proof_witness:
  "t_state (rv_task example_settled) = Failed \<and> rv_inspections example_settled \<le> 1 \<and>
   verified_terminal_stop (terminal_record (rv_task example_settled))"
proof -
  have "terminal (t_state (rv_task example_settled))" by (simp add: example_recovery terminal_def)
  moreover have "rv_inspections example_settled \<le> 1 \<and>
    (terminal (t_state (rv_task example_settled)) \<longrightarrow> verified_terminal_stop (terminal_record (rv_task example_settled)))"
    using recovery_needs_exit_proof [OF example_settles,
        where ?n0.0 = "(new_native ''owner'' ''g1'' ''s1'' example_task)\<lparr> n_phase := P_Launch_Reserved, n_launch := Some (zero_id CHR ''9'') \<rparr>"]
    by (simp add: example_old_def example_runner_def own_section_def new_native_def terminal_def example_task_def zero_id_def)
  ultimately show ?thesis by (simp add: example_recovery)
qed

end
