(* ===== verification/Sdk_Bootstrap.thy ===== *)
theory Sdk_Bootstrap imports Sdk_Session Sdk_Admission begin

text \<open>
  The composition of the SDK service, \<open>scripts/official_sdk_bootstrap.py\<close>: the checks of the server
  admission, the package re-check that every later admission makes, and the recovery of the registry's
  tasks before the service becomes visible.  Files, clock, SHA-256, the deployment observer, the package
  check and the scope factory are parameters; the session runner is the one of \<open>Sdk_Session\<close>.
\<close>

section \<open>The server admission\<close>

definition SOURCES :: "(string \<times> string) list" where
  "SOURCES =
     [(''controller'', ''/opt/dsh/container/dsh-sdk-control.py''),
      (''peer'', ''/opt/dsh/scripts/official_sdk_control_peer.py''),
      (''session'', ''/opt/dsh/scripts/official_sdk_session.py''),
      (''packageAdmission'', ''/opt/dsh/scripts/official_sdk_package_admission.py''),
      (''bootstrap'', ''/opt/dsh/scripts/official_sdk_bootstrap.py''),
      (''deploymentObserver'', ''/opt/dsh/scripts/official_sdk_deployment_observer.py''),
      (''qualificationAPI'', ''/opt/dsh/scripts/official_sdk_test_api.py''),
      (''releaseVerifier'', ''/opt/dsh/scripts/official_sdk_release_admission.py''),
      (''executingIdentity'', ''/opt/dsh/scripts/official_sdk_executing_identity.py'')]"

text \<open>One moment of the world outside.\<close>

record boot_env =
  be_read :: "string \<Rightarrow> int \<Rightarrow> string res"
  be_loads :: "string \<Rightarrow> json res"
  be_sha :: "string \<Rightarrow> string"
  be_now :: rat
  be_observed :: "json res"
  be_package :: "json res"
  be_scope_state :: "json res"

definition protected_source_path :: "json \<Rightarrow> string res" where
  "protected_source_path v =
     (case v of
        JStr s \<Rightarrow>
          if \<not> startswith ''/opt/dsh/scripts/'' s \<or> ''..'' \<in> set (path_parts s) \<or> backslash \<in> set s \<or> \<not> endswith ''.py'' s
          then Inl (ValueError ''INVALID_OFFICIAL_SDK_SCOPE_SOURCE'') else Inr s
      | _ \<Rightarrow> Inl (ValueError ''INVALID_OFFICIAL_SDK_SCOPE_SOURCE''))"

text \<open>\<open>str(v)\<close> where it can consist of hexadecimal digits: a text or a number that is not negative.\<close>

definition hex_text :: "json \<Rightarrow> string" where
  "hex_text v = (case v of JStr s \<Rightarrow> s | JInt i \<Rightarrow> if 0 \<le> i then decimal (nat i) else ''-'' | _ \<Rightarrow> ''-'')"

definition uid_text :: "json \<Rightarrow> bool" where
  "uid_text v =
     (case v of
        JStr s \<Rightarrow> (let ps = split_char CHR ''-'' s in
          map length ps = [8, 4, 4, 4, 12] \<and> list_all (list_all (\<lambda>c. c \<in> set hex_chars)) ps)
      | _ \<Rightarrow> False)"

definition config_keys :: "string list" where
  "config_keys = [''kind'', ''mode'', ''subject'', ''generation'', ''expiresAt'', ''sourceCommit'', ''imageDigest'',
     ''packageAdmissionSha256'', ''scopeModule'', ''scopeSha256'', ''sources'', ''deploymentBinding'']"

definition image_digest :: "json \<Rightarrow> bool" where
  "image_digest v = (case v of JStr s \<Rightarrow> startswith ''sha256:'' s \<and> exact_hash (JStr (drop 7 s)) | _ \<Rightarrow> False)"

definition config_valid :: "rat \<Rightarrow> json \<Rightarrow> bool" where
  "config_valid now c =
     (exact_keys config_keys c \<and> jget c ''kind'' = JStr ''DSH_OFFICIAL_SDK_SERVER_ADMISSION_V1'' \<and>
      jget c ''mode'' = JStr ''qualification'' \<and>
      (case finite_number (jget c ''expiresAt'') of Some x \<Rightarrow> 0 < x - now \<and> x - now \<le> 300 | None \<Rightarrow> False) \<and>
      hex_id 40 (hex_text (jget c ''sourceCommit'')) \<and> jget c ''sourceCommit'' \<noteq> JStr (replicate 40 CHR ''0'') \<and>
      image_digest (jget c ''imageDigest'') \<and> exact_hash (jget c ''scopeSha256'') \<and>
      exact_hash (jget c ''packageAdmissionSha256''))"

definition deployment_keys :: "string list" where
  "deployment_keys = [''namespace'', ''namespaceUID'', ''podUID'', ''workloadUID'', ''environment'', ''workloadRole'']"

definition namespace_text :: "json \<Rightarrow> bool" where
  "namespace_text v =
     (case v of JStr (c # s) \<Rightarrow> c \<in> set (lower_chars @ digit_chars) \<and> fullmatch_class (lower_chars @ digit_chars @ ''-'') 0 62 s
      | _ \<Rightarrow> False)"

definition test_binding :: "json \<Rightarrow> bool" where
  "test_binding d =
     (exact_keys deployment_keys d \<and> jget d ''environment'' = JStr ''test'' \<and> jget d ''workloadRole'' = JStr ''qualification'' \<and>
      namespace_text (jget d ''namespace'') \<and> uid_text (jget d ''namespaceUID'') \<and> uid_text (jget d ''podUID'') \<and>
      uid_text (jget d ''workloadUID''))"

definition boot_json :: "boot_env \<Rightarrow> string \<Rightarrow> json res" where
  "boot_json be raw = unique_json (be_loads be) raw"

section \<open>The checks\<close>

definition check_deployment :: "boot_env \<Rightarrow> json \<Rightarrow> unit res" where
  "check_deployment be deployment =
     res_bind (be_observed be) (\<lambda>observed.
     require (is_obj observed \<and> py_eq observed deployment) (ValueError ''NON_TEST_OR_FOREIGN_DEPLOYMENT_IDENTITY''))"

definition check_package :: "boot_env \<Rightarrow> json \<Rightarrow> json res" where
  "check_package be c =
     res_bind (be_package be) (\<lambda>package.
     res_bind (py_idx package ''admissionSha256'') (\<lambda>digest.
     if digest \<noteq> jget c ''packageAdmissionSha256'' then Inl (ValueError ''OFFICIAL_SDK_PACKAGE_BINDING_CHANGED'')
     else Inr package))"

text \<open>One protected file against the digest that is expected of it.\<close>

definition check_file :: "boot_env \<Rightarrow> string \<Rightarrow> json \<Rightarrow> string \<Rightarrow> string res" where
  "check_file be p expected e =
     res_bind (be_read be p (1024 * 1024)) (\<lambda>source.
     if JStr (be_sha be source) \<noteq> expected then Inl (ValueError e) else Inr source)"

fun check_sources :: "boot_env \<Rightarrow> bool \<Rightarrow> json \<Rightarrow> (string \<times> string) list \<Rightarrow> unit res" where
  "check_sources be strict sources [] = Inr ()"
| "check_sources be strict sources ((role, p) # rest) =
     (if strict \<and> \<not> exact_hash (jget sources role) then Inl (ValueError ''OFFICIAL_SDK_CONTROLLER_SOURCE_MISMATCH'')
      else res_bind (check_file be p (jget sources role) ''OFFICIAL_SDK_CONTROLLER_SOURCE_MISMATCH'') (\<lambda>_.
        check_sources be strict sources rest))"

text \<open>Everything \<open>configure\<close> checks before the scope factory runs: the raw text and the value of the
  admission, the module's path and its source.\<close>

record admitted_boot =
  ab_path :: string
  ab_raw :: string
  ab_config :: json
  ab_module :: string

definition FIXED_PATH :: string where "FIXED_PATH = ''/etc/dsh-native-admission/official-sdk-server.json''"

definition admit_boot :: "boot_env \<Rightarrow> bool \<Rightarrow> bool \<Rightarrow> string \<Rightarrow> (admitted_boot \<times> string) res" where
  "admit_boot be allowed observer p =
     res_bind (require allowed (ValueError ''OFFICIAL_SDK_TEST_ADMISSION_REQUIRED'')) (\<lambda>_.
     res_bind (require observer (ValueError ''INDEPENDENT_TEST_DEPLOYMENT_OBSERVER_REQUIRED'')) (\<lambda>_.
     res_bind (require (p = FIXED_PATH) (ValueError ''FIXED_OFFICIAL_SDK_SERVER_ADMISSION_REQUIRED'')) (\<lambda>_.
     res_bind (be_read be p 65536) (\<lambda>raw.
     res_bind (boot_json be raw) (\<lambda>c.
     res_bind (require (config_valid (be_now be) c) (ValueError ''INVALID_OFFICIAL_SDK_SERVER_ADMISSION'')) (\<lambda>_.
     res_bind (require (identity_json (jget c ''subject'') \<and> identity_json (jget c ''generation''))
       (ValueError ''INVALID_OFFICIAL_SDK_SERVER_IDENTITY'')) (\<lambda>_.
     res_bind (require (test_binding (jget c ''deploymentBinding'')) (ValueError ''INVALID_TEST_DEPLOYMENT_BINDING'')) (\<lambda>_.
     res_bind (check_deployment be (jget c ''deploymentBinding'')) (\<lambda>_.
     res_bind (check_package be c) (\<lambda>_.
     res_bind (require (exact_keys (map fst SOURCES) (jget c ''sources'')) (ValueError ''OFFICIAL_SDK_CONTROLLER_SOURCE_BINDINGS_REQUIRED'')) (\<lambda>_.
     res_bind (check_sources be True (jget c ''sources'') SOURCES) (\<lambda>_.
     res_bind (protected_source_path (jget c ''scopeModule'')) (\<lambda>m.
     res_bind (check_file be m (jget c ''scopeSha256'') ''OFFICIAL_SDK_SCOPE_SOURCE_MISMATCH'') (\<lambda>source.
     Inr (\<lparr> ab_path = p, ab_raw = raw, ab_config = c, ab_module = m \<rparr>, source)))))))))))))))"

text \<open>\<open>fresh_package\<close>, the admission check of the runner, at a later moment.\<close>

definition scope_image_bound :: "json \<Rightarrow> json \<Rightarrow> bool" where
  "scope_image_bound c observation =
     (is_obj observation \<and> py_eq (jget observation ''sourceCommit'') (jget c ''sourceCommit'') \<and>
      py_eq (jget observation ''imageDigest'') (jget c ''imageDigest'') \<and>
      py_eq (jget observation ''controllerSha256'') (jget (jget c ''sources'') ''controller'') \<and>
      py_eq (jget observation ''scopeSha256'') (jget c ''scopeSha256''))"

definition before_expiry :: "boot_env \<Rightarrow> json \<Rightarrow> bool" where
  "before_expiry be c = (case finite_number (jget c ''expiresAt'') of Some x \<Rightarrow> be_now be < x | None \<Rightarrow> False)"

definition fresh_package :: "admitted_boot \<Rightarrow> boot_env \<Rightarrow> json res" where
  "fresh_package ab be =
     (let c = ab_config ab in
      res_bind (be_read be (ab_path ab) 65536) (\<lambda>raw.
      res_bind (require (raw = ab_raw ab \<and> before_expiry be c) (ValueError ''OFFICIAL_SDK_SERVER_ADMISSION_REVOKED'')) (\<lambda>_.
      res_bind (check_deployment be (jget c ''deploymentBinding'')) (\<lambda>_.
      res_bind (check_sources be False (jget c ''sources'') SOURCES) (\<lambda>_.
      res_bind (check_file be (ab_module ab) (jget c ''scopeSha256'') ''OFFICIAL_SDK_SCOPE_SOURCE_MISMATCH'') (\<lambda>_.
      res_bind (check_package be c) (\<lambda>package.
      res_bind (be_scope_state be) (\<lambda>observation.
      if \<not> scope_image_bound c observation then Inl (ValueError ''OFFICIAL_SDK_SCOPE_IMAGE_BINDING_MISMATCH'')
      else Inr package))))))))"

section \<open>Composition\<close>

text \<open>What the scope factory returns: whether it is a dictionary with exactly the scope and the guard factory,
  the facts of the scope, and whether the guard factory can be called.\<close>

record scope_components =
  sc_exact :: bool
  sc_scope :: scope_facts
  sc_guard_callable :: bool

record boot_service =
  bs_runner :: sdk_runner
  bs_boot :: admitted_boot

text \<open>\<open>registry.tasks\<close> and \<open>server.sdk_service\<close>.\<close>

record boot_server =
  bv_tasks :: "task list"
  bv_service :: "boot_service option"

definition own_native :: "json \<Rightarrow> task \<Rightarrow> bool" where
  "own_native subject t = (case t_native t of Some n \<Rightarrow> JStr (n_subject n) = subject | None \<Rightarrow> False)"

fun recover_own :: "(task \<Rightarrow> bool res \<times> task) \<Rightarrow> json \<Rightarrow> task list \<Rightarrow> unit res \<times> task list" where
  "recover_own rec subject [] = (Inr (), [])"
| "recover_own rec subject (t # ts) =
     (if \<not> own_native subject t
      then (case recover_own rec subject ts of (r, ts') \<Rightarrow> (r, t # ts'))
      else
        (case rec t of
           (Inl e, t') \<Rightarrow> (Inl e, t' # ts)
         | (Inr _, t') \<Rightarrow> (case recover_own rec subject ts of (r, ts') \<Rightarrow> (r, t' # ts'))))"

text \<open>The runner sees the package through \<open>fresh_package\<close>.\<close>

definition session_env :: "admitted_boot \<Rightarrow> boot_env \<Rightarrow> sdk_env \<Rightarrow> sdk_env" where
  "session_env ab be env = env\<lparr> se_package := fresh_package ab be \<rparr>"

definition configure :: "boot_env \<Rightarrow> (string \<Rightarrow> json \<Rightarrow> scope_components res) \<Rightarrow> sdk_env \<Rightarrow> (sdk_runner \<Rightarrow> task \<Rightarrow> bool res \<times> task) \<Rightarrow>
    bool \<Rightarrow> bool \<Rightarrow> string \<Rightarrow> boot_server \<Rightarrow> bool res \<times> boot_server" where
  "configure be factory env rec allowed observer p sv =
     (if p = [] then (Inr False, sv)
      else
        (case admit_boot be allowed observer p of
           Inl e \<Rightarrow> (Inl e, sv)
         | Inr (ab, source) \<Rightarrow>
             (case factory source (ab_config ab) of
                Inl e \<Rightarrow> (Inl e, sv)
              | Inr sc \<Rightarrow>
                  if \<not> sc_exact sc then (Inl (ValueError ''OFFICIAL_SDK_SCOPE_COMPONENTS_REQUIRED''), sv)
                  else
                    (let c = ab_config ab in
                     case new_sdk_runner (jget c ''subject'') (jget c ''generation'') (sc_guard_callable sc) (sc_scope sc) False (JInt 5) of
                       Inl e \<Rightarrow> (Inl e, sv)
                     | Inr r \<Rightarrow>
                         if \<not> sdk_qualified r (session_env ab be env)
                         then (Inl (ValueError ''OFFICIAL_SDK_SCOPE_NOT_FRESHLY_QUALIFIED''), sv)
                         else
                           (case recover_own (rec r) (jget c ''subject'') (bv_tasks sv) of
                              (Inl e, ts) \<Rightarrow> (Inl e, sv\<lparr> bv_tasks := ts \<rparr>)
                            | (Inr _, ts) \<Rightarrow>
                                (Inr True, sv\<lparr> bv_tasks := ts, bv_service := Some \<lparr> bs_runner = r, bs_boot = ab \<rparr> \<rparr>))))))"

section \<open>Lemmas\<close>

definition files_match :: "boot_env \<Rightarrow> json \<Rightarrow> string \<Rightarrow> json \<Rightarrow> bool" where
  "files_match be sources m scope_digest =
     (list_all (\<lambda>(role, p). \<exists>content. be_read be p (1024 * 1024) = Inr content \<and> jget sources role = JStr (be_sha be content)) SOURCES \<and>
      (\<exists>content. be_read be m (1024 * 1024) = Inr content \<and> scope_digest = JStr (be_sha be content)))"

lemma checked_file: "check_file be p expected e = Inr content \<Longrightarrow>
    be_read be p (1024 * 1024) = Inr content \<and> expected = JStr (be_sha be content)"
  by (auto simp: check_file_def res_bind_Inr_iff split: if_splits)

lemma checked_sources: "check_sources be strict sources rs = Inr u \<Longrightarrow>
    list_all (\<lambda>(role, p). \<exists>content. be_read be p (1024 * 1024) = Inr content \<and> jget sources role = JStr (be_sha be content)) rs"
  by (induction be strict sources rs rule: check_sources.induct)
     (auto simp: res_bind_Inr_iff dest!: checked_file split: if_splits)

lemma checked_deployment: "check_deployment be d = Inr u \<Longrightarrow> \<exists>observed. be_observed be = Inr observed \<and> py_eq observed d"
  by (auto simp: check_deployment_def res_bind_Inr_iff)

lemma checked_package: "check_package be c = Inr package \<Longrightarrow>
    be_package be = Inr package \<and> jget package ''admissionSha256'' = jget c ''packageAdmissionSha256''"
  by (auto simp: check_package_def res_bind_Inr_iff py_idx_Inr split: if_splits)

lemma module_source: "protected_source_path v = Inr m \<Longrightarrow>
    startswith ''/opt/dsh/scripts/'' m \<and> ''..'' \<notin> set (path_parts m) \<and> endswith ''.py'' m"
  by (auto simp: protected_source_path_def split: json.splits if_splits)

lemma admitted_boot:
  assumes "admit_boot be allowed observer p = Inr (ab, source)"
  shows "allowed \<and> observer \<and> p = FIXED_PATH \<and> be_read be p 65536 = Inr (ab_raw ab) \<and> boot_json be (ab_raw ab) = Inr (ab_config ab) \<and>
    config_valid (be_now be) (ab_config ab) \<and> test_binding (jget (ab_config ab) ''deploymentBinding'') \<and>
    (\<exists>observed. be_observed be = Inr observed \<and> py_eq observed (jget (ab_config ab) ''deploymentBinding'')) \<and>
    files_match be (jget (ab_config ab) ''sources'') (ab_module ab) (jget (ab_config ab) ''scopeSha256'') \<and>
    startswith ''/opt/dsh/scripts/'' (ab_module ab) \<and> ''..'' \<notin> set (path_parts (ab_module ab))"
  using assms unfolding admit_boot_def res_bind_Inr_iff require_Inr
  by (elim exE conjE) (auto simp: files_match_def dest: checked_file checked_sources checked_deployment module_source)

lemma rechecked:
  assumes "fresh_package ab be = Inr package"
  shows "be_read be (ab_path ab) 65536 = Inr (ab_raw ab) \<and> before_expiry be (ab_config ab) \<and>
    (\<exists>observed. be_observed be = Inr observed \<and> py_eq observed (jget (ab_config ab) ''deploymentBinding'')) \<and>
    files_match be (jget (ab_config ab) ''sources'') (ab_module ab) (jget (ab_config ab) ''scopeSha256'') \<and>
    be_package be = Inr package \<and> jget package ''admissionSha256'' = jget (ab_config ab) ''packageAdmissionSha256'' \<and>
    (\<exists>observation. be_scope_state be = Inr observation \<and> scope_image_bound (ab_config ab) observation)"
  using assms unfolding fresh_package_def Let_def res_bind_Inr_iff require_Inr
  by (elim exE conjE) (auto simp: files_match_def dest: checked_file checked_sources checked_deployment checked_package split: if_splits)

lemma admitted_package: "fresh_admission r env = Inr package \<Longrightarrow> se_package env = Inr package"
  by (auto simp: fresh_admission_def res_bind_Inr_iff split: if_splits)

lemma recover_own_others:
  "recover_own rec subject ts = (r, ts') \<Longrightarrow> length ts' = length ts \<and>
   (\<forall>i < length ts. \<not> own_native subject (ts ! i) \<longrightarrow> ts' ! i = ts ! i)"
proof (induction ts arbitrary: r ts')
  case Nil
  then show ?case by simp
next
  case (Cons t ts)
  show ?case
  proof (cases "own_native subject t")
    case False
    with Cons.prems obtain us where u: "recover_own rec subject ts = (r, us)" "ts' = t # us" by (auto split: prod.splits)
    with Cons.IH [OF u(1)] show ?thesis by (auto simp: nth_Cons split: nat.split)
  next
    case True
    obtain q t' where q: "rec t = (q, t')" by fastforce
    show ?thesis
    proof (cases q)
      case (Inl e)
      with True q Cons.prems have "ts' = t' # ts" by simp
      with True show ?thesis by (auto simp: nth_Cons split: nat.split)
    next
      case (Inr b)
      with True q Cons.prems obtain us where u: "recover_own rec subject ts = (r, us)" "ts' = t' # us" by (auto split: prod.splits)
      with Cons.IH [OF u(1)] True show ?thesis by (auto simp: nth_Cons split: nat.split)
    qed
  qed
qed

lemma configured:
  assumes "configure be factory env rec allowed observer p sv = (out, sv')" "bv_service sv' \<noteq> bv_service sv"
  obtains ab source r ts where "out = Inr True" "admit_boot be allowed observer p = Inr (ab, source)"
    "bv_service sv' = Some \<lparr> bs_runner = r, bs_boot = ab \<rparr>" "sdk_qualified r (session_env ab be env)" "\<not> ss_factory r"
    "JStr (ss_subject r) = jget (ab_config ab) ''subject''"
  using assms
  by (auto simp: configure_def Let_def new_sdk_runner_def identity_json_def split: if_splits sum.splits prod.splits json.splits)

section \<open>Properties\<close>

text \<open>C23: The SDK service becomes visible only when everything it is bound to was checked.  If a configuration
  attempt changes the server's service at all, then qualification was allowed, the independent observer was
  supplied, the admission came from the fixed path, parses without repeated keys and is valid and expires
  within 300 seconds, the observed deployment is the declared test deployment, each of the nine controller
  sources and the scope module below \<open>/opt/dsh/scripts\<close> has the declared digest, and the runner was
  freshly qualified for the declared subject; otherwise the service is the one it was.\<close>

theorem configured_service_is_bound:
  assumes "configure be factory env rec allowed observer p sv = (out, sv')" and "bv_service sv' \<noteq> bv_service sv"
  shows "out = Inr True \<and> allowed \<and> observer \<and> p = FIXED_PATH \<and>
    (\<exists>ab r. bv_service sv' = Some \<lparr> bs_runner = r, bs_boot = ab \<rparr> \<and>
       be_read be FIXED_PATH 65536 = Inr (ab_raw ab) \<and> boot_json be (ab_raw ab) = Inr (ab_config ab) \<and>
       config_valid (be_now be) (ab_config ab) \<and> test_binding (jget (ab_config ab) ''deploymentBinding'') \<and>
       (\<exists>observed. be_observed be = Inr observed \<and> py_eq observed (jget (ab_config ab) ''deploymentBinding'')) \<and>
       list_all (\<lambda>(role, q). \<exists>content. be_read be q (1024 * 1024) = Inr content \<and>
         jget (jget (ab_config ab) ''sources'') role = JStr (be_sha be content)) SOURCES \<and>
       startswith ''/opt/dsh/scripts/'' (ab_module ab) \<and>
       (\<exists>content. be_read be (ab_module ab) (1024 * 1024) = Inr content \<and>
          jget (ab_config ab) ''scopeSha256'' = JStr (be_sha be content)) \<and>
       JStr (ss_subject r) = jget (ab_config ab) ''subject'' \<and> sdk_qualified r (session_env ab be env))"
proof -
  from assms obtain ab source r ts where c: "out = Inr True" "admit_boot be allowed observer p = Inr (ab, source)"
    "bv_service sv' = Some \<lparr> bs_runner = r, bs_boot = ab \<rparr>" "sdk_qualified r (session_env ab be env)"
    "JStr (ss_subject r) = jget (ab_config ab) ''subject''" by (rule configured)
  from admitted_boot [OF c(2)] c show ?thesis by (auto simp: files_match_def)
qed

text \<open>Every later admission repeats those checks.  Whenever the configured runner admits again, for a task
  or for a reading of its capabilities, the admission file is unchanged and not expired, the deployment is
  still the declared one, all sources and the scope module still have their digests, and the package and the
  running scope are bound to the same digests.\<close>

theorem admission_rechecks_bindings:
  assumes "fresh_admission r (session_env ab be env) = Inr package"
  shows "be_read be (ab_path ab) 65536 = Inr (ab_raw ab) \<and> before_expiry be (ab_config ab) \<and>
    (\<exists>observed. be_observed be = Inr observed \<and> py_eq observed (jget (ab_config ab) ''deploymentBinding'')) \<and>
    list_all (\<lambda>(role, q). \<exists>content. be_read be q (1024 * 1024) = Inr content \<and>
      jget (jget (ab_config ab) ''sources'') role = JStr (be_sha be content)) SOURCES \<and>
    (\<exists>content. be_read be (ab_module ab) (1024 * 1024) = Inr content \<and>
       jget (ab_config ab) ''scopeSha256'' = JStr (be_sha be content)) \<and>
    jget package ''admissionSha256'' = jget (ab_config ab) ''packageAdmissionSha256'' \<and>
    (\<exists>observation. be_scope_state be = Inr observation \<and>
       py_eq (jget observation ''imageDigest'') (jget (ab_config ab) ''imageDigest''))"
proof -
  have "fresh_package ab be = Inr package" using admitted_package [OF assms] by (simp add: session_env_def)
  from rechecked [OF this] show ?thesis by (auto simp: files_match_def scope_image_bound_def)
qed

definition example_digest :: string where "example_digest = replicate 64 CHR ''a''"

definition example_binding :: json where
  "example_binding = (let u = JStr (replicate 8 CHR ''1'' @ ''-1111-1111-1111-'' @ replicate 12 CHR ''1'') in
     JObj [(''namespace'', JStr ''n''), (''namespaceUID'', u), (''podUID'', u), (''workloadUID'', u),
       (''environment'', JStr ''test''), (''workloadRole'', JStr ''qualification'')])"

definition example_config :: json where
  "example_config = JObj [(''kind'', JStr ''DSH_OFFICIAL_SDK_SERVER_ADMISSION_V1''), (''mode'', JStr ''qualification''),
     (''subject'', JStr ''owner''), (''generation'', JStr ''g1''), (''expiresAt'', JInt 100), (''sourceCommit'', JStr (replicate 40 CHR ''1'')),
     (''imageDigest'', JStr (''sha256:'' @ example_digest)), (''packageAdmissionSha256'', JStr example_digest),
     (''scopeModule'', JStr ''/opt/dsh/scripts/s.py''), (''scopeSha256'', JStr example_digest),
     (''sources'', JObj (map (\<lambda>(role, _). (role, JStr example_digest)) SOURCES)), (''deploymentBinding'', example_binding)]"

definition example_boot :: boot_env where
  "example_boot = \<lparr> be_read = (\<lambda>_ _. Inr ''c''), be_loads = (\<lambda>_. Inr example_config), be_sha = (\<lambda>_. example_digest), be_now = 10,
     be_observed = Inr example_binding, be_package = Inr (JObj [(''admissionSha256'', JStr example_digest)]),
     be_scope_state = Inr (JObj [(''sourceCommit'', JStr (replicate 40 CHR ''1'')), (''imageDigest'', JStr (''sha256:'' @ example_digest)),
       (''controllerSha256'', JStr example_digest), (''scopeSha256'', JStr example_digest)]) \<rparr>"

definition example_boot_session :: sdk_env where
  "example_boot_session = example_env\<lparr> se_state := Inr (jset ''packageAdmissionSha256'' (JStr example_digest) example_state) \<rparr>"

definition example_components :: scope_components where
  "example_components = \<lparr> sc_exact = True, sc_scope = \<lparr> sf_present = True, sf_qualified = JBool True, sf_callable = lifecycle_methods \<rparr>,
     sc_guard_callable = True \<rparr>"

definition example_server :: boot_server where "example_server = \<lparr> bv_tasks = [], bv_service = None \<rparr>"

definition example_configured :: "bool res \<times> boot_server" where
  "example_configured = configure example_boot (\<lambda>_ _. Inr example_components) example_boot_session (\<lambda>_ t. (Inr True, t)) True True FIXED_PATH example_server"

lemma example_configured: "bv_service (snd example_configured) \<noteq> None" "fst example_configured = Inr True"
  by code_simp+

theorem configured_service_is_bound_witness:
  "\<exists>ab r. bv_service (snd example_configured) = Some \<lparr> bs_runner = r, bs_boot = ab \<rparr> \<and>
     startswith ''/opt/dsh/scripts/'' (ab_module ab)"
proof -
  have "configure example_boot (\<lambda>_ _. Inr example_components) example_boot_session (\<lambda>_ t. (Inr True, t)) True True FIXED_PATH example_server
      = (fst example_configured, snd example_configured)" by (simp add: example_configured_def)
  moreover have "bv_service (snd example_configured) \<noteq> bv_service example_server"
    using example_configured by (simp add: example_server_def)
  ultimately show ?thesis using configured_service_is_bound by blast
qed

definition example_admitted :: admitted_boot where
  "example_admitted = \<lparr> ab_path = FIXED_PATH, ab_raw = ''c'', ab_config = example_config, ab_module = ''/opt/dsh/scripts/s.py'' \<rparr>"

lemma example_readmission:
  "fresh_admission (example_runner\<lparr> ss_factory := False \<rparr>) (session_env example_admitted example_boot example_boot_session) =
     Inr (JObj [(''admissionSha256'', JStr example_digest)])"
  by code_simp

theorem admission_rechecks_bindings_witness:
  "before_expiry example_boot (ab_config example_admitted)"
  using admission_rechecks_bindings [OF example_readmission] by blast

end
