(* ===== verification/Sdk_Control.thy ===== *)
theory Sdk_Control imports Sdk_Admission begin

text \<open>
  The control channel between the broker and the isolated SDK child:
  \<open>scripts/official_sdk_control_peer.py\<close> (the frame codec of both ends and the broker's end) and
  \<open>container/dsh-sdk-control.py\<close> (the child's controller and its start).  A line on the pipe is given as
  the value its text denotes, with the order and the repetitions of the keys; its length in bytes and
  HMAC-SHA-256 of the sorted compact text are parameters.  Threads are steps of the two ends.
\<close>

section \<open>Frames\<close>

datatype wire = Garbled | Frame json

record codec =
  cd_key :: string
  cd_binding :: json
  cd_sent :: nat
  cd_received :: nat

text \<open>\<open>fc_mac\<close>: the key and the frame without its \<open>mac\<close> field; \<open>fc_size\<close>: bytes of the line.\<close>

record frame_crypto =
  fc_mac :: "string \<Rightarrow> json \<Rightarrow> string"
  fc_size :: "wire \<Rightarrow> int"

definition MAX_FRAME :: int where "MAX_FRAME = 1024 * 1024"

definition new_codec :: "string \<Rightarrow> json \<Rightarrow> codec res" where
  "new_codec key binding =
     (if length key \<noteq> 32 then Inl (ValueError ''INVALID_SDK_IPC_KEY'')
      else if \<not> is_obj binding then Inl (TypeError ''binding'')
      else Inr \<lparr> cd_key = key, cd_binding = binding, cd_sent = 0, cd_received = 0 \<rparr>)"

definition frame_body :: "nat \<Rightarrow> json \<Rightarrow> json \<Rightarrow> json" where
  "frame_body sq binding payload =
     JObj [(''v'', JInt 1), (''seq'', JInt (int sq)), (''binding'', binding), (''payload'', payload)]"

text \<open>The number is taken before the size is known.\<close>

definition encode :: "frame_crypto \<Rightarrow> json \<Rightarrow> codec \<Rightarrow> wire res \<times> codec" where
  "encode fc payload c =
     (let c' = c\<lparr> cd_sent := Suc (cd_sent c) \<rparr>;
          body = frame_body (cd_sent c') (cd_binding c) payload;
          line = Frame (jset ''mac'' (JStr (fc_mac fc (cd_key c) body)) body) in
      if fc_size fc line > MAX_FRAME then (Inl (ValueError ''SDK_IPC_FRAME_TOO_LARGE''), c') else (Inr line, c'))"

definition frame_keys :: "string list" where
  "frame_keys = [''v'', ''seq'', ''binding'', ''payload'', ''mac'']"

text \<open>\<open>hmac.compare_digest\<close> takes ASCII text only.\<close>

definition ascii :: "string \<Rightarrow> bool" where
  "ascii s = list_all (\<lambda>c. of_char c < (128 :: nat)) s"

definition mac_matches :: "json \<Rightarrow> string \<Rightarrow> bool res" where
  "mac_matches m expected =
     (case m of JStr s \<Rightarrow> if ascii s then Inr (s = expected) else Inl (TypeError ''compare_digest'') | _ \<Rightarrow> Inr False)"

definition accept_frame :: "frame_crypto \<Rightarrow> json \<Rightarrow> codec \<Rightarrow> json res \<times> codec" where
  "accept_frame fc f c =
     (let body = jpop ''mac'' f in
      case mac_matches (jget f ''mac'') (fc_mac fc (cd_key c) body) of
        Inl e \<Rightarrow> (Inl e, c)
      | Inr ok \<Rightarrow>
          if \<not> ok \<or> jget f ''v'' \<noteq> JInt 1 \<or> jget f ''seq'' \<noteq> JInt (int (cd_received c) + 1) \<or>
             \<not> py_eq (jget f ''binding'') (cd_binding c)
          then (Inl (ValueError ''FOREIGN_REPLAYED_OR_UNAUTHENTICATED_SDK_IPC''), c)
          else (Inr (jget f ''payload''), c\<lparr> cd_received := Suc (cd_received c) \<rparr>))"

definition decode :: "frame_crypto \<Rightarrow> wire \<Rightarrow> codec \<Rightarrow> json res \<times> codec" where
  "decode fc w c =
     (if fc_size fc w > MAX_FRAME then (Inl (ValueError ''SDK_IPC_FRAME_TOO_LARGE''), c)
      else
        (case w of
           Garbled \<Rightarrow> (Inl (ValueError ''JSONDecodeError''), c)
         | Frame f \<Rightarrow>
             if \<not> unique_keys f then (Inl (ValueError ''DUPLICATE_SDK_IPC_FIELD''), c)
             else if \<not> exact_keys frame_keys f then (Inl (ValueError ''INVALID_SDK_IPC_FRAME''), c)
             else accept_frame fc f c))"

section \<open>The broker's end\<close>

text \<open>A queue that ends with \<open>None\<close> was closed.\<close>

record peer =
  pe_codec :: codec
  pe_started :: bool
  pe_closed :: bool
  pe_pending :: "(string \<times> json list) list"
  pe_requests :: "json option list"
  pe_subs :: "json option list list"

definition new_peer :: "bool \<Rightarrow> string \<Rightarrow> json \<Rightarrow> peer res" where
  "new_peer transport_callable key binding =
     (if \<not> transport_callable then Inl (ValueError ''ISOLATED_SDK_CONTROL_TRANSPORT_REQUIRED'')
      else res_bind (new_codec key binding) (\<lambda>c.
        Inr \<lparr> pe_codec = c, pe_started = False, pe_closed = False, pe_pending = [], pe_requests = [], pe_subs = [] \<rparr>))"

definition call_failed :: json where "call_failed = JObj [(''ok'', JBool False)]"

definition peer_shut :: "peer \<Rightarrow> peer" where
  "peer_shut p = p\<lparr> pe_closed := True, pe_requests := pe_requests p @ [None],
     pe_subs := map (\<lambda>q. q @ [None]) (pe_subs p),
     pe_pending := map (\<lambda>(i, q). (i, q @ [call_failed])) (pe_pending p) \<rparr>"

text \<open>\<open>self.pending.get(payload.get("id"))\<close>: a list or a dictionary has no hash.\<close>

definition give_reply :: "json \<Rightarrow> peer \<Rightarrow> peer res" where
  "give_reply payload p =
     (case jget payload ''id'' of
        JStr i \<Rightarrow>
          (case map_of (pe_pending p) i of
             None \<Rightarrow> Inl (ValueError ''UNKNOWN_SDK_CONTROL_RESPONSE'')
           | Some q \<Rightarrow> Inr (p\<lparr> pe_pending := AList.update i (q @ [payload]) (pe_pending p) \<rparr>))
      | JList _ \<Rightarrow> Inl (TypeError ''unhashable'')
      | JObj _ \<Rightarrow> Inl (TypeError ''unhashable'')
      | _ \<Rightarrow> Inl (ValueError ''UNKNOWN_SDK_CONTROL_RESPONSE''))"

definition namespace_of :: "string list \<Rightarrow> json \<Rightarrow> json res" where
  "namespace_of ks payload = res_bind (res_map (py_idx payload) ks) (\<lambda>vs. Inr (JObj (zip ks vs)))"

definition take_payload :: "json \<Rightarrow> peer \<Rightarrow> peer res" where
  "take_payload payload p =
     (if \<not> is_obj payload then Inl (ValueError ''INVALID_SDK_CONTROL_PAYLOAD'')
      else if jget payload ''kind'' = JStr ''response'' then give_reply payload p
      else if jget payload ''kind'' = JStr ''request'' then
        res_bind (namespace_of [''id'', ''method'', ''payload''] payload) (\<lambda>r.
        Inr (p\<lparr> pe_requests := pe_requests p @ [Some r] \<rparr>))
      else if jget payload ''kind'' = JStr ''notification'' then
        res_bind (namespace_of [''method'', ''payload''] payload) (\<lambda>n.
        Inr (p\<lparr> pe_subs := map (\<lambda>q. q @ [Some n]) (pe_subs p) \<rparr>))
      else Inl (ValueError ''UNSUPPORTED_SDK_CONTROL_PAYLOAD''))"

text \<open>One turn of the reader thread; its loop ends when the peer is closed.\<close>

definition peer_read :: "frame_crypto \<Rightarrow> wire \<Rightarrow> peer \<Rightarrow> peer" where
  "peer_read fc w p =
     (if pe_closed p then p
      else
        (case decode fc w (pe_codec p) of
           (Inl e, c) \<Rightarrow> peer_shut (p\<lparr> pe_codec := c \<rparr>)
         | (Inr payload, c) \<Rightarrow>
             (case take_payload payload (p\<lparr> pe_codec := c \<rparr>) of
                Inl e \<Rightarrow> peer_shut (p\<lparr> pe_codec := c \<rparr>)
              | Inr p' \<Rightarrow> p')))"

definition rpc_drop :: "string \<Rightarrow> peer \<Rightarrow> peer" where
  "rpc_drop operation p = p\<lparr> pe_pending := AList.delete operation (pe_pending p) \<rparr>"

definition call_payload :: "string \<Rightarrow> string \<Rightarrow> json \<Rightarrow> json" where
  "call_payload operation verb params =
     JObj [(''kind'', JStr ''call''), (''id'', JStr operation), (''method'', JStr verb), (''params'', params)]"

text \<open>\<open>_rpc\<close> up to the wait for the reply; \<open>sent\<close>: what \<open>transport.send\<close> does.\<close>

definition rpc_begin :: "frame_crypto \<Rightarrow> unit res \<Rightarrow> string \<Rightarrow> string \<Rightarrow> json \<Rightarrow> peer \<Rightarrow> wire res \<times> peer" where
  "rpc_begin fc sent operation verb params p =
     (if pe_closed p then (Inl (RuntimeError ''SDK_CONTROL_CLOSED''), p)
      else
        (case encode fc (call_payload operation verb params) (pe_codec p) of
           (Inl e, c) \<Rightarrow> (Inl e, p\<lparr> pe_codec := c \<rparr>)
         | (Inr w, c) \<Rightarrow>
             (case sent of
                Inl e \<Rightarrow> (Inl e, p\<lparr> pe_codec := c \<rparr>)
              | Inr _ \<Rightarrow> (Inr w, p\<lparr> pe_codec := c, pe_pending := AList.update operation [] (pe_pending p) \<rparr>))))"

text \<open>The reply, or the time-out of an empty queue.\<close>

definition rpc_end :: "string \<Rightarrow> peer \<Rightarrow> json res \<times> peer" where
  "rpc_end operation p =
     (case map_of (pe_pending p) operation of
        Some (reply # _) \<Rightarrow>
          (if jget reply ''ok'' = JBool True then Inr (jget reply ''result'')
           else Inl (RuntimeError ''SDK_CONTROL_OPERATION_FAILED''), rpc_drop operation p)
      | _ \<Rightarrow> (Inl (TimeoutError ''queue''), rpc_drop operation p))"

definition peer_start :: "frame_crypto \<Rightarrow> unit res \<Rightarrow> unit res \<Rightarrow> string \<Rightarrow> peer \<Rightarrow> wire res \<times> peer" where
  "peer_start fc transport_start sent operation p =
     (if pe_started p then (Inl (ValueError ''SDK_CONTROL_START_REPLAY''), p)
      else
        (let p' = p\<lparr> pe_started := True \<rparr> in
         case transport_start of
           Inl e \<Rightarrow> (Inl e, p')
         | Inr _ \<Rightarrow> rpc_begin fc sent operation ''start'' (JObj []) p'))"

definition peer_run :: "frame_crypto \<Rightarrow> unit res \<Rightarrow> string \<Rightarrow> json \<Rightarrow> json \<Rightarrow> peer \<Rightarrow> wire res \<times> peer" where
  "peer_run fc sent operation prompt session =
     rpc_begin fc sent operation ''run'' (JObj [(''prompt'', prompt), (''sessionId'', session)])"

definition run_result :: "json \<Rightarrow> (json \<times> json) res" where
  "run_result v =
     (if \<not> is_obj v then Inl (ValueError ''INVALID_SDK_CONTROL_RESULT'')
      else Inr (jget v ''finishReason'', jget v ''finalResponse''))"

definition peer_respond :: "frame_crypto \<Rightarrow> unit res \<Rightarrow> string \<Rightarrow> json \<Rightarrow> json \<Rightarrow> peer \<Rightarrow> wire res \<times> peer" where
  "peer_respond fc sent operation request out =
     rpc_begin fc sent operation ''respond'' (JObj [(''requestId'', request), (''result'', out)])"

text \<open>\<open>next_request\<close> on a queue that has something.\<close>

definition next_request :: "peer \<Rightarrow> json res \<times> peer" where
  "next_request p =
     (case pe_requests p of
        [] \<Rightarrow> (Inl (TimeoutError ''queue''), p)
      | None # q \<Rightarrow> (Inl (RuntimeError ''SDK_CONTROL_CLOSED''), p\<lparr> pe_requests := q \<rparr>)
      | Some r # q \<Rightarrow> (Inr r, p\<lparr> pe_requests := q \<rparr>))"

definition subscribe :: "json \<Rightarrow> peer \<Rightarrow> nat res \<times> peer" where
  "subscribe session p =
     (case py_idx (cd_binding (pe_codec p)) ''sessionId'' of
        Inl e \<Rightarrow> (Inl e, p)
      | Inr own \<Rightarrow>
          if \<not> py_eq session own then (Inl (ValueError ''FOREIGN_SDK_SUBSCRIPTION''), p)
          else (Inr (length (pe_subs p)), p\<lparr> pe_subs := pe_subs p @ [[]] \<rparr>))"

section \<open>The child's end\<close>

datatype harness_call = H_Start | H_Run json json | H_Respond json json

text \<open>\<open>ch_run\<close>: the operation of the one run; \<open>ch_run_open\<close>: its thread works;
  \<open>ch_watching\<close>: the thread that waits for approval requests works; \<open>ch_reading\<close>: the main loop
  waits for a line.  \<open>ch_asked\<close> counts the approval requests taken from the harness.\<close>

record child =
  ch_codec :: codec
  ch_started :: bool
  ch_run :: "string option"
  ch_run_open :: bool
  ch_watching :: bool
  ch_pending :: "json list"
  ch_calls :: "string list"
  ch_closed :: bool
  ch_reading :: bool
  ch_asked :: nat
  ch_out :: "wire list"
  ch_harness :: "harness_call list"

definition new_child :: "codec \<Rightarrow> child" where
  "new_child c = \<lparr> ch_codec = c, ch_started = False, ch_run = None, ch_run_open = False, ch_watching = False,
     ch_pending = [], ch_calls = [], ch_closed = False, ch_reading = True, ch_asked = 0, ch_out = [], ch_harness = [] \<rparr>"

definition child_emit :: "frame_crypto \<Rightarrow> json \<Rightarrow> child \<Rightarrow> unit res \<times> child" where
  "child_emit fc payload ch =
     (case encode fc payload (ch_codec ch) of
        (Inl e, c) \<Rightarrow> (Inl e, ch\<lparr> ch_codec := c \<rparr>)
      | (Inr w, c) \<Rightarrow> (Inr (), ch\<lparr> ch_codec := c, ch_out := ch_out ch @ [w] \<rparr>))"

definition response_payload :: "string \<Rightarrow> bool \<Rightarrow> json \<Rightarrow> json" where
  "response_payload operation ok v =
     JObj [(''kind'', JStr ''response''), (''id'', JStr operation), (''ok'', JBool ok), (''result'', v)]"

definition harness_do :: "harness_call \<Rightarrow> child \<Rightarrow> child" where
  "harness_do c ch = ch\<lparr> ch_harness := ch_harness ch @ [c] \<rparr>"

text \<open>What the harness calls of this turn do.\<close>

record harness_env =
  he_start :: "unit res"
  he_respond :: "unit res"

definition dispatch_start :: "frame_crypto \<Rightarrow> harness_env \<Rightarrow> string \<Rightarrow> json \<Rightarrow> child \<Rightarrow> unit res \<times> child" where
  "dispatch_start fc he operation params ch =
     (if ch_started ch \<or> truthy params then (Inl (ValueError ''SDK_CONTROL_START_REPLAY''), ch)
      else
        (let ch' = harness_do H_Start (ch\<lparr> ch_started := True \<rparr>) in
         case he_start he of
           Inl e \<Rightarrow> (Inl e, ch')
         | Inr _ \<Rightarrow> child_emit fc (response_payload operation True JNull) (ch'\<lparr> ch_watching := True \<rparr>)))"

definition dispatch_run :: "string \<Rightarrow> json \<Rightarrow> child \<Rightarrow> unit res \<times> child" where
  "dispatch_run operation params ch =
     (if \<not> ch_started ch \<or> ch_run ch \<noteq> None \<or> \<not> exact_keys [''prompt'', ''sessionId''] params
      then (Inl (ValueError ''SDK_CONTROL_RUN_REFUSED''), ch)
      else
        (case py_idx (cd_binding (ch_codec ch)) ''sessionId'' of
           Inl e \<Rightarrow> (Inl e, ch)
         | Inr session \<Rightarrow>
             if \<not> py_eq (jget params ''sessionId'') session \<or>
                (case jget params ''prompt'' of JStr p \<Rightarrow> p = [] \<or> int (length p) > 65536 | _ \<Rightarrow> True)
             then (Inl (ValueError ''FOREIGN_SDK_CONTROL_RUN''), ch)
             else (Inr (), harness_do (H_Run (jget params ''prompt'') (jget params ''sessionId''))
                             (ch\<lparr> ch_run := Some operation, ch_run_open := True \<rparr>))))"

text \<open>Membership and removal in the set of open approval requests.\<close>

definition dispatch_respond :: "frame_crypto \<Rightarrow> harness_env \<Rightarrow> string \<Rightarrow> json \<Rightarrow> child \<Rightarrow> unit res \<times> child" where
  "dispatch_respond fc he operation params ch =
     (let request = jget params ''requestId'' in
      if \<not> exact_keys [''requestId'', ''result''] params then (Inl (ValueError ''INVALID_NATIVE_RESPONSE''), ch)
      else if is_list request \<or> is_obj request then (Inl (TypeError ''unhashable''), ch)
      else
        (case List.extract (py_eq request) (ch_pending ch) of
           None \<Rightarrow> (Inl (ValueError ''UNKNOWN_NATIVE_RESPONSE''), ch)
         | Some (before, _, after) \<Rightarrow>
             (let ch' = harness_do (H_Respond request (jget params ''result'')) (ch\<lparr> ch_pending := before @ after \<rparr>) in
              case he_respond he of
                Inl e \<Rightarrow> (Inl e, ch')
              | Inr _ \<Rightarrow> child_emit fc (response_payload operation True JNull) ch')))"

definition dispatch :: "frame_crypto \<Rightarrow> harness_env \<Rightarrow> json \<Rightarrow> child \<Rightarrow> unit res \<times> child" where
  "dispatch fc he f ch =
     (if \<not> exact_keys [''kind'', ''id'', ''method'', ''params''] f \<or> jget f ''kind'' \<noteq> JStr ''call'' \<or> \<not> is_obj (jget f ''params'')
      then (Inl (ValueError ''INVALID_SDK_CONTROL_CALL''), ch)
      else
        (case jget f ''id'' of
           JStr operation \<Rightarrow>
             if operation \<in> set (ch_calls ch) then (Inl (ValueError ''SDK_CONTROL_CALL_REPLAY''), ch)
             else
               (let ch' = ch\<lparr> ch_calls := operation # ch_calls ch \<rparr>; params = jget f ''params'' in
                if jget f ''method'' = JStr ''start'' then dispatch_start fc he operation params ch'
                else if jget f ''method'' = JStr ''run'' then dispatch_run operation params ch'
                else if jget f ''method'' = JStr ''respond'' then dispatch_respond fc he operation params ch'
                else (Inl (ValueError ''UNSUPPORTED_SDK_CONTROL_CALL''), ch'))
         | _ \<Rightarrow> (Inl (ValueError ''INVALID_SDK_CONTROL_CALL''), ch)))"

text \<open>One turn of the main loop: an exception ends the process.\<close>

definition child_line :: "frame_crypto \<Rightarrow> harness_env \<Rightarrow> wire \<Rightarrow> child \<Rightarrow> child" where
  "child_line fc he w ch =
     (if \<not> ch_reading ch then ch
      else
        (case decode fc w (ch_codec ch) of
           (Inl e, c) \<Rightarrow> ch\<lparr> ch_codec := c, ch_closed := True, ch_reading := False \<rparr>
         | (Inr payload, c) \<Rightarrow>
             (case dispatch fc he payload (ch\<lparr> ch_codec := c \<rparr>) of
                (Inl e, ch') \<Rightarrow> ch'\<lparr> ch_closed := True, ch_reading := False \<rparr>
              | (Inr _, ch') \<Rightarrow> ch'\<lparr> ch_reading := \<not> ch_closed ch' \<rparr>)))"

text \<open>The thread of the run ends with \<open>out\<close>; a reply that cannot be sent is followed by a failure.\<close>

definition run_ends :: "frame_crypto \<Rightarrow> (json \<times> json) res \<Rightarrow> child \<Rightarrow> child" where
  "run_ends fc out ch =
     (case ch_run ch of
        None \<Rightarrow> ch
      | Some operation \<Rightarrow>
          (let ch' = ch\<lparr> ch_run_open := False \<rparr>; failed = response_payload operation False JNull in
           case out of
             Inl _ \<Rightarrow> snd (child_emit fc failed ch')
           | Inr (reason, response) \<Rightarrow>
               (case child_emit fc (response_payload operation True (JObj [(''finishReason'', reason), (''finalResponse'', response)])) ch' of
                  (Inr _, ch'') \<Rightarrow> ch''
                | (Inl _, ch'') \<Rightarrow> snd (child_emit fc failed ch''))))"

text \<open>The approval thread gets a request or an exception; an exception ends it with a fault frame.\<close>

definition watch_fault :: "frame_crypto \<Rightarrow> child \<Rightarrow> child" where
  "watch_fault fc ch = snd (child_emit fc (JObj [(''kind'', JStr ''fault'')]) (ch\<lparr> ch_closed := True, ch_watching := False \<rparr>))"

definition approval_arrives :: "frame_crypto \<Rightarrow> (json \<times> json \<times> json) res \<Rightarrow> child \<Rightarrow> child" where
  "approval_arrives fc out ch =
     (case out of
        Inl _ \<Rightarrow> watch_fault fc ch
      | Inr (i, verb, payload) \<Rightarrow>
          if verb \<noteq> JStr ''approval/request'' \<or> is_list i \<or> is_obj i \<or> list_ex (py_eq i) (ch_pending ch) then watch_fault fc ch
          else
            (case child_emit fc (JObj [(''kind'', JStr ''request''), (''id'', i), (''method'', verb), (''payload'', payload)])
                    (ch\<lparr> ch_pending := ch_pending ch @ [i], ch_asked := Suc (ch_asked ch) \<rparr>) of
               (Inr _, ch') \<Rightarrow> ch'\<lparr> ch_watching := \<not> ch_closed ch' \<rparr>
             | (Inl _, ch') \<Rightarrow> watch_fault fc ch'))"

inductive child_step :: "frame_crypto \<Rightarrow> child \<Rightarrow> child \<Rightarrow> bool" for fc where
  line: "child_step fc ch (child_line fc he w ch)"
| run_end: "ch_run_open ch \<Longrightarrow> child_step fc ch (run_ends fc out ch)"
| approval: "ch_watching ch \<Longrightarrow> child_step fc ch (approval_arrives fc out ch)"

section \<open>The start of the child\<close>

text \<open>What \<open>urlsplit\<close> makes of an address; reading the port may raise.\<close>

record endpoint_parts =
  ep_scheme :: string
  ep_host :: "string option"
  ep_user :: "string option"
  ep_password :: "string option"
  ep_path :: string
  ep_query :: string
  ep_fragment :: string
  ep_port :: "int option res"

definition guarded_endpoint :: "(json \<Rightarrow> endpoint_parts res) \<Rightarrow> json \<Rightarrow> json res" where
  "guarded_endpoint split v =
     res_bind (split v) (\<lambda>e.
     if ep_scheme e \<noteq> ''http'' \<or> ep_host e \<noteq> Some ''127.0.0.1'' \<or> ep_user e \<notin> {None, Some []} \<or>
        ep_password e \<notin> {None, Some []} \<or> ep_path e \<noteq> ''/v1'' \<or> ep_query e \<noteq> [] \<or> ep_fragment e \<noteq> []
     then Inl (ValueError ''OFFICIAL_SDK_GUARD_REQUIRED'')
     else res_bind (ep_port e) (\<lambda>port.
       if port \<in> {None, Some 0} then Inl (ValueError ''OFFICIAL_SDK_GUARD_REQUIRED'') else Inr v))"

record child_env =
  ce_linux :: bool
  ce_dirs :: "(bool \<times> file_info) res list"
  ce_base64 :: "json \<Rightarrow> string res"
  ce_split :: "json \<Rightarrow> endpoint_parts res"
  ce_admission :: "package_admission res"

text \<open>\<open>lstat\<close> of the two source directories: whether it is a directory, and the rest.\<close>

fun source_dirs_protected :: "(bool \<times> file_info) res list \<Rightarrow> unit res" where
  "source_dirs_protected [] = Inr ()"
| "source_dirs_protected (d # ds) =
     res_bind d (\<lambda>(directory, i).
     if \<not> directory \<or> fi_owner i \<noteq> 0 \<or> fi_others_write i then Inl (ValueError ''UNPROTECTED_SDK_CONTROL_SOURCE'')
     else source_dirs_protected ds)"

definition child_env_names :: "string list" where
  "child_env_names = [''PATH'', ''LANG'', ''HOME'', ''PYTHONDONTWRITEBYTECODE'', ''OTEL_SDK_DISABLED'', ''DO_NOT_TRACK'',
     ''LANGSMITH_TRACING'', ''DSH_UNATTENDED_TASK'', ''DSH_CORRELATION_ID'', ''DSH_GUARDED_MODEL_BASE_URL'']"

text \<open>The names of the binding are read with an index.\<close>

definition child_binding_matches :: "json \<Rightarrow> json \<Rightarrow> json \<Rightarrow> json \<Rightarrow> unit res" where
  "child_binding_matches options binding env endpoint =
     (let mismatch = Inl (ValueError ''SDK_CHILD_BINDING_MISMATCH'') in
      if jget options ''api_key'' \<noteq> JStr ''local-guard-placeholder'' \<or> jget options ''approval_requests'' \<noteq> JBool True \<or>
         jget options ''dsh_bin'' \<noteq> JStr ''/usr/local/bin/dsh-official-sdk-runtime''
      then mismatch
      else
        res_bind (py_get env ''DSH_UNATTENDED_TASK'') (\<lambda>task.
        res_bind (py_idx binding ''taskId'') (\<lambda>own.
        if \<not> py_eq task own then mismatch
        else
          res_bind (py_idx binding ''correlationId'') (\<lambda>correlation.
          if \<not> py_eq (jget env ''DSH_CORRELATION_ID'') correlation \<or> \<not> py_eq (jget env ''DSH_GUARDED_MODEL_BASE_URL'') endpoint
          then mismatch else Inr ()))))"

text \<open>\<open>main\<close> up to the harness: the codec and the options it is built with.\<close>

definition child_main :: "child_env \<Rightarrow> json res \<Rightarrow> (codec \<times> json) res" where
  "child_main ce line =
     (if \<not> ce_linux ce then Inl (ValueError ''ISOLATED_LINUX_SDK_CHILD_REQUIRED'')
      else
        res_bind (source_dirs_protected (ce_dirs ce)) (\<lambda>_.
        res_bind line (\<lambda>b.
        if \<not> unique_keys b then Inl (ValueError ''DUPLICATE_SDK_ADMISSION_FIELD'')
        else if \<not> exact_keys [''key'', ''binding'', ''options''] b then Inl (ValueError ''INVALID_SDK_CONTROL_BOOTSTRAP'')
        else
          res_bind (ce_base64 ce (jget b ''key'')) (\<lambda>key.
          res_bind (new_codec key (jget b ''binding'')) (\<lambda>c.
          let options = jget b ''options'' in
          if \<not> is_obj options then Inl (ValueError ''INVALID_SDK_OPTIONS'')
          else
            res_bind (py_get_or options ''env'' (JObj [])) (\<lambda>env.
            res_bind (py_get_or options ''base_url'' (JStr [])) (\<lambda>url.
            res_bind (guarded_endpoint (ce_split ce) url) (\<lambda>endpoint.
            res_bind (child_binding_matches options (cd_binding c) env endpoint) (\<lambda>_.
            res_bind (res_map (py_idx env) child_env_names) (\<lambda>vs.
            res_bind (ce_admission ce) (\<lambda>pa.
            if jget (cd_binding c) ''packageAdmissionSha256'' \<noteq> JStr (pa_sha pa)
            then Inl (ValueError ''SDK_CHILD_PACKAGE_ADMISSION_CHANGED'')
            else Inr (c, jset ''env'' (JObj (zip child_env_names vs)) options))))))))))))"

section \<open>Frame lemmas\<close>

fun encode_all :: "frame_crypto \<Rightarrow> json list \<Rightarrow> codec \<Rightarrow> wire list res" where
  "encode_all fc [] c = Inr []"
| "encode_all fc (p # ps) c =
     (case encode fc p c of (Inl e, _) \<Rightarrow> Inl e
      | (Inr w, c') \<Rightarrow> res_bind (encode_all fc ps c') (\<lambda>ws. Inr (w # ws)))"

fun decode_all :: "frame_crypto \<Rightarrow> wire list \<Rightarrow> codec \<Rightarrow> json list res" where
  "decode_all fc [] c = Inr []"
| "decode_all fc (w # ws) c =
     (case decode fc w c of (Inl e, _) \<Rightarrow> Inl e
      | (Inr p, c') \<Rightarrow> res_bind (decode_all fc ws c') (\<lambda>ps. Inr (p # ps)))"

definition sealed :: "frame_crypto \<Rightarrow> string \<Rightarrow> json \<Rightarrow> nat \<Rightarrow> json \<Rightarrow> json" where
  "sealed fc key binding sq payload =
     jset ''mac'' (JStr (fc_mac fc key (frame_body sq binding payload))) (frame_body sq binding payload)"

lemma sealed_eq: "sealed fc key binding sq payload =
    JObj [(''v'', JInt 1), (''seq'', JInt (int sq)), (''binding'', binding), (''payload'', payload),
      (''mac'', JStr (fc_mac fc key (frame_body sq binding payload)))]"
  by (simp add: sealed_def frame_body_def)

lemma sealed_parts [simp]:
  "jpop ''mac'' (sealed fc key binding sq payload) = frame_body sq binding payload"
  "jget (sealed fc key binding sq payload) ''mac'' = JStr (fc_mac fc key (frame_body sq binding payload))"
  "jget (sealed fc key binding sq payload) ''v'' = JInt 1"
  "jget (sealed fc key binding sq payload) ''seq'' = JInt (int sq)"
  "jget (sealed fc key binding sq payload) ''binding'' = binding"
  "jget (sealed fc key binding sq payload) ''payload'' = payload"
  "exact_keys frame_keys (sealed fc key binding sq payload)"
  "unique_keys (sealed fc key binding sq payload) \<longleftrightarrow> unique_keys binding \<and> unique_keys payload"
  unfolding sealed_eq by (auto simp: frame_body_def exact_keys_def frame_keys_def)

lemma encode_Inr:
  "encode fc payload c = (Inr w, c') \<Longrightarrow>
   w = Frame (sealed fc (cd_key c) (cd_binding c) (Suc (cd_sent c)) payload) \<and> fc_size fc w \<le> MAX_FRAME \<and>
   c' = c\<lparr> cd_sent := Suc (cd_sent c) \<rparr>"
  by (auto simp: encode_def Let_def sealed_def split: if_splits)

lemma encode_counts: "cd_sent (snd (encode fc payload c)) = Suc (cd_sent c)"
  "cd_received (snd (encode fc payload c)) = cd_received c"
  "cd_binding (snd (encode fc payload c)) = cd_binding c" "cd_key (snd (encode fc payload c)) = cd_key c"
  by (simp_all add: encode_def Let_def)

lemma decode_sealed:
  assumes "fc_size fc (Frame (sealed fc (cd_key d) b (Suc (cd_received d)) payload)) \<le> MAX_FRAME"
    and "unique_keys b" "unique_keys payload" "py_eq b (cd_binding d)"
    and "\<And>k v. ascii (fc_mac fc k v)"
  shows "decode fc (Frame (sealed fc (cd_key d) b (Suc (cd_received d)) payload)) d =
    (Inr payload, d\<lparr> cd_received := Suc (cd_received d) \<rparr>)"
  using assms by (simp add: decode_def accept_frame_def mac_matches_def Let_def)

definition authentic :: "frame_crypto \<Rightarrow> codec \<Rightarrow> wire \<Rightarrow> bool" where
  "authentic fc c w = (case w of Garbled \<Rightarrow> False | Frame f \<Rightarrow> jget f ''mac'' = JStr (fc_mac fc (cd_key c) (jpop ''mac'' f)))"

lemma decode_Inr:
  assumes "decode fc w d = (Inr payload, d')"
  shows "authentic fc d w \<and> d' = d\<lparr> cd_received := Suc (cd_received d) \<rparr> \<and>
    (\<exists>f. w = Frame f \<and> jget f ''seq'' = JInt (int (Suc (cd_received d))) \<and> jget f ''payload'' = payload \<and>
       py_eq (jget f ''binding'') (cd_binding d))"
  using assms
  by (auto simp: decode_def accept_frame_def mac_matches_def Let_def authentic_def split: if_splits wire.splits sum.splits json.splits)

lemma decode_counts: "cd_sent (snd (decode fc w d)) = cd_sent d" "cd_key (snd (decode fc w d)) = cd_key d"
  "cd_binding (snd (decode fc w d)) = cd_binding d"
  by (auto simp: decode_def accept_frame_def Let_def split: wire.splits sum.splits)

lemma encode_all_nth:
  assumes "encode_all fc ps c = Inr ws"
  shows "length ws = length ps \<and>
    (\<forall>i < length ws. ws ! i = Frame (sealed fc (cd_key c) (cd_binding c) (cd_sent c + i + 1) (ps ! i)))"
  using assms
proof (induction ps arbitrary: c ws)
  case Nil
  then show ?case by simp
next
  case (Cons p ps)
  obtain r c' where e: "encode fc p c = (r, c')" by fastforce
  with Cons.prems obtain w ws' where w: "r = Inr w" "encode_all fc ps c' = Inr ws'" "ws = w # ws'"
    by (auto simp: res_bind_Inr_iff split: sum.splits)
  note enc = encode_Inr [OF e [unfolded w(1)]]
  have IH: "length ws' = length ps \<and> (\<forall>i < length ws'. ws' ! i = Frame (sealed fc (cd_key c') (cd_binding c') (cd_sent c' + i + 1) (ps ! i)))"
    by (rule Cons.IH [OF w(2)])
  show ?case
  proof (intro conjI allI impI)
    show "length ws = length (p # ps)" using IH w by simp
  next
    fix i assume "i < length ws"
    then show "ws ! i = Frame (sealed fc (cd_key c) (cd_binding c) (cd_sent c + i + 1) ((p # ps) ! i))"
      using IH enc w by (cases i) auto
  qed
qed

lemma decode_all_nth:
  assumes "decode_all fc ws d = Inr ps"
  shows "length ps = length ws \<and>
    (\<forall>i < length ws. authentic fc d (ws ! i) \<and> (\<exists>f. ws ! i = Frame f \<and> jget f ''seq'' = JInt (int (cd_received d + i + 1)) \<and>
       jget f ''payload'' = ps ! i))"
  using assms
proof (induction ws arbitrary: d ps)
  case Nil
  then show ?case by simp
next
  case (Cons w ws)
  obtain r d' where e: "decode fc w d = (r, d')" by fastforce
  with Cons.prems obtain p ps' where p: "r = Inr p" "decode_all fc ws d' = Inr ps'" "ps = p # ps'"
    by (auto simp: res_bind_Inr_iff split: sum.splits)
  note dec = decode_Inr [OF e [unfolded p(1)]]
  note IH = Cons.IH [OF p(2)]
  have auth: "authentic fc d' w' = authentic fc d w'" for w' using dec by (simp add: authentic_def split: wire.splits)
  show ?case
  proof (intro conjI allI impI)
    show "length ps = length (w # ws)" using IH p by simp
  next
    fix i assume i: "i < length (w # ws)"
    show "authentic fc d ((w # ws) ! i)" using i IH dec auth by (cases i) auto
    show "\<exists>f. (w # ws) ! i = Frame f \<and> jget f ''seq'' = JInt (int (cd_received d + i + 1)) \<and> jget f ''payload'' = ps ! i"
      using i IH dec p by (cases i) auto
  qed
qed

section \<open>The child acts once\<close>

definition h_start :: "harness_call \<Rightarrow> bool" where "h_start h = (case h of H_Start \<Rightarrow> True | _ \<Rightarrow> False)"
definition h_run :: "harness_call \<Rightarrow> bool" where "h_run h = (case h of H_Run _ _ \<Rightarrow> True | _ \<Rightarrow> False)"
definition h_respond :: "harness_call \<Rightarrow> bool" where "h_respond h = (case h of H_Respond _ _ \<Rightarrow> True | _ \<Rightarrow> False)"

definition calls_of :: "(harness_call \<Rightarrow> bool) \<Rightarrow> child \<Rightarrow> nat" where
  "calls_of P ch = length (filter P (ch_harness ch))"

text \<open>Only what the child did and still owes; sending frames does not matter to it.\<close>

definition deeds :: "child \<Rightarrow> bool \<times> string option \<times> json list \<times> nat \<times> harness_call list \<times> json" where
  "deeds ch = (ch_started ch, ch_run ch, ch_pending ch, ch_asked ch, ch_harness ch, cd_binding (ch_codec ch))"

definition deeds_ok :: "bool \<times> string option \<times> json list \<times> nat \<times> harness_call list \<times> json \<Rightarrow> bool" where
  "deeds_ok = (\<lambda>(started, run, pending, asked, hs, binding).
     length (filter h_start hs) = (if started then 1 else 0) \<and>
     length (filter h_run hs) = (if run = None then 0 else 1) \<and> (run \<noteq> None \<longrightarrow> started) \<and>
     length (filter h_respond hs) + length pending = asked \<and>
     (\<forall>p s. H_Run p s \<in> set hs \<longrightarrow> py_eq s (jget binding ''sessionId'') \<and>
        (case p of JStr t \<Rightarrow> t \<noteq> [] \<and> int (length t) \<le> 65536 | _ \<Rightarrow> False)))"

lemmas h_defs = h_start_def h_run_def h_respond_def

lemma emit_deeds [simp]: "deeds (snd (child_emit fc payload ch)) = deeds ch"
  by (simp add: deeds_def child_emit_def encode_counts split: prod.split sum.split)
     (auto simp: encode_def Let_def split: if_splits)

lemma emit_deeds_eq: "child_emit fc payload ch = (r, ch') \<Longrightarrow> deeds ch' = deeds ch"
  using emit_deeds [of fc payload ch] by simp

lemma deeds_flags [simp]:
  "deeds (ch\<lparr> ch_closed := b \<rparr>) = deeds ch" "deeds (ch\<lparr> ch_reading := b \<rparr>) = deeds ch"
  "deeds (ch\<lparr> ch_watching := b \<rparr>) = deeds ch" "deeds (ch\<lparr> ch_run_open := b \<rparr>) = deeds ch"
  "deeds (ch\<lparr> ch_calls := cs \<rparr>) = deeds ch"
  by (simp_all add: deeds_def)

lemma start_deeds:
  assumes "deeds_ok (deeds ch)"
  shows "deeds_ok (deeds (snd (dispatch_start fc he operation params ch)))"
proof (cases "ch_started ch \<or> truthy params")
  case True
  with assms show ?thesis by (simp add: dispatch_start_def)
next
  case False
  have "deeds_ok (deeds (harness_do H_Start (ch\<lparr> ch_started := True \<rparr>)))"
    using assms False by (auto simp: deeds_def deeds_ok_def harness_do_def h_defs)
  with False show ?thesis by (simp add: dispatch_start_def Let_def split: sum.split)
qed

lemma run_deeds:
  assumes "deeds_ok (deeds ch)"
  shows "deeds_ok (deeds (snd (dispatch_run operation params ch)))"
proof (cases "dispatch_run operation params ch")
  case (Pair r ch')
  show ?thesis
  proof (cases r)
    case (Inl e)
    with Pair have "ch' = ch" by (auto simp: dispatch_run_def split: if_splits sum.splits)
    with Pair assms show ?thesis by simp
  next
    case (Inr u)
    with Pair obtain session where run: "ch_started ch" "ch_run ch = None" "py_idx (cd_binding (ch_codec ch)) ''sessionId'' = Inr session"
      "py_eq (jget params ''sessionId'') session"
      and prompt: "\<not> (case jget params ''prompt'' of JStr p \<Rightarrow> p = [] \<or> int (length p) > 65536 | _ \<Rightarrow> True)"
      and ch': "ch' = harness_do (H_Run (jget params ''prompt'') (jget params ''sessionId'')) (ch\<lparr> ch_run := Some operation, ch_run_open := True \<rparr>)"
      by (auto simp: dispatch_run_def split: if_splits sum.splits)
    have "case jget params ''prompt'' of JStr t \<Rightarrow> t \<noteq> [] \<and> int (length t) \<le> 65536 | _ \<Rightarrow> False"
      using prompt by (cases "jget params ''prompt''") auto
    with run(1,2,4) assms py_idx_Inr [THEN iffD1, OF run(3)] show ?thesis
      by (simp add: Pair ch' deeds_def deeds_ok_def harness_do_def h_defs)
  qed
qed

lemma respond_deeds:
  assumes "deeds_ok (deeds ch)"
  shows "deeds_ok (deeds (snd (dispatch_respond fc he operation params ch)))"
proof (cases "List.extract (py_eq (jget params ''requestId'')) (ch_pending ch)")
  case None
  with assms show ?thesis by (simp add: dispatch_respond_def Let_def)
next
  case (Some x)
  obtain before y after where x: "x = (before, y, after)" by (cases x)
  have p: "ch_pending ch = before @ y # after" using Some x by (auto simp: extract_Some_iff)
  have "deeds_ok (deeds (harness_do (H_Respond (jget params ''requestId'') (jget params ''result'')) (ch\<lparr> ch_pending := before @ after \<rparr>)))"
    using assms p by (auto simp: deeds_def deeds_ok_def harness_do_def h_defs)
  with assms Some x show ?thesis by (simp add: dispatch_respond_def Let_def split: sum.split)
qed

lemma dispatch_deeds: "deeds_ok (deeds ch) \<Longrightarrow> deeds_ok (deeds (snd (dispatch fc he f ch)))"
  by (auto simp: dispatch_def Let_def start_deeds run_deeds respond_deeds split: json.split)

lemma line_deeds:
  assumes "deeds_ok (deeds ch)"
  shows "deeds_ok (deeds (child_line fc he w ch))"
proof (cases "decode fc w (ch_codec ch)")
  case (Pair r c)
  then have "cd_binding c = cd_binding (ch_codec ch)" using decode_counts(3) [of fc w "ch_codec ch"] by simp
  then have same: "deeds (ch\<lparr> ch_codec := c \<rparr>) = deeds ch" by (simp add: deeds_def)
  show ?thesis
  proof (cases r)
    case (Inl e)
    with Pair assms same show ?thesis by (simp add: child_line_def deeds_def)
  next
    case (Inr payload)
    have "deeds_ok (deeds (snd (dispatch fc he payload (ch\<lparr> ch_codec := c \<rparr>))))"
      using assms same by (intro dispatch_deeds) simp
    with Pair Inr assms show ?thesis by (auto simp: child_line_def split: prod.split sum.split)
  qed
qed

lemma run_ends_deeds: "deeds (run_ends fc out ch) = deeds ch"
  by (auto simp: run_ends_def Let_def split: option.split sum.split prod.split dest: emit_deeds_eq)

lemma fault_deeds: "deeds (watch_fault fc ch) = deeds ch"
  by (simp add: watch_fault_def)

lemma approval_deeds:
  assumes "deeds_ok (deeds ch)"
  shows "deeds_ok (deeds (approval_arrives fc out ch))"
proof -
  have new: "deeds_ok (deeds (ch\<lparr> ch_pending := ch_pending ch @ [i], ch_asked := Suc (ch_asked ch) \<rparr>))" for i
    using assms by (auto simp: deeds_def deeds_ok_def)
  show ?thesis
    using assms new by (auto simp: approval_arrives_def fault_deeds split: sum.split prod.split dest!: emit_deeds_eq)
qed

lemma child_step_deeds: "child_step fc ch ch' \<Longrightarrow> deeds_ok (deeds ch) \<Longrightarrow> deeds_ok (deeds ch')"
  by (induction rule: child_step.induct) (auto simp: line_deeds run_ends_deeds approval_deeds)

interpretation child_deeds: step_invariant "child_step fc" "\<lambda>ch. deeds_ok (deeds ch)" for fc
  by unfold_locales (rule child_step_deeds)

section \<open>Properties\<close>

definition example_crypto :: frame_crypto where
  "example_crypto = \<lparr> fc_mac = (\<lambda>k v. ''m''), fc_size = (\<lambda>w. case w of Garbled \<Rightarrow> 1 | Frame f \<Rightarrow>
     (case jget f ''payload'' of JStr s \<Rightarrow> if s = ''big'' then 2000000 else 100 | _ \<Rightarrow> 100)) \<rparr>"

definition example_codec :: codec where
  "example_codec = \<lparr> cd_key = replicate 32 CHR ''k'', cd_binding = JObj [(''sessionId'', JStr ''s'')], cd_sent = 0, cd_received = 0 \<rparr>"

text \<open>What one end of the pipe sends the other end receives: when every payload could be encoded, and
  payloads and binding are values that JSON text can carry, the receiver that expects the sender's next
  number decodes the same lines to the same payloads, in order.\<close>

theorem frames_roundtrip:
  assumes "encode_all fc payloads c = Inr ws"
    and "cd_key d = cd_key c" "cd_binding d = cd_binding c" "cd_received d = cd_sent c"
    and "unique_keys (cd_binding c)" "py_eq (cd_binding c) (cd_binding c)" "list_all unique_keys payloads"
    and "\<And>k v. ascii (fc_mac fc k v)"
  shows "decode_all fc ws d = Inr payloads"
  using assms(1-7)
proof (induction payloads arbitrary: c d ws)
  case Nil
  then show ?case by simp
next
  case (Cons p ps)
  obtain r c' where e: "encode fc p c = (r, c')" by fastforce
  with Cons.prems(1) obtain w ws' where w: "r = Inr w" "encode_all fc ps c' = Inr ws'" "ws = w # ws'"
    by (auto simp: res_bind_Inr_iff split: sum.splits)
  note enc = encode_Inr [OF e [unfolded w(1)]]
  have "decode fc w d = (Inr p, d\<lparr> cd_received := Suc (cd_received d) \<rparr>)"
  proof -
    from enc have small: "fc_size fc w \<le> MAX_FRAME" by blast
    from enc have w: "w = Frame (sealed fc (cd_key d) (cd_binding c) (Suc (cd_received d)) p)" using Cons.prems(2,4) by simp
    show ?thesis unfolding w
      by (rule decode_sealed) (use small w Cons.prems assms(8) in simp_all)
  qed
  moreover have "decode_all fc ws' (d\<lparr> cd_received := Suc (cd_received d) \<rparr>) = Inr ps"
    by (rule Cons.IH [OF w(2)]) (use enc Cons.prems in simp_all)
  ultimately show ?case by (simp add: w)
qed

lemma example_frames: "is_ok (encode_all example_crypto [JStr ''a'', JStr ''b''] example_codec)"
  by code_simp

theorem frames_roundtrip_witness:
  "\<exists>ws. encode_all example_crypto [JStr ''a'', JStr ''b''] example_codec = Inr ws \<and>
     decode_all example_crypto ws example_codec = Inr [JStr ''a'', JStr ''b'']"
proof -
  obtain ws where ws: "encode_all example_crypto [JStr ''a'', JStr ''b''] example_codec = Inr ws"
    using example_frames by (auto simp: is_ok_def split: sum.splits)
  from frames_roundtrip [OF ws, of example_codec] ws show ?thesis
    by (simp add: example_codec_def example_crypto_def ascii_def)
qed

text \<open>C7: The receiver accepts exactly a prefix of what the other end sent.  Whatever lines arrive, when
  only lines of the sender carry a valid MAC, the lines that are decoded without an exception are the first
  lines the sender made, in its order, each once, and the payloads are the ones it was given.\<close>

theorem received_is_prefix:
  assumes "encode_all fc payloads c = Inr sent" and "decode_all fc ws d = Inr ps"
    and "cd_received d = cd_sent c" and "\<forall>w \<in> set ws. authentic fc d w \<longrightarrow> w \<in> set sent"
  shows "ws = take (length ws) sent \<and> ps = take (length ws) payloads \<and> length ws \<le> length sent"
proof -
  note enc = encode_all_nth [OF assms(1)] and dec = decode_all_nth [OF assms(2)]
  have at: "i < length sent \<and> ws ! i = sent ! i \<and> ps ! i = payloads ! i" if i: "i < length ws" for i
  proof -
    from dec i obtain f where auth: "authentic fc d (ws ! i)" and f: "ws ! i = Frame f"
      "jget f ''seq'' = JInt (int (cd_received d + i + 1))" "jget f ''payload'' = ps ! i" by blast
    from auth i assms(4) have "ws ! i \<in> set sent" by auto
    then obtain j where j: "j < length sent" "sent ! j = ws ! i" by (auto simp: in_set_conv_nth)
    with enc f have fj: "f = sealed fc (cd_key c) (cd_binding c) (cd_sent c + j + 1) (payloads ! j)" by auto
    with f(2) assms(3) have "j = i" by simp
    with j fj f(3) show ?thesis by simp
  qed
  have len: "length ws \<le> length sent" using at by (cases "length ws") fastforce+
  moreover have "ws = take (length ws) sent" using at len by (intro nth_equalityI) auto
  moreover have "ps = take (length ws) payloads"
    using at len enc dec by (intro nth_equalityI) auto
  ultimately show ?thesis by blast
qed


text \<open>A frame that is too large uses up its number: the next frame that is sent is refused by a receiver that
  was in step.\<close>

theorem oversize_frame_breaks_channel:
  assumes "encode fc big c = (Inl e, c1)" and "encode fc payload c1 = (Inr w, c2)" and "cd_received d = cd_sent c"
  shows "\<exists>e'. fst (decode fc w d) = Inl e'"
proof (cases "fst (decode fc w d)")
  case (Inr p)
  then obtain d' where "decode fc w d = (Inr p, d')" by (cases "decode fc w d") auto
  from decode_Inr [OF this] obtain f where "w = Frame f" "jget f ''seq'' = JInt (int (Suc (cd_received d)))" by blast
  moreover have "cd_sent c1 = Suc (cd_sent c)" using encode_counts(1) [of fc big c] assms(1) by simp
  moreover have "w = Frame (sealed fc (cd_key c1) (cd_binding c1) (Suc (cd_sent c1)) payload)"
    using encode_Inr [OF assms(2)] by simp
  ultimately have False using assms(3) by auto
  then show ?thesis ..
qed simp

lemma example_oversize:
  "encode example_crypto (JStr ''big'') example_codec = (Inl (ValueError ''SDK_IPC_FRAME_TOO_LARGE''), example_codec\<lparr> cd_sent := 1 \<rparr>)"
  "\<exists>w. encode example_crypto (JStr ''b'') (example_codec\<lparr> cd_sent := 1 \<rparr>) = (Inr w, example_codec\<lparr> cd_sent := 2 \<rparr>)"
  by (simp_all add: encode_def example_crypto_def frame_body_def MAX_FRAME_def example_codec_def Let_def)

theorem oversize_frame_breaks_channel_witness:
  "\<exists>w e. encode example_crypto (JStr ''b'') (example_codec\<lparr> cd_sent := 1 \<rparr>) = (Inr w, example_codec\<lparr> cd_sent := 2 \<rparr>) \<and>
     fst (decode example_crypto w example_codec) = Inl e"
proof -
  obtain w where w: "encode example_crypto (JStr ''b'') (example_codec\<lparr> cd_sent := 1 \<rparr>) = (Inr w, example_codec\<lparr> cd_sent := 2 \<rparr>)"
    using example_oversize(2) by blast
  moreover have "cd_received example_codec = cd_sent example_codec" by (simp add: example_codec_def)
  ultimately show ?thesis using oversize_frame_breaks_channel [OF example_oversize(1) w] by blast
qed

lemma example_decoded:
  "decode_all example_crypto (case encode_all example_crypto [JStr ''a'', JStr ''b''] example_codec of Inr ws \<Rightarrow> ws | Inl _ \<Rightarrow> []) example_codec
     = Inr [JStr ''a'', JStr ''b'']"
  by code_simp

theorem received_is_prefix_witness:
  "\<exists>sent. encode_all example_crypto [JStr ''a'', JStr ''b''] example_codec = Inr sent \<and> length sent \<le> length sent \<and>
     [JStr ''a'', JStr ''b''] = take (length sent) [JStr ''a'', JStr ''b'']"
proof -
  obtain ws where ws: "encode_all example_crypto [JStr ''a'', JStr ''b''] example_codec = Inr ws"
    using example_frames by (auto simp: is_ok_def split: sum.splits)
  then have "decode_all example_crypto ws example_codec = Inr [JStr ''a'', JStr ''b'']" using example_decoded by simp
  moreover have "cd_received example_codec = cd_sent example_codec" by (simp add: example_codec_def)
  ultimately show ?thesis using received_is_prefix [OF ws] ws by blast
qed

definition example_child :: child where
  "example_child = child_line example_crypto \<lparr> he_start = Inr (), he_respond = Inr () \<rparr>
     (case encode example_crypto (call_payload ''a'' ''start'' (JObj [])) example_codec of (Inr w, _) \<Rightarrow> w | _ \<Rightarrow> Garbled)
     (new_child example_codec)"

lemma example_child: "calls_of h_start example_child = 1"
  by code_simp


end
