(* ===== verification/Spec2Isabelle.thy ===== *)
theory Spec2Isabelle
  imports Context_Policy Request_Timing Long_Admission Warm_Prefix Completion Capacity_Control Capacity_Resources Package_Controller
    Native_Transport Openshell_Bootstrap Model_Guard Sdk_Bootstrap Sdk_Control
begin

text \<open>
  Verification library of the DSH deployment: the root theory.

  The repository holds the server side of a managed coding-agent platform.  Its Python part has four
  subsystems, which this development models in this order.

  \<^bold>\<open>Inference path.\<close>  A request to the model passes the gateway hook (\<open>scripts/gateway_output_guard.py\<close>),
  the loopback forwarder (\<open>scripts/context_forwarder.py\<close>), and the admission call-backs
  (\<open>scripts/long_context_callbacks.py\<close>).
  \<^item> \<open>Context_Policy\<close>: token counting and the output budget on both sides (\<open>completion_admission\<close>,
    \<open>pre_call_hook\<close>); an admitted budget fits the context, and both sides agree.
  \<^item> \<open>Long_Admission\<close>: the guard for long requests, with its lease, queue and file lock, as a step
    relation (\<open>guard_step\<close>) over its calls and their suspension points; mutual exclusion, order of
    arrival, hand-over.
  \<^item> \<open>Warm_Prefix\<close>: preparation of a long prompt in bounded steps (\<open>partial_function (option)\<close>), with the
    proof that it returns.
  \<^item> \<open>Request_Timing\<close>: the parser of the event stream, independent of how the network cuts it.
  \<^item> \<open>Completion\<close>: the life cycle of one request; clean-up happens exactly once for every way the awaited
    operations can end.

  \<^bold>\<open>Agent tasks.\<close>  The task broker (\<open>container/dsh-task-broker.py\<close>) runs agent processes for a user.
  \<^item> \<open>Task_Types\<close>: tasks, their journal and event log, native SDK sections.
  \<^item> \<open>Task_Runner\<close>: \<open>Task.run\<close> and \<open>Task.cancel\<close> as interleaved steps; commands, final states, cancellation.
  \<^item> \<open>Task_Broker\<close>: the registry, the journal and its recovery, the HTTP handler.
  \<^item> \<open>Model_Guard\<close>: the loopback guard of one unattended task (\<open>scripts/unattended_model_guard.py\<close>), its ledger
    of model starts and the one forwarding of an accepted request.
  \<^item> \<open>Openshell_Binding\<close>: bindings of remote workers (\<open>scripts/openshell_task_binding.py\<close>), refined to an abstract
    worker life.
  \<^item> \<open>Native_Kubernetes\<close>: the native resources of a worker (\<open>scripts/openshell_kubernetes_*.py\<close>): the namespace-scoped
    API, the identity of the three resources, their observation and their exact retirement, where each is deleted once
    and its absence is observed.
  \<^item> \<open>Native_Worker\<close>: the program inside a worker (\<open>scripts/openshell_worker_execution.py\<close>,
    \<open>openshell_worker_entry.py\<close>); a binding runs once, guarded and fenced.
  \<^item> \<open>Native_Transport\<close>: the RPC boundary and the transport that joins the two with the binding
    (\<open>scripts/openshell_native_rpc.py\<close>, \<open>openshell_broker_transport.py\<close>); it validates with the worker's own check.
  \<^item> \<open>Openshell_Bootstrap\<close>: the admission that switches OpenShell on (\<open>scripts/openshell_bootstrap.py\<close>); it calls the
    recovery of \<open>Openshell_Binding\<close>.

  \<^bold>\<open>Official SDK.\<close>  Tasks of the runtime \<open>sdk\<close> run in an isolated child that the broker controls.
  \<^item> \<open>Sdk_Admission\<close>: the content admission of the package and the child's import hook
    (\<open>scripts/official_sdk_package_admission.py\<close>).
  \<^item> \<open>Sdk_Bootstrap\<close>: composition of the service (\<open>scripts/official_sdk_bootstrap.py\<close>) and the re-check of every
    later admission; it calls the runner of \<open>Sdk_Session\<close>.
  \<^item> \<open>Sdk_Session\<close>: one task from admission to the verified start, and recovery after a restart
    (\<open>scripts/official_sdk_session.py\<close>).
  \<^item> \<open>Sdk_Approval\<close>: the approval bridge of a running session (\<open>scripts/official_sdk_approval.py\<close>) as a step
    relation over receive, decide, cancel, stop and retire; its invariant gives the safety properties.
  \<^item> \<open>Sdk_Control\<close>: the frame codec and both ends of the control channel
    (\<open>scripts/official_sdk_control_peer.py\<close>, \<open>container/dsh-sdk-control.py\<close>).

  \<^bold>\<open>Capacity.\<close>  The capacity controller keeps spare private runtimes ready.
  \<^item> \<open>Iso_Time\<close>: time stamps.
  \<^item> \<open>Capacity_Plan\<close>, \<open>Capacity_Session\<close>: the pure decisions (\<open>scripts/capacity_planner.py\<close>,
    \<open>capacity_report.py\<close>, \<open>capacity_session.py\<close>).
  \<^item> \<open>Capacity_Kube\<close>: the small Kubernetes client; the API server is a parameter.
  \<^item> \<open>Capacity_Resources\<close>: the worker's measurement of the node (\<open>scripts/capacity_worker.py\<close>), composed with the
    planner's decision.
  \<^item> \<open>Capacity_Worker\<close>: the worker's provisioning steps: service files, runtime validation, storage, the credential
    protocol with its trace of calls, and the wait for a qualified pair.
  \<^item> \<open>Capacity_Pair\<close>: the documents of a new pair (\<open>scripts/prepare_signup_pool.py\<close>,
    \<open>scripts/deploy_app_supervision.py\<close>) and \<open>prepare_and_qualify\<close>, which composes them with the worker's steps.
  \<^item> \<open>Capacity_Control\<close>: the reconciliation round (\<open>scripts/capacity_controller.py\<close>) over the inventory files.

  \<^bold>\<open>Packages.\<close>  Users install Python packages through two jobs, one online and one offline.
  \<^item> \<open>Package_Task\<close>: the program of the jobs (\<open>container/package_task.py\<close>); what the offline job installs was
    published and inspected.
  \<^item> \<open>Package_Controller\<close>: the controller of the jobs (\<open>scripts/package_controller.py\<close>): one round over the job
    folders, with the states of a job, the bound on active jobs, revocation and the confinement of the job documents.

  \<^bold>\<open>Conventions\<close> (\<open>Prelude\<close>).  Dictionaries and JSON values are the datatype \<open>json\<close>; dictionaries are association
  lists in insertion order, \<open>py_eq\<close> is Python's equality.  Numbers are \<open>int\<close> and exact rationals.  An exception is
  the left value of a sum (\<open>res\<close>); effects are functions from a world to a result and a world (\<open>io\<close>), where an
  exception keeps the effects done so far.  Threads are steps of \<open>inductive\<close> relations; a block under a lock is one
  step.  Code outside the repository (hash functions, JSON text, the API server, transports, the model) is an
  argument of the definitions that use it.  Interfaces with laws are locales, interpreted on the model's definitions
  where they are provided.

  \<^bold>\<open>Bounds.\<close>  No definition takes fuel except the preparation loop, which is a partial function proved to return.
  The wait of \<open>Native_Worker\<close> runs over the rounds it is given and ends with the first one at the expiry.
  Literal limits of the code (queue sizes, 200 events of a page, 64 KiB prompts, 1 MiB frames) are constants of the
  model.

  \<^bold>\<open>Not modelled.\<close>  The JavaScript gateway, generated manifests, deployment scripts, GPU kernels and benchmarks, the
  attestation of an SDK release and its deployment, whose results are parameters of \<open>Sdk_Bootstrap\<close>, and
  the start-up code of the containers: they are listed with their reasons in the manifest.  Log lines, measured
  seconds and file modes are left out where no decision depends on them.
\<close>

end
